(* ===== verification/OCC_Prelude.thy ===== *)
theory OCC_Prelude imports Main "HOL-Library.Word" begin

text \<open>
  Types and generic facts shared by every component of the development: the fixed-width C
  integers as words, the conversions C performs when an integer expression is stored in a
  narrower variable, the result type of a kernel call, and the named collections that carry
  the component proofs.
\<close>

unbundle bit_operations_syntax

section \<open>C integers\<close>

type_synonym u8 = "8 word"
type_synonym u16 = "16 word"
type_synonym u32 = "32 word"
type_synonym u64 = "64 word"

text \<open>
  C evaluates an integer expression after promotion to \<open>int\<close>. Expressions are written over
  \<open>int\<close> (\<open>uint\<close> reads an unsigned variable, \<open>sint\<close> a signed one) and the store
  into a variable of width w is \<open>word_of_int\<close>, which keeps the low w bits, as the
  two's-complement targets of this firmware do for signed and unsigned types alike.
\<close>

abbreviation store8 :: "int \<Rightarrow> u8" where "store8 \<equiv> word_of_int"
abbreviation store16 :: "int \<Rightarrow> u16" where "store16 \<equiv> word_of_int"
abbreviation store32 :: "int \<Rightarrow> u32" where "store32 \<equiv> word_of_int"

text \<open>Pointers to threads and semaphores are natural numbers, with the null pointer 0.\<close>

type_synonym ptr = nat

text \<open>
  Result of a kernel call in the shipped configuration (\<open>SSX_ERROR_PANIC\<close> is 1 in
  ssx_api.h and overridden nowhere): an API error is \<open>SSX_PANIC(code)\<close>, which never returns
  (\<open>Inl code\<close>); otherwise the call returns a value and a new state (\<open>Inr (rc, s)\<close>).
\<close>

type_synonym panic_code = int
type_synonym ('a, 's) kcall = "panic_code + ('a \<times> 's)"

text \<open>Sequencing of calls that may panic.\<close>

definition kbind :: "'e + 'a \<Rightarrow> ('a \<Rightarrow> 'e + 'b) \<Rightarrow> 'e + 'b" where
  "kbind m f = (case m of Inl e \<Rightarrow> Inl e | Inr x \<Rightarrow> f x)"

lemma kbind_simps [simp]: "kbind (Inl e) f = Inl e" "kbind (Inr x) f = f x"
  by (simp_all add: kbind_def)

lemma kbind_Inr: "kbind m f = Inr y \<longleftrightarrow> (\<exists>x. m = Inr x \<and> f x = Inr y)"
  by (cases m) simp_all

section \<open>Collections of rewrite rules\<close>

named_theorems queue_simps \<open>abstract effect of the thread-queue operations\<close>
named_theorems kernel_defs \<open>definitions of the kernel's internal operations\<close>
named_theorems kernel_frames \<open>fields a kernel operation leaves alone\<close>
named_theorems errl_frames \<open>fields an error-log operation leaves alone\<close>

section \<open>Arithmetic on words\<close>

lemma uint_store16: "uint (store16 x) = x mod 65536"
  by (simp add: uint_word_of_int take_bit_eq_mod)

lemma uint_store32: "uint (store32 x) = x mod 4294967296"
  by (simp add: uint_word_of_int take_bit_eq_mod)

lemma uint_u16_bounds: "0 \<le> uint (x :: u16)" "uint (x :: u16) < 65536"
  using uint_lt2p [of x] by simp_all

lemma uint_u32_bounds: "0 \<le> uint (x :: u32)" "uint (x :: u32) < 4294967296"
  using uint_lt2p [of x] by simp_all

lemma uint_u8_bounds: "0 \<le> uint (x :: u8)" "uint (x :: u8) < 256"
  using uint_lt2p [of x] by simp_all

lemma sint_u16_bounds: "-32768 \<le> sint (x :: u16)" "sint (x :: u16) < 32768"
  using sint_greater_eq [of x] sint_lt [of x] by simp_all

lemma sint_store16: "-32768 \<le> x \<Longrightarrow> x < 32768 \<Longrightarrow> sint (store16 x) = x"
  by (simp add: sint_sbintrunc' signed_take_bit_int_eq_self)

lemma unat_u16_lt: "unat (x :: u16) < 65536"
  using unsigned_less [of x] by simp

lemma unat_u32_lt: "unat (x :: u32) < 4294967296"
  using unsigned_less [of x] by simp

lemma unat_ucast_down: "unat (ucast (x :: u32) :: u16) = unat x mod 65536"
  by (simp add: unsigned_ucast_eq take_bit_eq_mod)

lemma unat_ucast_up: "unat (ucast (x :: u16) :: u32) = unat x"
  using unat_u16_lt [of x] by (simp add: unsigned_ucast_eq take_bit_eq_mod)

end
