(* ===== verification/SSX_Queue.thy ===== *)
theory SSX_Queue imports OCC_Prelude begin

text \<open>
  The SSX thread queue (ssx/ppc405/ppc405.h): a set of thread priorities kept in one 32-bit
  word, priority 0 in the most significant bit, with the minimum found by the count of
  leading zeros. The locale \<open>prio_queue\<close> is the interface the portable kernel relies on
  ("SSX requires the port to define the type SsxThreadQueue"); its interpretation \<open>tq\<close>
  discharges it for the word operations.
\<close>

definition SSX_THREADS :: u8 where "SSX_THREADS = 32"
definition SSX_IDLE_THREAD_PRIORITY :: u8 where "SSX_IDLE_THREAD_PRIORITY = SSX_THREADS"

section \<open>The operations\<close>

text \<open>
  \<open>cntlzw\<close>: the PowerPC instruction, 32 on a zero word. A shift of a 32-bit register by 32
  to 63 yields 0 on this processor, and so does \<open>drop_bit\<close>; \<open>31 - priority\<close> with priority
  32 is such a shift (by 63).
\<close>

definition cntlzw :: "u32 \<Rightarrow> nat" where
  "cntlzw x = length (takeWhile (\<lambda>i. \<not> bit x (31 - i)) [0..<32])"

definition queue_clear :: "u32 \<Rightarrow> u32" where
  "queue_clear q = 0"

definition queue_insert :: "u32 \<Rightarrow> u8 \<Rightarrow> u32" where
  "queue_insert q p = q OR drop_bit (unat p) 0x80000000"

definition queue_delete :: "u32 \<Rightarrow> u8 \<Rightarrow> u32" where
  "queue_delete q p = q AND NOT (drop_bit (unat p) 0x80000000)"

definition queue_min :: "u32 \<Rightarrow> u8" where
  "queue_min q = of_nat (cntlzw q)"

definition queue_member :: "u32 \<Rightarrow> u8 \<Rightarrow> bool" where
  "queue_member q p = (p < 32 \<and> drop_bit (31 - unat p) q AND 1 = 1)"

definition queue_union :: "u32 \<Rightarrow> u32 \<Rightarrow> u32" where
  "queue_union q0 q1 = q0 OR q1"

definition queue_count :: "u32 \<Rightarrow> nat" where
  "queue_count q = length (filter (bit q) [0..<32])"

section \<open>The interface\<close>

locale prio_queue =
  fixes elems :: "'q \<Rightarrow> u8 set"
    and clear :: "'q \<Rightarrow> 'q"
    and ins :: "'q \<Rightarrow> u8 \<Rightarrow> 'q"
    and del :: "'q \<Rightarrow> u8 \<Rightarrow> 'q"
    and minp :: "'q \<Rightarrow> u8"
    and member :: "'q \<Rightarrow> u8 \<Rightarrow> bool"
    and union :: "'q \<Rightarrow> 'q \<Rightarrow> 'q"
  assumes elems_lt: "p \<in> elems q \<Longrightarrow> p < 32"
    and elems_clear: "elems (clear q) = {}"
    and elems_ins: "elems (ins q p) = (if p < 32 then insert p (elems q) else elems q)"
    and elems_del: "elems (del q p) = elems q - {p}"
    and member_iff: "member q p \<longleftrightarrow> p \<in> elems q"
    and elems_union: "elems (union q r) = elems q \<union> elems r"
    and min_empty: "elems q = {} \<Longrightarrow> minp q = 32"
    and min_in: "elems q \<noteq> {} \<Longrightarrow> minp q \<in> elems q"
    and min_le: "p \<in> elems q \<Longrightarrow> minp q \<le> p"
begin

lemma min_lt_iff: "minp q < 32 \<longleftrightarrow> elems q \<noteq> {}"
proof
  show "minp q < 32 \<Longrightarrow> elems q \<noteq> {}" using min_empty [of q] by auto
  show "elems q \<noteq> {} \<Longrightarrow> minp q < 32" by (rule elems_lt [OF min_in])
qed

lemma min_idle_iff: "minp q = 32 \<longleftrightarrow> elems q = {}"
  using min_empty [of q] min_lt_iff [of q] by (cases "elems q = {}") simp_all

lemma min_bound: "minp q \<le> 32"
  using min_empty [of q] min_lt_iff [of q] by (cases "elems q = {}") simp_all

lemma min_eqI:
  assumes "p \<in> elems q" "\<And>r. r \<in> elems q \<Longrightarrow> p \<le> r"
  shows "minp q = p"
proof (rule antisym)
  show "minp q \<le> p" by (rule min_le [OF assms(1)])
  have "elems q \<noteq> {}" using assms(1) by blast
  then show "p \<le> minp q" by (intro assms(2) min_in)
qed

lemma min_ins: "p < 32 \<Longrightarrow> minp (ins q p) = min p (minp q)"
proof -
  assume p: "p < 32"
  show ?thesis
  proof (rule min_eqI)
    show "min p (minp q) \<in> elems (ins q p)"
      using p min_in [of q] min_lt_iff [of q] by (auto simp: elems_ins min_def)
    show "\<And>r. r \<in> elems (ins q p) \<Longrightarrow> min p (minp q) \<le> r"
      using p min_le by (auto simp: elems_ins min_le_iff_disj)
  qed
qed

lemma ins_del: "p < 32 \<Longrightarrow> elems (ins (del q p) p) = insert p (elems q)"
  by (auto simp: elems_ins elems_del)

end

section \<open>The word operations implement it\<close>

definition queue_elems :: "u32 \<Rightarrow> u8 set" where
  "queue_elems q = {p. p < 32 \<and> bit q (31 - unat p)}"

lemma bit_prio_mask: "bit (drop_bit n (0x80000000 :: u32)) i \<longleftrightarrow> i + n = 31"
proof -
  have "(0x80000000 :: u32) = 2 ^ 31" by simp
  then show ?thesis
    by (auto simp only: bit_drop_bit_eq comp_def bit_exp_iff) auto
qed

lemma u8_lt_32: "p < (32 :: u8) \<longleftrightarrow> unat p < 32"
  by (simp add: word_less_nat_alt)

lemma prio_mask_iff:
  "r < (32 :: u8) \<Longrightarrow> bit (drop_bit (unat p) (0x80000000 :: u32)) (31 - unat r) \<longleftrightarrow> p = r"
proof -
  assume "r < 32"
  then have "unat r < 32" by (simp only: u8_lt_32)
  then show ?thesis by (simp only: bit_prio_mask word_unat_eq_iff) arith
qed

lemma in_queue_elems: "p \<in> queue_elems q \<longleftrightarrow> p < 32 \<and> bit q (31 - unat p)"
  by (simp only: queue_elems_def mem_Collect_eq)

lemma in_elems_insert: "r \<in> queue_elems (queue_insert q p) \<longleftrightarrow> r < 32 \<and> (r = p \<or> r \<in> queue_elems q)"
  by (cases "r < 32") (simp_all only: in_queue_elems queue_insert_def bit_or_iff prio_mask_iff, blast+)

lemma in_elems_delete: "r \<in> queue_elems (queue_delete q p) \<longleftrightarrow> r \<noteq> p \<and> r \<in> queue_elems q"
proof (cases "r < 32")
  case True
  then have "31 - unat r < 32" by simp
  then have "bit (NOT (drop_bit (unat p) (0x80000000 :: u32))) (31 - unat r) \<longleftrightarrow> p \<noteq> r"
    using prio_mask_iff [OF True, of p] by (simp only: bit_not_iff) (simp add: len_of_numeral_defs)
  then show ?thesis by (simp only: in_queue_elems queue_delete_def bit_and_iff) blast
qed (simp only: in_queue_elems, blast)

lemma cntlzw_props:
  "cntlzw q \<le> 32"
  "i < cntlzw q \<Longrightarrow> \<not> bit q (31 - i)"
  "cntlzw q < 32 \<Longrightarrow> bit q (31 - cntlzw q)"
proof -
  let ?P = "\<lambda>i. \<not> bit q (31 - i)"
  show le: "cntlzw q \<le> 32"
    unfolding cntlzw_def using length_takeWhile_le [of ?P "[0..<32]"] by simp
  show "i < cntlzw q \<Longrightarrow> \<not> bit q (31 - i)"
  proof -
    assume i: "i < cntlzw q"
    then have "takeWhile ?P [0..<32] ! i \<in> set (takeWhile ?P [0..<32])"
      unfolding cntlzw_def by (rule nth_mem)
    then have "?P (takeWhile ?P [0..<32] ! i)" by (rule set_takeWhileD [THEN conjunct2])
    moreover have "takeWhile ?P [0..<32] ! i = i"
      using i le unfolding cntlzw_def by (simp add: takeWhile_nth)
    ultimately show ?thesis by simp
  qed
  show "cntlzw q < 32 \<Longrightarrow> bit q (31 - cntlzw q)"
  proof -
    assume "cntlzw q < 32"
    then have "length (takeWhile ?P [0..<32]) < length [0..<32]"
      unfolding cntlzw_def by simp
    then have "\<not> ?P ([0..<32] ! length (takeWhile ?P [0..<32]))"
      by (rule nth_length_takeWhile)
    moreover have "[0..<32] ! length (takeWhile ?P [0..<32]) = cntlzw q"
      using \<open>cntlzw q < 32\<close> unfolding cntlzw_def by simp
    ultimately show ?thesis by simp
  qed
qed

lemma unat_queue_min: "unat (queue_min q) = cntlzw q"
  using cntlzw_props(1) [of q] by (simp add: queue_min_def unat_of_nat)

interpretation tq: prio_queue queue_elems queue_clear queue_insert queue_delete
  queue_min queue_member queue_union
proof unfold_locales
  fix q r :: u32 and p :: u8
  show "p \<in> queue_elems q \<Longrightarrow> p < 32" by (simp add: queue_elems_def)
  show "queue_elems (queue_clear q) = {}" by (simp add: queue_elems_def queue_clear_def)
  show "queue_elems (queue_insert q p) = (if p < 32 then insert p (queue_elems q) else queue_elems q)"
  proof (rule set_eqI)
    fix r show "r \<in> queue_elems (queue_insert q p) \<longleftrightarrow>
        r \<in> (if p < 32 then insert p (queue_elems q) else queue_elems q)"
      using in_queue_elems [of r q] by (cases "p < 32"; cases "r = p") (simp_all only: in_elems_insert, simp_all)
  qed
  show "queue_elems (queue_delete q p) = queue_elems q - {p}"
    by (rule set_eqI) (simp only: in_elems_delete, blast)
  show "queue_member q p \<longleftrightarrow> p \<in> queue_elems q"
    by (auto simp: queue_elems_def queue_member_def bit_iff_odd_drop_bit and_one_eq odd_iff_mod_2_eq_one)
  show "queue_elems (queue_union q r) = queue_elems q \<union> queue_elems r"
    by (auto simp: queue_elems_def queue_union_def bit_or_iff)
  show "queue_elems q = {} \<Longrightarrow> queue_min q = 32"
  proof -
    assume e: "queue_elems q = {}"
    have "cntlzw q = 32"
    proof (rule ccontr)
      assume "cntlzw q \<noteq> 32"
      then have lt: "cntlzw q < 32" using cntlzw_props(1) [of q] by simp
      then have "queue_min q \<in> queue_elems q"
        using cntlzw_props(3) [of q] by (simp add: queue_elems_def u8_lt_32 unat_queue_min)
      with e show False by simp
    qed
    then show ?thesis by (simp add: queue_min_def)
  qed
  show "queue_elems q \<noteq> {} \<Longrightarrow> queue_min q \<in> queue_elems q"
  proof -
    assume "queue_elems q \<noteq> {}"
    then obtain p :: u8 where p: "p < 32" "bit q (31 - unat p)" by (auto simp: queue_elems_def)
    then have "\<not> unat p < cntlzw q" using cntlzw_props(2) by blast
    with p have "cntlzw q < 32" by (simp add: u8_lt_32)
    then show ?thesis
      using cntlzw_props(3) [of q] by (simp add: queue_elems_def u8_lt_32 unat_queue_min)
  qed
  show "p \<in> queue_elems q \<Longrightarrow> queue_min q \<le> p"
    using cntlzw_props(2) [of "unat p" q]
    by (auto simp: queue_elems_def word_le_nat_alt unat_queue_min not_less [symmetric])
qed

lemmas [queue_simps] = tq.elems_clear tq.elems_ins tq.elems_del tq.member_iff tq.elems_union

end
