(* ===== verification/SSX_Deque.thy ===== *)
theory SSX_Deque imports OCC_Prelude begin

text \<open>
  The SSX deque (ssx/ssx/ssx_api.h, ssx/ssx/ssx_core.c): an intrusive, circular, doubly linked
  list through a sentinel node. The heap is the pair of pointer fields of every node; the
  operations perform the pointer assignments of the code in their order. \<open>dq_repr h d xs\<close>
  says that the ring through sentinel \<open>d\<close> holds exactly the elements \<open>xs\<close>, in order. The
  locale \<open>fifo\<close> is what the time queue needs of such a structure; \<open>dqi\<close> interprets it.
\<close>

section \<open>Nodes and the heap\<close>

text \<open>
  Addresses of deque nodes: the null pointer, sentinels, application timers, the timer
  embedded in each thread (\<open>&(thread->timer)\<close>), and asynchronous requests, whose first
  field is the node.
\<close>

datatype dq_ptr = Null | Sentinel nat | UserTimer nat | ThreadTimer ptr | Request ptr

record dq_heap =
  dq_next :: "dq_ptr \<Rightarrow> dq_ptr"
  dq_prev :: "dq_ptr \<Rightarrow> dq_ptr"

definition set_next :: "dq_ptr \<Rightarrow> dq_ptr \<Rightarrow> dq_heap \<Rightarrow> dq_heap" where
  "set_next x y h = h\<lparr>dq_next := (dq_next h)(x := y)\<rparr>"

definition set_prev :: "dq_ptr \<Rightarrow> dq_ptr \<Rightarrow> dq_heap \<Rightarrow> dq_heap" where
  "set_prev x y h = h\<lparr>dq_prev := (dq_prev h)(x := y)\<rparr>"

lemma set_next_simps [simp]:
  "dq_next (set_next x y h) z = (if z = x then y else dq_next h z)"
  "dq_prev (set_next x y h) = dq_prev h"
  "dq_prev (set_prev x y h) z = (if z = x then y else dq_prev h z)"
  "dq_next (set_prev x y h) = dq_next h"
  by (simp_all add: set_next_def set_prev_def)

section \<open>The operations\<close>

definition SSX_INVALID_DEQUE_SENTINEL :: int where "SSX_INVALID_DEQUE_SENTINEL = 0x0077903a"
definition SSX_INVALID_DEQUE_ELEMENT :: int where "SSX_INVALID_DEQUE_ELEMENT = 0x0077903b"

definition ssx_deque_sentinel_create :: "dq_ptr \<Rightarrow> dq_heap \<Rightarrow> (int, dq_heap) kcall" where
  "ssx_deque_sentinel_create d h =
     (if d = Null then Inl SSX_INVALID_DEQUE_SENTINEL
      else Inr (0, set_next d d (set_prev d d h)))"

definition ssx_deque_element_create :: "dq_ptr \<Rightarrow> dq_heap \<Rightarrow> (int, dq_heap) kcall" where
  "ssx_deque_element_create e h =
     (if e = Null then Inl SSX_INVALID_DEQUE_ELEMENT
      else Inr (0, set_next e Null h))"

definition ssx_deque_is_empty :: "dq_ptr \<Rightarrow> dq_heap \<Rightarrow> bool" where
  "ssx_deque_is_empty d h = (d = dq_next h d)"

definition ssx_deque_is_queued :: "dq_ptr \<Rightarrow> dq_heap \<Rightarrow> bool" where
  "ssx_deque_is_queued e h = (dq_next h e \<noteq> Null)"

definition ssx_deque_push_back :: "dq_ptr \<Rightarrow> dq_ptr \<Rightarrow> dq_heap \<Rightarrow> dq_heap" where
  "ssx_deque_push_back d e h =
     (let h1 = set_next (dq_prev h d) e h;
          h2 = set_prev e (dq_prev h1 d) h1;
          h3 = set_next e d h2
      in set_prev d e h3)"

definition ssx_deque_push_front :: "dq_ptr \<Rightarrow> dq_ptr \<Rightarrow> dq_heap \<Rightarrow> dq_heap" where
  "ssx_deque_push_front d e h =
     (let h1 = set_prev (dq_next h d) e h;
          h2 = set_next e (dq_next h1 d) h1;
          h3 = set_prev e d h2
      in set_next d e h3)"

definition ssx_deque_pop_front :: "dq_ptr \<Rightarrow> dq_heap \<Rightarrow> dq_ptr \<times> dq_heap" where
  "ssx_deque_pop_front d h =
     (if ssx_deque_is_empty d h then (Null, h)
      else let head = dq_next h d;
               h1 = set_next d (dq_next h head) h;
               h2 = set_prev (dq_next h1 d) d h1
           in (head, set_next head Null h2))"

definition ssx_deque_delete :: "dq_ptr \<Rightarrow> dq_heap \<Rightarrow> dq_heap" where
  "ssx_deque_delete e h =
     (let h1 = set_next (dq_prev h e) (dq_next h e) h;
          h2 = set_prev (dq_next h1 e) (dq_prev h1 e) h1
      in set_next e Null h2)"

section \<open>Representation\<close>

fun links :: "dq_heap \<Rightarrow> dq_ptr list \<Rightarrow> bool" where
  "links h (x # y # zs) = (dq_next h x = y \<and> dq_prev h y = x \<and> links h (y # zs))"
| "links h _ = True"

definition dq_repr :: "dq_heap \<Rightarrow> dq_ptr \<Rightarrow> dq_ptr list \<Rightarrow> bool" where
  "dq_repr h d xs = (distinct (d # xs) \<and> Null \<notin> set (d # xs) \<and> links h (d # xs @ [d]))"

text \<open>The elements found by following \<open>next\<close> from the sentinel, as the timer handler does.\<close>

fun dq_walk :: "nat \<Rightarrow> dq_heap \<Rightarrow> dq_ptr \<Rightarrow> dq_ptr \<Rightarrow> dq_ptr list option" where
  "dq_walk 0 h d x = None"
| "dq_walk (Suc n) h d x =
     (if x = d then Some [] else map_option ((#) x) (dq_walk n h d (dq_next h x)))"

lemma links_append: "links h (xs @ y # ys) \<longleftrightarrow> links h (xs @ [y]) \<and> links h (y # ys)"
proof (induction xs rule: induct_list012)
  case (3 a b xs)
  then show ?case by simp
qed (cases ys, auto)

lemma links_cong:
  "(\<And>x. x \<in> set (butlast zs) \<Longrightarrow> dq_next h' x = dq_next h x) \<Longrightarrow>
   (\<And>y. y \<in> set (tl zs) \<Longrightarrow> dq_prev h' y = dq_prev h y) \<Longrightarrow> links h zs \<Longrightarrow> links h' zs"
proof (induction zs rule: induct_list012)
  case (3 x y zs)
  have "links h' (y # zs)"
    using 3 by (cases zs) auto
  with 3 show ?case by simp
qed auto

lemma links_snoc2: "links h (us @ [x, y]) \<longleftrightarrow> links h (us @ [x]) \<and> dq_next h x = y \<and> dq_prev h y = x"
  using links_append [of h us x "[y]"] by simp

lemma dq_repr_empty: "dq_repr h d [] \<longleftrightarrow> d \<noteq> Null \<and> dq_next h d = d \<and> dq_prev h d = d"
  by (auto simp: dq_repr_def)

lemma dq_repr_next: "dq_repr h d (x # xs) \<Longrightarrow> dq_next h d = x"
  by (simp add: dq_repr_def)

lemma dq_repr_next_elem: "dq_repr h d (us @ x # vs) \<Longrightarrow> dq_next h x = hd (vs @ [d])"
  using links_append [of h "d # us" x "vs @ [d]"] by (cases vs) (auto simp: dq_repr_def)

text \<open>Around the insertion or removal point the ring is \<open>us @ [p]\<close>, then what follows.\<close>

lemma links_push_back:
  assumes L: "links h (us @ [l, d])" and dist: "distinct (us @ [l])" and e: "e \<notin> set (us @ [l])" "e \<noteq> d"
    and d: "d \<notin> set (tl (us @ [l]))" and dn: "dq_prev h d = l"
  shows "links (ssx_deque_push_back d e h) (us @ [l, e, d])"
proof -
  let ?h = "ssx_deque_push_back d e h"
  have el: "e \<noteq> l" using e by simp
  have n: "dq_next ?h x = (if x = e then d else if x = l then e else dq_next h x)"
    and p: "dq_prev ?h x = (if x = d then e else if x = e then l else dq_prev h x)" for x
    using dn el e(2) by (auto simp: ssx_deque_push_back_def Let_def)
  have L1: "links h (us @ [l])" using L links_snoc2 by blast
  have tlin: "y \<in> set (tl (us @ [l])) \<Longrightarrow> y \<in> set (us @ [l])" for y by (cases us) auto
  have "links ?h (us @ [l])"
  proof (rule links_cong [OF _ _ L1])
    show "dq_next ?h x = dq_next h x" if "x \<in> set (butlast (us @ [l]))" for x
      using that dist e(1) by (auto simp: n)
    show "dq_prev ?h y = dq_prev h y" if y: "y \<in> set (tl (us @ [l]))" for y
    proof -
      have "y \<noteq> d" "y \<noteq> e" using y d e(1) tlin [OF y] by metis+
      then show ?thesis by (simp add: p)
    qed
  qed
  then show ?thesis
    using links_append [of ?h us l "[e, d]"] e(2) el by (simp add: n p)
qed

lemma links_delete:
  assumes L: "links h (us @ p # e # n # vs)" and dist: "p \<notin> set us" "n \<notin> set vs"
    and e: "e \<notin> set (us @ [p])" and n: "n \<notin> set (tl (us @ [p]))" and p: "p \<notin> set (butlast (n # vs))"
    and e2: "e \<notin> set (butlast (n # vs))"
  shows "links (ssx_deque_delete e h) (us @ p # n # vs)"
proof -
  let ?h = "ssx_deque_delete e h"
  have L1: "links h (us @ [p])" "links h (n # vs)" "dq_prev h e = p" "dq_next h e = n"
    using L links_append [of h us p "e # n # vs"] by auto
  have nx: "dq_next ?h x = (if x = e then Null else if x = p then n else dq_next h x)"
    and pv: "dq_prev ?h x = (if x = n then p else dq_prev h x)" for x
    using L1 e by (auto simp: ssx_deque_delete_def Let_def)
  have "links ?h (us @ [p])"
    by (rule links_cong [OF _ _ L1(1)]) (use dist e n in \<open>auto simp: nx pv\<close>)
  moreover have "links ?h (n # vs)"
    by (rule links_cong [OF _ _ L1(2)]) (use dist p e2 in \<open>simp_all add: nx pv split: if_splits\<close>, blast+)
  ultimately show ?thesis
    using links_append [of ?h us p "n # vs"] e by (auto simp: nx pv)
qed

lemma dq_repr_push_back:
  assumes r: "dq_repr h d xs" and e: "e \<notin> set (d # xs)" "e \<noteq> Null"
  shows "dq_repr (ssx_deque_push_back d e h) d (xs @ [e])"
proof (cases xs rule: rev_cases)
  case Nil
  with r e links_push_back [of h "[]" d d e] show ?thesis by (auto simp: dq_repr_def)
next
  case (snoc us l)
  have "dq_prev h d = l"
    using r snoc links_snoc2 [of h "d # us" l d] by (simp add: dq_repr_def)
  with r e snoc links_push_back [of h "d # us" l d e] show ?thesis by (auto simp: dq_repr_def)
qed

lemma dq_repr_delete:
  assumes r: "dq_repr h d (xs @ e # ys)"
  shows "dq_repr (ssx_deque_delete e h) d (xs @ ys)"
proof -
  have d: "distinct (d # xs @ e # ys)" "Null \<notin> set (d # xs @ e # ys)"
    and L: "links h (d # xs @ e # ys @ [d])"
    using r by (simp_all add: dq_repr_def)
  obtain n vs where nv: "ys @ [d] = n # vs" by (cases ys) auto
  then have bl: "butlast (n # vs) = ys" by (metis butlast_snoc)
  have nvs: "n \<notin> set vs" "n = d \<or> n \<in> set ys" using d nv by (cases ys; auto)+
  have "links (ssx_deque_delete e h) (d # xs @ n # vs)"
  proof (cases xs rule: rev_cases)
    case Nil
    then show ?thesis
      using links_delete [of h "[]" d e n vs] d L nv bl nvs by auto
  next
    case (snoc us p)
    then show ?thesis
      using links_delete [of h "d # us" p e n vs] d L nv bl nvs by auto
  qed
  with d nv show ?thesis by (auto simp: dq_repr_def)
qed

lemma dq_repr_push_front:
  assumes r: "dq_repr h d xs" and e: "e \<notin> set (d # xs)" "e \<noteq> Null"
  shows "dq_repr (ssx_deque_push_front d e h) d (e # xs)"
proof -
  let ?h = "ssx_deque_push_front d e h"
  obtain n vs where nv: "xs @ [d] = n # vs" by (cases xs) auto
  then have bl: "butlast (n # vs) = xs" by (metis butlast_snoc)
  have d: "distinct (d # xs)" "Null \<notin> set (d # xs)" "links h (n # vs)" "dq_next h d = n"
    using r nv by (auto simp: dq_repr_def)
  have nvs: "n \<notin> set vs" "e \<notin> set vs" "e \<noteq> n" using d e nv by (cases xs; auto)+
  have nx: "dq_next ?h x = (if x = d then e else if x = e then n else dq_next h x)"
    and pv: "dq_prev ?h x = (if x = e then d else if x = n then e else dq_prev h x)" for x
    using d e by (auto simp: ssx_deque_push_front_def Let_def)
  have "links ?h (n # vs)"
    by (rule links_cong [OF _ _ d(3)]) (use bl d e nvs in \<open>auto simp: nx pv split: if_splits\<close>)
  with nvs e d nv show ?thesis by (auto simp: dq_repr_def nx pv)
qed

text \<open>\<open>ssx_deque_pop_front\<close> removes the head exactly as \<open>ssx_deque_delete\<close> would.\<close>

lemma dq_repr_pop_front_eq:
  "dq_repr h d (x # xs) \<Longrightarrow> ssx_deque_pop_front d h = (x, ssx_deque_delete x h)"
  by (auto simp: dq_repr_def ssx_deque_pop_front_def ssx_deque_delete_def ssx_deque_is_empty_def Let_def)

lemma dq_repr_pop_front:
  "dq_repr h d (x # xs) \<Longrightarrow> ssx_deque_pop_front d h = (x, h') \<Longrightarrow> dq_repr h' d xs"
  using dq_repr_delete [of h d "[]" x xs] by (simp add: dq_repr_pop_front_eq)

lemma dq_repr_is_empty: "dq_repr h d xs \<Longrightarrow> ssx_deque_is_empty d h \<longleftrightarrow> xs = []"
  by (cases xs) (auto simp: dq_repr_def ssx_deque_is_empty_def)

lemma dq_repr_is_queued: "dq_repr h d xs \<Longrightarrow> x \<in> set xs \<Longrightarrow> ssx_deque_is_queued x h"
proof -
  assume r: "dq_repr h d xs" and "x \<in> set xs"
  then obtain us vs where "xs = us @ x # vs" by (auto simp: in_set_conv_decomp)
  with r have "dq_next h x = hd (vs @ [d])" by (auto dest: dq_repr_next_elem)
  with r \<open>xs = _\<close> show ?thesis
    by (cases vs) (auto simp: dq_repr_def ssx_deque_is_queued_def)
qed

lemma is_queued_push_back:
  "dq_repr h d xs \<Longrightarrow> y \<notin> set (e # d # xs) \<Longrightarrow>
   ssx_deque_is_queued y (ssx_deque_push_back d e h) = ssx_deque_is_queued y h"
proof -
  assume r: "dq_repr h d xs" and y: "y \<notin> set (e # d # xs)"
  have "dq_prev h d \<in> set (d # xs)"
    using r links_snoc2 [of h "d # butlast xs" "last xs" d]
    by (cases xs rule: rev_cases) (auto simp: dq_repr_def)
  with y show ?thesis
    by (auto simp: ssx_deque_is_queued_def ssx_deque_push_back_def Let_def)
qed

lemma is_queued_delete:
  "dq_repr h d xs \<Longrightarrow> e \<in> set xs \<Longrightarrow> y \<notin> set (d # xs) \<Longrightarrow>
   ssx_deque_is_queued y (ssx_deque_delete e h) = ssx_deque_is_queued y h"
proof -
  assume r: "dq_repr h d xs" and "e \<in> set xs" and y: "y \<notin> set (d # xs)"
  then obtain us vs where xs: "xs = us @ e # vs" by (auto simp: in_set_conv_decomp)
  have "dq_prev h e \<in> set (d # xs)"
  proof (cases us rule: rev_cases)
    case Nil
    then show ?thesis using r xs by (simp add: dq_repr_def)
  next
    case (snoc ws w)
    then show ?thesis
      using r xs links_append [of h "d # ws" w "e # vs @ [d]"] by (simp add: dq_repr_def)
  qed
  with y \<open>e \<in> set xs\<close> show ?thesis
    by (auto simp: ssx_deque_is_queued_def ssx_deque_delete_def Let_def)
qed

lemma not_queued_delete: "\<not> ssx_deque_is_queued e (ssx_deque_delete e h)"
  by (simp add: ssx_deque_is_queued_def ssx_deque_delete_def Let_def)

lemma links_walk:
  "links h (x # zs @ [d]) \<Longrightarrow> d \<notin> set zs \<Longrightarrow>
   dq_walk (Suc (length zs)) h d (dq_next h x) = Some zs"
  by (induction zs arbitrary: x) auto

lemma dq_repr_walk:
  "dq_repr h d xs \<Longrightarrow> dq_walk (Suc (length xs)) h d (dq_next h d) = Some xs"
  unfolding dq_repr_def by (rule links_walk) auto

lemma dq_repr_unique: "dq_repr h d xs \<Longrightarrow> dq_repr h d ys \<Longrightarrow> xs = ys"
proof -
  have *: "links h (x # xs @ [d]) \<Longrightarrow> links h (x # ys @ [d]) \<Longrightarrow> d \<notin> set xs \<Longrightarrow> d \<notin> set ys \<Longrightarrow> xs = ys"
    for x xs ys
  proof (induction xs arbitrary: x ys)
    case Nil
    then show ?case by (cases ys) auto
  next
    case (Cons a xs)
    then show ?case by (cases ys) auto
  qed
  assume "dq_repr h d xs" "dq_repr h d ys"
  then show ?thesis using * [of d xs ys] by (auto simp: dq_repr_def)
qed

section \<open>The interface of the time queue\<close>

text \<open>
  What the timer code relies on: a sequence kept in insertion order, a membership test that
  needs no search, appending at the tail, and removal from any position.
\<close>

locale fifo =
  fixes repr :: "'h \<Rightarrow> 'p list \<Rightarrow> bool"
    and own :: "'p \<Rightarrow> bool"
    and queued :: "'p \<Rightarrow> 'h \<Rightarrow> bool"
    and push :: "'p \<Rightarrow> 'h \<Rightarrow> 'h"
    and del :: "'p \<Rightarrow> 'h \<Rightarrow> 'h"
  assumes repr_distinct: "repr h xs \<Longrightarrow> distinct xs"
    and repr_own: "repr h xs \<Longrightarrow> x \<in> set xs \<Longrightarrow> own x"
    and repr_inj: "repr h xs \<Longrightarrow> repr h ys \<Longrightarrow> xs = ys"
    and queued_iff: "repr h xs \<Longrightarrow> own x \<Longrightarrow> queued x h \<longleftrightarrow> x \<in> set xs"
    and repr_push: "repr h xs \<Longrightarrow> own x \<Longrightarrow> x \<notin> set xs \<Longrightarrow> repr (push x h) (xs @ [x])"
    and repr_del: "repr h (xs @ x # ys) \<Longrightarrow> repr (del x h) (xs @ ys)"
begin

definition enqueue :: "'p \<Rightarrow> 'h \<Rightarrow> 'h" where
  "enqueue x h = (if queued x h then h else push x h)"

definition dequeue :: "'p \<Rightarrow> 'h \<Rightarrow> 'h" where
  "dequeue x h = (if queued x h then del x h else h)"

lemma repr_enqueue:
  "repr h xs \<Longrightarrow> own x \<Longrightarrow> repr (enqueue x h) (if x \<in> set xs then xs else xs @ [x])"
  by (simp add: enqueue_def queued_iff repr_push)

lemma repr_dequeue: "repr h xs \<Longrightarrow> own x \<Longrightarrow> repr (dequeue x h) (removeAll x xs)"
proof (cases "x \<in> set xs")
  case True
  assume r: "repr h xs" and o: "own x"
  from True obtain us vs where xs: "xs = us @ x # vs" by (auto simp: in_set_conv_decomp)
  with repr_distinct [OF r] have "removeAll x xs = us @ vs" by auto
  with r o xs True repr_del [of h us x vs] show ?thesis by (simp add: dequeue_def queued_iff)
qed (simp add: dequeue_def queued_iff)

lemma enqueue_idem: "repr h xs \<Longrightarrow> own x \<Longrightarrow> enqueue x (enqueue x h) = enqueue x h"
  using repr_enqueue [of h xs x] queued_iff [of "enqueue x h" _ x]
  by (auto simp: enqueue_def split: if_splits)

lemma enqueue_dequeue:
  "repr h xs \<Longrightarrow> own x \<Longrightarrow> x \<notin> set xs \<Longrightarrow> repr (dequeue x (enqueue x h)) xs"
  using repr_dequeue [OF repr_enqueue, of h xs x x] by simp

end

text \<open>
  The kernel time queue: the ring through its sentinel, and every other timer marked as not
  queued (\<open>next == 0\<close>).
\<close>

definition is_timer :: "dq_ptr \<Rightarrow> bool" where
  "is_timer x = (case x of UserTimer _ \<Rightarrow> True | ThreadTimer _ \<Rightarrow> True | _ \<Rightarrow> False)"

definition TIME_QUEUE :: dq_ptr where "TIME_QUEUE = Sentinel 0"

definition tq_repr :: "dq_heap \<Rightarrow> dq_ptr list \<Rightarrow> bool" where
  "tq_repr h xs = (dq_repr h TIME_QUEUE xs \<and> (\<forall>x \<in> set xs. is_timer x) \<and>
     (\<forall>x. is_timer x \<longrightarrow> x \<notin> set xs \<longrightarrow> \<not> ssx_deque_is_queued x h))"

lemma is_timer_simps [simp]:
  "is_timer (UserTimer n)" "is_timer (ThreadTimer t)" "\<not> is_timer Null" "\<not> is_timer (Sentinel n)"
  "\<not> is_timer TIME_QUEUE" "TIME_QUEUE \<noteq> Null" "Null \<noteq> TIME_QUEUE" "\<not> is_timer (Request r)"
  by (simp_all add: is_timer_def TIME_QUEUE_def)

interpretation dqi: fifo tq_repr is_timer ssx_deque_is_queued
  "ssx_deque_push_back TIME_QUEUE" ssx_deque_delete
proof unfold_locales
  fix h xs ys and x :: dq_ptr
  show "tq_repr h xs \<Longrightarrow> distinct xs" by (simp add: tq_repr_def dq_repr_def)
  show "tq_repr h xs \<Longrightarrow> x \<in> set xs \<Longrightarrow> is_timer x" by (simp add: tq_repr_def)
  show "tq_repr h xs \<Longrightarrow> tq_repr h ys \<Longrightarrow> xs = ys"
    by (auto simp: tq_repr_def dest: dq_repr_unique)
  show "tq_repr h xs \<Longrightarrow> is_timer x \<Longrightarrow> ssx_deque_is_queued x h \<longleftrightarrow> x \<in> set xs"
    by (auto simp: tq_repr_def dest: dq_repr_is_queued)
  show "tq_repr (ssx_deque_push_back TIME_QUEUE x h) (xs @ [x])"
    if "tq_repr h xs" "is_timer x" "x \<notin> set xs"
  proof -
    from that have "x \<noteq> TIME_QUEUE" "x \<noteq> Null" by auto
    with that show ?thesis
      by (auto simp: tq_repr_def dq_repr_push_back)
        (metis is_queued_push_back is_timer_simps(5) set_ConsD)
  qed
  show "tq_repr (ssx_deque_delete x h) (xs @ ys)" if "tq_repr h (xs @ x # ys)"
  proof -
    have q: "\<not> ssx_deque_is_queued y (ssx_deque_delete x h)" if y: "is_timer y" "y \<notin> set (xs @ ys)" for y
    proof (cases "y = x")
      case False
      with y \<open>tq_repr h (xs @ x # ys)\<close> have "\<not> ssx_deque_is_queued y h" by (simp add: tq_repr_def)
      moreover have "y \<notin> set (TIME_QUEUE # xs @ x # ys)" using False y by auto
      ultimately show ?thesis
        using is_queued_delete [of h TIME_QUEUE "xs @ x # ys" x y] \<open>tq_repr h (xs @ x # ys)\<close>
        by (simp add: tq_repr_def)
    qed (simp add: not_queued_delete)
    with that dq_repr_delete [of h TIME_QUEUE xs x ys] show ?thesis
      by (auto simp: tq_repr_def)
  qed
qed

end
