(* ===== verification/SSX_Kernel.thy ===== *)
theory SSX_Kernel imports SSX_Queue SSX_Deque begin

text \<open>
  The state of the SSX kernel (ssx/ssx/ssx_kernel.h, ssx_api.h) and its internal operations:
  scheduling, mapping and unmapping threads, timers, thread deletion and thread timeouts
  (ssx/ssx/ssx_thread_core.c, ssx_timer_core.c, ssx/ppc405/ppc405_core.c).

  Every operation runs in an SSX_NONCRITICAL critical section and is one atomic step here.
  Kernel tracing is compiled out (\<open>SSX_KERNEL_TRACE_ENABLE\<close> is 0).
\<close>

section \<open>Constants\<close>

definition SSX_OK :: int where "SSX_OK = 0"
definition SSX_ILLEGAL_CONTEXT_CRITICAL_INTERRUPT :: int where "SSX_ILLEGAL_CONTEXT_CRITICAL_INTERRUPT = 0x00779001"
definition SSX_ILLEGAL_CONTEXT_THREAD_CONTEXT :: int where "SSX_ILLEGAL_CONTEXT_THREAD_CONTEXT = 0x00779002"
definition SSX_ILLEGAL_CONTEXT_THREAD :: int where "SSX_ILLEGAL_CONTEXT_THREAD = 0x00779004"
definition SSX_ILLEGAL_CONTEXT_TIMER :: int where "SSX_ILLEGAL_CONTEXT_TIMER = 0x00779005"
definition SSX_INVALID_THREAD_AT_RESUME1 :: int where "SSX_INVALID_THREAD_AT_RESUME1 = 0x00779007"
definition SSX_INVALID_THREAD_AT_RESUME2 :: int where "SSX_INVALID_THREAD_AT_RESUME2 = 0x00779008"
definition SSX_INVALID_THREAD_AT_SUSPEND1 :: int where "SSX_INVALID_THREAD_AT_SUSPEND1 = 0x00779009"
definition SSX_INVALID_THREAD_AT_SUSPEND2 :: int where "SSX_INVALID_THREAD_AT_SUSPEND2 = 0x0077900a"
definition SSX_INVALID_THREAD_AT_DELETE :: int where "SSX_INVALID_THREAD_AT_DELETE = 0x0077900b"
definition SSX_INVALID_THREAD_AT_INFO :: int where "SSX_INVALID_THREAD_AT_INFO = 0x0077900c"
definition SSX_INVALID_THREAD_AT_CHANGE :: int where "SSX_INVALID_THREAD_AT_CHANGE = 0x0077900d"
definition SSX_INVALID_THREAD_AT_SWAP1 :: int where "SSX_INVALID_THREAD_AT_SWAP1 = 0x0077900e"
definition SSX_INVALID_THREAD_AT_SWAP2 :: int where "SSX_INVALID_THREAD_AT_SWAP2 = 0x0077900f"
definition SSX_INVALID_SEMAPHORE_AT_POST :: int where "SSX_INVALID_SEMAPHORE_AT_POST = 0x00779011"
definition SSX_INVALID_SEMAPHORE_AT_PEND :: int where "SSX_INVALID_SEMAPHORE_AT_PEND = 0x00779012"
definition SSX_INVALID_SEMAPHORE_AT_RELEASE :: int where "SSX_INVALID_SEMAPHORE_AT_RELEASE = 0x00779013"
definition SSX_INVALID_SEMAPHORE_AT_INFO :: int where "SSX_INVALID_SEMAPHORE_AT_INFO = 0x00779014"
definition SSX_INVALID_SEMAPHORE_AT_CREATE :: int where "SSX_INVALID_SEMAPHORE_AT_CREATE = 0x00779015"
definition SSX_INVALID_TIMER_AT_SCHEDULE :: int where "SSX_INVALID_TIMER_AT_SCHEDULE = 0x00779016"
definition SSX_INVALID_TIMER_AT_CANCEL :: int where "SSX_INVALID_TIMER_AT_CANCEL = 0x00779017"
definition SSX_INVALID_TIMER_AT_INFO :: int where "SSX_INVALID_TIMER_AT_INFO = 0x00779018"
definition SSX_INVALID_TIMER_AT_CREATE :: int where "SSX_INVALID_TIMER_AT_CREATE = 0x00779019"
definition SSX_INVALID_ARGUMENT_SEMAPHORE :: int where "SSX_INVALID_ARGUMENT_SEMAPHORE = 0x0077902a"
definition SSX_INVALID_ARGUMENT_THREAD_CHANGE :: int where "SSX_INVALID_ARGUMENT_THREAD_CHANGE = 0x0077902b"
definition SSX_INVALID_ARGUMENT_THREAD_PRIORITY :: int where "SSX_INVALID_ARGUMENT_THREAD_PRIORITY = 0x0077902c"
definition SSX_TIMER_NOT_ACTIVE :: int where "SSX_TIMER_NOT_ACTIVE = 0x00779032"
definition SSX_PRIORITY_IN_USE_AT_RESUME :: int where "SSX_PRIORITY_IN_USE_AT_RESUME = 0x00779033"
definition SSX_PRIORITY_IN_USE_AT_CHANGE :: int where "SSX_PRIORITY_IN_USE_AT_CHANGE = 0x00779034"
definition SSX_PRIORITY_IN_USE_AT_SWAP :: int where "SSX_PRIORITY_IN_USE_AT_SWAP = 0x00779035"
definition SSX_SEMAPHORE_OVERFLOW :: int where "SSX_SEMAPHORE_OVERFLOW = 0x00779036"
definition SSX_SEMAPHORE_PEND_NO_WAIT :: int where "SSX_SEMAPHORE_PEND_NO_WAIT = 0x00779037"
definition SSX_SEMAPHORE_PEND_TIMED_OUT :: int where "SSX_SEMAPHORE_PEND_TIMED_OUT = 0x00779038"
definition SSX_SEMAPHORE_PEND_WOULD_BLOCK :: int where "SSX_SEMAPHORE_PEND_WOULD_BLOCK = 0x00779039"
definition SSX_TIMER_HANDLER_INVARIANT :: int where "SSX_TIMER_HANDLER_INVARIANT = 0x00779041"
definition SSX_THREAD_TIMEOUT_STATE :: int where "SSX_THREAD_TIMEOUT_STATE = 0x00779045"

definition SSX_TIMEBASE_MAX :: u64 where "SSX_TIMEBASE_MAX = - 1"
definition SSX_NO_WAIT :: u64 where "SSX_NO_WAIT = 0"
definition SSX_WAIT_FOREVER :: u64 where "SSX_WAIT_FOREVER = - 1"

section \<open>Data\<close>

datatype thread_state =
  SUSPENDED_RUNNABLE | MAPPED | SUSPENDED_BLOCKED | COMPLETED | DELETED

text \<open>The flag byte of a thread: \<open>SSX_THREAD_FLAG_*\<close>.\<close>

definition FLAG_SEMAPHORE_PEND :: u8 where "FLAG_SEMAPHORE_PEND = 1"
definition FLAG_TIMER_PEND :: u8 where "FLAG_TIMER_PEND = 2"
definition FLAG_TIMED_OUT :: u8 where "FLAG_TIMED_OUT = 4"

definition flag_set :: "u8 \<Rightarrow> u8 \<Rightarrow> bool" where
  "flag_set f m = (f AND m \<noteq> 0)"

record ssx_semaphore =
  pending_threads :: u32
  sem_count :: u32
  sem_max_count :: u32

text \<open>
  A timer callback is a function pointer: null, the kernel's own \<open>__ssx_thread_timeout\<close>
  (its argument is the thread), or one of the application's, by number.
\<close>

datatype callback = CB_Null | CB_ThreadTimeout ptr | CB_User nat

definition SSX_TIMER_CALLBACK_PREEMPTIBLE :: u8 where "SSX_TIMER_CALLBACK_PREEMPTIBLE = 1"

record ssx_timer =
  tm_timeout :: u64
  tm_period :: u64
  tm_callback :: callback
  tm_options :: u8

record ssx_thread =
  th_semaphore :: ptr
  th_priority :: u8
  th_state :: thread_state
  th_flags :: u8
  th_stack_base :: u32
  th_stack_limit :: u32

text \<open>
  The kernel's globals, the memory holding threads, semaphores and timers, the time queue
  (\<open>tq_\<close>), the programmable interval timer and the timebase, the three context fields
  of USPRG0 the kernel reads, the words of the stack areas, and the globals set once by
  \<open>ssx_initialize\<close>.
\<close>

record ssx =
  run_queue :: u32
  priority_map :: "u8 \<Rightarrow> ptr"
  current_thread :: ptr
  next_thread :: ptr
  next_priority :: u8
  delayed_switch :: bool
  threads :: "ptr \<Rightarrow> ssx_thread"
  sems :: "ptr \<Rightarrow> ssx_semaphore"
  timers :: "dq_ptr \<Rightarrow> ssx_timer"
  tq_heap :: dq_heap
  tq_next_timeout :: u64
  tq_cursor :: dq_ptr
  pit :: u32
  pit_set :: u64
  timebase :: u64
  ctx_thread_mode :: bool
  ctx_noncritical :: nat
  ctx_critical :: nat
  memory :: "u32 \<Rightarrow> u32"
  timebase_frequency_hz :: u32
  timebase_frequency_khz :: u32
  timebase_frequency_mhz :: u32
  noncritical_stack :: u32
  noncritical_stack_size :: u32
  critical_stack :: u32
  critical_stack_size :: u32

definition upd_thread :: "ptr \<Rightarrow> (ssx_thread \<Rightarrow> ssx_thread) \<Rightarrow> ssx \<Rightarrow> ssx" where
  "upd_thread t f s = s\<lparr>threads := (threads s)(t := f (threads s t))\<rparr>"

definition upd_sem :: "ptr \<Rightarrow> (ssx_semaphore \<Rightarrow> ssx_semaphore) \<Rightarrow> ssx \<Rightarrow> ssx" where
  "upd_sem m f s = s\<lparr>sems := (sems s)(m := f (sems s m))\<rparr>"

definition upd_timer :: "dq_ptr \<Rightarrow> (ssx_timer \<Rightarrow> ssx_timer) \<Rightarrow> ssx \<Rightarrow> ssx" where
  "upd_timer x f s = s\<lparr>timers := (timers s)(x := f (timers s x))\<rparr>"

section \<open>Context tests\<close>

definition kernel_mode_thread :: "ssx \<Rightarrow> bool" where
  "kernel_mode_thread s = ctx_thread_mode s"

definition kernel_context_thread :: "ssx \<Rightarrow> bool" where
  "kernel_context_thread s = (ctx_thread_mode s \<and> ctx_noncritical s = 0 \<and> ctx_critical s = 0)"

definition kernel_context_critical_interrupt :: "ssx \<Rightarrow> bool" where
  "kernel_context_critical_interrupt s = (ctx_critical s \<noteq> 0)"

section \<open>Scheduling\<close>

text \<open>
  \<open>__ssx_next_thread_resume\<close> (ppc405_exceptions.S) installs the next thread, null for the
  idle thread, and loads a context word with the thread-mode flag and every interrupt field
  clear. \<open>__ssx_switch\<close> additionally saves the outgoing thread's registers, which are not
  part of the state.
\<close>

definition ssx_next_thread_resume :: "ssx \<Rightarrow> ssx" where
  "ssx_next_thread_resume s =
     s\<lparr>current_thread := next_thread s, ctx_thread_mode := True, ctx_noncritical := 0, ctx_critical := 0\<rparr>"

definition ssx_switch :: "ssx \<Rightarrow> ssx" where
  "ssx_switch s = ssx_next_thread_resume s"

definition ssx_schedule :: "ssx \<Rightarrow> ssx" where
  "ssx_schedule s =
     (let np = queue_min (run_queue s);
          nt = priority_map s np;
          s1 = s\<lparr>next_priority := np, next_thread := nt\<rparr>
      in if nt = 0 \<or> nt \<noteq> current_thread s1 then
           (if kernel_mode_thread s1 then
              (if kernel_context_thread s1 then
                 (if current_thread s1 \<noteq> 0 then ssx_switch s1 else ssx_next_thread_resume s1)
               else s1\<lparr>delayed_switch := True\<rparr>)
            else s1)
         else s1)"

text \<open>
  The exit path of the outermost non-critical interrupt in thread mode: a delayed switch is
  taken, otherwise the interrupted thread continues.
\<close>

definition ssx_noncritical_exit :: "ssx \<Rightarrow> ssx" where
  "ssx_noncritical_exit s =
     (let s1 = s\<lparr>ctx_noncritical := ctx_noncritical s - 1\<rparr>
      in if ctx_noncritical s \<noteq> 1 \<or> \<not> ctx_thread_mode s then s1
         else if delayed_switch s then ssx_switch (s1\<lparr>delayed_switch := False\<rparr>)
         else s1)"

section \<open>Timers\<close>

definition thread_timer :: "ptr \<Rightarrow> dq_ptr" where
  "thread_timer t = ThreadTimer t"

definition timer_active :: "dq_ptr \<Rightarrow> ssx \<Rightarrow> bool" where
  "timer_active x s = ssx_deque_is_queued x (tq_heap s)"

text \<open>\<open>__ssx_schedule_hardware_timeout\<close>: the interval timer counts down from the distance to the
  timeout, at least 1 and at most \<open>2 ^ 32 - 1\<close> ticks. \<open>pit_set\<close> keeps the time at which it was
  written last, so that the interrupt is due \<open>pit\<close> ticks after that.\<close>

definition ssx_schedule_hardware_timeout :: "u64 \<Rightarrow> ssx \<Rightarrow> ssx" where
  "ssx_schedule_hardware_timeout tmo s =
     (if tmo \<noteq> SSX_TIMEBASE_MAX then
        (let now = timebase s
         in s\<lparr>pit_set := now,
              pit := (if tmo \<le> now then 1
                      else if tmo - now > 0xffffffff then 0xffffffff
                      else ucast (tmo - now))\<rparr>)
      else s)"

definition pit_due :: "ssx \<Rightarrow> nat" where
  "pit_due s = unat (pit_set s) + unat (pit s)"

definition k_timer_cancel :: "dq_ptr \<Rightarrow> ssx \<Rightarrow> int \<times> ssx" where
  "k_timer_cancel x s =
     (if \<not> timer_active x s then (- SSX_TIMER_NOT_ACTIVE, s)
      else let s1 = (if x = tq_cursor s then s\<lparr>tq_cursor := dq_next (tq_heap s) (tq_cursor s)\<rparr> else s)
           in (0, s1\<lparr>tq_heap := ssx_deque_delete x (tq_heap s1)\<rparr>))"

definition k_timer_schedule :: "dq_ptr \<Rightarrow> ssx \<Rightarrow> ssx" where
  "k_timer_schedule x s =
     (let s1 = (if \<not> timer_active x s
                then s\<lparr>tq_heap := ssx_deque_push_back TIME_QUEUE x (tq_heap s)\<rparr> else s)
      in if tm_timeout (timers s1 x) < tq_next_timeout s1 then
           (let s2 = s1\<lparr>tq_next_timeout := tm_timeout (timers s1 x)\<rparr>
            in if tq_cursor s2 = Null then ssx_schedule_hardware_timeout (tq_next_timeout s2) s2 else s2)
         else s1)"

section \<open>Threads\<close>

definition ssx_thread_is_active :: "ptr \<Rightarrow> ssx \<Rightarrow> bool" where
  "ssx_thread_is_active t s =
     (th_state (threads s t) \<noteq> COMPLETED \<and> th_state (threads s t) \<noteq> DELETED)"

definition ssx_thread_is_mapped :: "ptr \<Rightarrow> ssx \<Rightarrow> bool" where
  "ssx_thread_is_mapped t s = (th_state (threads s t) = MAPPED)"

definition ssx_thread_is_runnable :: "ptr \<Rightarrow> ssx \<Rightarrow> bool" where
  "ssx_thread_is_runnable t s = queue_member (run_queue s) (th_priority (threads s t))"

definition k_thread_at_priority :: "u8 \<Rightarrow> ssx \<Rightarrow> ptr" where
  "k_thread_at_priority p s = priority_map s p"

definition ssx_thread_map :: "ptr \<Rightarrow> ssx \<Rightarrow> ssx" where
  "ssx_thread_map t s =
     (let p = th_priority (threads s t);
          s1 = s\<lparr>priority_map := (priority_map s)(p := t)\<rparr>;
          m = th_semaphore (threads s t);
          s2 = (if th_state (threads s1 t) = SUSPENDED_RUNNABLE then
                  s1\<lparr>run_queue := queue_insert (run_queue s1) p\<rparr>
                else if flag_set (th_flags (threads s1 t)) FLAG_SEMAPHORE_PEND then
                  (if sem_count (sems s1 m) \<noteq> 0 then
                     (upd_sem m (\<lambda>x. x\<lparr>sem_count := sem_count x - 1\<rparr>) s1)
                       \<lparr>run_queue := queue_insert (run_queue s1) p\<rparr>
                   else upd_sem m (\<lambda>x. x\<lparr>pending_threads := queue_insert (pending_threads x) p\<rparr>) s1)
                else s1)
      in upd_thread t (\<lambda>x. x\<lparr>th_state := MAPPED\<rparr>) s2)"

definition ssx_thread_unmap :: "ptr \<Rightarrow> ssx \<Rightarrow> ssx" where
  "ssx_thread_unmap t s =
     (let p = th_priority (threads s t);
          s1 = s\<lparr>priority_map := (priority_map s)(p := 0)\<rparr>
      in if ssx_thread_is_runnable t s1 then
           (upd_thread t (\<lambda>x. x\<lparr>th_state := SUSPENDED_RUNNABLE\<rparr>) s1)
             \<lparr>run_queue := queue_delete (run_queue s1) p\<rparr>
         else
           (let s2 = upd_thread t (\<lambda>x. x\<lparr>th_state := SUSPENDED_BLOCKED\<rparr>) s1
            in if flag_set (th_flags (threads s2 t)) FLAG_SEMAPHORE_PEND then
                 upd_sem (th_semaphore (threads s2 t))
                   (\<lambda>x. x\<lparr>pending_threads := queue_delete (pending_threads x) p\<rparr>) s2
               else s2))"

definition k_thread_delete :: "ptr \<Rightarrow> thread_state \<Rightarrow> ssx \<Rightarrow> ssx" where
  "k_thread_delete t final s =
     (let mapped = ssx_thread_is_mapped t s;
          s1 = (if mapped then ssx_thread_unmap t s else s);
          s2 = snd (k_timer_cancel (thread_timer t) s1);
          s3 = upd_thread t (\<lambda>x. x\<lparr>th_state := final\<rparr>) s2
      in if mapped then
           ssx_schedule (if t = current_thread s3 then s3\<lparr>current_thread := 0\<rparr> else s3)
         else s3)"

text \<open>\<open>__ssx_thread_timeout\<close>, the callback of every thread's timer.\<close>

definition ssx_thread_timeout :: "ptr \<Rightarrow> ssx \<Rightarrow> panic_code + ssx" where
  "ssx_thread_timeout t s =
     (case th_state (threads s t) of
        MAPPED \<Rightarrow>
          (if \<not> ssx_thread_is_runnable t s then
             (let s1 = upd_thread t (\<lambda>x. x\<lparr>th_flags := th_flags x OR FLAG_TIMED_OUT\<rparr>) s
              in Inr (ssx_schedule
                   (s1\<lparr>run_queue := queue_insert (run_queue s1) (th_priority (threads s1 t))\<rparr>)))
           else Inr s)
      | SUSPENDED_RUNNABLE \<Rightarrow> Inr s
      | SUSPENDED_BLOCKED \<Rightarrow>
          Inr (upd_thread t (\<lambda>x. x\<lparr>th_flags := th_flags x OR FLAG_TIMED_OUT,
                                     th_state := SUSPENDED_RUNNABLE\<rparr>) s)
      | COMPLETED \<Rightarrow> Inl SSX_THREAD_TIMEOUT_STATE
      | DELETED \<Rightarrow> Inl SSX_THREAD_TIMEOUT_STATE)"

end
