(* ===== verification/SSX_Invariant.thy ===== *)
theory SSX_Invariant imports SSX_Kernel begin

text \<open>
  The kernel invariant \<open>ssx_wf\<close> and its preservation by the internal operations. It says that
  the priority map and the mapped threads are inverse to each other, that only priorities in
  use are queued, that a pending queue holds exactly threads that claim to pend on it, that a
  semaphore with waiters has count 0, and that a mapped thread that is not runnable has a
  reason to be blocked and, when that reason is a semaphore, is in its queue.
\<close>

section \<open>Flags\<close>

lemma flag_set_bit:
  "flag_set f FLAG_SEMAPHORE_PEND \<longleftrightarrow> bit f 0"
  "flag_set f FLAG_TIMER_PEND \<longleftrightarrow> bit f 1"
  "flag_set f FLAG_TIMED_OUT \<longleftrightarrow> bit f 2"
proof -
  have *: "(f AND 2 ^ n \<noteq> 0) \<longleftrightarrow> bit f n" if "n < 8" for n
  proof
    assume "f AND 2 ^ n \<noteq> 0"
    then obtain k where "bit (f AND 2 ^ n) k" by (auto simp: bit_eq_iff)
    then show "bit f n" by (auto simp: bit_and_iff bit_exp_iff)
  next
    assume "bit f n"
    then have "bit (f AND 2 ^ n) n" using that by (simp add: bit_and_iff bit_exp_iff)
    then show "f AND 2 ^ n \<noteq> 0" by auto
  qed
  show "flag_set f FLAG_SEMAPHORE_PEND \<longleftrightarrow> bit f 0"
    using * [of 0] by (simp add: flag_set_def FLAG_SEMAPHORE_PEND_def)
  show "flag_set f FLAG_TIMER_PEND \<longleftrightarrow> bit f 1"
    using * [of 1] by (simp add: flag_set_def FLAG_TIMER_PEND_def)
  show "flag_set f FLAG_TIMED_OUT \<longleftrightarrow> bit f 2"
    using * [of 2] by (simp add: flag_set_def FLAG_TIMED_OUT_def)
qed

lemma bit_flags:
  "bit FLAG_SEMAPHORE_PEND n \<longleftrightarrow> n = 0"
  "bit FLAG_TIMER_PEND n \<longleftrightarrow> n = 1"
  "bit FLAG_TIMED_OUT n \<longleftrightarrow> n = 2"
proof -
  have f: "FLAG_TIMED_OUT = 2 ^ 2" "FLAG_TIMER_PEND = 2 ^ 1" "FLAG_SEMAPHORE_PEND = 2 ^ 0"
    by (simp_all add: FLAG_TIMED_OUT_def FLAG_TIMER_PEND_def FLAG_SEMAPHORE_PEND_def)
  show "bit FLAG_SEMAPHORE_PEND n \<longleftrightarrow> n = 0" unfolding f bit_exp_iff by auto
  show "bit FLAG_TIMER_PEND n \<longleftrightarrow> n = 1" unfolding f bit_exp_iff by auto
  show "bit FLAG_TIMED_OUT n \<longleftrightarrow> n = 2" unfolding f bit_exp_iff by auto
qed

lemma flag_set_ops [simp]:
  "flag_set (f OR FLAG_TIMED_OUT) FLAG_SEMAPHORE_PEND = flag_set f FLAG_SEMAPHORE_PEND"
  "flag_set (f OR FLAG_TIMED_OUT) FLAG_TIMER_PEND = flag_set f FLAG_TIMER_PEND"
  "flag_set (f OR FLAG_TIMED_OUT) FLAG_TIMED_OUT"
  "flag_set (f OR FLAG_TIMER_PEND) FLAG_SEMAPHORE_PEND = flag_set f FLAG_SEMAPHORE_PEND"
  "flag_set (f OR FLAG_TIMER_PEND) FLAG_TIMER_PEND"
  "flag_set (f OR FLAG_TIMER_PEND) FLAG_TIMED_OUT = flag_set f FLAG_TIMED_OUT"
  "flag_set (f OR FLAG_SEMAPHORE_PEND) FLAG_SEMAPHORE_PEND"
  "flag_set (f OR FLAG_SEMAPHORE_PEND) FLAG_TIMER_PEND = flag_set f FLAG_TIMER_PEND"
  "flag_set (f OR FLAG_SEMAPHORE_PEND) FLAG_TIMED_OUT = flag_set f FLAG_TIMED_OUT"
  "\<not> flag_set (f AND NOT FLAG_SEMAPHORE_PEND) FLAG_SEMAPHORE_PEND"
  "flag_set (f AND NOT FLAG_SEMAPHORE_PEND) FLAG_TIMER_PEND = flag_set f FLAG_TIMER_PEND"
  "flag_set (f AND NOT FLAG_SEMAPHORE_PEND) FLAG_TIMED_OUT = flag_set f FLAG_TIMED_OUT"
  "flag_set (f AND NOT (FLAG_TIMER_PEND OR FLAG_TIMED_OUT)) FLAG_SEMAPHORE_PEND = flag_set f FLAG_SEMAPHORE_PEND"
  "\<not> flag_set (f AND NOT (FLAG_TIMER_PEND OR FLAG_TIMED_OUT)) FLAG_TIMER_PEND"
  "\<not> flag_set (f AND NOT (FLAG_TIMER_PEND OR FLAG_TIMED_OUT)) FLAG_TIMED_OUT"
  by (simp_all only: flag_set_bit bit_or_iff bit_and_iff bit_not_iff bit_flags) simp_all

lemma flag_set_0 [simp]: "\<not> flag_set 0 m"
  by (simp add: flag_set_def)

section \<open>The invariant\<close>

definition map_wf :: "ssx \<Rightarrow> bool" where
  "map_wf s \<longleftrightarrow> (\<forall>p. priority_map s p \<noteq> 0 \<longrightarrow>
     p < 32 \<and> th_state (threads s (priority_map s p)) = MAPPED \<and>
     th_priority (threads s (priority_map s p)) = p)"

definition mapped_wf :: "ssx \<Rightarrow> bool" where
  "mapped_wf s \<longleftrightarrow> (\<forall>t. th_state (threads s t) = MAPPED \<longrightarrow>
     t \<noteq> 0 \<and> priority_map s (th_priority (threads s t)) = t)"

definition run_wf :: "ssx \<Rightarrow> bool" where
  "run_wf s \<longleftrightarrow> (\<forall>p \<in> queue_elems (run_queue s). priority_map s p \<noteq> 0)"

definition pend_wf :: "ssx \<Rightarrow> bool" where
  "pend_wf s \<longleftrightarrow> (\<forall>m. \<forall>p \<in> queue_elems (pending_threads (sems s m)).
     priority_map s p \<noteq> 0 \<and>
     flag_set (th_flags (threads s (priority_map s p))) FLAG_SEMAPHORE_PEND \<and>
     th_semaphore (threads s (priority_map s p)) = m)"

definition sem_wf :: "ssx \<Rightarrow> bool" where
  "sem_wf s \<longleftrightarrow> (\<forall>m. queue_elems (pending_threads (sems s m)) \<noteq> {} \<longrightarrow> sem_count (sems s m) = 0)"

definition blocked_wf :: "ssx \<Rightarrow> bool" where
  "blocked_wf s \<longleftrightarrow>
     (\<forall>t. th_state (threads s t) = MAPPED \<longrightarrow> th_priority (threads s t) \<notin> queue_elems (run_queue s) \<longrightarrow>
        (if flag_set (th_flags (threads s t)) FLAG_SEMAPHORE_PEND
         then th_priority (threads s t) \<in>
                queue_elems (pending_threads (sems s (th_semaphore (threads s t))))
         else flag_set (th_flags (threads s t)) FLAG_TIMER_PEND)) \<and>
     (\<forall>t. th_state (threads s t) = SUSPENDED_BLOCKED \<longrightarrow>
        flag_set (th_flags (threads s t)) FLAG_SEMAPHORE_PEND \<or>
        flag_set (th_flags (threads s t)) FLAG_TIMER_PEND)"

definition ssx_wf :: "ssx \<Rightarrow> bool" where
  "ssx_wf s \<longleftrightarrow> map_wf s \<and> mapped_wf s \<and> run_wf s \<and> pend_wf s \<and> sem_wf s \<and> blocked_wf s"

lemmas wf_defs = ssx_wf_def map_wf_def mapped_wf_def run_wf_def pend_wf_def sem_wf_def blocked_wf_def

lemma ssx_wf_cong:
  "run_queue s' = run_queue s \<Longrightarrow> priority_map s' = priority_map s \<Longrightarrow>
   threads s' = threads s \<Longrightarrow> sems s' = sems s \<Longrightarrow> ssx_wf s' = ssx_wf s"
  by (simp add: wf_defs)

text \<open>
  A timed-out thread stays in its semaphore's pending queue until it runs again. Unmapping it
  in that window leaves its priority behind in the queue; the invariant needs this excluded.
\<close>

definition not_stale :: "ptr \<Rightarrow> ssx \<Rightarrow> bool" where
  "not_stale t s \<longleftrightarrow> (ssx_thread_is_mapped t s \<longrightarrow> ssx_thread_is_runnable t s \<longrightarrow>
     (\<forall>m. th_priority (threads s t) \<notin> queue_elems (pending_threads (sems s m))))"

text \<open>What the scheduler promises: the next thread is the highest-priority runnable one.\<close>

definition sched_ok :: "ssx \<Rightarrow> bool" where
  "sched_ok s \<longleftrightarrow> next_priority s = queue_min (run_queue s) \<and>
     next_thread s = priority_map s (queue_min (run_queue s)) \<and>
     (ctx_thread_mode s \<longrightarrow> next_thread s = current_thread s \<or> delayed_switch s)"

section \<open>Fields the internal operations leave alone\<close>

lemma upd_frames [simp]:
  "threads (upd_thread t f s) u = (if u = t then f (threads s t) else threads s u)"
  "run_queue (upd_thread t f s) = run_queue s" "priority_map (upd_thread t f s) = priority_map s"
  "sems (upd_thread t f s) = sems s" "timers (upd_thread t f s) = timers s"
  "tq_heap (upd_thread t f s) = tq_heap s" "current_thread (upd_thread t f s) = current_thread s"
  "tq_cursor (upd_thread t f s) = tq_cursor s" "tq_next_timeout (upd_thread t f s) = tq_next_timeout s"
  "timebase (upd_thread t f s) = timebase s"
  "ctx_thread_mode (upd_thread t f s) = ctx_thread_mode s"
  "ctx_noncritical (upd_thread t f s) = ctx_noncritical s"
  "ctx_critical (upd_thread t f s) = ctx_critical s"
  "sems (upd_sem m g s) n = (if n = m then g (sems s m) else sems s n)"
  "run_queue (upd_sem m g s) = run_queue s" "priority_map (upd_sem m g s) = priority_map s"
  "threads (upd_sem m g s) = threads s" "timers (upd_sem m g s) = timers s"
  "tq_heap (upd_sem m g s) = tq_heap s" "current_thread (upd_sem m g s) = current_thread s"
  "timebase (upd_sem m g s) = timebase s" "tq_cursor (upd_sem m g s) = tq_cursor s"
  "tq_next_timeout (upd_sem m g s) = tq_next_timeout s"
  "ctx_thread_mode (upd_sem m g s) = ctx_thread_mode s"
  "ctx_noncritical (upd_sem m g s) = ctx_noncritical s"
  "ctx_critical (upd_sem m g s) = ctx_critical s"
  "timers (upd_timer x h s) y = (if y = x then h (timers s x) else timers s y)"
  "run_queue (upd_timer x h s) = run_queue s" "priority_map (upd_timer x h s) = priority_map s"
  "threads (upd_timer x h s) = threads s" "sems (upd_timer x h s) = sems s"
  "tq_heap (upd_timer x h s) = tq_heap s" "current_thread (upd_timer x h s) = current_thread s"
  "timebase (upd_timer x h s) = timebase s" "tq_cursor (upd_timer x h s) = tq_cursor s"
  "tq_next_timeout (upd_timer x h s) = tq_next_timeout s"
  "pit (upd_thread t f s) = pit s" "pit (upd_sem m g s) = pit s" "pit (upd_timer x h s) = pit s"
  "pit_set (upd_thread t f s) = pit_set s" "pit_set (upd_sem m g s) = pit_set s" "pit_set (upd_timer x h s) = pit_set s"
  by (simp_all add: upd_thread_def upd_sem_def upd_timer_def)

lemma schedule_frames [simp]:
  "run_queue (ssx_schedule s) = run_queue s" "priority_map (ssx_schedule s) = priority_map s"
  "threads (ssx_schedule s) = threads s" "sems (ssx_schedule s) = sems s"
  "timers (ssx_schedule s) = timers s" "tq_heap (ssx_schedule s) = tq_heap s"
  "tq_cursor (ssx_schedule s) = tq_cursor s" "tq_next_timeout (ssx_schedule s) = tq_next_timeout s"
  "timebase (ssx_schedule s) = timebase s" "pit (ssx_schedule s) = pit s" "pit_set (ssx_schedule s) = pit_set s"
  by (simp_all add: ssx_schedule_def Let_def ssx_switch_def ssx_next_thread_resume_def)

lemma timer_frames [simp]:
  "run_queue (snd (k_timer_cancel x s)) = run_queue s"
  "priority_map (snd (k_timer_cancel x s)) = priority_map s"
  "threads (snd (k_timer_cancel x s)) = threads s" "sems (snd (k_timer_cancel x s)) = sems s"
  "current_thread (snd (k_timer_cancel x s)) = current_thread s"
  "run_queue (k_timer_schedule x s) = run_queue s"
  "priority_map (k_timer_schedule x s) = priority_map s"
  "threads (k_timer_schedule x s) = threads s" "sems (k_timer_schedule x s) = sems s"
  "current_thread (k_timer_schedule x s) = current_thread s"
  by (simp_all add: k_timer_cancel_def k_timer_schedule_def ssx_schedule_hardware_timeout_def Let_def)

lemma ssx_wf_schedule [simp]: "ssx_wf (ssx_schedule s) = ssx_wf s"
  by (rule ssx_wf_cong) simp_all

lemma ssx_wf_current [simp]: "ssx_wf (s\<lparr>current_thread := t\<rparr>) = ssx_wf s"
  by (rule ssx_wf_cong) simp_all

lemma ssx_wf_timer [simp]: "ssx_wf (snd (k_timer_cancel x s)) = ssx_wf s"
  "ssx_wf (k_timer_schedule x s) = ssx_wf s" "ssx_wf (upd_timer x f s) = ssx_wf s"
  by (rule ssx_wf_cong; simp)+

lemma sched_ok_schedule: "sched_ok (ssx_schedule s)"
  by (auto simp: sched_ok_def ssx_schedule_def ssx_switch_def ssx_next_thread_resume_def
      kernel_mode_thread_def Let_def)

lemma schedule_thread_context:
  "kernel_context_thread s \<Longrightarrow>
   current_thread (ssx_schedule s) = priority_map s (queue_min (run_queue s))"
  by (auto simp: ssx_schedule_def ssx_switch_def ssx_next_thread_resume_def
      kernel_mode_thread_def kernel_context_thread_def Let_def)

section \<open>Preservation\<close>

lemma wf_map_inv: "ssx_wf s \<Longrightarrow> priority_map s p \<noteq> 0 \<Longrightarrow> th_priority (threads s (priority_map s p)) = p"
  by (simp add: wf_defs)

lemma wf_mapD:
  "ssx_wf s \<Longrightarrow> priority_map s p \<noteq> 0 \<Longrightarrow> p < 32 \<and>
   th_state (threads s (priority_map s p)) = MAPPED \<and> th_priority (threads s (priority_map s p)) = p"
  unfolding ssx_wf_def map_wf_def by blast

lemma wf_mappedD:
  "ssx_wf s \<Longrightarrow> th_state (threads s t) = MAPPED \<Longrightarrow>
   t \<noteq> 0 \<and> priority_map s (th_priority (threads s t)) = t"
  unfolding ssx_wf_def mapped_wf_def by blast

lemma wf_runD: "ssx_wf s \<Longrightarrow> p \<in> queue_elems (run_queue s) \<Longrightarrow> priority_map s p \<noteq> 0"
  unfolding ssx_wf_def run_wf_def by blast

lemma wf_pendD:
  "ssx_wf s \<Longrightarrow> p \<in> queue_elems (pending_threads (sems s m)) \<Longrightarrow>
   priority_map s p \<noteq> 0 \<and> flag_set (th_flags (threads s (priority_map s p))) FLAG_SEMAPHORE_PEND \<and>
   th_semaphore (threads s (priority_map s p)) = m"
  unfolding ssx_wf_def pend_wf_def by blast

lemma wf_semD:
  "ssx_wf s \<Longrightarrow> queue_elems (pending_threads (sems s m)) \<noteq> {} \<Longrightarrow> sem_count (sems s m) = 0"
  unfolding ssx_wf_def sem_wf_def by blast

lemma wf_blockedD:
  "ssx_wf s \<Longrightarrow> th_state (threads s t) = MAPPED \<Longrightarrow>
   th_priority (threads s t) \<notin> queue_elems (run_queue s) \<Longrightarrow>
   (if flag_set (th_flags (threads s t)) FLAG_SEMAPHORE_PEND
    then th_priority (threads s t) \<in>
           queue_elems (pending_threads (sems s (th_semaphore (threads s t))))
    else flag_set (th_flags (threads s t)) FLAG_TIMER_PEND)"
  unfolding ssx_wf_def blocked_wf_def by blast

lemma wf_suspendedD:
  "ssx_wf s \<Longrightarrow> th_state (threads s t) = SUSPENDED_BLOCKED \<Longrightarrow>
   flag_set (th_flags (threads s t)) FLAG_SEMAPHORE_PEND \<or> flag_set (th_flags (threads s t)) FLAG_TIMER_PEND"
  unfolding ssx_wf_def blocked_wf_def by blast

lemma wf_pend_prio: "ssx_wf s \<Longrightarrow> p \<in> queue_elems (pending_threads (sems s m)) \<Longrightarrow> p < 32"
  by (rule tq.elems_lt)

lemma map_fields:
  "priority_map (ssx_thread_map t s) = (priority_map s)(th_priority (threads s t) := t)"
  "threads (ssx_thread_map t s) = (threads s)(t := (threads s t)\<lparr>th_state := MAPPED\<rparr>)"
  by (auto simp: ssx_thread_map_def Let_def fun_eq_iff)

lemma unmap_fields:
  "priority_map (ssx_thread_unmap t s) = (priority_map s)(th_priority (threads s t) := 0)"
  "threads (ssx_thread_unmap t s) = (threads s)(t := (threads s t)
     \<lparr>th_state := if ssx_thread_is_runnable t s then SUSPENDED_RUNNABLE else SUSPENDED_BLOCKED\<rparr>)"
  "queue_elems (run_queue (ssx_thread_unmap t s)) = queue_elems (run_queue s) - {th_priority (threads s t)}"
  by (auto simp: ssx_thread_unmap_def Let_def fun_eq_iff ssx_thread_is_runnable_def queue_simps)

lemma unmap_sems:
  "sem_count (sems (ssx_thread_unmap t s) m) = sem_count (sems s m)"
  "queue_elems (pending_threads (sems (ssx_thread_unmap t s) m)) =
     (if \<not> ssx_thread_is_runnable t s \<and> flag_set (th_flags (threads s t)) FLAG_SEMAPHORE_PEND
         \<and> m = th_semaphore (threads s t)
      then queue_elems (pending_threads (sems s m)) - {th_priority (threads s t)}
      else queue_elems (pending_threads (sems s m)))"
  by (auto simp: ssx_thread_unmap_def Let_def ssx_thread_is_runnable_def queue_simps)

lemma runnable_iff: "ssx_thread_is_runnable t s \<longleftrightarrow> th_priority (threads s t) \<in> queue_elems (run_queue s)"
  by (simp add: ssx_thread_is_runnable_def queue_simps)

lemma unmap_wf:
  assumes wf: "ssx_wf s" and m: "ssx_thread_is_mapped t s" and ns: "not_stale t s"
  shows "ssx_wf (ssx_thread_unmap t s)"
proof -
  let ?s = "ssx_thread_unmap t s" and ?p = "th_priority (threads s t)"
  have mt: "th_state (threads s t) = MAPPED" using m by (simp add: ssx_thread_is_mapped_def)
  have t: "t \<noteq> 0" "priority_map s ?p = t" using wf_mappedD [OF wf mt] by auto
  have other: "priority_map s q \<noteq> t" if "q \<noteq> ?p" "priority_map s q \<noteq> 0" for q
    using wf_mapD [OF wf that(2)] that(1) by auto
  have prio: "th_priority (threads s u) \<noteq> ?p" if "th_state (threads s u) = MAPPED" "u \<noteq> t" for u
    using wf_mappedD [OF wf that(1)] that(2) t(2) by auto
  have pend: "q \<noteq> ?p" if "q \<in> queue_elems (pending_threads (sems ?s m'))" for q m'
    using that wf_pendD [OF wf, of q m'] ns m t
    by (auto simp: unmap_sems not_stale_def split: if_splits)
  have pin: "q \<in> queue_elems (pending_threads (sems s m'))"
    if "q \<in> queue_elems (pending_threads (sems ?s m'))" for q m'
    using that by (auto simp: unmap_sems split: if_splits)
  have "map_wf ?s"
    unfolding map_wf_def using wf_mapD [OF wf] other by (auto simp: unmap_fields)
  moreover have "mapped_wf ?s"
    unfolding mapped_wf_def using wf_mappedD [OF wf] prio by (auto simp: unmap_fields split: if_splits)
  moreover have "run_wf ?s"
    unfolding run_wf_def using wf_runD [OF wf] by (auto simp: unmap_fields)
  moreover have "pend_wf ?s"
    unfolding pend_wf_def using wf_pendD [OF wf pin] pend other by (auto simp: unmap_fields)
  moreover have "sem_wf ?s"
    unfolding sem_wf_def using wf_semD [OF wf] by (auto simp: unmap_sems split: if_splits)
  moreover have "blocked_wf ?s"
    unfolding blocked_wf_def
  proof (intro conjI allI impI)
    fix u
    assume "th_state (threads ?s u) = MAPPED"
      and nr: "th_priority (threads ?s u) \<notin> queue_elems (run_queue ?s)"
    then have u: "u \<noteq> t" "th_state (threads s u) = MAPPED" by (auto simp: unmap_fields split: if_splits)
    with nr prio [of u] have "th_priority (threads s u) \<notin> queue_elems (run_queue s)"
      by (auto simp: unmap_fields)
    from wf_blockedD [OF wf u(2) this] prio [OF u(2,1)] u(1)
    show "if flag_set (th_flags (threads ?s u)) FLAG_SEMAPHORE_PEND
      then th_priority (threads ?s u) \<in> queue_elems (pending_threads (sems ?s (th_semaphore (threads ?s u))))
      else flag_set (th_flags (threads ?s u)) FLAG_TIMER_PEND"
      by (auto simp: unmap_fields unmap_sems)
  next
    fix u
    assume sb: "th_state (threads ?s u) = SUSPENDED_BLOCKED"
    show "flag_set (th_flags (threads ?s u)) FLAG_SEMAPHORE_PEND \<or> flag_set (th_flags (threads ?s u)) FLAG_TIMER_PEND"
      using sb wf_suspendedD [OF wf, of u] wf_blockedD [OF wf mt]
      by (auto simp: unmap_fields runnable_iff split: if_splits)
  qed
  ultimately show ?thesis by (simp add: ssx_wf_def)
qed

lemma map_run_sems:
  "queue_elems (run_queue (ssx_thread_map t s)) =
     (if th_priority (threads s t) < 32 \<and>
         (th_state (threads s t) = SUSPENDED_RUNNABLE \<or>
          flag_set (th_flags (threads s t)) FLAG_SEMAPHORE_PEND \<and>
          sem_count (sems s (th_semaphore (threads s t))) \<noteq> 0)
      then insert (th_priority (threads s t)) (queue_elems (run_queue s)) else queue_elems (run_queue s))"
  "queue_elems (pending_threads (sems (ssx_thread_map t s) m)) =
     (if th_priority (threads s t) < 32 \<and> th_state (threads s t) \<noteq> SUSPENDED_RUNNABLE \<and>
         flag_set (th_flags (threads s t)) FLAG_SEMAPHORE_PEND \<and> m = th_semaphore (threads s t) \<and>
         sem_count (sems s m) = 0
      then insert (th_priority (threads s t)) (queue_elems (pending_threads (sems s m)))
      else queue_elems (pending_threads (sems s m)))"
  "sem_count (sems (ssx_thread_map t s) m) =
     (if th_state (threads s t) \<noteq> SUSPENDED_RUNNABLE \<and> sem_count (sems s m) \<noteq> 0 \<and>
         flag_set (th_flags (threads s t)) FLAG_SEMAPHORE_PEND \<and> m = th_semaphore (threads s t)
      then sem_count (sems s m) - 1 else sem_count (sems s m))"
  by (auto simp: ssx_thread_map_def Let_def queue_simps)

lemma map_wf_thread:
  assumes wf: "ssx_wf s" and t: "t \<noteq> 0" and p: "th_priority (threads s t) < 32"
    and free: "priority_map s (th_priority (threads s t)) = 0"
    and st: "th_state (threads s t) = SUSPENDED_RUNNABLE \<or> th_state (threads s t) = SUSPENDED_BLOCKED"
  shows "ssx_wf (ssx_thread_map t s)"
proof -
  let ?s = "ssx_thread_map t s" and ?p = "th_priority (threads s t)"
  have nm: "priority_map s q \<noteq> t" for q
    using wf_mapD [OF wf, of q] st t by (cases "priority_map s q = 0") auto
  have prio: "th_priority (threads s u) \<noteq> ?p" if "th_state (threads s u) = MAPPED" for u
    using wf_mappedD [OF wf that] free by auto
  have nrun: "?p \<notin> queue_elems (run_queue s)" using wf_runD [OF wf, of ?p] free by auto
  have npend: "?p \<notin> queue_elems (pending_threads (sems s m))" for m
    using wf_pendD [OF wf, of ?p m] free by auto
  have "map_wf ?s"
    unfolding map_wf_def using wf_mapD [OF wf] nm p by (auto simp: map_fields)
  moreover have "mapped_wf ?s"
    unfolding mapped_wf_def using wf_mappedD [OF wf] prio t by (auto simp: map_fields)
  moreover have "run_wf ?s"
    unfolding run_wf_def using wf_runD [OF wf] t by (auto simp: map_fields map_run_sems split: if_splits)
  moreover have "pend_wf ?s"
    unfolding pend_wf_def using wf_pendD [OF wf] npend nm t
    by (auto simp: map_fields map_run_sems split: if_splits)
  moreover have "sem_wf ?s"
    unfolding sem_wf_def using wf_semD [OF wf] by (auto simp: map_run_sems split: if_splits)
  moreover have "blocked_wf ?s"
    unfolding blocked_wf_def
  proof (intro conjI allI impI)
    fix u
    assume mu: "th_state (threads ?s u) = MAPPED"
      and nr: "th_priority (threads ?s u) \<notin> queue_elems (run_queue ?s)"
    show "if flag_set (th_flags (threads ?s u)) FLAG_SEMAPHORE_PEND
      then th_priority (threads ?s u) \<in> queue_elems (pending_threads (sems ?s (th_semaphore (threads ?s u))))
      else flag_set (th_flags (threads ?s u)) FLAG_TIMER_PEND"
    proof (cases "u = t")
      case True
      then show ?thesis using nr st p wf_suspendedD [OF wf, of t]
        by (auto simp: map_fields map_run_sems split: if_splits)
    next
      case False
      with mu nr have "th_state (threads s u) = MAPPED" "th_priority (threads s u) \<notin> queue_elems (run_queue s)"
        by (auto simp: map_fields map_run_sems split: if_splits)
      from wf_blockedD [OF wf this] False show ?thesis
        by (auto simp: map_fields map_run_sems split: if_splits)
    qed
  next
    fix u
    assume "th_state (threads ?s u) = SUSPENDED_BLOCKED"
    then show "flag_set (th_flags (threads ?s u)) FLAG_SEMAPHORE_PEND \<or> flag_set (th_flags (threads ?s u)) FLAG_TIMER_PEND"
      using wf_suspendedD [OF wf, of u] by (auto simp: map_fields split: if_splits)
  qed
  ultimately show ?thesis by (simp add: ssx_wf_def)
qed

text \<open>Only the state, priority, semaphore and the two pend flags of a thread matter.\<close>

lemma ssx_wf_thread_cong:
  assumes "run_queue s' = run_queue s" "priority_map s' = priority_map s" "sems s' = sems s"
    and "\<And>u. th_state (threads s' u) = th_state (threads s u)"
    and "\<And>u. th_priority (threads s' u) = th_priority (threads s u)"
    and "\<And>u. th_semaphore (threads s' u) = th_semaphore (threads s u)"
    and "\<And>u. flag_set (th_flags (threads s' u)) FLAG_SEMAPHORE_PEND = flag_set (th_flags (threads s u)) FLAG_SEMAPHORE_PEND"
    and "\<And>u. flag_set (th_flags (threads s' u)) FLAG_TIMER_PEND = flag_set (th_flags (threads s u)) FLAG_TIMER_PEND"
  shows "ssx_wf s' = ssx_wf s"
  using assms by (simp add: wf_defs)

lemma wf_unmapped_other: "ssx_wf s \<Longrightarrow> th_state (threads s t) \<noteq> MAPPED \<Longrightarrow> priority_map s p \<noteq> 0 \<Longrightarrow> priority_map s p \<noteq> t"
  using wf_mapD by blast

lemma wf_upd_unmapped:
  assumes wf: "ssx_wf s" and nm: "th_state (threads s t) \<noteq> MAPPED"
    and st: "th_state (f (threads s t)) \<noteq> MAPPED" "th_state (f (threads s t)) \<noteq> SUSPENDED_BLOCKED"
  shows "ssx_wf (upd_thread t f s)"
proof -
  let ?s = "upd_thread t f s"
  have "map_wf ?s" unfolding map_wf_def using wf_mapD [OF wf] wf_unmapped_other [OF wf nm] by simp
  moreover have "mapped_wf ?s" unfolding mapped_wf_def using wf_mappedD [OF wf] st by simp
  moreover have "run_wf ?s" unfolding run_wf_def using wf_runD [OF wf] by simp
  moreover have "pend_wf ?s" unfolding pend_wf_def
    using wf_pendD [OF wf] wf_unmapped_other [OF wf nm] by auto
  moreover have "sem_wf ?s" unfolding sem_wf_def using wf_semD [OF wf] by simp
  moreover have "blocked_wf ?s" unfolding blocked_wf_def
    using wf_blockedD [OF wf] wf_suspendedD [OF wf] st by auto
  ultimately show ?thesis by (simp add: ssx_wf_def)
qed

lemma wf_set_state:
  assumes wf: "ssx_wf s" and nm: "th_state (threads s t) \<noteq> MAPPED"
    and st: "st \<noteq> MAPPED" "st \<noteq> SUSPENDED_BLOCKED"
  shows "ssx_wf (upd_thread t (\<lambda>x. x\<lparr>th_state := st\<rparr>) s)"
  by (rule wf_upd_unmapped [OF wf nm]) (use st in simp_all)

lemma wf_run_insert:
  assumes wf: "ssx_wf s" and p: "priority_map s p \<noteq> 0"
  shows "ssx_wf (s\<lparr>run_queue := queue_insert (run_queue s) p\<rparr>)"
proof -
  let ?s = "s\<lparr>run_queue := queue_insert (run_queue s) p\<rparr>"
  have "map_wf ?s" unfolding map_wf_def using wf_mapD [OF wf] by simp
  moreover have "mapped_wf ?s" unfolding mapped_wf_def using wf_mappedD [OF wf] by simp
  moreover have "run_wf ?s" unfolding run_wf_def using wf_runD [OF wf] p by (auto simp: queue_simps split: if_splits)
  moreover have "pend_wf ?s" unfolding pend_wf_def using wf_pendD [OF wf] by simp
  moreover have "sem_wf ?s" unfolding sem_wf_def using wf_semD [OF wf] by simp
  moreover have "blocked_wf ?s" unfolding blocked_wf_def
    using wf_blockedD [OF wf] wf_suspendedD [OF wf] by (auto simp: queue_simps split: if_splits)
  ultimately show ?thesis by (simp add: ssx_wf_def)
qed

lemma wf_timeout:
  assumes wf: "ssx_wf s" and r: "ssx_thread_timeout t s = Inr s'"
  shows "ssx_wf s'"
proof (cases "th_state (threads s t)")
  case SUSPENDED_RUNNABLE
  with wf r show ?thesis by (simp add: ssx_thread_timeout_def)
next
  case MAPPED
  let ?s = "upd_thread t (\<lambda>x. x\<lparr>th_flags := th_flags x OR FLAG_TIMED_OUT\<rparr>) s"
  have "ssx_wf ?s = ssx_wf s" by (rule ssx_wf_thread_cong) simp_all
  then have "ssx_wf (?s\<lparr>run_queue := queue_insert (run_queue ?s) (th_priority (threads ?s t))\<rparr>)"
    using wf wf_mappedD [OF wf MAPPED] by (intro wf_run_insert) simp_all
  with wf r MAPPED show ?thesis by (auto simp: ssx_thread_timeout_def Let_def split: if_splits)
next
  case SUSPENDED_BLOCKED
  let ?s = "upd_thread t (\<lambda>x. x\<lparr>th_flags := th_flags x OR FLAG_TIMED_OUT\<rparr>) s"
  have "ssx_wf ?s = ssx_wf s" by (rule ssx_wf_thread_cong) simp_all
  then have "ssx_wf (upd_thread t (\<lambda>x. x\<lparr>th_state := SUSPENDED_RUNNABLE\<rparr>) ?s)"
    using wf SUSPENDED_BLOCKED by (intro wf_set_state) simp_all
  moreover have "upd_thread t (\<lambda>x. x\<lparr>th_state := SUSPENDED_RUNNABLE\<rparr>) ?s = s'"
    using r SUSPENDED_BLOCKED by (simp add: ssx_thread_timeout_def upd_thread_def)
  ultimately show ?thesis by simp
qed (use r in \<open>simp_all add: ssx_thread_timeout_def\<close>)

lemma wf_delete:
  assumes wf: "ssx_wf s" and ns: "not_stale t s" and f: "final = COMPLETED \<or> final = DELETED"
  shows "ssx_wf (k_thread_delete t final s)"
proof -
  let ?s1 = "if ssx_thread_is_mapped t s then ssx_thread_unmap t s else s"
  let ?s2 = "snd (k_timer_cancel (thread_timer t) ?s1)"
  have 1: "ssx_wf ?s2" using wf ns unmap_wf by simp
  have "th_state (threads ?s2 t) \<noteq> MAPPED"
    by (auto simp: unmap_fields ssx_thread_is_mapped_def)
  then have "ssx_wf (upd_thread t (\<lambda>x. x\<lparr>th_state := final\<rparr>) ?s2)"
    by (intro wf_set_state 1) (use f in auto)
  then show ?thesis
    by (cases "ssx_thread_is_mapped t s") (simp_all add: k_thread_delete_def Let_def)
qed

end
