(* ===== verification/SSX_Thread.thy ===== *)
theory SSX_Thread imports SSX_Invariant begin

text \<open>
  The thread API (ssx/ssx/ssx_thread_core.c): every guard in the order of the code, each API
  error a panic. A call that blocks its caller (\<open>ssx_sleep_absolute\<close>) is split where the
  context switch happens: the part up to \<open>__ssx_schedule\<close>, and the part the thread executes
  when it is dispatched again.
\<close>

section \<open>The API\<close>

definition ssx_start_threads :: "ssx \<Rightarrow> panic_code + ssx" where
  "ssx_start_threads s =
     (if kernel_mode_thread s then Inl SSX_ILLEGAL_CONTEXT_THREAD
      else Inr (ssx_next_thread_resume s))"

definition ssx_thread_resume :: "ptr \<Rightarrow> ssx \<Rightarrow> (int, ssx) kcall" where
  "ssx_thread_resume t s =
     (if kernel_context_critical_interrupt s then Inl SSX_ILLEGAL_CONTEXT_CRITICAL_INTERRUPT
      else if t = 0 then Inl SSX_INVALID_THREAD_AT_RESUME1
      else if \<not> ssx_thread_is_active t s then Inl SSX_INVALID_THREAD_AT_RESUME2
      else if \<not> ssx_thread_is_mapped t s then
        (if priority_map s (th_priority (threads s t)) \<noteq> 0 then Inl SSX_PRIORITY_IN_USE_AT_RESUME
         else Inr (SSX_OK, ssx_schedule (ssx_thread_map t s)))
      else Inr (SSX_OK, s))"

definition ssx_thread_suspend :: "ptr \<Rightarrow> ssx \<Rightarrow> (int, ssx) kcall" where
  "ssx_thread_suspend t s =
     (if kernel_context_critical_interrupt s then Inl SSX_ILLEGAL_CONTEXT_CRITICAL_INTERRUPT
      else if t = 0 then Inl SSX_INVALID_THREAD_AT_SUSPEND1
      else if \<not> ssx_thread_is_active t s then Inl SSX_INVALID_THREAD_AT_SUSPEND2
      else if ssx_thread_is_mapped t s then Inr (SSX_OK, ssx_schedule (ssx_thread_unmap t s))
      else Inr (SSX_OK, s))"

definition ssx_thread_delete :: "ptr \<Rightarrow> ssx \<Rightarrow> (int, ssx) kcall" where
  "ssx_thread_delete t s =
     (if kernel_context_critical_interrupt s then Inl SSX_ILLEGAL_CONTEXT_CRITICAL_INTERRUPT
      else if t = 0 then Inl SSX_INVALID_THREAD_AT_DELETE
      else Inr (SSX_OK, k_thread_delete t DELETED s))"

definition ssx_complete :: "ssx \<Rightarrow> (int, ssx) kcall" where
  "ssx_complete s =
     (if \<not> kernel_context_thread s then Inl SSX_ILLEGAL_CONTEXT_THREAD_CONTEXT
      else Inr (SSX_OK, k_thread_delete (current_thread s) COMPLETED s))"

text \<open>\<open>ssx_sleep_absolute\<close> up to the context switch, and after it.\<close>

definition ssx_sleep_absolute :: "u64 \<Rightarrow> ssx \<Rightarrow> panic_code + ssx" where
  "ssx_sleep_absolute time s =
     (if \<not> kernel_context_thread s then Inl SSX_ILLEGAL_CONTEXT_THREAD_CONTEXT
      else let cur = current_thread s;
               s1 = upd_timer (thread_timer cur) (\<lambda>x. x\<lparr>tm_timeout := time\<rparr>) s;
               s2 = k_timer_schedule (thread_timer cur) s1;
               s3 = upd_thread cur (\<lambda>x. x\<lparr>th_flags := th_flags x OR FLAG_TIMER_PEND\<rparr>) s2;
               s4 = s3\<lparr>run_queue := queue_delete (run_queue s3) (th_priority (threads s3 cur))\<rparr>
           in Inr (ssx_schedule s4))"

definition ssx_sleep_resumed :: "ptr \<Rightarrow> ssx \<Rightarrow> int \<times> ssx" where
  "ssx_sleep_resumed cur s =
     (SSX_OK, upd_thread cur
        (\<lambda>x. x\<lparr>th_flags := th_flags x AND NOT (FLAG_TIMER_PEND OR FLAG_TIMED_OUT)\<rparr>) s)"

definition ssx_sleep :: "u64 \<Rightarrow> ssx \<Rightarrow> panic_code + ssx" where
  "ssx_sleep interval s = ssx_sleep_absolute (timebase s + interval) s"

text \<open>The information calls return the values stored through the non-null pointers.\<close>

definition ssx_thread_info_get :: "ptr \<Rightarrow> ssx \<Rightarrow> panic_code + (thread_state \<times> u8 \<times> bool)" where
  "ssx_thread_info_get t s =
     (if t = 0 then Inl SSX_INVALID_THREAD_AT_INFO
      else Inr (th_state (threads s t), th_priority (threads s t),
                th_state (threads s t) = MAPPED \<and> queue_member (run_queue s) (th_priority (threads s t))))"

definition ssx_thread_priority_change :: "ptr \<Rightarrow> u8 \<Rightarrow> ssx \<Rightarrow> (int \<times> u8, ssx) kcall" where
  "ssx_thread_priority_change t new_priority s =
     (if kernel_context_critical_interrupt s then Inl SSX_ILLEGAL_CONTEXT_CRITICAL_INTERRUPT
      else if t = 0 then Inl SSX_INVALID_THREAD_AT_CHANGE
      else if new_priority > SSX_THREADS then Inl SSX_INVALID_ARGUMENT_THREAD_CHANGE
      else let priority = th_priority (threads s t);
               set_prio = upd_thread t (\<lambda>x. x\<lparr>th_priority := new_priority\<rparr>)
           in if priority \<noteq> new_priority then
                (if \<not> ssx_thread_is_mapped t s then Inr ((SSX_OK, priority), set_prio s)
                 else if priority_map s new_priority \<noteq> 0 then Inl SSX_PRIORITY_IN_USE_AT_CHANGE
                 else Inr ((SSX_OK, priority),
                           ssx_schedule (ssx_thread_map t (set_prio (ssx_thread_unmap t s)))))
              else Inr ((SSX_OK, priority), s))"

definition ssx_thread_at_priority :: "u8 \<Rightarrow> bool \<Rightarrow> ssx \<Rightarrow> panic_code + ptr" where
  "ssx_thread_at_priority p out_is_null s =
     (if p > SSX_THREADS \<or> out_is_null then Inl SSX_INVALID_ARGUMENT_THREAD_PRIORITY
      else Inr (k_thread_at_priority p s))"

definition ssx_thread_priority_swap :: "ptr \<Rightarrow> ptr \<Rightarrow> ssx \<Rightarrow> (int, ssx) kcall" where
  "ssx_thread_priority_swap a b s =
     (if kernel_context_critical_interrupt s then Inl SSX_ILLEGAL_CONTEXT_CRITICAL_INTERRUPT
      else if a = 0 \<or> b = 0 then Inl SSX_INVALID_THREAD_AT_SWAP1
      else if a \<noteq> b then
        (let mapped_a = ssx_thread_is_mapped a s;
             mapped_b = ssx_thread_is_mapped b s;
             pa = th_priority (threads s a);
             pb = th_priority (threads s b);
             priority_in_use =
               (mapped_a \<and> \<not> mapped_b \<and> k_thread_at_priority pb s \<noteq> 0) \<or>
               (\<not> mapped_a \<and> mapped_b \<and> k_thread_at_priority pa s \<noteq> 0)
         in if pa > SSX_THREADS \<or> pb > SSX_THREADS then Inl SSX_INVALID_THREAD_AT_SWAP2
            else if priority_in_use then Inl SSX_PRIORITY_IN_USE_AT_SWAP
            else let s1 = (if mapped_a then ssx_thread_unmap a s else s);
                     s2 = (if mapped_b then ssx_thread_unmap b s1 else s1);
                     s3 = upd_thread a (\<lambda>x. x\<lparr>th_priority := pb\<rparr>) s2;
                     s4 = upd_thread b (\<lambda>x. x\<lparr>th_priority := pa\<rparr>) s3;
                     s5 = (if mapped_a then ssx_thread_map a s4 else s4);
                     s6 = (if mapped_b then ssx_thread_map b s5 else s5)
                 in Inr (SSX_OK, ssx_schedule s6))
      else Inr (SSX_OK, s))"

section \<open>Preservation of the kernel invariant\<close>

text \<open>Changing the priority of an unmapped thread is invisible to the invariant.\<close>

lemma wf_set_prio:
  assumes wf: "ssx_wf s" and nm: "th_state (threads s t) \<noteq> MAPPED"
  shows "ssx_wf (upd_thread t (\<lambda>x. x\<lparr>th_priority := p\<rparr>) s)"
proof -
  let ?s = "upd_thread t (\<lambda>x. x\<lparr>th_priority := p\<rparr>) s"
  have "map_wf ?s" unfolding map_wf_def using wf_mapD [OF wf] wf_unmapped_other [OF wf nm] by simp
  moreover have "mapped_wf ?s" unfolding mapped_wf_def using wf_mappedD [OF wf] nm by simp
  moreover have "run_wf ?s" unfolding run_wf_def using wf_runD [OF wf] by simp
  moreover have "pend_wf ?s" unfolding pend_wf_def by (auto dest: wf_pendD [OF wf])
  moreover have "sem_wf ?s" unfolding sem_wf_def using wf_semD [OF wf] by simp
  moreover have "blocked_wf ?s" unfolding blocked_wf_def
    using wf_blockedD [OF wf] wf_suspendedD [OF wf] nm by auto
  ultimately show ?thesis by (simp add: ssx_wf_def)
qed

lemma unmap_state:
  "th_state (threads (ssx_thread_unmap t s) t) = SUSPENDED_RUNNABLE \<or>
   th_state (threads (ssx_thread_unmap t s) t) = SUSPENDED_BLOCKED"
  by (simp add: unmap_fields)

lemma resume_wf:
  assumes "ssx_wf s" "th_priority (threads s t) < 32" "ssx_thread_resume t s = Inr (rc, s')"
  shows "ssx_wf s'"
proof (cases "ssx_thread_is_mapped t s")
  case False
  with assms(3) have "s' = ssx_schedule (ssx_thread_map t s)" "t \<noteq> 0"
    "priority_map s (th_priority (threads s t)) = 0" and act: "ssx_thread_is_active t s"
    by (auto simp: ssx_thread_resume_def split: if_splits)
  moreover have "th_state (threads s t) = SUSPENDED_RUNNABLE \<or> th_state (threads s t) = SUSPENDED_BLOCKED"
    using act False by (cases "th_state (threads s t)") (auto simp: ssx_thread_is_active_def ssx_thread_is_mapped_def)
  ultimately show ?thesis using assms(1,2) by (simp add: map_wf_thread)
qed (use assms in \<open>auto simp: ssx_thread_resume_def split: if_splits\<close>)

lemma suspend_wf:
  "ssx_wf s \<Longrightarrow> not_stale t s \<Longrightarrow> ssx_thread_suspend t s = Inr (rc, s') \<Longrightarrow> ssx_wf s'"
  by (auto simp: ssx_thread_suspend_def unmap_wf split: if_splits)

lemma delete_wf:
  "ssx_wf s \<Longrightarrow> not_stale t s \<Longrightarrow> ssx_thread_delete t s = Inr (rc, s') \<Longrightarrow> ssx_wf s'"
  by (auto simp: ssx_thread_delete_def wf_delete split: if_splits)

lemma complete_wf:
  "ssx_wf s \<Longrightarrow> not_stale (current_thread s) s \<Longrightarrow> ssx_complete s = Inr (rc, s') \<Longrightarrow> ssx_wf s'"
  by (auto simp: ssx_complete_def wf_delete split: if_splits)

lemma change_wf:
  assumes wf: "ssx_wf s" and ns: "not_stale t s" and p: "p < 32"
    and r: "ssx_thread_priority_change t p s = Inr (rc, s')"
  shows "ssx_wf s'"
proof (cases "ssx_thread_is_mapped t s \<and> th_priority (threads s t) \<noteq> p")
  case True
  let ?s1 = "ssx_thread_unmap t s"
  let ?s2 = "upd_thread t (\<lambda>x. x\<lparr>th_priority := p\<rparr>) ?s1"
  have s': "s' = ssx_schedule (ssx_thread_map t ?s2)" and f: "priority_map s p = 0" and t: "t \<noteq> 0"
    using r True by (auto simp: ssx_thread_priority_change_def Let_def split: if_splits)
  have st: "th_state (threads ?s1 t) \<noteq> MAPPED" using unmap_state [of t s] by auto
  have "ssx_wf ?s2" by (rule wf_set_prio [OF unmap_wf [OF wf _ ns] st]) (use True in simp)
  then have "ssx_wf (ssx_thread_map t ?s2)"
    by (rule map_wf_thread) (use t p f unmap_state [of t s] in \<open>simp_all add: unmap_fields\<close>)
  with s' show ?thesis by simp
next
  case False
  then show ?thesis using r wf wf_set_prio [OF wf, of t p]
    by (auto simp: ssx_thread_priority_change_def Let_def ssx_thread_is_mapped_def split: if_splits)
qed

end
