(* ===== verification/SSX_Semaphore.thy ===== *)
theory SSX_Semaphore imports SSX_Thread begin

text \<open>
  Counting semaphores (ssx/ssx/ssx_semaphore_core.c, ssx_semaphore_init.c). A semaphore is a
  count and a priority queue of pending threads. As with the sleep call,
  \<open>ssx_semaphore_pend\<close> is split at the context switch: the part up to \<open>__ssx_schedule\<close>,
  and what the thread does when it runs again. The lemmas show what each call does on every
  branch and that the kernel invariant survives it.
\<close>

section \<open>The API\<close>

definition ssx_semaphore_create :: "ptr \<Rightarrow> u32 \<Rightarrow> u32 \<Rightarrow> ssx \<Rightarrow> (int, ssx) kcall" where
  "ssx_semaphore_create m initial_count max_count s =
     (if m = 0 then Inl SSX_INVALID_SEMAPHORE_AT_CREATE
      else if max_count \<noteq> 0 \<and> initial_count > max_count then Inl SSX_INVALID_ARGUMENT_SEMAPHORE
      else Inr (SSX_OK, upd_sem m (\<lambda>x. x\<lparr>pending_threads := queue_clear (pending_threads x),
                  sem_count := initial_count, sem_max_count := max_count\<rparr>) s))"

definition ssx_semaphore_post :: "ptr \<Rightarrow> ssx \<Rightarrow> (int, ssx) kcall" where
  "ssx_semaphore_post m s =
     (if kernel_context_critical_interrupt s then Inl SSX_ILLEGAL_CONTEXT_CRITICAL_INTERRUPT
      else if m = 0 then Inl SSX_INVALID_SEMAPHORE_AT_POST
      else let priority = queue_min (pending_threads (sems s m))
           in if priority \<noteq> SSX_IDLE_THREAD_PRIORITY then
                (let s1 = upd_sem m (\<lambda>x. x\<lparr>pending_threads := queue_delete (pending_threads x) priority\<rparr>) s;
                     s2 = s1\<lparr>run_queue := queue_insert (run_queue s1) priority\<rparr>
                 in Inr (SSX_OK, ssx_schedule s2))
              else
                (let s1 = upd_sem m (\<lambda>x. x\<lparr>sem_count := sem_count x + 1\<rparr>) s
                 in if sem_max_count (sems s1 m) > 0 \<and> sem_count (sems s1 m) > sem_max_count (sems s1 m)
                    then Inl SSX_SEMAPHORE_OVERFLOW
                    else Inr (SSX_OK, s1)))"

text \<open>
  The result is \<open>Some rc\<close> when the call returns at once and \<open>None\<close> when the caller has
  blocked; it then continues with \<open>ssx_semaphore_pend_resumed\<close> when it is dispatched again.
  The local variable \<open>timer\<close> is null unless a timeout was requested.
\<close>

definition pend_timer :: "ptr \<Rightarrow> u64 \<Rightarrow> dq_ptr" where
  "pend_timer thread timeout = (if timeout \<noteq> SSX_WAIT_FOREVER then thread_timer thread else Null)"

definition ssx_semaphore_pend :: "ptr \<Rightarrow> u64 \<Rightarrow> ssx \<Rightarrow> (int option, ssx) kcall" where
  "ssx_semaphore_pend m timeout s =
     (if kernel_context_critical_interrupt s then Inl SSX_ILLEGAL_CONTEXT_CRITICAL_INTERRUPT
      else if m = 0 then Inl SSX_INVALID_SEMAPHORE_AT_PEND
      else if sem_count (sems s m) \<noteq> 0 then
        Inr (Some SSX_OK, upd_sem m (\<lambda>x. x\<lparr>sem_count := sem_count x - 1\<rparr>) s)
      else if timeout = SSX_NO_WAIT then Inr (Some (- SSX_SEMAPHORE_PEND_NO_WAIT), s)
      else if \<not> kernel_context_thread s then Inl SSX_SEMAPHORE_PEND_WOULD_BLOCK
      else let thread = current_thread s;
               priority = th_priority (threads s thread);
               s1 = upd_sem m (\<lambda>x. x\<lparr>pending_threads := queue_insert (pending_threads x) priority\<rparr>) s;
               s2 = upd_thread thread (\<lambda>x. x\<lparr>th_semaphore := m,
                      th_flags := th_flags x OR FLAG_SEMAPHORE_PEND\<rparr>) s1;
               s3 = (if timeout \<noteq> SSX_WAIT_FOREVER then
                       (let timer = thread_timer thread;
                            s4 = upd_timer timer (\<lambda>x. x\<lparr>tm_timeout := timebase s2 + timeout\<rparr>) s2;
                            s5 = k_timer_schedule timer s4
                        in upd_thread thread (\<lambda>x. x\<lparr>th_flags := th_flags x OR FLAG_TIMER_PEND\<rparr>) s5)
                     else s2);
               s6 = s3\<lparr>run_queue := queue_delete (run_queue s3) priority\<rparr>
           in Inr (None, ssx_schedule s6))"

definition ssx_semaphore_pend_resumed :: "ptr \<Rightarrow> ptr \<Rightarrow> dq_ptr \<Rightarrow> ssx \<Rightarrow> int \<times> ssx" where
  "ssx_semaphore_pend_resumed m thread timer s =
     (let s1 = upd_thread thread (\<lambda>x. x\<lparr>th_flags := th_flags x AND NOT FLAG_SEMAPHORE_PEND\<rparr>) s
      in if flag_set (th_flags (threads s1 thread)) FLAG_TIMER_PEND then
           (let (rc, s2) =
                  (if flag_set (th_flags (threads s1 thread)) FLAG_TIMED_OUT then
                     (- SSX_SEMAPHORE_PEND_TIMED_OUT,
                      upd_sem m (\<lambda>x. x\<lparr>pending_threads :=
                        queue_delete (pending_threads x) (th_priority (threads s1 thread))\<rparr>) s1)
                   else (SSX_OK, snd (k_timer_cancel timer s1)))
            in (rc, upd_thread thread
                  (\<lambda>x. x\<lparr>th_flags := th_flags x AND NOT (FLAG_TIMER_PEND OR FLAG_TIMED_OUT)\<rparr>) s2))
         else (SSX_OK, s1))"

definition ssx_semaphore_release_all :: "ptr \<Rightarrow> ssx \<Rightarrow> (int, ssx) kcall" where
  "ssx_semaphore_release_all m s =
     (if kernel_context_critical_interrupt s then Inl SSX_ILLEGAL_CONTEXT_CRITICAL_INTERRUPT
      else if m = 0 then Inl SSX_INVALID_SEMAPHORE_AT_RELEASE
      else let s1 = s\<lparr>run_queue := queue_union (run_queue s) (pending_threads (sems s m))\<rparr>;
               s2 = upd_sem m (\<lambda>x. x\<lparr>pending_threads := queue_clear (pending_threads x)\<rparr>) s1
           in Inr (SSX_OK, ssx_schedule s2))"

definition ssx_semaphore_info_get :: "ptr \<Rightarrow> ssx \<Rightarrow> panic_code + (u32 \<times> nat)" where
  "ssx_semaphore_info_get m s =
     (if m = 0 then Inl SSX_INVALID_SEMAPHORE_AT_INFO
      else Inr (sem_count (sems s m), queue_count (pending_threads (sems s m))))"

section \<open>Preservation of the kernel invariant\<close>

text \<open>
  A step that makes some waiters of one semaphore runnable and takes them off its queue; the
  count may grow only when nobody waits.
\<close>

lemma wf_wake:
  assumes wf: "ssx_wf s"
    and th: "threads s' = threads s" "priority_map s' = priority_map s"
    and other: "\<And>n. n \<noteq> m \<Longrightarrow> sems s' n = sems s n"
    and W: "W \<subseteq> queue_elems (pending_threads (sems s m))"
    and pend: "queue_elems (pending_threads (sems s' m)) = queue_elems (pending_threads (sems s m)) - W"
    and run: "queue_elems (run_queue s') = queue_elems (run_queue s) \<union> W"
    and cnt: "queue_elems (pending_threads (sems s' m)) \<noteq> {} \<Longrightarrow> sem_count (sems s' m) = 0"
  shows "ssx_wf s'"
proof -
  have pin: "q \<in> queue_elems (pending_threads (sems s n))"
    if "q \<in> queue_elems (pending_threads (sems s' n))" for q n
    using that other [of n] pend by (cases "n = m") auto
  have "map_wf s'" unfolding map_wf_def th using wf_mapD [OF wf] by simp
  moreover have "mapped_wf s'" unfolding mapped_wf_def th using wf_mappedD [OF wf] by simp
  moreover have "run_wf s'" unfolding run_wf_def th run using wf_runD [OF wf] wf_pendD [OF wf, of _ m] W by blast
  moreover have "pend_wf s'" unfolding pend_wf_def th using wf_pendD [OF wf pin] by blast
  moreover have "sem_wf s'" unfolding sem_wf_def
  proof (intro allI impI)
    fix n assume "queue_elems (pending_threads (sems s' n)) \<noteq> {}"
    then show "sem_count (sems s' n) = 0"
      using cnt other [of n] wf_semD [OF wf, of n] by (cases "n = m") auto
  qed
  moreover have "blocked_wf s'" unfolding blocked_wf_def th
  proof (intro conjI allI impI)
    fix t
    assume m: "th_state (threads s t) = MAPPED"
      and nr: "th_priority (threads s t) \<notin> queue_elems (run_queue s')"
    then have nr': "th_priority (threads s t) \<notin> queue_elems (run_queue s)" "th_priority (threads s t) \<notin> W"
      by (auto simp: run)
    have "queue_elems (pending_threads (sems s' n)) \<supseteq> queue_elems (pending_threads (sems s n)) - W" for n
      using pend other [of n] by (cases "n = m") auto
    with wf_blockedD [OF wf m nr'(1)] nr'(2)
    show "if flag_set (th_flags (threads s t)) FLAG_SEMAPHORE_PEND
      then th_priority (threads s t) \<in> queue_elems (pending_threads (sems s' (th_semaphore (threads s t))))
      else flag_set (th_flags (threads s t)) FLAG_TIMER_PEND" by (auto split: if_splits)
  qed (use wf_suspendedD [OF wf] in blast)
  ultimately show ?thesis by (simp add: ssx_wf_def)
qed

lemma idle_prio: "SSX_IDLE_THREAD_PRIORITY = 32"
  by (simp add: SSX_IDLE_THREAD_PRIORITY_def SSX_THREADS_def)

lemma post_cases:
  assumes "ssx_semaphore_post m s = Inr (rc, s')"
  obtains (wake) p where "p = queue_min (pending_threads (sems s m))"
      "p \<in> queue_elems (pending_threads (sems s m))"
      "s' = ssx_schedule ((upd_sem m (\<lambda>x. x\<lparr>pending_threads := queue_delete (pending_threads x) p\<rparr>) s)
              \<lparr>run_queue := queue_insert (run_queue s) p\<rparr>)" "rc = 0" "m \<noteq> 0"
  | (count) "queue_elems (pending_threads (sems s m)) = {}"
      "s' = upd_sem m (\<lambda>x. x\<lparr>sem_count := sem_count x + 1\<rparr>) s" "rc = 0" "m \<noteq> 0"
      "\<not> (sem_max_count (sems s m) > 0 \<and> sem_count (sems s m) + 1 > sem_max_count (sems s m))"
proof (cases "queue_min (pending_threads (sems s m)) = 32")
  case True
  show thesis
    by (rule count) (use assms True tq.min_idle_iff in \<open>auto simp: ssx_semaphore_post_def Let_def idle_prio SSX_OK_def split: if_splits\<close>)
next
  case False
  show thesis
    by (rule wake [OF refl])
      (use assms False tq.min_idle_iff in \<open>auto simp: ssx_semaphore_post_def Let_def idle_prio SSX_OK_def
         intro!: tq.min_in split: if_splits\<close>)
qed

lemma post_wf:
  assumes wf: "ssx_wf s" and r: "ssx_semaphore_post m s = Inr (rc, s')"
  shows "ssx_wf s'"
  using r
proof (cases rule: post_cases)
  case (wake p)
  have p: "p < 32" by (rule tq.elems_lt [OF wake(2)])
  show ?thesis
  proof (rule wf_wake [OF wf, where m = m and W = "{p}"])
    show "queue_elems (pending_threads (sems s' m)) \<noteq> {} \<Longrightarrow> sem_count (sems s' m) = 0"
      using wf_semD [OF wf, of m] wake(2,3) by auto
  qed (use wake p in \<open>simp_all add: queue_simps\<close>)
next
  case count
  show ?thesis
    by (rule wf_wake [OF wf, where m = m and W = "{}"]) (use count in simp_all)
qed

lemma release_all_wf:
  assumes wf: "ssx_wf s" and r: "ssx_semaphore_release_all m s = Inr (rc, s')"
  shows "ssx_wf s'"
proof -
  have "s' = ssx_schedule (upd_sem m (\<lambda>x. x\<lparr>pending_threads := queue_clear (pending_threads x)\<rparr>)
      (s\<lparr>run_queue := queue_union (run_queue s) (pending_threads (sems s m))\<rparr>))"
    using r by (simp add: ssx_semaphore_release_all_def Let_def split: if_splits)
  then show ?thesis
    by (intro wf_wake [OF wf, where m = m and W = "queue_elems (pending_threads (sems s m))"])
      (simp_all add: queue_simps)
qed

lemma sem_create_wf:
  assumes wf: "ssx_wf s" and e: "queue_elems (pending_threads (sems s m)) = {}"
    and r: "ssx_semaphore_create m i n s = Inr (rc, s')"
  shows "ssx_wf s'"
proof -
  have "s' = upd_sem m (\<lambda>x. x\<lparr>pending_threads := queue_clear (pending_threads x),
                  sem_count := i, sem_max_count := n\<rparr>) s"
    using r by (simp add: ssx_semaphore_create_def split: if_splits)
  then show ?thesis
    by (intro wf_wake [OF wf, where m = m and W = "{}"]) (simp_all add: queue_simps e)
qed

text \<open>
  A step that only changes flags and the semaphore of the running thread \<open>t\<close>, dequeues it from
  the run queue when it blocks, and puts it in the queue of the semaphore it blocks on.
\<close>

lemma wf_running:
  assumes wf: "ssx_wf s"
    and run: "ssx_thread_is_mapped t s"
    and free: "\<And>n. th_priority (threads s t) \<in> queue_elems (pending_threads (sems s n)) \<Longrightarrow> n = m \<and> W = {}"
    and th: "\<And>u. u \<noteq> t \<Longrightarrow> threads s' u = threads s u" "priority_map s' = priority_map s"
      "th_state (threads s' t) = th_state (threads s t)" "th_priority (threads s' t) = th_priority (threads s t)"
    and other: "\<And>n. n \<noteq> m \<Longrightarrow> sems s' n = sems s n"
    and W: "W = {} \<or> W = {th_priority (threads s t)}"
    and pend: "queue_elems (pending_threads (sems s' m)) =
      (queue_elems (pending_threads (sems s m)) - {th_priority (threads s t)}) \<union> W"
    and rq: "queue_elems (run_queue s') = queue_elems (run_queue s) - B"
    and B: "B \<subseteq> {th_priority (threads s t)}"
    and flags: "W \<noteq> {} \<Longrightarrow> flag_set (th_flags (threads s' t)) FLAG_SEMAPHORE_PEND \<and> th_semaphore (threads s' t) = m"
      "th_priority (threads s t) \<in> queue_elems (run_queue s')
       \<or> (if flag_set (th_flags (threads s' t)) FLAG_SEMAPHORE_PEND then W \<noteq> {} \<and> th_semaphore (threads s' t) = m
           else flag_set (th_flags (threads s' t)) FLAG_TIMER_PEND)"
    and cnt: "queue_elems (pending_threads (sems s' m)) \<noteq> {} \<Longrightarrow> sem_count (sems s' m) = 0"
  shows "ssx_wf s'"
proof -
  let ?p = "th_priority (threads s t)"
  have mt: "th_state (threads s t) = MAPPED" using run by (simp add: ssx_thread_is_mapped_def)
  have t: "t \<noteq> 0" "priority_map s ?p = t" using wf_mappedD [OF wf mt] by auto
  have same: "th_state (threads s' u) = th_state (threads s u)"
    "th_priority (threads s' u) = th_priority (threads s u)" for u
    using th by (cases "u = t"; simp)+
  have prio: "th_priority (threads s u) \<noteq> ?p" if "th_state (threads s u) = MAPPED" "u \<noteq> t" for u
    using wf_mappedD [OF wf that(1)] that(2) t(2) by auto
  have pother: "queue_elems (pending_threads (sems s' n)) - {?p} = queue_elems (pending_threads (sems s n)) - {?p}" for n
    using other [of n] pend W by (cases "n = m") auto
  have "map_wf s'" unfolding map_wf_def th same using wf_mapD [OF wf] by simp
  moreover have "mapped_wf s'" unfolding mapped_wf_def th same using wf_mappedD [OF wf] by simp
  moreover have "run_wf s'" unfolding run_wf_def th rq using wf_runD [OF wf] by blast
  moreover have "pend_wf s'" unfolding pend_wf_def th
  proof (intro allI ballI)
    fix n q assume q: "q \<in> queue_elems (pending_threads (sems s' n))"
    show "priority_map s q \<noteq> 0 \<and> flag_set (th_flags (threads s' (priority_map s q))) FLAG_SEMAPHORE_PEND \<and>
        th_semaphore (threads s' (priority_map s q)) = n"
    proof (cases "q = ?p")
      case True
      have nm: "n = m" using q True other [of n] free [of n] by (cases "n = m") simp_all
      have "W \<noteq> {}" using q True pend unfolding nm by blast
      with nm True t flags(1) show ?thesis by simp
    next
      case False
      with q pother [of n] have q': "q \<in> queue_elems (pending_threads (sems s n))" by auto
      note d = wf_pendD [OF wf q']
      with False wf_map_inv [OF wf, of q] have "priority_map s q \<noteq> t" by auto
      with d th(1) show ?thesis by simp
    qed
  qed
  moreover have "sem_wf s'" unfolding sem_wf_def
  proof (intro allI impI)
    fix n assume "queue_elems (pending_threads (sems s' n)) \<noteq> {}"
    then show "sem_count (sems s' n) = 0"
      using cnt other [of n] wf_semD [OF wf, of n] by (cases "n = m") auto
  qed
  moreover have "blocked_wf s'" unfolding blocked_wf_def same
  proof (intro conjI allI impI)
    fix u
    assume u: "th_state (threads s u) = MAPPED"
      and nr: "th_priority (threads s u) \<notin> queue_elems (run_queue s')"
    show "if flag_set (th_flags (threads s' u)) FLAG_SEMAPHORE_PEND
      then th_priority (threads s u) \<in> queue_elems (pending_threads (sems s' (th_semaphore (threads s' u))))
      else flag_set (th_flags (threads s' u)) FLAG_TIMER_PEND"
    proof (cases "u = t")
      case True
      with nr flags(2) pend W show ?thesis by (auto split: if_splits)
    next
      case False
      with nr prio [OF u] rq B have "th_priority (threads s u) \<notin> queue_elems (run_queue s)" by blast
      from wf_blockedD [OF wf u this] pother prio [OF u False] th(1) [OF False]
      show ?thesis by (auto split: if_splits)
    qed
  next
    fix u assume u: "th_state (threads s u) = SUSPENDED_BLOCKED"
    then have "u \<noteq> t" using mt by auto
    with wf_suspendedD [OF wf u] th(1)
    show "flag_set (th_flags (threads s' u)) FLAG_SEMAPHORE_PEND \<or> flag_set (th_flags (threads s' u)) FLAG_TIMER_PEND"
      by simp
  qed
  ultimately show ?thesis by (simp add: ssx_wf_def)
qed

text \<open>What holds of a thread that executes: it is the current one, mapped, and waits for nothing.\<close>

definition running :: "ptr \<Rightarrow> ssx \<Rightarrow> bool" where
  "running t s \<longleftrightarrow> t = current_thread s \<and> ssx_thread_is_mapped t s \<and> ssx_thread_is_runnable t s \<and>
     (\<forall>m. th_priority (threads s t) \<notin> queue_elems (pending_threads (sems s m)))"

lemma pend_cases:
  assumes r: "ssx_semaphore_pend m timeout s = Inr (r, s')"
  obtains (take) "sem_count (sems s m) \<noteq> 0" "r = Some SSX_OK"
      "s' = upd_sem m (\<lambda>x. x\<lparr>sem_count := sem_count x - 1\<rparr>) s"
  | (nowait) "sem_count (sems s m) = 0" "timeout = SSX_NO_WAIT" "r = Some (- SSX_SEMAPHORE_PEND_NO_WAIT)" "s' = s"
  | (block) "sem_count (sems s m) = 0" "timeout \<noteq> SSX_NO_WAIT" "r = None" "kernel_context_thread s"
      "threads s' = (threads s)(current_thread s := (threads s (current_thread s))
         \<lparr>th_semaphore := m, th_flags := (if timeout = SSX_WAIT_FOREVER
            then th_flags (threads s (current_thread s)) OR FLAG_SEMAPHORE_PEND
            else (th_flags (threads s (current_thread s)) OR FLAG_SEMAPHORE_PEND) OR FLAG_TIMER_PEND)\<rparr>)"
      "priority_map s' = priority_map s"
      "sems s' = (sems s)(m := (sems s m)\<lparr>pending_threads := queue_insert (pending_threads (sems s m))
         (th_priority (threads s (current_thread s)))\<rparr>)"
      "run_queue s' = queue_delete (run_queue s) (th_priority (threads s (current_thread s)))"
proof -
  consider "sem_count (sems s m) \<noteq> 0" | "sem_count (sems s m) = 0" "timeout = SSX_NO_WAIT"
    | "sem_count (sems s m) = 0" "timeout \<noteq> SSX_NO_WAIT" by blast
  then show thesis
  proof cases
    case 1 then show ?thesis using r take by (auto simp: ssx_semaphore_pend_def split: if_splits)
  next
    case 2 then show ?thesis using r nowait by (auto simp: ssx_semaphore_pend_def split: if_splits)
  next
    case 3
    show ?thesis
      by (rule block) (use r 3 in \<open>auto simp: ssx_semaphore_pend_def Let_def fun_eq_iff split: if_splits\<close>)
  qed
qed

lemma wf_count_dec:
  assumes wf: "ssx_wf s" and c: "sem_count (sems s m) \<noteq> 0"
  shows "ssx_wf (upd_sem m (\<lambda>x. x\<lparr>sem_count := sem_count x - 1\<rparr>) s)"
  by (rule wf_wake [OF wf, where m = m and W = "{}"]) (use wf_semD [OF wf, of m] c in auto)

lemma pend_wf_thread:
  assumes wf: "ssx_wf s" and run: "sem_count (sems s m) \<noteq> 0 \<or> running (current_thread s) s"
    and r: "ssx_semaphore_pend m timeout s = Inr (r, s')"
  shows "ssx_wf s'"
  using r
proof (cases rule: pend_cases)
  case block
  then have run: "running (current_thread s) s" using run by simp
  let ?t = "current_thread s"
  have p: "th_priority (threads s ?t) < 32"
    using run tq.elems_lt [of "th_priority (threads s ?t)" "run_queue s"] by (simp add: running_def runnable_iff)
  show ?thesis
    by (rule wf_running [OF wf, where t = ?t and m = m and W = "{th_priority (threads s ?t)}"
          and B = "{th_priority (threads s ?t)}"])
      (use run block p in \<open>auto simp: running_def queue_simps\<close>)
qed (use wf wf_count_dec in simp_all)

lemma resumed_wf:
  assumes wf: "ssx_wf s" and mp: "ssx_thread_is_mapped t s" and rn: "ssx_thread_is_runnable t s"
    and pend: "\<And>n. th_priority (threads s t) \<in> queue_elems (pending_threads (sems s n)) \<Longrightarrow>
        n = m \<and> flag_set (th_flags (threads s t)) FLAG_TIMER_PEND \<and> flag_set (th_flags (threads s t)) FLAG_TIMED_OUT"
    and r: "ssx_semaphore_pend_resumed m t timer s = (rc, s')"
  shows "ssx_wf s'"
proof -
  have np: "queue_elems (pending_threads (sems s' m)) =
      queue_elems (pending_threads (sems s m)) - {th_priority (threads s t)}"
    and oth: "\<And>n. n \<noteq> m \<Longrightarrow> sems s' n = sems s n" "sem_count (sems s' m) = sem_count (sems s m)"
    using r pend [of m] by (auto simp: ssx_semaphore_pend_resumed_def Let_def queue_simps split: if_splits prod.splits)
  have th: "\<And>u. u \<noteq> t \<Longrightarrow> threads s' u = threads s u" "priority_map s' = priority_map s"
      "th_state (threads s' t) = th_state (threads s t)" "th_priority (threads s' t) = th_priority (threads s t)"
      "run_queue s' = run_queue s"
    using r by (auto simp: ssx_semaphore_pend_resumed_def Let_def split: if_splits prod.splits)
  show ?thesis
    by (rule wf_running [OF wf mp, where m = m and W = "{}" and B = "{}"])
      (use th oth np pend rn wf_semD [OF wf, of m] in \<open>auto simp: runnable_iff\<close>)
qed

lemma sleep_wf:
  assumes wf: "ssx_wf s" and run: "running (current_thread s) s"
    and r: "ssx_sleep_absolute time s = Inr s'"
    and nf: "\<not> flag_set (th_flags (threads s (current_thread s))) FLAG_SEMAPHORE_PEND"
  shows "ssx_wf s'"
proof -
  let ?t = "current_thread s"
  have th: "threads s' = (threads s)(?t := (threads s ?t)\<lparr>th_flags := th_flags (threads s ?t) OR FLAG_TIMER_PEND\<rparr>)"
    "priority_map s' = priority_map s" "sems s' = sems s"
    "run_queue s' = queue_delete (run_queue s) (th_priority (threads s ?t))"
    using r by (auto simp: ssx_sleep_absolute_def Let_def fun_eq_iff split: if_splits)
  show ?thesis
    by (rule wf_running [OF wf, where t = ?t and m = 0 and W = "{}" and B = "{th_priority (threads s ?t)}"])
      (use run th nf wf_semD [OF wf] in \<open>auto simp: running_def queue_simps\<close>)
qed

lemma sleep_resumed_wf:
  assumes wf: "ssx_wf s" and run: "running t s"
  shows "ssx_wf (snd (ssx_sleep_resumed t s))"
  by (rule wf_running [OF wf, where t = t and m = 0 and W = "{}" and B = "{}"])
    (use run wf_semD [OF wf] in \<open>auto simp: running_def ssx_sleep_resumed_def runnable_iff\<close>)

end
