(* ===== verification/SSX_Timer.thy ===== *)
theory SSX_Timer imports SSX_Invariant begin

text \<open>
  The timer API (ssx/ssx/ssx_timer_core.c, ssx_timer_init.c) and the invariant of the time
  queue. \<open>tq_at d xs ys s\<close> describes the queue while the handler is about to examine \<open>d\<close>:
  \<open>xs\<close> are the timers it has been through, \<open>ys\<close> those ahead, and every timer it has been
  through is covered by \<open>next_timeout\<close>. Outside the handler \<open>ys\<close> is empty, so that no active
  timer is due before \<open>next_timeout\<close>. Scheduling and cancelling keep both forms, whatever the
  cursor, which is what allows preempting interrupts to use timers during a pass.
\<close>

section \<open>The API\<close>

text \<open>The callback carries its argument: \<open>CB_ThreadTimeout t\<close> is \<open>__ssx_thread_timeout\<close> of \<open>t\<close>.\<close>

definition k_timer_create :: "dq_ptr \<Rightarrow> callback \<Rightarrow> u8 \<Rightarrow> ssx \<Rightarrow> (int, ssx) kcall" where
  "k_timer_create timer callback options s =
     (if timer = Null then Inl SSX_INVALID_TIMER_AT_CREATE
      else case ssx_deque_element_create timer (tq_heap s) of
        Inl e \<Rightarrow> Inl e
      | Inr (rc, h) \<Rightarrow>
          Inr (SSX_OK, upd_timer timer (\<lambda>x. x\<lparr>tm_timeout := 0, tm_period := 0,
                  tm_callback := callback, tm_options := options\<rparr>) (s\<lparr>tq_heap := h\<rparr>)))"

definition ssx_timer_create :: "dq_ptr \<Rightarrow> callback \<Rightarrow> ssx \<Rightarrow> (int, ssx) kcall" where
  "ssx_timer_create timer callback s = k_timer_create timer callback SSX_TIMER_CALLBACK_PREEMPTIBLE s"

definition ssx_timer_create_nonpreemptible :: "dq_ptr \<Rightarrow> callback \<Rightarrow> ssx \<Rightarrow> (int, ssx) kcall" where
  "ssx_timer_create_nonpreemptible timer callback s = k_timer_create timer callback 0 s"

definition ssx_timer_schedule_absolute :: "dq_ptr \<Rightarrow> u64 \<Rightarrow> u64 \<Rightarrow> ssx \<Rightarrow> (int, ssx) kcall" where
  "ssx_timer_schedule_absolute timer timeout period s =
     (if timer = Null then Inl SSX_INVALID_TIMER_AT_SCHEDULE
      else if kernel_context_critical_interrupt s then Inl SSX_ILLEGAL_CONTEXT_TIMER
      else Inr (SSX_OK, k_timer_schedule timer
             (upd_timer timer (\<lambda>x. x\<lparr>tm_timeout := timeout, tm_period := period\<rparr>) s)))"

definition ssx_timer_schedule :: "dq_ptr \<Rightarrow> u64 \<Rightarrow> u64 \<Rightarrow> ssx \<Rightarrow> (int, ssx) kcall" where
  "ssx_timer_schedule timer interval period s =
     ssx_timer_schedule_absolute timer (timebase s + interval) period s"

definition ssx_timer_cancel :: "dq_ptr \<Rightarrow> ssx \<Rightarrow> (int, ssx) kcall" where
  "ssx_timer_cancel timer s =
     (if kernel_context_critical_interrupt s then Inl SSX_ILLEGAL_CONTEXT_CRITICAL_INTERRUPT
      else if timer = Null then Inl SSX_INVALID_TIMER_AT_CANCEL
      else Inr (k_timer_cancel timer s))"

definition ssx_timer_info_get :: "dq_ptr \<Rightarrow> ssx \<Rightarrow> panic_code + (u64 \<times> bool)" where
  "ssx_timer_info_get timer s =
     (if timer = Null then Inl SSX_INVALID_TIMER_AT_INFO
      else Inr (tm_timeout (timers s timer), timer_active timer s))"

section \<open>The time-queue invariant\<close>

definition covered :: "ssx \<Rightarrow> dq_ptr list \<Rightarrow> bool" where
  "covered s xs = (\<forall>x \<in> set xs. tq_next_timeout s \<le> tm_timeout (timers s x))"

definition tq_at :: "dq_ptr \<Rightarrow> dq_ptr list \<Rightarrow> dq_ptr list \<Rightarrow> ssx \<Rightarrow> bool" where
  "tq_at d xs ys s = (tq_repr (tq_heap s) (xs @ ys) \<and> d = hd (ys @ [TIME_QUEUE]) \<and> covered s xs)"

text \<open>The interval timer runs and its interrupt is due by \<open>next_timeout\<close>, or at once when that is past.\<close>

definition pit_ok :: "ssx \<Rightarrow> bool" where
  "pit_ok s \<longleftrightarrow> (tq_next_timeout s \<noteq> SSX_TIMEBASE_MAX \<longrightarrow>
     pit s \<noteq> 0 \<and> pit_due s \<le> max (unat (tq_next_timeout s)) (unat (pit_set s) + 1))"

text \<open>Outside the handler the cursor is null, every active timer is covered, and the interval timer
  is set for the first of them.\<close>

definition tq_idle :: "dq_ptr list \<Rightarrow> ssx \<Rightarrow> bool" where
  "tq_idle xs s = (tq_repr (tq_heap s) xs \<and> tq_cursor s = Null \<and> covered s xs \<and> pit_ok s)"

lemma hw_frames [simp]:
  "tq_heap (ssx_schedule_hardware_timeout n s) = tq_heap s"
  "tq_cursor (ssx_schedule_hardware_timeout n s) = tq_cursor s"
  "tq_next_timeout (ssx_schedule_hardware_timeout n s) = tq_next_timeout s"
  "timers (ssx_schedule_hardware_timeout n s) = timers s"
  "timebase (ssx_schedule_hardware_timeout n s) = timebase s"
  by (simp_all add: ssx_schedule_hardware_timeout_def Let_def)

lemma pit_cong:
  "pit s' = pit s \<Longrightarrow> pit_set s' = pit_set s \<Longrightarrow> tq_next_timeout s' = tq_next_timeout s \<Longrightarrow> pit_ok s' = pit_ok s"
  by (simp add: pit_ok_def pit_due_def)

lemma hw_pit:
  assumes "tmo \<noteq> SSX_TIMEBASE_MAX" "s' = ssx_schedule_hardware_timeout tmo s"
  shows "pit s' \<noteq> 0" "pit_set s' = timebase s" "pit_due s' \<le> max (unat tmo) (unat (timebase s) + 1)"
    "timebase s < tmo \<Longrightarrow> unat (timebase s) < pit_due s' \<and> pit_due s' \<le> unat tmo"
proof -
  have p: "pit s' = (if tmo \<le> timebase s then 1 else if tmo - timebase s > 0xffffffff then 0xffffffff else ucast (tmo - timebase s))"
    and t: "pit_set s' = timebase s" using assms by (simp_all add: ssx_schedule_hardware_timeout_def Let_def)
  have d: "unat (tmo - timebase s) = unat tmo - unat (timebase s)" "unat (timebase s) < unat tmo" if "\<not> tmo \<le> timebase s"
    using that by (simp_all add: unat_sub word_le_nat_alt)
  have c: "unat (ucast w :: u32) = unat w" if "w \<le> 0xffffffff" for w :: u64
    using that by (simp add: word_le_nat_alt unsigned_ucast_eq take_bit_nat_eq_self_iff)
  have u: "unat (pit s') = (if tmo \<le> timebase s then 1 else min (unat tmo - unat (timebase s)) 0xffffffff)"
  proof (cases "tmo \<le> timebase s")
    case False
    have l: "tmo - timebase s > 0xffffffff \<longleftrightarrow> 0xffffffff < unat tmo - unat (timebase s)"
      using d(1) [OF False] by (simp add: word_less_nat_alt)
    show ?thesis using False c [of "tmo - timebase s"] d(1) [OF False] unfolding p l by (auto simp: not_less min_def word_le_nat_alt)
  qed (simp add: p)
  have pos: "0 < unat (pit s')" using d(2) by (auto simp: u)
  show "pit s' \<noteq> 0" using pos by (metis less_irrefl unat_0)
  show "pit_set s' = timebase s" by (rule t)
  show "pit_due s' \<le> max (unat tmo) (unat (timebase s) + 1)" using d(2) by (auto simp: pit_due_def t u)
  show "timebase s < tmo \<Longrightarrow> unat (timebase s) < pit_due s' \<and> pit_due s' \<le> unat tmo"
    using pos d(2) by (auto simp: pit_due_def t u)
qed

lemma hw_pit_ok: "tq_next_timeout s = tmo \<Longrightarrow> pit_ok (ssx_schedule_hardware_timeout tmo s)"
  using hw_pit(1-3) [OF _ refl, of tmo s] by (simp add: pit_ok_def)

lemma schedule_fields:
  "tq_heap (k_timer_schedule x s) = dqi.enqueue x (tq_heap s)"
  "tq_cursor (k_timer_schedule x s) = tq_cursor s"
  "tq_next_timeout (k_timer_schedule x s) = min (tm_timeout (timers s x)) (tq_next_timeout s)"
  "timers (k_timer_schedule x s) = timers s"
  "timebase (k_timer_schedule x s) = timebase s"
  by (auto simp: k_timer_schedule_def Let_def dqi.enqueue_def timer_active_def min_def)

lemma cancel_fields:
  "tq_heap (snd (k_timer_cancel x s)) = dqi.dequeue x (tq_heap s)"
  "tq_cursor (snd (k_timer_cancel x s)) =
     (if timer_active x s \<and> x = tq_cursor s then dq_next (tq_heap s) x else tq_cursor s)"
  "tq_next_timeout (snd (k_timer_cancel x s)) = tq_next_timeout s"
  "timers (snd (k_timer_cancel x s)) = timers s"
  "timebase (snd (k_timer_cancel x s)) = timebase s"
  by (auto simp: k_timer_cancel_def Let_def dqi.dequeue_def timer_active_def)

lemma tq_active_iff: "tq_repr (tq_heap s) xs \<Longrightarrow> is_timer x \<Longrightarrow> timer_active x s \<longleftrightarrow> x \<in> set xs"
  by (simp add: timer_active_def dqi.queued_iff)

lemma tq_next_of:
  "tq_repr h (xs @ d # ys) \<Longrightarrow> dq_next h d = hd (ys @ [TIME_QUEUE])"
  using dq_repr_next_elem [of h TIME_QUEUE xs d ys] by (simp add: tq_repr_def)

lemma tq_first: "tq_repr h xs \<Longrightarrow> dq_next h TIME_QUEUE = hd (xs @ [TIME_QUEUE])"
  by (cases xs) (auto simp: tq_repr_def dq_repr_def)

text \<open>Changing the period of a timer, or the timeout of one that is about to be scheduled.\<close>

abbreviation set_timer :: "dq_ptr \<Rightarrow> u64 \<Rightarrow> u64 \<Rightarrow> ssx \<Rightarrow> ssx" where
  "set_timer x timeout period s \<equiv>
     k_timer_schedule x (upd_timer x (\<lambda>y. y\<lparr>tm_timeout := timeout, tm_period := period\<rparr>) s)"

lemma covered_set_timer:
  "covered s xs \<Longrightarrow> set zs \<subseteq> insert x (set xs) \<Longrightarrow> covered (set_timer x tmo per s) zs"
  by (auto simp: covered_def schedule_fields min_le_iff_disj)

lemma covered_cancel: "covered s xs \<Longrightarrow> set zs \<subseteq> set xs \<Longrightarrow> covered (snd (k_timer_cancel x s)) zs"
  by (auto simp: covered_def cancel_fields)

lemma pit_set_timer: "tq_cursor s = Null \<Longrightarrow> pit_ok s \<Longrightarrow> pit_ok (set_timer x tmo per s)"
  by (auto simp: k_timer_schedule_def Let_def pit_ok_def [of s] intro!: hw_pit_ok) (auto simp: pit_ok_def pit_due_def)

lemma pit_cancel: "pit_ok s \<Longrightarrow> pit_ok (snd (k_timer_cancel x s))"
  by (rule pit_cong [THEN iffD2, of _ s]) (simp_all add: k_timer_cancel_def Let_def)

lemma idle_set_timer:
  assumes t: "tq_idle xs s" and x: "is_timer x"
  shows "tq_idle (if x \<in> set xs then xs else xs @ [x]) (set_timer x tmo per s)"
  using t dqi.repr_enqueue [of "tq_heap s" xs x] x
  by (auto simp: tq_idle_def schedule_fields intro: covered_set_timer pit_set_timer)

lemma idle_cancel:
  assumes t: "tq_idle xs s" and x: "is_timer x"
  shows "tq_idle (removeAll x xs) (snd (k_timer_cancel x s))"
proof -
  have "x \<noteq> Null" using x by auto
  with t dqi.repr_dequeue [of "tq_heap s" xs x] x covered_cancel [of s xs "removeAll x xs" x]
  show ?thesis using pit_cancel [of s x] by (auto simp: tq_idle_def cancel_fields)
qed

lemma at_set_timer:
  assumes t: "tq_at d xs ys s" and x: "is_timer x" and c: "tq_cursor s = d"
  shows "\<exists>xs' ys'. tq_at d xs' ys' (set_timer x tmo per s)"
proof (cases "x \<in> set (xs @ ys)")
  case True
  then have "tq_at d xs ys (set_timer x tmo per s)"
    using t dqi.repr_enqueue [of "tq_heap s" "xs @ ys" x] x
    by (auto simp: tq_at_def schedule_fields intro: covered_set_timer)
  then show ?thesis by blast
next
  case False
  then have r: "tq_repr (dqi.enqueue x (tq_heap s)) ((xs @ ys) @ [x])"
    using t dqi.repr_enqueue [of "tq_heap s" "xs @ ys" x] x by (simp add: tq_at_def)
  show ?thesis
  proof (cases ys)
    case Nil
    then have "tq_at d (xs @ [x]) [] (set_timer x tmo per s)"
      using t r by (auto simp: tq_at_def schedule_fields intro: covered_set_timer)
    then show ?thesis by blast
  next
    case (Cons y zs)
    then have "tq_at d xs (ys @ [x]) (set_timer x tmo per s)"
      using t r by (auto simp: tq_at_def schedule_fields intro: covered_set_timer)
    then show ?thesis by blast
  qed
qed

text \<open>Cancelling the timer under the cursor moves the cursor on; the others leave it alone.\<close>

lemma at_cancel:
  assumes t: "tq_at (tq_cursor s) xs ys s" and x: "is_timer x"
  shows "tq_at (tq_cursor (snd (k_timer_cancel x s))) (removeAll x xs) (removeAll x ys) (snd (k_timer_cancel x s))"
proof -
  have r: "tq_repr (tq_heap s) (xs @ ys)" and c: "tq_cursor s = hd (ys @ [TIME_QUEUE])"
    using t by (simp_all add: tq_at_def)
  have d: "distinct (xs @ ys)" by (rule dqi.repr_distinct [OF r])
  have xT: "x \<noteq> TIME_QUEUE" using x by auto
  have "tq_cursor (snd (k_timer_cancel x s)) = hd (removeAll x ys @ [TIME_QUEUE])"
  proof (cases ys)
    case Nil
    then show ?thesis using c xT by (simp add: cancel_fields)
  next
    case (Cons y zs)
    show ?thesis
    proof (cases "x = y")
      case True
      with Cons d have "removeAll x ys = zs" by auto
      with True Cons c r x tq_next_of [of "tq_heap s" xs y zs] show ?thesis
        by (simp add: cancel_fields tq_active_iff)
    qed (use Cons c in \<open>simp add: cancel_fields\<close>)
  qed
  moreover have "covered (snd (k_timer_cancel x s)) (removeAll x xs)"
    using t covered_cancel [of s xs "removeAll x xs" x] by (auto simp: tq_at_def)
  ultimately show ?thesis
    using dqi.repr_dequeue [OF r x] by (simp add: tq_at_def cancel_fields)
qed

end
