(* ===== verification/SSX_Init.thy ===== *)
theory SSX_Init imports SSX_Semaphore SSX_Timer begin

text \<open>
  Initialisation (ssx/ssx/ssx_init.c, ssx_stack_init.c, ssx_thread_init.c): stack areas are
  aligned and filled with a pattern, the kernel's globals are reset, and threads are created
  runnable but unmapped. Addresses and sizes are 32-bit words. The register image that the
  assembler routine \<open>__ssx_thread_context_initialize\<close> pushes on a new thread's stack is not
  part of the state.
\<close>

section \<open>Stacks\<close>

definition SSX_INVALID_ARGUMENT_INIT :: int where "SSX_INVALID_ARGUMENT_INIT = 0x00779029"
definition SSX_INVALID_THREAD_AT_CREATE :: int where "SSX_INVALID_THREAD_AT_CREATE = 0x00779010"
definition SSX_INVALID_ARGUMENT_THREAD1 :: int where "SSX_INVALID_ARGUMENT_THREAD1 = 0x0077902d"
definition SSX_INVALID_ARGUMENT_THREAD2 :: int where "SSX_INVALID_ARGUMENT_THREAD2 = 0x0077902e"
definition SSX_STACK_ALIGNMENT :: u32 where "SSX_STACK_ALIGNMENT = 8"
definition SSX_STACK_PATTERN :: u32 where "SSX_STACK_PATTERN = 0x03abcdef"

text \<open>The loop over \<open>*(--p) = SSX_STACK_PATTERN\<close>; the stack type is a 4-byte word.\<close>

primrec ssx_stack_fill :: "nat \<Rightarrow> u32 \<Rightarrow> (u32 \<Rightarrow> u32) \<Rightarrow> (u32 \<Rightarrow> u32)" where
  "ssx_stack_fill 0 p m = m"
| "ssx_stack_fill (Suc n) p m = ssx_stack_fill n (p - 4) (m(p - 4 := SSX_STACK_PATTERN))"

definition ssx_stack_create_initial_frame :: "u32 \<Rightarrow> u32 \<Rightarrow> (u32 \<Rightarrow> u32) \<Rightarrow> u32 \<times> u32 \<times> (u32 \<Rightarrow> u32)" where
  "ssx_stack_create_initial_frame stack sz m = (stack - 8, sz - 8, m(stack - 8 := 0))"

definition ssx_stack_init :: "u32 \<Rightarrow> u32 \<Rightarrow> (u32 \<Rightarrow> u32) \<Rightarrow> u32 \<times> u32 \<times> (u32 \<Rightarrow> u32)" where
  "ssx_stack_init stack0 size0 m =
     (let stack1 = stack0 + size0;
          align_mask = SSX_STACK_ALIGNMENT - 1;
          excess = stack1 AND align_mask;
          stack2 = stack1 - excess;
          size1 = size0 - excess;
          size2 = (size1 div 4) * 4;
          m1 = ssx_stack_fill (unat (size2 div 4)) stack2 m
      in ssx_stack_create_initial_frame stack2 size2 m1)"

section \<open>Threads\<close>

text \<open>\<open>routine\<close> is the entry point, 0 for the null pointer.\<close>

definition ssx_thread_create :: "ptr \<Rightarrow> nat \<Rightarrow> u32 \<Rightarrow> u32 \<Rightarrow> u8 \<Rightarrow> ssx \<Rightarrow> (int, ssx) kcall" where
  "ssx_thread_create thread routine stack stack_size priority s =
     (if kernel_context_critical_interrupt s then Inl SSX_ILLEGAL_CONTEXT_CRITICAL_INTERRUPT
      else if thread = 0 then Inl SSX_INVALID_THREAD_AT_CREATE
      else if routine = 0 \<or> priority \<ge> SSX_THREADS then Inl SSX_INVALID_ARGUMENT_THREAD1
      else let (stack', sz', m) = ssx_stack_init stack stack_size (memory s);
               limit = stack' - sz'
           in if limit > stack' then Inl SSX_INVALID_ARGUMENT_THREAD2
              else let s1 = upd_thread thread (\<lambda>x. x\<lparr>th_stack_base := stack', th_stack_limit := limit,
                       th_semaphore := 0, th_priority := priority,
                       th_state := SUSPENDED_RUNNABLE, th_flags := 0\<rparr>) (s\<lparr>memory := m\<rparr>)
                   in case ssx_timer_create_nonpreemptible (thread_timer thread) (CB_ThreadTimeout thread) s1 of
                        Inl e \<Rightarrow> Inl e
                      | Inr (_, s2) \<Rightarrow> Inr (SSX_OK, s2))"

section \<open>The kernel\<close>

definition ssx_initialize :: "u32 \<Rightarrow> u32 \<Rightarrow> u32 \<Rightarrow> u32 \<Rightarrow> u64 \<Rightarrow> u32 \<Rightarrow> ssx \<Rightarrow> (int, ssx) kcall" where
  "ssx_initialize nstack nsize cstack csize initial_timebase hz s =
     (if nstack = 0 \<or> nsize = 0 \<or> cstack = 0 \<or> csize = 0 then Inl SSX_INVALID_ARGUMENT_INIT
      else let s1 = (if initial_timebase \<noteq> SSX_TIMEBASE_MAX then s\<lparr>timebase := initial_timebase\<rparr> else s);
               s2 = s1\<lparr>timebase_frequency_hz := hz, timebase_frequency_khz := hz div 1000,
                       timebase_frequency_mhz := hz div 1000000\<rparr>;
               (nstack', nsize', m1) = ssx_stack_init nstack nsize (memory s2);
               s3 = s2\<lparr>memory := m1, noncritical_stack := nstack', noncritical_stack_size := nsize'\<rparr>;
               (cstack', csize', m2) = ssx_stack_init cstack csize (memory s3);
               s4 = s3\<lparr>memory := m2, critical_stack := cstack', critical_stack_size := csize'\<rparr>
           in case ssx_deque_sentinel_create TIME_QUEUE (tq_heap s4) of
                Inl e \<Rightarrow> Inl e
              | Inr (_, h) \<Rightarrow>
                  let s5 = s4\<lparr>tq_heap := h, tq_cursor := Null, tq_next_timeout := SSX_TIMEBASE_MAX\<rparr>;
                      s6 = s5\<lparr>priority_map := (\<lambda>p. if p \<le> SSX_THREADS then 0 else priority_map s5 p)\<rparr>;
                      s7 = s6\<lparr>run_queue := queue_clear (run_queue s6), current_thread := 0,
                              next_thread := 0, delayed_switch := False\<rparr>
                  in Inr (SSX_OK, s7))"

section \<open>Stack areas stay inside the memory the caller gave\<close>

lemma stack_fill_other:
  "unat p \<ge> 4 * n \<Longrightarrow> unat a < unat p - 4 * n \<or> unat a \<ge> unat p \<Longrightarrow> ssx_stack_fill n p m a = m a"
proof (induction n arbitrary: p m)
  case (Suc n)
  have "unat (p - 4) = unat p - 4" using Suc.prems(1) by (simp add: unat_sub word_le_nat_alt)
  moreover from this have "a \<noteq> p - 4" using Suc.prems by auto
  moreover have "ssx_stack_fill n (p - 4) (m(p - 4 := SSX_STACK_PATTERN)) a = (m(p - 4 := SSX_STACK_PATTERN)) a"
    by (rule Suc.IH) (use calculation Suc.prems in auto)
  ultimately show ?case by simp
qed simp

lemma and_7_unat: "unat (x AND 7 :: u32) = unat x mod 8"
proof -
  have "x AND 7 = take_bit 3 x" by (simp add: take_bit_eq_mask mask_eq_exp_minus_1)
  then show ?thesis by (simp add: take_bit_eq_mod unat_mod)
qed

lemma stack_init_eq:
  assumes w: "unat stack + unat sz < 2 ^ 32" and z: "16 \<le> unat sz"
    and e: "k = (unat stack + unat sz) mod 8"
    and r: "ssx_stack_init stack sz m = (stack', sz', m')"
  shows "unat stack' = unat stack + unat sz - k - 8"
    and "unat sz' = (unat sz - k) div 4 * 4 - 8"
    and "m' = (ssx_stack_fill ((unat sz - k) div 4) (stack' + 8) m)(stack' := 0)"
proof -
  let ?e = "(stack + sz) AND 7"
  have s1: "unat (stack + sz) = unat stack + unat sz" using w by (simp add: unat_word_ariths)
  have ue: "unat ?e = k" "k < 8" using e by (simp_all add: and_7_unat s1)
  have s2: "unat (stack + sz - ?e) = unat stack + unat sz - k"
    using ue z by (simp add: unat_sub word_le_nat_alt s1)
  have sz1: "unat (sz - ?e) = unat sz - k" using ue z by (simp add: unat_sub word_le_nat_alt)
  have sz2: "unat ((sz - ?e) div 4) = (unat sz - k) div 4" by (simp add: unat_div sz1)
  have "(unat sz - k) div 4 * 4 \<le> unat sz - k" by simp
  also have "\<dots> < 2 ^ 32" using w by simp
  finally have lt: "(unat sz - k) div 4 * 4 < 2 ^ 32" .
  have sz3: "unat ((sz - ?e) div 4 * 4) = (unat sz - k) div 4 * 4"
    using lt unat_mult_lem [of "(sz - ?e) div 4" 4] by (simp only: sz2) simp
  have m: "(sz - ?e) div 4 * 4 div 4 = (sz - ?e) div 4"
    by (rule word_unat_eq_iff [THEN iffD2]) (simp only: unat_div [of _ 4] sz3, simp add: sz1)
  have st: "stack' = stack + sz - ?e - 8" "sz' = (sz - ?e) div 4 * 4 - 8"
    "m' = (ssx_stack_fill ((unat sz - k) div 4) (stack + sz - ?e) m)(stack + sz - ?e - 8 := 0)"
    using r m sz2 by (auto simp: ssx_stack_init_def Let_def SSX_STACK_ALIGNMENT_def
        ssx_stack_create_initial_frame_def)
  show "unat stack' = unat stack + unat sz - k - 8"
    unfolding st using s2 ue z by (simp add: unat_sub word_le_nat_alt)
  have "8 \<le> (unat sz - k) div 4 * 4" using z ue(2) by presburger
  then show "unat sz' = (unat sz - k) div 4 * 4 - 8"
    unfolding st using sz3 by (simp add: unat_sub word_le_nat_alt)
  show "m' = (ssx_stack_fill ((unat sz - k) div 4) (stack' + 8) m)(stack' := 0)"
    unfolding st by simp
qed

lemma stack_init_bounds:
  assumes w: "unat stack + unat sz < 2 ^ 32" and z: "16 \<le> unat sz"
    and r: "ssx_stack_init stack sz m = (stack', sz', m')"
  shows "unat stack' mod 8 = 0"
    and "unat stack \<le> unat stack' - unat sz'" "unat sz' \<le> unat stack'"
    and "unat stack' + 8 \<le> unat stack + unat sz"
    and "unat a < unat stack \<or> unat stack + unat sz \<le> unat a \<Longrightarrow> m' a = m a"
proof -
  define k where "k = (unat stack + unat sz) mod 8"
  note eq = stack_init_eq [OF w z k_def r]
  have k: "k < 8" by (simp add: k_def)
  have w4: "(unat sz - k) div 4 * 4 \<le> unat sz - k" by simp
  have st8: "unat (stack' + 8) = unat stack + unat sz - k"
    using eq(1) w z k unat_add_lem [of stack' "8 :: u32"] by auto
  have "(unat stack + unat sz - k) mod 8 = 0"
    by (simp add: k_def minus_mod_eq_mult_div)
  then show "unat stack' mod 8 = 0"
    unfolding eq(1) using z k by presburger
  show "unat stack \<le> unat stack' - unat sz'" "unat sz' \<le> unat stack'"
    using eq(1,2) w4 z k by linarith+
  show "unat stack' + 8 \<le> unat stack + unat sz" using eq(1) z k by linarith
  assume a: "unat a < unat stack \<or> unat stack + unat sz \<le> unat a"
  have "unat a \<noteq> unat stack'" using a z k unfolding eq(1) by linarith
  then have "a \<noteq> stack'" by auto
  moreover have "ssx_stack_fill ((unat sz - k) div 4) (stack' + 8) m a = m a"
  proof (rule stack_fill_other)
    show "4 * ((unat sz - k) div 4) \<le> unat (stack' + 8)" using w4 unfolding st8 by linarith
    have "unat stack \<le> unat (stack' + 8) - 4 * ((unat sz - k) div 4)" using w4 z k unfolding st8 by linarith
    moreover have "unat (stack' + 8) \<le> unat stack + unat sz" unfolding st8 by linarith
    ultimately show "unat a < unat (stack' + 8) - 4 * ((unat sz - k) div 4) \<or> unat (stack' + 8) \<le> unat a"
      using a by (meson less_le_trans le_trans)
  qed
  ultimately show "m' a = m a" by (simp add: eq(3))
qed

section \<open>Preservation of the kernel invariant\<close>

lemma create_fields:
  assumes "ssx_thread_create t routine stack sz p s = Inr (rc, s')"
  obtains b l where "threads s' = (threads s)(t := (threads s t)\<lparr>th_stack_base := b, th_stack_limit := l,
       th_semaphore := 0, th_priority := p, th_state := SUSPENDED_RUNNABLE, th_flags := 0\<rparr>)"
    and "l \<le> b" "t \<noteq> 0" "p < 32" "rc = SSX_OK"
    and "priority_map s' = priority_map s" "run_queue s' = run_queue s" "sems s' = sems s"
    and "tq_heap s' = set_next (ThreadTimer t) Null (tq_heap s)" "tq_cursor s' = tq_cursor s"
    and "tq_next_timeout s' = tq_next_timeout s"
    and "timers s' = (timers s)(ThreadTimer t := \<lparr>tm_timeout = 0, tm_period = 0,
       tm_callback = CB_ThreadTimeout t, tm_options = 0\<rparr>)"
proof -
  obtain b z m where si: "ssx_stack_init stack sz (memory s) = (b, z, m)" by (cases "ssx_stack_init stack sz (memory s)")
  have g: "t \<noteq> 0" "\<not> SSX_THREADS \<le> p" "\<not> b < b - z" "rc = SSX_OK"
    using assms by (simp_all add: ssx_thread_create_def si Let_def split: if_splits sum.splits prod.splits)
  have s': "s' = upd_timer (thread_timer t) (\<lambda>x. x\<lparr>tm_timeout := 0, tm_period := 0,
      tm_callback := CB_ThreadTimeout t, tm_options := 0\<rparr>)
    ((upd_thread t (\<lambda>x. x\<lparr>th_stack_base := b, th_stack_limit := b - z, th_semaphore := 0, th_priority := p,
        th_state := SUSPENDED_RUNNABLE, th_flags := 0\<rparr>) (s\<lparr>memory := m\<rparr>))
      \<lparr>tq_heap := set_next (thread_timer t) Null (tq_heap s)\<rparr>)"
    using assms g by (simp add: ssx_thread_create_def si Let_def ssx_timer_create_nonpreemptible_def
        k_timer_create_def ssx_deque_element_create_def thread_timer_def upd_thread_def split: if_splits)
  show thesis
  proof (rule that [where b = b and l = "b - z"])
    show "b - z \<le> b" using g(3) by (simp add: not_less)
    show "p < 32" using g(2) by (simp add: SSX_THREADS_def not_le)
  qed (use g in \<open>simp_all add: s' thread_timer_def fun_eq_iff\<close>)
qed

lemma create_wf:
  assumes wf: "ssx_wf s" and nm: "th_state (threads s t) \<noteq> MAPPED"
    and r: "ssx_thread_create t routine stack sz p s = Inr (rc, s')"
  shows "ssx_wf s'"
proof -
  obtain b l where e: "threads s' = (threads s)(t := (threads s t)\<lparr>th_stack_base := b, th_stack_limit := l,
       th_semaphore := 0, th_priority := p, th_state := SUSPENDED_RUNNABLE, th_flags := 0\<rparr>)"
    and f: "priority_map s' = priority_map s" "run_queue s' = run_queue s" "sems s' = sems s"
    using r by (rule create_fields)
  let ?f = "\<lambda>x. x\<lparr>th_stack_base := b, th_stack_limit := l,
       th_semaphore := 0, th_priority := p, th_state := SUSPENDED_RUNNABLE, th_flags := 0\<rparr>"
  have "ssx_wf (upd_thread t ?f s)" by (rule wf_upd_unmapped [OF wf nm]) simp_all
  moreover have "ssx_wf s' = ssx_wf (upd_thread t ?f s)"
    by (rule ssx_wf_cong) (simp_all add: e f fun_eq_iff)
  ultimately show ?thesis by simp
qed

end
