(* ===== verification/OCC_Bytes.thy ===== *)
theory OCC_Bytes imports OCC_Prelude begin

text \<open>
  Byte buffers. Packed C structures (error logs, trace buffers) are kept as the bytes the
  firmware lays out, on this big-endian processor the most significant byte first; a field is
  read and written at its offset. \<open>memcpy\<close> and \<open>memset\<close> are those of the C library, on
  regions that do not overlap. The lemmas give the value of a field after a write to the same
  or to another place.
\<close>

type_synonym bytes = "nat \<Rightarrow> u8"

definition get16 :: "bytes \<Rightarrow> nat \<Rightarrow> u16" where
  "get16 b n = word_cat (b n) (b (n + 1))"

definition get32 :: "bytes \<Rightarrow> nat \<Rightarrow> u32" where
  "get32 b n = word_cat (get16 b n) (get16 b (n + 2))"

definition get64 :: "bytes \<Rightarrow> nat \<Rightarrow> u64" where
  "get64 b n = word_cat (get32 b n) (get32 b (n + 4))"

definition set8 :: "nat \<Rightarrow> u8 \<Rightarrow> bytes \<Rightarrow> bytes" where
  "set8 n v b = b(n := v)"

definition set16 :: "nat \<Rightarrow> u16 \<Rightarrow> bytes \<Rightarrow> bytes" where
  "set16 n v b = b(n := ucast (drop_bit 8 v), n + 1 := ucast v)"

definition set32 :: "nat \<Rightarrow> u32 \<Rightarrow> bytes \<Rightarrow> bytes" where
  "set32 n v b = set16 (n + 2) (ucast v) (set16 n (ucast (drop_bit 16 v)) b)"

definition set64 :: "nat \<Rightarrow> u64 \<Rightarrow> bytes \<Rightarrow> bytes" where
  "set64 n v b = set32 (n + 4) (ucast v) (set32 n (ucast (drop_bit 32 v)) b)"

definition memcpy :: "bytes \<Rightarrow> nat \<Rightarrow> bytes \<Rightarrow> nat \<Rightarrow> nat \<Rightarrow> bytes" where
  "memcpy dst d src s n = (\<lambda>i. if d \<le> i \<and> i < d + n then src (s + (i - d)) else dst i)"

definition memset :: "bytes \<Rightarrow> nat \<Rightarrow> u8 \<Rightarrow> nat \<Rightarrow> bytes" where
  "memset dst d v n = (\<lambda>i. if d \<le> i \<and> i < d + n then v else dst i)"

section \<open>A field just written\<close>

lemma get16_set16 [simp]: "get16 (set16 n v b) n = v"
  by (rule bit_word_eqI) (auto simp: get16_def set16_def bit_word_cat_iff bit_simps)

section \<open>Writes elsewhere\<close>

lemma set_apart [simp]:
  "i \<noteq> n \<Longrightarrow> set8 n v b i = b i"
  "set8 n v b n = v"
  "i < n \<or> n + 2 \<le> i \<Longrightarrow> set16 n w b i = b i"
  "i < n \<or> n + 4 \<le> i \<Longrightarrow> set32 n x b i = b i"
  "i < n \<or> n + 8 \<le> i \<Longrightarrow> set64 n y b i = b i"
  by (auto simp: set8_def set16_def set32_def set64_def)

lemma get_apart:
  "(\<And>i. n \<le> i \<Longrightarrow> i < n + 2 \<Longrightarrow> b' i = b i) \<Longrightarrow> get16 b' n = get16 b n"
  "(\<And>i. n \<le> i \<Longrightarrow> i < n + 4 \<Longrightarrow> b' i = b i) \<Longrightarrow> get32 b' n = get32 b n"
  by (simp_all add: get32_def get16_def)

lemma get16_apart [simp]:
  "m < n \<or> n + 2 \<le> m \<Longrightarrow> get16 (set8 m v b) n = get16 b n"
  "m + 2 \<le> n \<or> n + 2 \<le> m \<Longrightarrow> get16 (set16 m w b) n = get16 b n"
  "m + 4 \<le> n \<or> n + 2 \<le> m \<Longrightarrow> get16 (set32 m x b) n = get16 b n"
  "m + 8 \<le> n \<or> n + 2 \<le> m \<Longrightarrow> get16 (set64 m y b) n = get16 b n"
  "n + 2 \<le> d \<or> d + k \<le> n \<Longrightarrow> get16 (memcpy b d src s k) n = get16 b n"
  "n + 2 \<le> d \<or> d + k \<le> n \<Longrightarrow> get16 (memset b d v k) n = get16 b n"
  by (rule get_apart; auto simp: memcpy_def memset_def)+

lemma get32_set32 [simp]: "get32 (set32 n v b) n = v"
proof -
  have "get16 (set32 n v b) n = ucast (drop_bit 16 v)" by (simp add: set32_def)
  moreover have "get16 (set32 n v b) (n + 2) = ucast v" by (simp add: set32_def)
  ultimately have "get32 (set32 n v b) n = word_cat (ucast (drop_bit 16 v) :: u16) (ucast v :: u16)"
    unfolding get32_def by (simp only:)
  also have "\<dots> = v" by (rule bit_word_eqI) (auto simp: bit_word_cat_iff bit_simps)
  finally show ?thesis .
qed

lemma get32_apart [simp]:
  "m < n \<or> n + 4 \<le> m \<Longrightarrow> get32 (set8 m v b) n = get32 b n"
  "m + 2 \<le> n \<or> n + 4 \<le> m \<Longrightarrow> get32 (set16 m w b) n = get32 b n"
  "m + 4 \<le> n \<or> n + 4 \<le> m \<Longrightarrow> get32 (set32 m x b) n = get32 b n"
  "n + 4 \<le> d \<or> d + k \<le> n \<Longrightarrow> get32 (memcpy b d src s k) n = get32 b n"
  "n + 4 \<le> d \<or> d + k \<le> n \<Longrightarrow> get32 (memset b d v k) n = get32 b n"
  by (rule get_apart; auto simp: memcpy_def memset_def)+

lemma get64_set64 [simp]: "get64 (set64 n v b) n = v"
proof -
  have "get32 (set64 n v b) n = ucast (drop_bit 32 v)" by (simp add: set64_def)
  moreover have "get32 (set64 n v b) (n + 4) = ucast v" by (simp add: set64_def)
  ultimately have "get64 (set64 n v b) n = word_cat (ucast (drop_bit 32 v) :: u32) (ucast v :: u32)"
    unfolding get64_def by (simp only:)
  also have "\<dots> = v" by (rule bit_word_eqI) (auto simp: bit_word_cat_iff bit_simps)
  finally show ?thesis .
qed

lemma get64_apart [simp]:
  "m < n \<or> n + 8 \<le> m \<Longrightarrow> get64 (set8 m v b) n = get64 b n"
  "m + 8 \<le> n \<or> n + 8 \<le> m \<Longrightarrow> get64 (set64 m x b) n = get64 b n"
  unfolding get64_def by (auto simp: set64_def)

text \<open>Words that agree have bytes that agree.\<close>

lemma word_cat_inj:
  assumes "(word_cat (a :: 'a::len word) (b :: 'b::len word) :: 'c::len word) = word_cat a' b'" "LENGTH('c) = LENGTH('a) + LENGTH('b)"
  shows "a = a' \<and> b = b'"
proof -
  have ab: "bit (word_cat x y :: 'c word) n \<longleftrightarrow> (if n < LENGTH('b) then bit y n else bit x (n - LENGTH('b)))"
    if "n < LENGTH('c)" for n and x :: "'a word" and y :: "'b word"
    using that assms(2) by (auto simp: bit_word_cat_iff bit_imp_le_length)
  have "a = a'"
  proof (rule bit_word_eqI)
    fix n assume "n < LENGTH('a)"
    then have n: "n + LENGTH('b) < LENGTH('c)" using assms(2) by simp
    show "bit a n = bit a' n" using ab [OF n, of a b] ab [OF n, of a' b'] assms(1) by simp
  qed
  moreover have "b = b'"
  proof (rule bit_word_eqI)
    fix n assume n: "n < LENGTH('b)"
    then have c: "n < LENGTH('c)" using assms(2) by simp
    show "bit b n = bit b' n" using ab [OF c, of a b] ab [OF c, of a' b'] assms(1) n by simp
  qed
  ultimately show ?thesis ..
qed

lemma get16_inj: "get16 b n = get16 c m \<Longrightarrow> i < 2 \<Longrightarrow> b (n + i) = c (m + i)"
  using word_cat_inj [of "b n" "b (n + 1)" "c m" "c (m + 1)", where 'c = 16] by (auto simp: get16_def less_2_cases_iff)

lemma get32_inj: "get32 b n = get32 c m \<Longrightarrow> i < 4 \<Longrightarrow> b (n + i) = c (m + i)"
proof -
  assume e: "get32 b n = get32 c m" and i: "i < 4"
  have h: "get16 b n = get16 c m" "get16 b (n + 2) = get16 c (m + 2)"
    using e word_cat_inj [of "get16 b n" "get16 b (n + 2)" "get16 c m" "get16 c (m + 2)", where 'c = 32] by (auto simp: get32_def)
  show ?thesis
  proof (cases "i < 2")
    case False
    then obtain j where "i = 2 + j" using le_Suc_ex not_less by metis
    then show ?thesis using get16_inj [OF h(2), of j] i by (simp add: add.assoc)
  qed (rule get16_inj [OF h(1)])
qed

lemma get64_inj: "get64 b n = get64 c m \<Longrightarrow> i < 8 \<Longrightarrow> b (n + i) = c (m + i)"
proof -
  assume e: "get64 b n = get64 c m" and i: "i < 8"
  have h: "get32 b n = get32 c m" "get32 b (n + 4) = get32 c (m + 4)"
    using e word_cat_inj [of "get32 b n" "get32 b (n + 4)" "get32 c m" "get32 c (m + 4)", where 'c = 64] by (auto simp: get64_def)
  show ?thesis
  proof (cases "i < 4")
    case False
    then obtain j where "i = 4 + j" using le_Suc_ex not_less by metis
    then show ?thesis using get32_inj [OF h(2), of j] i by (simp add: add.assoc)
  qed (rule get32_inj [OF h(1)])
qed

lemma mem_apart [simp]:
  "i < d \<or> d + k \<le> i \<Longrightarrow> memcpy b d src s k i = b i"
  "i < d \<or> d + k \<le> i \<Longrightarrow> memset b d v k i = b i"
  by (auto simp: memcpy_def memset_def)

lemma mem_inside:
  "d \<le> i \<Longrightarrow> i < d + k \<Longrightarrow> memcpy b d src s k i = src (s + (i - d))"
  "d \<le> i \<Longrightarrow> i < d + k \<Longrightarrow> memset b d v k i = v"
  by (auto simp: memcpy_def memset_def)

lemma get16_copy: "d \<le> n \<Longrightarrow> n + 2 \<le> d + k \<Longrightarrow> get16 (memcpy b d src s k) n = get16 src (s + (n - d))"
  by (simp add: get16_def memcpy_def Suc_diff_le)

lemma get32_copy: "d \<le> n \<Longrightarrow> n + 4 \<le> d + k \<Longrightarrow> get32 (memcpy b d src s k) n = get32 src (s + (n - d))"
  using get16_copy [of d n k b src s] get16_copy [of d "n + 2" k b src s]
  by (simp add: get32_def Suc_diff_le)

lemma get16_zero: "b n = 0 \<Longrightarrow> b (n + 1) = 0 \<Longrightarrow> get16 b n = 0"
  by (rule bit_word_eqI) (simp add: get16_def bit_word_cat_iff)

end
