(* ===== verification/Trace.thy ===== *)
theory Trace imports OCC_Bytes SSX_Semaphore begin

text \<open>
  The trace facility (occ_405/trac/trac_interface.c): three 8 KiB ring buffers (INF, ERR,
  IMP), each a 40-byte header followed by 8152 bytes of entries and guarded by a semaphore
  used as a mutex, and a four-entry circular buffer for traces taken in interrupt handlers
  that find the mutex held. Buffers are bytes, header fields are read at their offsets.

  A semaphore wait is one atomic outcome: the count is taken, or the call returns its error
  (no wait in an interrupt handler, timed out in a thread). \<open>tr_crit\<close> counts the critical
  sections entered and not yet left.
\<close>

section \<open>Data\<close>

datatype td = TD_INF | TD_ERR | TD_IMP

definition TRACE_BUFFER_SIZE :: u32 where "TRACE_BUFFER_SIZE = 8192"
definition TRACE_HEAD_SIZE :: u32 where "TRACE_HEAD_SIZE = 40"
definition CIRCULAR_BUFFER_SIZE :: u32 where "CIRCULAR_BUFFER_SIZE = 4"
definition TRACE_MAX_ARGS :: nat where "TRACE_MAX_ARGS = 5"

definition TRAC_INVALID_PARM :: int where "TRAC_INVALID_PARM = 0x0304"
definition TRAC_DATA_SIZE_TOO_LARGE :: int where "TRAC_DATA_SIZE_TOO_LARGE = 0x0305"
definition TRAC_DATA_SIZE_LESS_THAN_HEADER_SIZE :: int where "TRAC_DATA_SIZE_LESS_THAN_HEADER_SIZE = 0x0306"
definition TRAC_CIRCULAR_BUFF_FULL :: int where "TRAC_CIRCULAR_BUFF_FULL = 0x0307"

text \<open>Offsets in \<open>trace_buf_head_t\<close> and \<open>trace_entire_entry_t\<close>.\<close>

abbreviation (input) "TB_ver \<equiv> (0 :: nat)"
abbreviation (input) "TB_hdr_len \<equiv> (1 :: nat)"
abbreviation (input) "TB_time_flg \<equiv> (2 :: nat)"
abbreviation (input) "TB_endian_flg \<equiv> (3 :: nat)"
abbreviation (input) "TB_comp \<equiv> (4 :: nat)"
abbreviation (input) "TB_size \<equiv> (20 :: nat)"
abbreviation (input) "TB_times_wrap \<equiv> (24 :: nat)"
abbreviation (input) "TB_next_free \<equiv> (28 :: nat)"
abbreviation (input) "TB_te_count \<equiv> (32 :: nat)"

abbreviation (input) "TE_tbh \<equiv> (0 :: nat)"
abbreviation (input) "TE_tbl \<equiv> (4 :: nat)"
abbreviation (input) "TE_tid \<equiv> (8 :: nat)"
abbreviation (input) "TE_length \<equiv> (12 :: nat)"
abbreviation (input) "TE_tag \<equiv> (14 :: nat)"
abbreviation (input) "TE_hash \<equiv> (16 :: nat)"
abbreviation (input) "TE_line \<equiv> (20 :: nat)"
abbreviation (input) "TE_args \<equiv> (24 :: nat)"

record circ_entry =
  ce_len :: u32
  ce_comp :: "u8 list"
  ce_entry :: bytes

record trace =
  tr_buf :: "td \<Rightarrow> bytes"
  tr_sem :: "td \<Rightarrow> nat"
  circ_full :: bool
  circ_head :: u32
  circ_tail :: u32
  circ_count :: u32
  circ_buf :: "nat \<Rightarrow> circ_entry"
  tr_thread :: bool
  tr_crit :: nat
  tr_time :: u64
  tr_hz :: u32

text \<open>The component names of \<open>g_des_array\<close>, with the terminating zero (\<open>COMP_NAME_SIZE\<close> is 4).\<close>

definition td_comp :: "td \<Rightarrow> u8 list" where
  "td_comp d = (case d of TD_INF \<Rightarrow> [0x49, 0x4e, 0x46, 0] | TD_ERR \<Rightarrow> [0x45, 0x52, 0x52, 0] | TD_IMP \<Rightarrow> [0x49, 0x4d, 0x50, 0])"

definition upd_buf :: "td \<Rightarrow> (bytes \<Rightarrow> bytes) \<Rightarrow> trace \<Rightarrow> trace" where
  "upd_buf d f s = s\<lparr>tr_buf := (tr_buf s)(d := f (tr_buf s d))\<rparr>"

section \<open>The mutexes\<close>

text \<open>\<open>wait\<close> is false for \<open>SSX_NO_WAIT\<close>. The semaphores are created with count 1, maximum 1.\<close>

definition trac_pend :: "td \<Rightarrow> bool \<Rightarrow> trace \<Rightarrow> (int, trace) kcall" where
  "trac_pend d wait s =
     (if tr_sem s d \<noteq> 0 then Inr (SSX_OK, s\<lparr>tr_sem := (tr_sem s)(d := tr_sem s d - 1)\<rparr>)
      else if \<not> wait then Inr (- SSX_SEMAPHORE_PEND_NO_WAIT, s)
      else if \<not> tr_thread s then Inl SSX_SEMAPHORE_PEND_WOULD_BLOCK
      else Inr (- SSX_SEMAPHORE_PEND_TIMED_OUT, s))"

definition trac_post :: "td \<Rightarrow> trace \<Rightarrow> panic_code + trace" where
  "trac_post d s =
     (if tr_sem s d + 1 > 1 then Inl SSX_SEMAPHORE_OVERFLOW
      else Inr (s\<lparr>tr_sem := (tr_sem s)(d := tr_sem s d + 1)\<rparr>))"

definition crit_enter :: "trace \<Rightarrow> trace" where
  "crit_enter s = (if tr_thread s then s\<lparr>tr_crit := tr_crit s + 1\<rparr> else s)"

definition crit_exit :: "trace \<Rightarrow> trace" where
  "crit_exit s = (if tr_thread s then s\<lparr>tr_crit := tr_crit s - 1\<rparr> else s)"

section \<open>Buffers\<close>

definition trac_init_values_buffer :: "u8 list \<Rightarrow> bytes \<Rightarrow> bytes" where
  "trac_init_values_buffer nm b =
     (let b1 = memset b 0 0 (unat TRACE_BUFFER_SIZE);
          b2 = set8 TB_ver 1 b1;
          b3 = set8 TB_hdr_len (ucast TRACE_HEAD_SIZE) b2;
          b4 = set8 TB_time_flg 0 b3;
          b5 = set8 TB_endian_flg 0x42 b4;
          b6 = memcpy b5 TB_comp (\<lambda>i. nm ! i) 0 4;
          b7 = set32 TB_size TRACE_BUFFER_SIZE b6;
          b8 = set32 TB_times_wrap 0 b7
      in set32 TB_next_free TRACE_HEAD_SIZE b8)"

definition align4 :: "u32 \<Rightarrow> u32" where
  "align4 x = (x + 3) AND NOT 3"

definition trac_write_data :: "td \<Rightarrow> bytes \<Rightarrow> u32 \<Rightarrow> trace \<Rightarrow> int \<times> trace" where
  "trac_write_data d src i_size s =
     (if i_size > TRACE_BUFFER_SIZE then (TRAC_DATA_SIZE_TOO_LARGE, s)
      else let b = tr_buf s d;
               nf = get32 b TB_next_free;
               (b1, offset, total) =
                 (if nf + i_size > TRACE_BUFFER_SIZE then
                    (let offset = TRACE_BUFFER_SIZE - nf;
                         c1 = memcpy b (unat (align4 nf)) src 0 (unat offset);
                         c2 = set32 TB_times_wrap (get32 c1 TB_times_wrap + 1) c1
                     in (set32 TB_next_free (ucast (c2 TB_hdr_len)) c2, offset, i_size - offset))
                  else (b, 0, i_size));
               b2 = memcpy b1 (unat (align4 (get32 b1 TB_next_free))) src (unat offset) (unat total);
               b3 = set32 TB_next_free (get32 b2 TB_next_free + align4 total) b2
           in (0, upd_buf d (\<lambda>_. b3) s))"

definition buf_comp :: "bytes \<Rightarrow> u8 list" where
  "buf_comp b = List.map (\<lambda>i. b (TB_comp + i)) [0..<4]"

definition TRAC_get_td :: "u8 list \<Rightarrow> trace \<Rightarrow> td option" where
  "TRAC_get_td nm s = find (\<lambda>d. nm = buf_comp (tr_buf s d)) [TD_INF, TD_ERR, TD_IMP]"

definition TRAC_get_buffer :: "td \<Rightarrow> bytes \<Rightarrow> trace \<Rightarrow> (int \<times> bytes, trace) kcall" where
  "TRAC_get_buffer d o_data s =
     kbind (trac_pend d True (crit_enter s)) (\<lambda>(rc, s1).
       if rc \<noteq> SSX_OK then Inr ((rc, o_data), s1)
       else kbind (trac_post d s1) (\<lambda>s2.
         Inr ((0, memcpy o_data 0 (tr_buf s2 d) 0 (unat TRACE_BUFFER_SIZE)), crit_exit s2)))"

text \<open>
  The copy made by \<open>TRAC_get_buffer_partial\<close> while it holds the lock: \<open>b\<close> is the trace
  buffer, the result goes to \<open>io_data\<close> at offset \<open>a\<close>.
\<close>

definition partial_copy :: "bytes \<Rightarrow> bytes \<Rightarrow> nat \<Rightarrow> u32 \<Rightarrow> bytes \<times> u32" where
  "partial_copy b io_data a io_size =
     (let d0 = memset io_data a 0 (unat io_size)
      in if io_size \<ge> TRACE_BUFFER_SIZE then
           (memcpy d0 a b 0 (unat TRACE_BUFFER_SIZE), TRACE_BUFFER_SIZE)
         else
           let d1 = memcpy d0 a b 0 (unat (b TB_hdr_len));
               hdr = ucast (d1 (a + TB_hdr_len)) :: u32;
               nf = get32 d1 (a + TB_next_free)
           in if nf = hdr \<and> get32 d1 (a + TB_times_wrap) = 0 then (d1, 0)
              else if nf > io_size then
                (let part = io_size - hdr;
                     d2 = memcpy d1 (a + unat hdr) b (unat (nf - part)) (unat part);
                     d3 = set32 (a + TB_size) io_size d2;
                     d4 = set32 (a + TB_next_free) hdr d3;
                     d5 = (if get32 d4 (a + TB_times_wrap) = 0 then set32 (a + TB_times_wrap) 1 d4 else d4)
                 in (d5, io_size))
              else
                (let d2 = memcpy d1 (a + unat hdr) b (unat hdr) (unat (nf - hdr))
                 in if get32 d2 (a + TB_times_wrap) \<noteq> 0 then
                      (let part = io_size - nf;
                           d3 = memcpy d2 (a + unat nf) b (unat (TRACE_BUFFER_SIZE - part)) (unat part)
                       in (set32 (a + TB_size) io_size d3, io_size))
                    else (set32 (a + TB_size) nf d2, nf)))"

definition TRAC_get_buffer_partial ::
  "td \<Rightarrow> bytes \<Rightarrow> nat \<Rightarrow> u32 \<Rightarrow> trace \<Rightarrow> (int \<times> bytes \<times> u32, trace) kcall" where
  "TRAC_get_buffer_partial d io_data a io_size s =
     (if io_size < TRACE_HEAD_SIZE then Inr ((TRAC_DATA_SIZE_LESS_THAN_HEADER_SIZE, io_data, 0), s)
      else kbind (trac_pend d True (crit_enter s)) (\<lambda>(rc, s1).
        if rc \<noteq> SSX_OK then Inr ((rc, io_data, io_size), s1)
        else let (data, sz) = partial_copy (tr_buf s1 d) io_data a io_size
             in kbind (trac_post d s1) (\<lambda>s2. Inr ((0, data, sz), crit_exit s2))))"

text \<open>The loop body of \<open>TRAC_reset_buf\<close>; \<open>trac_init_values_buffer\<close> always returns 0.\<close>

primrec reset_bufs :: "td list \<Rightarrow> int \<Rightarrow> trace \<Rightarrow> (int, trace) kcall" where
  "reset_bufs [] rc s = Inr (rc, s)"
| "reset_bufs (d # ds) rc0 s =
     kbind (trac_pend d True s) (\<lambda>(rc, s1).
       let (rc', s2) = (if rc \<noteq> SSX_OK then (rc, s1)
                        else (0, upd_buf d (trac_init_values_buffer (td_comp d)) s1))
       in kbind (trac_post d s2) (\<lambda>s3. reset_bufs ds rc' s3))"

definition TRAC_reset_buf :: "trace \<Rightarrow> (int, trace) kcall" where
  "TRAC_reset_buf s =
     kbind (reset_bufs [TD_INF, TD_ERR, TD_IMP] 0 (crit_enter s)) (\<lambda>(rc, s1). Inr (rc, crit_exit s1))"

definition TRAC_init_buffers :: "trace \<Rightarrow> trace" where
  "TRAC_init_buffers s =
     s\<lparr>tr_sem := (\<lambda>_. 1),
       tr_buf := (\<lambda>d. trac_init_values_buffer (td_comp d) (tr_buf s d)),
       circ_head := 0, circ_tail := 0, circ_count := 0,
       circ_buf := (\<lambda>i. if i < unat CIRCULAR_BUFFER_SIZE
                        then \<lparr>ce_len = 0, ce_comp = [0, 0, 0, 0], ce_entry = (\<lambda>_. 0)\<rparr> else circ_buf s i)\<rparr>"

section \<open>Writing a trace entry\<close>

text \<open>
  \<open>l_entry\<close> as a byte string: \<open>junk\<close> is the uninitialised local, the arguments beyond
  \<open>num_args\<close> stay as they were.
\<close>

definition entry_size :: "u32 \<Rightarrow> u32" where
  "entry_size num_args = align4 (12 + 12 + 4 + num_args * 4)"

primrec set_args :: "nat \<Rightarrow> (nat \<Rightarrow> u32) \<Rightarrow> bytes \<Rightarrow> bytes" where
  "set_args 0 arg e = e"
| "set_args (Suc n) arg e = set_args n arg (set32 (TE_args + 4 * n) (arg n) e)"

definition trace_entry :: "bytes \<Rightarrow> u32 \<Rightarrow> u32 \<Rightarrow> u32 \<Rightarrow> (nat \<Rightarrow> u32) \<Rightarrow> trace \<Rightarrow> bytes" where
  "trace_entry junk hash line num_args arg s =
     (let e1 = set32 TE_tid (if tr_thread s then 1 else 0) junk;
          e2 = set32 TE_tbh (ucast (tr_time s div ucast (tr_hz s))) e1;
          e3 = set32 TE_tbl (ucast (((tr_time s mod ucast (tr_hz s)) * 1000000000) div ucast (tr_hz s))) e2;
          e4 = set16 TE_length (ucast (num_args * 4)) e3;
          e5 = set16 TE_tag 0x4654 e4;
          e6 = set32 TE_hash hash e5;
          e7 = set32 TE_line line e6;
          e8 = (if 1 \<le> num_args \<and> num_args \<le> 5 then set_args (unat num_args) arg e7 else e7)
      in set32 (TE_args + 4 * unat num_args) (entry_size num_args) e8)"

text \<open>The locked update of one buffer: count the entry, write it, release.\<close>

definition write_locked :: "td \<Rightarrow> bytes \<Rightarrow> u32 \<Rightarrow> trace \<Rightarrow> (int, trace) kcall" where
  "write_locked d e n s =
     (let s1 = upd_buf d (\<lambda>b. set32 TB_te_count (get32 b TB_te_count + 1) b) s;
          (rc, s2) = trac_write_data d e n s1
      in kbind (trac_post d s2) (\<lambda>s3. Inr (rc, s3)))"

definition trac_write_data_to_circular :: "circ_entry \<Rightarrow> trace \<Rightarrow> trace" where
  "trac_write_data_to_circular c s = s\<lparr>circ_buf := (circ_buf s)(unat (circ_head s) := c)\<rparr>"

definition get_trac_entry_data_from_circular :: "trace \<Rightarrow> circ_entry" where
  "get_trac_entry_data_from_circular s = circ_buf s (unat (circ_tail s))"

text \<open>
  One turn of the unloading loop. None stands for the null descriptor the code would
  dereference.
\<close>

definition unload_step :: "trace \<Rightarrow> (int, trace) kcall option" where
  "unload_step s0 =
     (let s1 = s0\<lparr>tr_crit := tr_crit s0 + 1, circ_tail := circ_tail s0 mod CIRCULAR_BUFFER_SIZE\<rparr>;
          c = get_trac_entry_data_from_circular s1
      in case TRAC_get_td (ce_comp c) s1 of
           None \<Rightarrow> None
         | Some d \<Rightarrow> Some
             (kbind (trac_pend d True s1) (\<lambda>(rc, s2).
                if rc = SSX_OK then
                  (let s3 = upd_buf d (\<lambda>b. set32 TB_te_count (get32 b TB_te_count + 1) b) s2;
                       (rc', s4) = trac_write_data d (ce_entry c) (ce_len c) s3;
                       s5 = (if rc' = 0 then
                               (if circ_tail s4 = circ_head s4 then s4\<lparr>circ_count := 0\<rparr>
                                else s4\<lparr>circ_tail := circ_tail s4 + 1, circ_count := circ_count s4 - 1\<rparr>)
                             else s4)
                   in kbind (trac_post d s5) (\<lambda>s6. Inr (rc', s6\<lparr>tr_crit := tr_crit s6 - 1\<rparr>)))
                else Inr (rc, s2\<lparr>tr_crit := tr_crit s2 - 1\<rparr>))))"

text \<open>The do-while loop, with fuel; None when the fuel runs out.\<close>

fun unload :: "nat \<Rightarrow> trace \<Rightarrow> (int, trace) kcall option" where
  "unload 0 s = None"
| "unload (Suc n) s =
     (case unload_step s of
        None \<Rightarrow> None
      | Some (Inl e) \<Rightarrow> Some (Inl e)
      | Some (Inr (rc, s')) \<Rightarrow> if circ_count s' > 0 then unload n s' else Some (Inr (rc, s')))"

text \<open>
  \<open>imp_hash\<close> is the hash the trace preprocessor computes for the message about lost entries.
\<close>

definition report_lost :: "u32 \<Rightarrow> u32 \<Rightarrow> u32 \<Rightarrow> bytes \<Rightarrow> trace \<Rightarrow> (int, trace) kcall" where
  "report_lost imp_hash num_args sz e s =
     (let sz1 = sz + (1 - num_args) * 4;
          e1 = set32 TE_hash imp_hash e;
          e2 = set32 TE_line 474 e1;
          e3 = set16 TE_length 4 e2;
          e4 = set32 TE_args (if circ_full s then 1 else 0) e3;
          e5 = set32 (TE_args + 4) sz1 e4
      in kbind (trac_pend TD_IMP True (s\<lparr>tr_crit := tr_crit s + 1\<rparr>)) (\<lambda>(rc, s1).
           kbind (if rc = SSX_OK then write_locked TD_IMP e5 sz1 s1 else Inr (rc, s1)) (\<lambda>(rc', s2).
             Inr (TRAC_CIRCULAR_BUFF_FULL, s2\<lparr>tr_crit := tr_crit s2 - 1, circ_full := False\<rparr>))))"

definition trac_write_int ::
  "nat \<Rightarrow> u32 \<Rightarrow> bytes \<Rightarrow> td option \<Rightarrow> u32 \<Rightarrow> u32 \<Rightarrow> u32 \<Rightarrow> (nat \<Rightarrow> u32) \<Rightarrow> trace \<Rightarrow> (int, trace) kcall option" where
  "trac_write_int fuel imp_hash junk io_td hash line num_args arg s =
     (case io_td of
        None \<Rightarrow> Some (Inr (TRAC_INVALID_PARM, s))
      | Some d \<Rightarrow>
          let sz = entry_size num_args;
              e = trace_entry junk hash line num_args arg s
          in case trac_pend d (tr_thread s) (crit_enter s) of
               Inl p \<Rightarrow> Some (Inl p)
             | Inr (rc, s1) \<Rightarrow>
                 if rc \<noteq> SSX_OK \<and> \<not> tr_thread s1 \<and> circ_count s1 \<ge> CIRCULAR_BUFFER_SIZE then
                   Some (kbind (trac_post d (s1\<lparr>circ_full := True\<rparr>)) (\<lambda>s2. Inr (TRAC_CIRCULAR_BUFF_FULL, s2)))
                 else
                   let r1 = (if rc = SSX_OK then write_locked d e sz s1
                             else if \<not> tr_thread s1 then
                               (let s2 = trac_write_data_to_circular
                                      \<lparr>ce_len = sz, ce_comp = td_comp d, ce_entry = e\<rparr> s1
                                in Inr (0, s2\<lparr>circ_head := (circ_head s2 + 1) mod CIRCULAR_BUFFER_SIZE,
                                              circ_count := circ_count s2 + 1\<rparr>))
                             else Inr (rc, s1))
                   in case kbind r1 (\<lambda>(rc1, s2). Inr (rc1, crit_exit s2)) of
                        Inl p \<Rightarrow> Some (Inl p)
                      | Inr (rc1, s3) \<Rightarrow>
                          if tr_thread s3 \<and> circ_count s3 > 0 then
                            (case (if circ_full s3 then report_lost imp_hash num_args sz e s3
                                   else Inr (rc1, s3)) of
                               Inl p \<Rightarrow> Some (Inl p)
                             | Inr (_, s4) \<Rightarrow> unload fuel s4)
                          else Some (Inr (rc1, s3)))"

section \<open>The ring\<close>

text \<open>
  \<open>ring_ok b ws\<close>: the buffer \<open>b\<close> has seen exactly the bytes \<open>ws\<close> since it was
  initialised. The header tells how many, and the most recent 8152 of them are in place.
\<close>

definition ring_size :: nat where "ring_size = 8152"

definition ring_pos :: "nat \<Rightarrow> nat" where "ring_pos k = 40 + k mod ring_size"

definition head_ok :: "bytes \<Rightarrow> bool" where
  "head_ok b \<longleftrightarrow> b TB_hdr_len = 40 \<and> 40 \<le> unat (get32 b TB_next_free) \<and> unat (get32 b TB_next_free) \<le> 8192
     \<and> unat (get32 b TB_next_free) mod 4 = 0"

definition ring_ok :: "bytes \<Rightarrow> u8 list \<Rightarrow> bool" where
  "ring_ok b ws \<longleftrightarrow> head_ok b \<and>
     (\<exists>w. get32 b TB_times_wrap = of_nat w \<and>
          length ws = w * ring_size + (unat (get32 b TB_next_free) - 40)) \<and>
     (\<forall>k < length ws. length ws \<le> k + ring_size \<longrightarrow> b (ring_pos k) = ws ! k)"

lemma align4_unat:
  assumes "unat x + 3 < 2 ^ 32"
  shows "unat (align4 x) = (unat x + 3) div 4 * 4"
proof -
  have "align4 x = push_bit 2 (drop_bit 2 (x + 3))"
  proof (rule bit_word_eqI)
    fix n assume n: "n < LENGTH(32)"
    have "(3 :: u32) = mask 2" by (simp add: mask_eq_exp_minus_1)
    then show "bit (align4 x) n = bit (push_bit 2 (drop_bit 2 (x + 3))) n"
      using n unfolding align4_def by (cases "n < 2")
        (simp_all only: bit_and_iff bit_not_iff bit_mask_iff bit_push_bit_iff bit_drop_bit_eq comp_def
          le_add_diff_inverse not_less, simp_all)
  qed
  also have "\<dots> = (x + 3) div 4 * 4" by (simp add: push_bit_eq_mult drop_bit_eq_div)
  finally have *: "align4 x = (x + 3) div 4 * 4" .
  have u: "unat (x + 3) = unat x + 3" using assms unat_add_lem [of x "3 :: u32"] by simp
  have d: "unat ((x + 3) div 4) = (unat x + 3) div 4" by (simp only: unat_div u) simp
  have "(unat x + 3) div 4 * 4 \<le> unat x + 3" by simp
  then have "unat ((x + 3) div 4) * unat (4 :: u32) < 2 ^ 32" using assms unfolding d by simp
  then show ?thesis unfolding * using unat_mult_lem [of "(x + 3) div 4" "4 :: u32"] d by simp
qed

lemma align4_id: "unat x mod 4 = 0 \<Longrightarrow> unat x \<le> 8192 \<Longrightarrow> align4 x = x"
proof -
  assume a: "unat x mod 4 = 0" "unat x \<le> 8192"
  then have "unat x + 3 < 2 ^ 32" by simp
  from align4_unat [OF this] a(1) have "unat (align4 x) = unat x" by presburger
  then show ?thesis by (simp add: word_unat_eq_iff)
qed

lemma ring_pos_next:
  assumes "L = w * ring_size + (nf - 40)" "40 \<le> nf" "nf \<le> 8192" "j < ring_size"
  shows "ring_pos (L + j) = (if nf + j < 8192 then nf + j else nf + j - ring_size)"
proof -
  have "(L + j) mod ring_size = (nf - 40 + j) mod ring_size" using assms(1) by (simp add: add.assoc)
  also have "\<dots> = (if nf - 40 + j < ring_size then nf - 40 + j else nf - 40 + j - ring_size)"
    using assms(3,4) by (auto simp: ring_size_def mod_if [of "nf - 40 + j"])
  finally show ?thesis using assms(2-4) by (auto simp: ring_pos_def ring_size_def)
qed

lemma ring_pos_inj:
  assumes "ring_pos k = ring_pos m" "k < m" shows "k + ring_size \<le> m"
proof -
  from assms(1) have "k mod ring_size = m mod ring_size" by (simp add: ring_pos_def)
  then have "ring_size dvd m - k" using assms(2) mod_eq_dvd_iff_nat [of k m ring_size] by simp
  moreover have "0 < m - k" using assms(2) by simp
  ultimately have "ring_size \<le> m - k" by (rule dvd_imp_le)
  then show ?thesis using assms(2) by linarith
qed

text \<open>A write puts its bytes at the next positions of the ring and touches no other data.\<close>

lemma ring_content:
  assumes r: "\<forall>k < length ws. length ws \<le> k + ring_size \<longrightarrow> b (ring_pos k) = ws ! k"
    and n: "n \<le> ring_size"
    and new: "\<And>j. j < n \<Longrightarrow> b' (ring_pos (length ws + j)) = src j"
    and old: "\<And>i. 40 \<le> i \<Longrightarrow> (\<And>j. j < n \<Longrightarrow> i \<noteq> ring_pos (length ws + j)) \<Longrightarrow> b' i = b i"
    and k: "k < length ws + n" "length ws + n \<le> k + ring_size"
  shows "b' (ring_pos k) = (ws @ List.map src [0..<n]) ! k"
proof (cases "k < length ws")
  case True
  have "b' (ring_pos k) = b (ring_pos k)"
  proof (rule old)
    fix j assume "j < n"
    then show "ring_pos k \<noteq> ring_pos (length ws + j)" using ring_pos_inj [of k "length ws + j"] True k by auto
  qed (simp add: ring_pos_def)
  with True r k show ?thesis by (simp add: nth_append)
next
  case False
  then show ?thesis using new [of "k - length ws"] k by (simp add: nth_append)
qed

text \<open>What \<open>trac_write_data\<close> does to the buffer, in natural numbers.\<close>

lemma write_data_eq:
  assumes h: "head_ok (tr_buf s d)" and n: "unat n \<le> ring_size" "unat n mod 4 = 0"
    and L: "L = w * ring_size + (unat (get32 (tr_buf s d) TB_next_free) - 40)"
  obtains b' nf' where "trac_write_data d src n s = (0, upd_buf d (\<lambda>_. b') s)"
    and "unat (get32 b' TB_next_free) = nf'" "40 \<le> nf'" "nf' \<le> 8192" "nf' mod 4 = 0" "b' TB_hdr_len = 40"
    and "\<exists>w'. L + unat n = w' * ring_size + (nf' - 40) \<and>
          get32 b' TB_times_wrap = get32 (tr_buf s d) TB_times_wrap + of_nat (w' - w) \<and> w \<le> w'"
    and "\<forall>j < unat n. b' (ring_pos (L + j)) = src j"
    and "\<forall>i \<ge> 40. (\<forall>j < unat n. i \<noteq> ring_pos (L + j)) \<longrightarrow> b' i = tr_buf s d i"
    and "\<forall>i \<ge> 8192. b' i = tr_buf s d i"
proof -
  define b where "b = tr_buf s d"
  define nf where "nf = unat (get32 b TB_next_free)"
  have nf: "40 \<le> nf" "nf \<le> 8192" "nf mod 4 = 0" "b 1 = 40"
    using h by (simp_all add: head_ok_def b_def nf_def)
  have nfw: "get32 b TB_next_free = of_nat nf" by (simp add: nf_def)
  have L': "L = w * ring_size + (nf - 40)" using L by (simp add: nf_def b_def)
  have le: "\<not> n > TRACE_BUFFER_SIZE" using n by (simp add: TRACE_BUFFER_SIZE_def word_less_nat_alt ring_size_def)
  have sum: "unat (get32 b 28 + n) = nf + unat n"
    using nf n unat_add_lem [of "get32 b 28" n] by (simp add: nf_def ring_size_def)
  have an: "align4 (get32 b 28) = get32 b 28" using nf by (intro align4_id) (simp_all add: nf_def)
  note pos = ring_pos_next [OF L' nf(1,2)]
  show thesis
  proof (cases "nf + unat n \<le> 8192")
    case True
    define b' where "b' = set32 TB_next_free (get32 b TB_next_free + n) (memcpy b nf src 0 (unat n))"
    have an2: "align4 n = n" using n by (intro align4_id) (simp_all add: ring_size_def)
    have "\<not> get32 b TB_next_free + n > TRACE_BUFFER_SIZE"
      using True by (simp add: TRACE_BUFFER_SIZE_def word_less_nat_alt sum)
    moreover have "get32 (memcpy b nf src 0 (unat n)) TB_next_free = get32 b TB_next_free" using nf by simp
    ultimately have 1: "trac_write_data d src n s = (0, upd_buf d (\<lambda>_. b') s)"
      using le by (simp add: trac_write_data_def Let_def b_def [symmetric] b'_def an an2 nf_def [symmetric])
    have p: "ring_pos (L + j) = nf + j" if "j < unat n" for j
      using pos [of j] that True n by simp
    show thesis
    proof (rule that [OF 1, of "nf + unat n"])
      show "unat (get32 b' TB_next_free) = nf + unat n" by (simp add: b'_def sum)
      show "(nf + unat n) mod 4 = 0" using nf(3) n(2) by presburger
      show "b' TB_hdr_len = 40" using nf by (simp add: b'_def)
      have "get32 b' TB_times_wrap = get32 b TB_times_wrap" using nf by (simp add: b'_def)
      then show "\<exists>w'. L + unat n = w' * ring_size + (nf + unat n - 40) \<and>
          get32 b' TB_times_wrap = get32 (tr_buf s d) TB_times_wrap + of_nat (w' - w) \<and> w \<le> w'"
        using L' nf by (intro exI [of _ w]) (simp add: b_def)
      show "\<forall>j < unat n. b' (ring_pos (L + j)) = src j"
        using nf by (simp add: p b'_def mem_inside)
      show "\<forall>i \<ge> 40. (\<forall>j < unat n. i \<noteq> ring_pos (L + j)) \<longrightarrow> b' i = tr_buf s d i"
      proof (intro allI impI)
        fix i assume i: "40 \<le> i" "\<forall>j < unat n. i \<noteq> ring_pos (L + j)"
        have "\<not> (nf \<le> i \<and> i < nf + unat n)"
        proof
          assume a: "nf \<le> i \<and> i < nf + unat n"
          then have "i - nf < unat n" by linarith
          with p [OF this] i(2) a show False by auto
        qed
        then show "b' i = tr_buf s d i" using i(1) by (auto simp: b'_def b_def)
      qed
      show "\<forall>i \<ge> 8192. b' i = tr_buf s d i"
        using True by (simp add: b'_def b_def)
    qed (use True nf in simp_all)
  next
    case False
    define off where "off = TRACE_BUFFER_SIZE - get32 b TB_next_free"
    have off: "unat off = 8192 - nf"
      using nf unat_sub [of "get32 b 28" TRACE_BUFFER_SIZE]
      by (simp add: off_def TRACE_BUFFER_SIZE_def word_le_nat_alt nf_def)
    have tot: "unat (n - off) = unat n - (8192 - nf)"
      using False unat_sub [of off n] by (simp add: word_le_nat_alt off)
    define c where "c = set32 TB_next_free 40 (set32 TB_times_wrap (get32 b TB_times_wrap + 1) (memcpy b nf src 0 (unat off)))"
    define b' where "b' = set32 TB_next_free (40 + (n - off)) (memcpy c 40 src (unat off) (unat (n - off)))"
    have an2: "align4 (n - off) = n - off" "align4 40 = 40"
      using n nf False by (intro align4_id; simp add: tot ring_size_def; presburger)+
    have "get32 b TB_next_free + n > TRACE_BUFFER_SIZE"
      using False by (simp add: TRACE_BUFFER_SIZE_def word_less_nat_alt sum)
    moreover have "get32 (memcpy b nf src 0 (unat off)) TB_times_wrap = get32 b TB_times_wrap" using nf by simp
    moreover have "(set32 TB_times_wrap x (memcpy b nf src 0 (unat off))) TB_hdr_len = 40" for x using nf by simp
    ultimately have 1: "trac_write_data d src n s = (0, upd_buf d (\<lambda>_. b') s)"
      using le by (simp add: trac_write_data_def Let_def b_def [symmetric] off_def [symmetric] b'_def c_def
          an an2 nf_def [symmetric])
    have p: "ring_pos (L + j) = (if nf + j < 8192 then nf + j else nf + j - ring_size)" if "j < unat n" for j
      using pos [of j] that n by simp
    have sum2: "unat (40 + (n - off)) = 40 + (unat n - (8192 - nf))"
      using n tot unat_add_lem [of 40 "n - off"] by (auto simp: ring_size_def)
    show thesis
    proof (rule that [OF 1, of "40 + (unat n - (8192 - nf))"])
      show "unat (get32 b' TB_next_free) = 40 + (unat n - (8192 - nf))" by (simp add: b'_def sum2)
      show "(40 + (unat n - (8192 - nf))) mod 4 = 0" using nf(2,3) n(2) by presburger
      show "b' TB_hdr_len = 40" using nf by (simp add: b'_def c_def)
      have "get32 b' TB_times_wrap = get32 b TB_times_wrap + 1" using nf by (simp add: b'_def c_def)
      then show "\<exists>w'. L + unat n = w' * ring_size + (40 + (unat n - (8192 - nf)) - 40) \<and>
          get32 b' TB_times_wrap = get32 (tr_buf s d) TB_times_wrap + of_nat (w' - w) \<and> w \<le> w'"
        using L' nf False by (intro exI [of _ "w + 1"]) (simp add: b_def ring_size_def)
      show "\<forall>j < unat n. b' (ring_pos (L + j)) = src j"
      proof (intro allI impI)
        fix j assume j: "j < unat n"
        show "b' (ring_pos (L + j)) = src j"
        proof (cases "nf + j < 8192")
          case True
          then show ?thesis using j nf n False
            by (simp add: p b'_def c_def mem_inside tot off ring_size_def)
        next
          case F: False
          define q where "q = j - (8192 - nf)"
          have q: "ring_pos (L + j) = 40 + q" "q < unat n - (8192 - nf)" "8192 - nf + q = j"
            using j nf F by (simp_all add: p ring_size_def q_def)
          then show ?thesis using mem_inside(1) [of 40 "40 + q" "unat n - (8192 - nf)" c src "8192 - nf"]
            by (simp add: b'_def tot off)
        qed
      qed
      show "\<forall>i \<ge> 40. (\<forall>j < unat n. i \<noteq> ring_pos (L + j)) \<longrightarrow> b' i = tr_buf s d i"
      proof (intro allI impI)
        fix i assume i: "40 \<le> i" "\<forall>j < unat n. i \<noteq> ring_pos (L + j)"
        have 1: "\<not> (nf \<le> i \<and> i < 8192)"
        proof
          assume a: "nf \<le> i \<and> i < 8192"
          then have "i - nf < unat n" using False by linarith
          with p [OF this] i(2) a show False by auto
        qed
        have 2: "\<not> i < 40 + (unat n - (8192 - nf))"
        proof
          assume "i < 40 + (unat n - (8192 - nf))"
          then have j: "i - 40 + (8192 - nf) < unat n" using i(1) False by linarith
          have "ring_pos (L + (i - 40 + (8192 - nf))) = i" using p [OF j] i(1) nf by (simp add: ring_size_def)
          with i(2) j show False by auto
        qed
        show "b' i = tr_buf s d i" using i(1) nf 1 2 by (auto simp: b'_def c_def b_def tot off)
      qed
      show "\<forall>i \<ge> 8192. b' i = tr_buf s d i"
        using n nf by (simp add: b'_def c_def b_def tot off ring_size_def)
    qed (use n nf in \<open>simp_all add: ring_size_def\<close>)
  qed
qed

lemma ring_write:
  assumes r: "ring_ok (tr_buf s d) ws" and n: "unat n \<le> ring_size" "unat n mod 4 = 0"
    and w: "trac_write_data d src n s = (rc, s')"
  shows "rc = 0" and "ring_ok (tr_buf s' d) (ws @ List.map src [0..<unat n])"
    and "\<And>e. e \<noteq> d \<Longrightarrow> tr_buf s' e = tr_buf s e"
    and "\<And>i. 8192 \<le> i \<Longrightarrow> tr_buf s' d i = tr_buf s d i"
    and "tr_sem s' = tr_sem s"
proof -
  obtain k where k: "get32 (tr_buf s d) TB_times_wrap = of_nat k"
    "length ws = k * ring_size + (unat (get32 (tr_buf s d) TB_next_free) - 40)"
    using r by (auto simp: ring_ok_def)
  have h: "head_ok (tr_buf s d)" using r by (simp add: ring_ok_def)
  obtain b' nf' where e: "trac_write_data d src n s = (0, upd_buf d (\<lambda>_. b') s)"
    and nf: "unat (get32 b' TB_next_free) = nf'" "40 \<le> nf'" "nf' \<le> 8192" "nf' mod 4 = 0" "b' TB_hdr_len = 40"
    and w': "\<exists>w'. length ws + unat n = w' * ring_size + (nf' - 40) \<and>
          get32 b' TB_times_wrap = get32 (tr_buf s d) TB_times_wrap + of_nat (w' - k) \<and> k \<le> w'"
    and new: "\<forall>j < unat n. b' (ring_pos (length ws + j)) = src j"
    and old: "\<forall>i \<ge> 40. (\<forall>j < unat n. i \<noteq> ring_pos (length ws + j)) \<longrightarrow> b' i = tr_buf s d i"
    and top: "\<forall>i \<ge> 8192. b' i = tr_buf s d i"
    by (rule write_data_eq [OF h n k(2), where src = src])
  have s': "rc = 0" "s' = upd_buf d (\<lambda>_. b') s" using w e by simp_all
  show "rc = 0" by (rule s')
  obtain v where v: "length ws + unat n = v * ring_size + (nf' - 40)"
      "get32 b' TB_times_wrap = of_nat k + of_nat (v - k)" "k \<le> v" using w' unfolding k(1) by blast
  have "get32 b' TB_times_wrap = of_nat v" unfolding v(2) of_nat_add [symmetric] using v(3) by simp
  moreover have "head_ok b'" using nf by (simp add: head_ok_def)
  moreover have "b' (ring_pos i) = (ws @ List.map src [0..<unat n]) ! i"
    if "i < length ws + unat n" "length ws + unat n \<le> i + ring_size" for i
    by (rule ring_content [where b = "tr_buf s d" and n = "unat n" and src = src])
      (use r n(1) new old that in \<open>simp_all add: ring_ok_def\<close>)
  ultimately show "ring_ok (tr_buf s' d) (ws @ List.map src [0..<unat n])"
    using v(1) nf(1) by (auto simp: ring_ok_def s' upd_buf_def)
  show "\<And>e. e \<noteq> d \<Longrightarrow> tr_buf s' e = tr_buf s e" "tr_sem s' = tr_sem s" by (simp_all add: s' upd_buf_def)
  show "\<And>i. 8192 \<le> i \<Longrightarrow> tr_buf s' d i = tr_buf s d i" using top by (simp add: s' upd_buf_def)
qed

lemma ring_init: "ring_ok (trac_init_values_buffer nm b) []"
  unfolding ring_ok_def
  by (intro conjI exI [of _ 0]) (simp_all add: head_ok_def trac_init_values_buffer_def Let_def
      TRACE_HEAD_SIZE_def TRACE_BUFFER_SIZE_def)

text \<open>
  \<open>TRAC_get_buffer_partial\<close> never reports more than was asked for and writes only inside
  the area it was given.
\<close>

lemma partial_copy_bounds:
  assumes h: "head_ok b" and z: "40 \<le> unat sz" and r: "partial_copy b dst a sz = (dst', sz')"
  shows "sz' \<le> sz" and "i < a \<or> a + unat sz \<le> i \<Longrightarrow> dst' i = dst i"
proof -
  define nf where "nf = unat (get32 b TB_next_free)"
  have nf: "40 \<le> nf" "nf \<le> 8192" "b 1 = 40" using h by (simp_all add: head_ok_def nf_def)
  have "sz' \<le> sz \<and> (\<forall>i. i < a \<or> a + unat sz \<le> i \<longrightarrow> dst' i = dst i)"
  proof (cases "sz \<ge> TRACE_BUFFER_SIZE")
    case True
    then have "8192 \<le> unat sz" by (simp add: TRACE_BUFFER_SIZE_def word_le_nat_alt)
    with r True show ?thesis by (auto simp: partial_copy_def Let_def TRACE_BUFFER_SIZE_def)
  next
    case False
    then have lt: "unat sz < 8192" by (simp add: TRACE_BUFFER_SIZE_def word_less_nat_alt not_le)
    define d1 where "d1 = memcpy (memset dst a 0 (unat sz)) a b 0 40"
    have hd: "d1 (a + 1) = 40" "get32 d1 (a + 28) = get32 b 28"
      "get32 d1 (a + 24) = get32 b 24"
      using nf(3) by (simp_all add: d1_def mem_inside get32_copy)
    have b1: "b (Suc 0) = 40" using nf(3) by simp
    have out1: "d1 i = dst i" if "i < a \<or> a + unat sz \<le> i" for i using that z by (auto simp: d1_def)
    have u40: "unat (sz - 40) = unat sz - 40" using z unat_sub [of 40 sz] by (simp add: word_le_nat_alt)
    have un: "nf \<le> unat sz \<Longrightarrow> unat (sz - get32 b 28) = unat sz - nf"
      using unat_sub [of "get32 b 28" sz] by (simp add: word_le_nat_alt nf_def)
    have u2: "unat (get32 b 28 - 40) = nf - 40"
      using nf unat_sub [of 40 "get32 b 28"] by (simp add: word_le_nat_alt nf_def)
    have lenf: "get32 b 28 \<le> sz \<longleftrightarrow> nf \<le> unat sz" by (simp add: word_le_nat_alt nf_def)
    have ret: "sz' = 0 \<or> sz' = sz \<or> sz' = get32 b 28 \<and> nf \<le> unat sz"
      using r False hd by (auto simp: partial_copy_def Let_def b1 d1_def [symmetric] lenf not_less
          split: if_splits)
    have "dst' i = dst i" if i: "i < a \<or> a + unat sz \<le> i" for i
      using r False z nf lt hd out1 [OF i] i
      by (auto simp: partial_copy_def Let_def b1 d1_def [symmetric] u40 un u2 lenf nf_def [symmetric] not_less
          split: if_splits)
    with ret show ?thesis using lenf by auto
  qed
  then show "sz' \<le> sz" "i < a \<or> a + unat sz \<le> i \<Longrightarrow> dst' i = dst i" by blast+
qed

end
