(* ===== verification/SSX_Properties.thy ===== *)
theory SSX_Properties
  imports SSX_Init Trace
begin

text \<open>
  What the kernel's parts promise to their callers: the thread queues, the semaphores, the time
  queue, the stacks, and the trace buffers that are written under the kernel's semaphores.
\<close>

section \<open>Thread queues\<close>

lemma queue_min_eq: "queue_min q = (if queue_elems q = {} then 32 else Min (queue_elems q))"
proof -
  have "queue_min q = Min (queue_elems q)" if "queue_elems q \<noteq> {}"
    using tq.min_in [OF that] tq.min_le by (intro Min_eqI [symmetric]) auto
  then show ?thesis using tq.min_empty by simp
qed

text \<open>
  C34: A thread queue is exactly a set of priorities. Inserting and deleting act on the set, the
  membership test decides it, the union is the union, and the minimum (which the code finds by
  counting leading zeros) is the smallest member, or 32, the idle priority, for the empty queue.
\<close>

theorem thread_queue_is_priority_set:
  "queue_elems (queue_insert q p) = (if p < 32 then insert p (queue_elems q) else queue_elems q) \<and>
   queue_elems (queue_delete q p) = queue_elems q - {p} \<and>
   queue_elems (queue_union q r) = queue_elems q \<union> queue_elems r \<and>
   queue_elems (queue_clear q) = {} \<and>
   queue_member q p = (p \<in> queue_elems q) \<and>
   queue_min q = (if queue_elems q = {} then 32 else Min (queue_elems q))"
  by (simp add: queue_simps queue_min_eq [of q])

section \<open>Semaphores\<close>

definition th0 :: ssx_thread where
  "th0 = \<lparr>th_semaphore = 0, th_priority = 3, th_state = COMPLETED, th_flags = 0, th_stack_base = 0, th_stack_limit = 0\<rparr>"

definition demo_ssx :: ssx where
  "demo_ssx = \<lparr>run_queue = queue_insert 0 9, priority_map = (\<lambda>_. 0)(9 := 0x100, 5 := 0x200), current_thread = 0x100,
     next_thread = 0x100, next_priority = 9, delayed_switch = False,
     threads = (\<lambda>_. th0)(0x100 := th0\<lparr>th_priority := 9, th_state := MAPPED\<rparr>,
       0x200 := th0\<lparr>th_priority := 5, th_state := MAPPED, th_flags := 1, th_semaphore := 0x700\<rparr>),
     sems = (\<lambda>_. \<lparr>pending_threads = 0, sem_count = 0, sem_max_count = 0\<rparr>)
       (0x700 := \<lparr>pending_threads = queue_insert 0 5, sem_count = 0, sem_max_count = 1\<rparr>),
     timers = (\<lambda>_. \<lparr>tm_timeout = 0, tm_period = 0, tm_callback = CB_Null, tm_options = 0\<rparr>),
     tq_heap = \<lparr>dq_next = (\<lambda>_. Null)(TIME_QUEUE := TIME_QUEUE), dq_prev = (\<lambda>_. Null)(TIME_QUEUE := TIME_QUEUE)\<rparr>,
     tq_next_timeout = - 1, tq_cursor = Null, pit = 0, pit_set = 0, timebase = 1000, ctx_thread_mode = True, ctx_noncritical = 0,
     ctx_critical = 0, memory = (\<lambda>_. 0), timebase_frequency_hz = 37500000, timebase_frequency_khz = 37500,
     timebase_frequency_mhz = 37, noncritical_stack = 0, noncritical_stack_size = 0, critical_stack = 0,
     critical_stack_size = 0\<rparr>"

lemma no_elems [simp]: "queue_elems 0 = {}"
  by (simp add: queue_elems_def)

lemma demo_ssx_wf: "ssx_wf demo_ssx"
  by (auto simp: wf_defs demo_ssx_def th0_def queue_simps flag_set_bit)

lemma demo_ssx_idle: "tq_idle [] demo_ssx"
  by (simp add: tq_idle_def tq_repr_def dq_repr_def covered_def pit_ok_def SSX_TIMEBASE_MAX_def demo_ssx_def ssx_deque_is_queued_def)

text \<open>
  C23: Posting a semaphore on which threads wait makes the one with the highest priority (the
  smallest number) runnable, takes exactly it off the semaphore's queue, leaves the count at 0,
  and lets it run at once if no runnable thread has a higher priority. Posting one that nobody
  waits for adds 1 to the count, and never beyond a nonzero maximum.
\<close>

theorem post_wakes_highest:
  assumes "ssx_wf s" "ssx_semaphore_post m s = Inr (rc, s')" "W = queue_elems (pending_threads (sems s m))"
  shows "if W \<noteq> {}
    then (\<exists>p \<in> W. (\<forall>q \<in> W. p \<le> q) \<and> queue_elems (pending_threads (sems s' m)) = W - {p}
        \<and> queue_elems (run_queue s') = insert p (queue_elems (run_queue s))
        \<and> sem_count (sems s' m) = 0
        \<and> (kernel_context_thread s \<and> (\<forall>q \<in> queue_elems (run_queue s). p \<le> q)
            \<longrightarrow> current_thread s' = priority_map s p))
    else sem_count (sems s' m) = sem_count (sems s m) + 1 \<and> run_queue s' = run_queue s
      \<and> (sem_max_count (sems s m) = 0 \<or> sem_count (sems s' m) \<le> sem_max_count (sems s m))"
  using assms(2)
proof (cases rule: post_cases)
  case (wake p)
  let ?s = "(upd_sem m (\<lambda>x. x\<lparr>pending_threads := queue_delete (pending_threads x) p\<rparr>) s)\<lparr>run_queue := queue_insert (run_queue s) p\<rparr>"
  have W: "W \<noteq> {}" "p \<in> W" "\<forall>q \<in> W. p \<le> q" using wake(1,2) assms(3) by (auto intro: tq.min_le)
  have p: "p < 32" by (rule tq.elems_lt [OF wake(2)])
  have "current_thread s' = priority_map s p"
    if k: "kernel_context_thread s" and l: "\<forall>q \<in> queue_elems (run_queue s). p \<le> q"
  proof -
    have "queue_min (run_queue ?s) = p"
      by (rule tq.min_eqI) (use l p in \<open>auto simp: queue_simps\<close>)
    moreover have "kernel_context_thread ?s" using k by (simp add: kernel_context_thread_def)
    ultimately show ?thesis using schedule_thread_context [of ?s] wake(3) by simp
  qed
  then show ?thesis using W p wake(3) wf_semD [OF assms(1), of m] assms(3)
    by (auto simp: queue_simps intro!: bexI [of _ p])
next
  case count
  then show ?thesis using assms(3) by (auto simp: word_gt_0 not_less)
qed

theorem post_wakes_highest_witness:
  "\<exists>s'. ssx_semaphore_post 0x700 demo_ssx = Inr (0, s') \<and> current_thread s' = 0x200"
proof -
  have e: "queue_elems (pending_threads (sems demo_ssx 0x700)) = {5}" "queue_elems (run_queue demo_ssx) = {9}"
    "priority_map demo_ssx 5 = 0x200" "kernel_context_thread demo_ssx" "ctx_critical demo_ssx = 0"
    by (simp_all add: demo_ssx_def queue_simps kernel_context_thread_def)
  have m: "queue_min (pending_threads (sems demo_ssx 0x700)) = 5" by (rule tq.min_eqI) (simp_all add: e)
  obtain s' where s': "ssx_semaphore_post 0x700 demo_ssx = Inr (0, s')"
    by (simp add: ssx_semaphore_post_def kernel_context_critical_interrupt_def e m Let_def SSX_OK_def
      SSX_IDLE_THREAD_PRIORITY_def SSX_THREADS_def)
  then show ?thesis using post_wakes_highest [OF demo_ssx_wf s' refl] e by auto
qed

section \<open>The time queue\<close>

text \<open>
  C27: Outside the timer handler the time queue is a well-linked list of timers, in the order in
  which they were armed, none due before the time at which the next timer interrupt is set.
  Arming a timer (again) keeps that and puts it at the end unless it is queued already; cancelling
  keeps it and takes exactly that timer out.
\<close>

theorem time_queue_ordered:
  assumes "tq_idle xs s" "is_timer x"
  shows "tq_idle (if x \<in> set xs then xs else xs @ [x]) (set_timer x timeout period s)
    \<and> tq_idle (removeAll x xs) (snd (k_timer_cancel x s))
    \<and> (fst (k_timer_cancel x s) = 0 \<longleftrightarrow> x \<in> set xs)"
proof -
  have "timer_active x s \<longleftrightarrow> x \<in> set xs" using assms by (intro tq_active_iff) (simp_all add: tq_idle_def)
  then have "fst (k_timer_cancel x s) = 0 \<longleftrightarrow> x \<in> set xs"
    by (simp add: k_timer_cancel_def Let_def SSX_TIMER_NOT_ACTIVE_def)
  then show ?thesis using idle_set_timer [OF assms] idle_cancel [OF assms] by blast
qed

theorem time_queue_ordered_witness:
  "tq_idle [UserTimer 3] (set_timer (UserTimer 3) 5000 0 demo_ssx)"
  using time_queue_ordered [OF demo_ssx_idle, of "UserTimer 3" 0 5000] by simp

section \<open>Stacks\<close>

text \<open>
  Preparing a stack that does not wrap round the address space leaves the stack pointer
  8-byte aligned inside it, gives a size that fits below it, and writes no word outside the
  memory the caller handed over.
\<close>

theorem stack_stays_inside:
  assumes "unat stack + unat sz < 2 ^ 32" "16 \<le> unat sz" "ssx_stack_init stack sz m = (stack', sz', m')"
  shows "unat stack' mod 8 = 0 \<and> unat sz' \<le> unat stack' \<and> unat stack \<le> unat stack' - unat sz'
    \<and> unat stack' + 8 \<le> unat stack + unat sz
    \<and> (\<forall>a. unat a < unat stack \<or> unat stack + unat sz \<le> unat a \<longrightarrow> m' a = m a)"
  using stack_init_bounds [OF assms] by blast

theorem stack_stays_inside_witness:
  "unat (fst (ssx_stack_init 0x1003 0x101 (\<lambda>_. 0))) mod 8 = 0"
proof -
  obtain a b c where e: "ssx_stack_init 0x1003 0x101 (\<lambda>_. 0) = (a, b, c)"
    by (cases "ssx_stack_init 0x1003 0x101 (\<lambda>_. 0)")
  from stack_stays_inside [OF _ _ e] show ?thesis by (simp add: e)
qed

section \<open>Trace buffers\<close>

text \<open>
  C36: A trace buffer is a ring: after any number of writes of whole words its header tells how
  many bytes went in, and the most recent 8152 of them are where the header says, the oldest
  overwritten first. A write touches neither the other buffers nor the locks.
\<close>

theorem trace_ring:
  assumes "ring_ok (tr_buf s d) ws" "unat n \<le> ring_size" "unat n mod 4 = 0" "trac_write_data d src n s = (rc, s')"
  shows "rc = 0 \<and> ring_ok (tr_buf s' d) (ws @ List.map src [0..<unat n]) \<and> (\<forall>e. e \<noteq> d \<longrightarrow> tr_buf s' e = tr_buf s e)
    \<and> (\<forall>i \<ge> 8192. tr_buf s' d i = tr_buf s d i) \<and> tr_sem s' = tr_sem s"
  using ring_write [OF assms] by blast

theorem trace_ring_witness:
  "\<forall>s. \<exists>s'. trac_write_data TD_INF (\<lambda>i. of_nat i) 8 (TRAC_init_buffers s) = (0, s')
    \<and> ring_ok (tr_buf s' TD_INF) [0, 1, 2, 3, 4, 5, 6, 7]"
proof
  fix s
  obtain rc s' where w: "trac_write_data TD_INF (\<lambda>i. of_nat i) 8 (TRAC_init_buffers s) = (rc, s')"
    by (cases "trac_write_data TD_INF (\<lambda>i. of_nat i) 8 (TRAC_init_buffers s)")
  have r: "ring_ok (tr_buf (TRAC_init_buffers s) TD_INF) []" by (simp add: TRAC_init_buffers_def ring_init)
  have "List.map (\<lambda>i. of_nat i :: u8) [0..<8] = [0, 1, 2, 3, 4, 5, 6, 7]" by (simp add: upt_rec)
  with trace_ring [OF r _ _ w] w
  show "\<exists>s'. trac_write_data TD_INF (\<lambda>i. of_nat i) 8 (TRAC_init_buffers s) = (0, s')
    \<and> ring_ok (tr_buf s' TD_INF) [0, 1, 2, 3, 4, 5, 6, 7]" by (auto simp: ring_size_def)
qed

end
