(* ===== verification/SSX_Tick.thy ===== *)
theory SSX_Tick
  imports SSX_Timer
begin

text \<open>
  The timer interrupt handler (ssx_timer_core.c, __ssx_timer_handler). It is cut at the points
  where it lets interrupts in: a control state says where it is, a step runs it to the next cut.
  Between two steps the calls of other interrupt handlers may happen wherever interrupts are let in.
\<close>

section \<open>The handler\<close>

text \<open>
  \<open>TH_Check\<close>: at the test of the outer loop. \<open>TH_Loop now d\<close>: at the test of the inner loop,
  with \<open>d\<close> the element to look at. \<open>TH_Before now cb\<close>: interrupts enabled, a preemptible callback
  about to be made. \<open>TH_Window now\<close>: interrupts enabled after the callback, or after an element
  that is not due. \<open>TH_Idle\<close>: not running.
\<close>

datatype handler =
  TH_Idle | TH_Check | TH_Loop u64 dq_ptr | TH_Before u64 callback | TH_Window u64

definition run_callback :: "callback \<Rightarrow> ssx \<Rightarrow> panic_code + ssx" where
  "run_callback cb s = (case cb of CB_ThreadTimeout t \<Rightarrow> ssx_thread_timeout t s | _ \<Rightarrow> Inr s)"

definition timer_enter :: "ssx \<Rightarrow> panic_code + (handler \<times> ssx)" where
  "timer_enter s = (if tq_cursor s \<noteq> Null then Inl SSX_TIMER_HANDLER_INVARIANT else Inr (TH_Check, s))"

definition timer_check :: "ssx \<Rightarrow> handler \<times> ssx" where
  "timer_check s =
     (if timebase s \<ge> tq_next_timeout s then
        (TH_Loop (timebase s) (dq_next (tq_heap s) TIME_QUEUE), s\<lparr>tq_next_timeout := SSX_TIMEBASE_MAX\<rparr>)
      else let s1 = s\<lparr>tq_cursor := Null\<rparr> in (TH_Idle, ssx_schedule_hardware_timeout (tq_next_timeout s1) s1))"

definition timer_rearm :: "dq_ptr \<Rightarrow> ssx \<Rightarrow> ssx" where
  "timer_rearm d s =
     (if tm_period (timers s d) = 0 then s\<lparr>tq_heap := ssx_deque_delete d (tq_heap s)\<rparr>
      else let s1 = upd_timer d (\<lambda>x. x\<lparr>tm_timeout := tm_timeout x + tm_period x\<rparr>) s
           in s1\<lparr>tq_next_timeout := min (tm_timeout (timers s1 d)) (tq_next_timeout s1)\<rparr>)"

definition timer_elem :: "u64 \<Rightarrow> dq_ptr \<Rightarrow> ssx \<Rightarrow> panic_code + (handler \<times> ssx)" where
  "timer_elem now d s =
     (if d = TIME_QUEUE then Inr (TH_Check, s)
      else let s1 = s\<lparr>tq_cursor := dq_next (tq_heap s) d\<rparr>
           in if tm_timeout (timers s1 d) \<le> now then
                (let s2 = timer_rearm d s1; cb = tm_callback (timers s2 d)
                 in if cb = CB_Null then Inr (TH_Loop now (tq_cursor s2), s2)
                    else if tm_options (timers s2 d) AND SSX_TIMER_CALLBACK_PREEMPTIBLE \<noteq> 0
                    then Inr (TH_Before now cb, s2)
                    else kbind (run_callback cb s2) (\<lambda>s3. Inr (TH_Window now, s3)))
              else Inr (TH_Window now, s1\<lparr>tq_next_timeout := min (tm_timeout (timers s1 d)) (tq_next_timeout s1)\<rparr>))"

definition timer_step :: "handler \<Rightarrow> ssx \<Rightarrow> panic_code + (handler \<times> ssx)" where
  "timer_step h s =
     (case h of
        TH_Idle \<Rightarrow> timer_enter s
      | TH_Check \<Rightarrow> Inr (timer_check s)
      | TH_Loop now d \<Rightarrow> timer_elem now d s
      | TH_Before now cb \<Rightarrow> kbind (run_callback cb s) (\<lambda>s1. Inr (TH_Window now, s1))
      | TH_Window now \<Rightarrow> Inr (TH_Loop now (tq_cursor s), s))"

section \<open>The time queue while the handler runs\<close>

text \<open>
  Outside the handler no queued timer is due before \<open>next_timeout\<close>. Inside, this holds of the
  elements the scan has passed; the cursor is at the first of the others.
\<close>

definition tq_inv :: "handler \<Rightarrow> dq_ptr list \<Rightarrow> ssx \<Rightarrow> bool" where
  "tq_inv h xs s =
     (case h of
        TH_Idle \<Rightarrow> tq_idle xs s
      | TH_Check \<Rightarrow> tq_repr (tq_heap s) xs \<and> covered s xs
      | TH_Loop now d \<Rightarrow> \<exists>us vs. xs = us @ vs \<and> tq_at d us vs s
      | _ \<Rightarrow> \<exists>us vs. xs = us @ vs \<and> tq_at (tq_cursor s) us vs s)"

lemma tq_invI:
  "tq_at d us vs s \<Longrightarrow> tq_inv (TH_Loop now d) (us @ vs) s"
  "tq_at (tq_cursor s) us vs s \<Longrightarrow> tq_inv (TH_Before now cb) (us @ vs) s"
  "tq_at (tq_cursor s) us vs s \<Longrightarrow> tq_inv (TH_Window now) (us @ vs) s"
  by (auto simp: tq_inv_def)

lemma tq_inv_repr: "tq_inv h xs s \<Longrightarrow> tq_repr (tq_heap s) xs"
  by (auto simp: tq_inv_def tq_idle_def tq_at_def split: handler.splits)

lemma covered_cong:
  assumes "tq_next_timeout s' = tq_next_timeout s" "\<And>x. x \<in> set xs \<Longrightarrow> tm_timeout (timers s' x) = tm_timeout (timers s x)"
  shows "covered s' xs = covered s xs"
  using assms by (simp add: covered_def)

lemma tq_inv_cong:
  assumes "tq_heap s' = tq_heap s" "tq_cursor s' = tq_cursor s" "tq_next_timeout s' = tq_next_timeout s"
    and "timers s' = timers s" "pit s' = pit s" "pit_set s' = pit_set s"
  shows "tq_inv h xs s' = tq_inv h xs s"
proof -
  have "covered s' zs = covered s zs" for zs by (rule covered_cong) (simp_all add: assms)
  then show ?thesis using assms pit_cong [of s' s] by (simp add: tq_inv_def tq_idle_def tq_at_def split: handler.split)
qed

text \<open>Where other handlers' calls may happen.\<close>

definition open_state :: "handler \<Rightarrow> bool" where
  "open_state h \<longleftrightarrow> h \<noteq> TH_Check \<and> (\<forall>now d. h \<noteq> TH_Loop now d)"

lemma open_cases:
  assumes "open_state h"
  obtains "h = TH_Idle" | "h \<noteq> TH_Idle" "\<And>xs s. tq_inv h xs s \<longleftrightarrow> (\<exists>us vs. xs = us @ vs \<and> tq_at (tq_cursor s) us vs s)"
  using assms by (cases h) (auto simp: open_state_def tq_inv_def)

lemma inv_set_timer:
  assumes "tq_inv h xs s" "open_state h" "is_timer x"
  shows "\<exists>ys. tq_inv h ys (set_timer x tmo per s)"
  using assms(2)
proof (cases rule: open_cases)
  case 1
  then show ?thesis using idle_set_timer [of xs s x per tmo] assms by (auto simp: tq_inv_def)
next
  case 2
  then obtain us vs where at: "tq_at (tq_cursor s) us vs s" using assms(1) by auto
  show ?thesis using at_set_timer [OF at assms(3) refl, of per tmo] 2 by (auto simp: schedule_fields)
qed

lemma inv_cancel:
  assumes "tq_inv h xs s" "open_state h" "is_timer x"
  shows "\<exists>ys. tq_inv h ys (snd (k_timer_cancel x s))"
  using assms(2)
proof (cases rule: open_cases)
  case 1
  then show ?thesis using idle_cancel [of xs s x] assms by (auto simp: tq_inv_def)
next
  case 2
  then obtain us vs where at: "tq_at (tq_cursor s) us vs s" using assms(1) by auto
  show ?thesis using at_cancel [OF at assms(3)] 2 by auto
qed

lemma active_set_timer:
  assumes "tq_inv h xs s" "is_timer x" "is_timer y"
  shows "timer_active y (set_timer x tmo per s) \<longleftrightarrow> y = x \<or> timer_active y s"
proof -
  have r: "tq_repr (tq_heap s) xs" by (rule tq_inv_repr [OF assms(1)])
  have r': "tq_repr (tq_heap (set_timer x tmo per s)) (if x \<in> set xs then xs else xs @ [x])"
    using dqi.repr_enqueue [OF r assms(2)] by (simp add: schedule_fields)
  show ?thesis unfolding tq_active_iff [OF r' assms(3)] tq_active_iff [OF r assms(3)] by auto
qed

lemma active_cancel:
  assumes "tq_inv h xs s" "is_timer x" "is_timer y"
  shows "timer_active y (snd (k_timer_cancel x s)) \<longleftrightarrow> y \<noteq> x \<and> timer_active y s"
proof -
  have r: "tq_repr (tq_heap s) xs" by (rule tq_inv_repr [OF assms(1)])
  have r': "tq_repr (tq_heap (snd (k_timer_cancel x s))) (removeAll x xs)"
    using dqi.repr_dequeue [OF r assms(2)] by (simp add: cancel_fields)
  show ?thesis unfolding tq_active_iff [OF r' assms(3)] tq_active_iff [OF r assms(3)] by auto
qed

section \<open>Steps of the handler\<close>

lemma enter_inv:
  assumes "tq_inv TH_Idle xs s"
  shows "timer_enter s = Inr (TH_Check, s)" "tq_inv TH_Check xs s"
  using assms by (simp_all add: timer_enter_def tq_inv_def tq_idle_def)

lemma check_inv:
  assumes "tq_inv TH_Check xs s" "timer_check s = (h, s')"
  shows "tq_inv h xs s'" "h = TH_Idle \<Longrightarrow> timebase s < tq_next_timeout s' \<and> tq_next_timeout s' = tq_next_timeout s"
proof -
  have "dq_next (tq_heap s) TIME_QUEUE = hd (xs @ [TIME_QUEUE])"
    using assms(1) by (intro tq_first) (simp add: tq_inv_def)
  then have "tq_at (dq_next (tq_heap s) TIME_QUEUE) [] xs (s\<lparr>tq_next_timeout := SSX_TIMEBASE_MAX\<rparr>)"
    using assms(1) by (simp add: tq_inv_def tq_at_def covered_def)
  from tq_invI(1) [OF this, of "timebase s"] have loop: "tq_inv (TH_Loop (timebase s) (dq_next (tq_heap s) TIME_QUEUE)) xs
      (s\<lparr>tq_next_timeout := SSX_TIMEBASE_MAX\<rparr>)" by simp
  show "tq_inv h xs s'"
  proof (cases "timebase s \<ge> tq_next_timeout s")
    case True
    then show ?thesis using assms(2) loop by (auto simp: timer_check_def)
  next
    case False
    then show ?thesis using assms hw_pit_ok [of "s\<lparr>tq_cursor := Null\<rparr>"] by (auto simp: timer_check_def tq_inv_def tq_idle_def covered_def Let_def)
  qed
  show "h = TH_Idle \<Longrightarrow> timebase s < tq_next_timeout s' \<and> tq_next_timeout s' = tq_next_timeout s"
    using assms(2) by (auto simp: timer_check_def Let_def split: if_splits)
qed

lemma timeout_frames:
  assumes "ssx_thread_timeout t s = Inr s'"
  shows "tq_heap s' = tq_heap s" "tq_cursor s' = tq_cursor s" "tq_next_timeout s' = tq_next_timeout s" "timers s' = timers s"
    "timebase s' = timebase s" "pit s' = pit s" "pit_set s' = pit_set s"
  using assms by (auto simp: ssx_thread_timeout_def Let_def split: thread_state.splits if_splits)

lemma callback_frames:
  assumes "run_callback cb s = Inr s'"
  shows "tq_heap s' = tq_heap s" "tq_cursor s' = tq_cursor s" "tq_next_timeout s' = tq_next_timeout s" "timers s' = timers s"
    "timebase s' = timebase s" "pit s' = pit s" "pit_set s' = pit_set s"
  using assms timeout_frames by (auto simp: run_callback_def split: callback.splits)

text \<open>
  Re-arming or removing a due timer: the scan has passed it, and nothing else happens to the queue.
\<close>

lemma rearm_inv:
  assumes at: "tq_at d us (d # vs) s" and c: "s1 = s\<lparr>tq_cursor := dq_next (tq_heap s) d\<rparr>" and s2: "s2 = timer_rearm d s1"
  shows "\<exists>us'. tq_at (tq_cursor s2) us' vs s2 \<and> (\<forall>y. y \<in> set us' \<longleftrightarrow> y \<in> set us \<or> y = d \<and> tm_period (timers s d) \<noteq> 0)"
    "tq_cursor s2 = hd (vs @ [TIME_QUEUE])"
proof -
  have r: "tq_repr (tq_heap s) (us @ d # vs)" and cov: "covered s us" using at by (simp_all add: tq_at_def)
  have n: "dq_next (tq_heap s) d = hd (vs @ [TIME_QUEUE])" by (rule tq_next_of [OF r])
  show cur: "tq_cursor s2 = hd (vs @ [TIME_QUEUE])"
    unfolding s2 timer_rearm_def c by (simp add: n Let_def)
  show "\<exists>us'. tq_at (tq_cursor s2) us' vs s2 \<and> (\<forall>y. y \<in> set us' \<longleftrightarrow> y \<in> set us \<or> y = d \<and> tm_period (timers s d) \<noteq> 0)"
  proof (cases "tm_period (timers s d) = 0")
    case True
    have "covered s2 us" using cov True by (simp add: s2 c timer_rearm_def covered_def)
    then have "tq_at (tq_cursor s2) us vs s2"
      using dqi.repr_del [OF r] True cur by (simp add: tq_at_def s2 c timer_rearm_def)
    with True show ?thesis by auto
  next
    case False
    have "covered s2 (us @ [d])" using cov False by (auto simp: s2 c timer_rearm_def covered_def Let_def min_le_iff_disj)
    then have "tq_at (tq_cursor s2) (us @ [d]) vs s2"
      using r False cur by (simp add: tq_at_def s2 c timer_rearm_def Let_def)
    with False show ?thesis by (intro exI [of _ "us @ [d]"]) auto
  qed
qed

lemma rearm_timers:
  "timers (timer_rearm d s) x = (if x = d \<and> tm_period (timers s d) \<noteq> 0
     then (timers s d)\<lparr>tm_timeout := tm_timeout (timers s d) + tm_period (timers s d)\<rparr> else timers s x)"
  by (simp add: timer_rearm_def Let_def)

text \<open>The element the scan looks at is queued, and only it can leave the queue.\<close>

lemma elem_inv:
  assumes inv: "tq_inv (TH_Loop now d) xs s" and e: "timer_elem now d s = Inr (h, s')"
  obtains ys where "tq_inv h ys s'"
    "\<And>y. y \<in> set ys \<longleftrightarrow> y \<in> set xs \<and> (y = d \<longrightarrow> now < tm_timeout (timers s d) \<or> tm_period (timers s d) \<noteq> 0)"
proof -
  obtain us vs where xs: "xs = us @ vs" and at: "tq_at d us vs s" using inv by (auto simp: tq_inv_def)
  have r: "tq_repr (tq_heap s) xs" and d: "d = hd (vs @ [TIME_QUEUE])" and cov: "covered s us"
    using at xs by (simp_all add: tq_at_def)
  have T: "TIME_QUEUE \<notin> set xs" using dqi.repr_own [OF r] by force
  have dist: "distinct xs" by (rule dqi.repr_distinct [OF r])
  show thesis
  proof (cases vs)
    case Nil
    then have "h = TH_Check" "s' = s" "d = TIME_QUEUE" using e d by (simp_all add: timer_elem_def)
    then show thesis using that [of xs] r cov xs Nil T by (auto simp: tq_inv_def)
  next
    case (Cons d' vs')
    then have vs: "vs = d # vs'" and nT: "d \<noteq> TIME_QUEUE" using d T xs by auto
    define s1 where "s1 = s\<lparr>tq_cursor := dq_next (tq_heap s) d\<rparr>"
    define s2 where "s2 = timer_rearm d s1"
    show thesis
    proof (cases "tm_timeout (timers s d) \<le> now")
      case True
      obtain us' where at2: "tq_at (tq_cursor s2) us' vs' s2"
        and us': "\<forall>y. y \<in> set us' \<longleftrightarrow> y \<in> set us \<or> y = d \<and> tm_period (timers s d) \<noteq> 0"
        using rearm_inv(1) [OF at [unfolded vs] s1_def s2_def] by blast
      have "tm_timeout (timers s1 d) \<le> now" using True by (simp add: s1_def)
      then have "(h = TH_Loop now (tq_cursor s2) \<and> s' = s2) \<or> (\<exists>cb. h = TH_Before now cb \<and> s' = s2)
          \<or> (\<exists>cb. h = TH_Window now \<and> run_callback cb s2 = Inr s')"
        using e nT by (auto simp: timer_elem_def s1_def [symmetric] s2_def [symmetric] Let_def kbind_Inr split: if_splits)
      then have "tq_inv h (us' @ vs') s'"
      proof (elim disjE exE conjE)
        fix cb assume h: "h = TH_Window now" and cb: "run_callback cb s2 = Inr s'"
        have "tq_inv h (us' @ vs') s2" using h at2 by (auto simp: tq_inv_def)
        then show ?thesis using tq_inv_cong [OF callback_frames(1-4,6,7) [OF cb]] by simp
      qed (use at2 in \<open>auto simp: tq_inv_def\<close>)
      moreover have "y \<in> set (us' @ vs') \<longleftrightarrow> y \<in> set xs \<and> (y = d \<longrightarrow> now < tm_timeout (timers s d) \<or> tm_period (timers s d) \<noteq> 0)" for y
        using us' xs vs dist True by auto
      ultimately show thesis by (rule that)
    next
      case False
      let ?s = "s1\<lparr>tq_next_timeout := min (tm_timeout (timers s1 d)) (tq_next_timeout s1)\<rparr>"
      have h: "h = TH_Window now" "s' = ?s" using e nT False by (auto simp: timer_elem_def s1_def Let_def)
      have "tq_at (tq_cursor s') (us @ [d]) vs' s'"
        using r cov xs vs tq_next_of [of "tq_heap s" us d vs']
        by (auto simp: tq_at_def h(2) s1_def covered_def min_le_iff_disj)
      then have "tq_inv h xs s'" using xs vs h(1) tq_invI(3) [of s' "us @ [d]" vs' now] by simp
      show thesis by (rule that [OF \<open>tq_inv h xs s'\<close>]) (use False in auto)
    qed
  qed
qed

end
