(* ===== verification/SSX_Threads_Ok.thy ===== *)
theory SSX_Threads_Ok
  imports SSX_Init SSX_Tick
begin

text \<open>
  What the kernel keeps of each thread beyond the well-formedness of its queues: where a blocked
  thread will go on, which flags it then has, and that a thread that waits for its timer is never
  forgotten. The calls of the kernel keep it.
\<close>

section \<open>The state of a thread\<close>

text \<open>
  Where the code of a thread goes on when it runs next: with its own code, behind the switch in
  \<open>ssx_semaphore_pend\<close> (with the local variables of that call), or behind the one in
  \<open>ssx_sleep_absolute\<close>.
\<close>

datatype kont = K_Run | K_Pend ptr dq_ptr | K_Sleep

abbreviation pends :: "ssx_thread \<Rightarrow> bool" where "pends x \<equiv> flag_set (th_flags x) FLAG_SEMAPHORE_PEND"
abbreviation timed :: "ssx_thread \<Rightarrow> bool" where "timed x \<equiv> flag_set (th_flags x) FLAG_TIMER_PEND"
abbreviation expired :: "ssx_thread \<Rightarrow> bool" where "expired x \<equiv> flag_set (th_flags x) FLAG_TIMED_OUT"
abbreviation dead :: "ssx_thread \<Rightarrow> bool" where "dead x \<equiv> th_state x = COMPLETED \<or> th_state x = DELETED"

definition ready :: "ptr \<Rightarrow> ssx \<Rightarrow> bool" where
  "ready t s \<longleftrightarrow> th_state (threads s t) = SUSPENDED_RUNNABLE \<or>
     th_state (threads s t) = MAPPED \<and> th_priority (threads s t) \<in> queue_elems (run_queue s)"

definition waits :: "u8 \<Rightarrow> ssx \<Rightarrow> bool" where
  "waits p s \<longleftrightarrow> (\<exists>m. p \<in> queue_elems (pending_threads (sems s m)))"

definition kont_ok :: "kont \<Rightarrow> ptr \<Rightarrow> ssx_thread \<Rightarrow> bool" where
  "kont_ok k t x \<longleftrightarrow> (case k of
     K_Run \<Rightarrow> \<not> pends x \<and> \<not> timed x
   | K_Pend m y \<Rightarrow> pends x \<and> th_semaphore x = m \<and> y = (if timed x then ThreadTimer t else Null)
   | K_Sleep \<Rightarrow> \<not> pends x \<and> timed x)"

definition timer_ok :: "ptr \<Rightarrow> ssx \<Rightarrow> bool" where
  "timer_ok t s \<longleftrightarrow> tm_callback (timers s (ThreadTimer t)) = CB_ThreadTimeout t \<and>
     tm_period (timers s (ThreadTimer t)) = 0 \<and> tm_options (timers s (ThreadTimer t)) = 0"

definition thr_base :: "kont \<Rightarrow> ptr \<Rightarrow> ssx_thread \<Rightarrow> bool \<Rightarrow> bool \<Rightarrow> bool \<Rightarrow> bool" where
  "thr_base k t x q r tm \<longleftrightarrow>
     (q \<longrightarrow> \<not> dead x \<and> timed x \<and> \<not> expired x) \<and>
     (\<not> dead x \<longrightarrow> t \<noteq> 0 \<and> th_priority x < 32 \<and> tm \<and> kont_ok k t x \<and> (expired x \<longrightarrow> timed x) \<and>
        (r \<and> k = K_Sleep \<longrightarrow> expired x) \<and> (timed x \<and> \<not> expired x \<and> \<not> r \<longrightarrow> q))"

definition thr_ok :: "kont \<Rightarrow> ptr \<Rightarrow> ssx \<Rightarrow> bool" where
  "thr_ok k t s \<longleftrightarrow>
     thr_base k t (threads s t) (timer_active (ThreadTimer t) s) (ready t s) (timer_ok t s) \<and>
     (th_state (threads s t) = MAPPED \<and> ready t s \<and> waits (th_priority (threads s t)) s \<longrightarrow> expired (threads s t))"

lemma thr_base_state:
  assumes "thr_base k t x q r tm" "th_flags y = th_flags x" "th_priority y = th_priority x" "th_semaphore y = th_semaphore x"
    and "dead y \<longleftrightarrow> dead x"
  shows "thr_base k t y q r tm"
proof -
  have "kont_ok k t y = kont_ok k t x" using assms(2,4) by (simp add: kont_ok_def split: kont.split)
  then show ?thesis using assms(1) unfolding thr_base_def assms(2,3,5) by blast
qed

lemma thr_base_ready:
  "thr_base k t x q r tm \<Longrightarrow> (r \<Longrightarrow> r') \<Longrightarrow> (r' \<Longrightarrow> k = K_Sleep \<Longrightarrow> r) \<Longrightarrow> thr_base k t x q r' tm"
  unfolding thr_base_def by blast

lemma thr_ok_cong:
  assumes "threads s' t = threads s t" "timers s' (ThreadTimer t) = timers s (ThreadTimer t)"
    and "timer_active (ThreadTimer t) s' = timer_active (ThreadTimer t) s"
    and "th_state (threads s t) = MAPPED \<Longrightarrow> (th_priority (threads s t) \<in> queue_elems (run_queue s') \<longleftrightarrow>
      th_priority (threads s t) \<in> queue_elems (run_queue s))"
    and w: "th_state (threads s t) = MAPPED \<Longrightarrow> waits (th_priority (threads s t)) s' \<Longrightarrow> waits (th_priority (threads s t)) s"
    and ok: "thr_ok k t s"
  shows "thr_ok k t s'"
proof -
  have r: "ready t s' = ready t s" using assms(1,4) by (auto simp: ready_def)
  have "timer_ok t s' = timer_ok t s" using assms(2) by (simp add: timer_ok_def)
  then show ?thesis using ok w unfolding thr_ok_def assms(1,3) r by simp
qed

text \<open>A change at priority \<open>p\<close> is no concern of the other threads.\<close>

lemma thr_other:
  assumes ok: "thr_ok k u s" and wf: "ssx_wf s" and same: "threads s' u = threads s u"
      "timers s' (ThreadTimer u) = timers s (ThreadTimer u)"
      "timer_active (ThreadTimer u) s' = timer_active (ThreadTimer u) s"
    and p: "priority_map s p = t \<or> priority_map s p = 0" "u \<noteq> t"
    and run: "\<And>q. q \<noteq> p \<Longrightarrow> q \<in> queue_elems (run_queue s') \<longleftrightarrow> q \<in> queue_elems (run_queue s)"
    and pend: "\<And>q m. q \<noteq> p \<Longrightarrow> q \<in> queue_elems (pending_threads (sems s' m)) \<Longrightarrow> q \<in> queue_elems (pending_threads (sems s m))"
  shows "thr_ok k u s'"
proof (rule thr_ok_cong [OF same _ _ ok])
  assume m: "th_state (threads s u) = MAPPED"
  from wf_mappedD [OF wf m] p have ne: "th_priority (threads s u) \<noteq> p" by auto
  show "th_priority (threads s u) \<in> queue_elems (run_queue s') \<longleftrightarrow> th_priority (threads s u) \<in> queue_elems (run_queue s)"
    by (rule run [OF ne])
  show "waits (th_priority (threads s u)) s' \<Longrightarrow> waits (th_priority (threads s u)) s"
    using pend [OF ne] by (auto simp: waits_def)
qed

lemma thr_schedule [simp]: "thr_ok k t (ssx_schedule s) = thr_ok k t s"
  by (simp add: thr_ok_def ready_def waits_def timer_ok_def timer_active_def)

lemma thr_current [simp]: "thr_ok k t (s\<lparr>current_thread := c\<rparr>) = thr_ok k t s"
  by (simp add: thr_ok_def ready_def waits_def timer_ok_def timer_active_def)

section \<open>Mapping and unmapping\<close>

lemma map_timers [simp]:
  "timers (ssx_thread_map t s) = timers s" "tq_heap (ssx_thread_map t s) = tq_heap s"
  "timers (ssx_thread_unmap t s) = timers s" "tq_heap (ssx_thread_unmap t s) = tq_heap s"
  "timer_active x (ssx_thread_map t s) = timer_active x s" "timer_active x (ssx_thread_unmap t s) = timer_active x s"
  "timer_ok u (ssx_thread_map t s) = timer_ok u s" "timer_ok u (ssx_thread_unmap t s) = timer_ok u s"
  by (simp_all add: timer_active_def timer_ok_def ssx_thread_map_def ssx_thread_unmap_def Let_def)

lemma thr_map:
  assumes wf: "ssx_wf s" and ok: "\<And>u. thr_ok (K u) u s"
    and t: "\<not> dead (threads s t)" "th_state (threads s t) \<noteq> MAPPED"
    and free: "priority_map s (th_priority (threads s t)) = 0"
  shows "thr_ok (K u) u (ssx_thread_map t s)"
proof (cases "u = t")
  case False
  show ?thesis
    by (rule thr_other [OF ok wf _ _ _ disjI2 [OF free]])
      (use False in \<open>auto simp: map_fields map_run_sems split: if_splits\<close>)
next
  case True
  let ?x = "threads s t" and ?s = "ssx_thread_map t s"
  let ?p = "th_priority ?x"
  have nr: "?p \<notin> queue_elems (run_queue s)" using wf_runD [OF wf, of ?p] free by auto
  have np: "?p \<notin> queue_elems (pending_threads (sems s m))" for m using wf_pendD [OF wf, of ?p m] free by blast
  have x: "threads ?s t = ?x\<lparr>th_state := MAPPED\<rparr>" by (simp add: map_fields)
  have st: "th_state ?x = SUSPENDED_RUNNABLE \<or> th_state ?x = SUSPENDED_BLOCKED"
    using t by (cases "th_state ?x") auto
  have base: "thr_base (K t) t ?x (timer_active (ThreadTimer t) s) (ready t s) (timer_ok t s)"
    using ok [of t] by (simp add: thr_ok_def)
  have k: "?p < 32" "kont_ok (K t) t ?x" using base t by (simp_all add: thr_base_def)
  have r: "ready t s \<longleftrightarrow> th_state ?x = SUSPENDED_RUNNABLE" using t(2) by (simp add: ready_def)
  have r': "ready t ?s \<longleftrightarrow> th_state ?x = SUSPENDED_RUNNABLE \<or> pends ?x \<and> sem_count (sems s (th_semaphore ?x)) \<noteq> 0"
    using nr k(1) by (auto simp: ready_def x map_run_sems)
  have w': "waits ?p ?s \<longrightarrow> \<not> ready t ?s" using np r' k(1) by (auto simp: waits_def map_run_sems)
  have sl: "ready t ?s \<Longrightarrow> K t = K_Sleep \<Longrightarrow> ready t s" using r r' k(2) by (auto simp: kont_ok_def)
  have "thr_base (K t) t ?x (timer_active (ThreadTimer t) s) (ready t ?s) (timer_ok t s)"
    by (rule thr_base_ready [OF base]) (use r r' sl in auto)
  then have "thr_base (K t) t (threads ?s t) (timer_active (ThreadTimer t) s) (ready t ?s) (timer_ok t s)"
    by (rule thr_base_state) (use t(1) in \<open>simp_all add: x\<close>)
  then show ?thesis using w' unfolding thr_ok_def True by (auto simp: x)
qed

lemma thr_unmap:
  assumes wf: "ssx_wf s" and ok: "\<And>u. thr_ok (K u) u s" and t: "ssx_thread_is_mapped t s"
  shows "thr_ok (K u) u (ssx_thread_unmap t s)"
proof -
  let ?x = "threads s t" and ?s = "ssx_thread_unmap t s"
  have m: "th_state ?x = MAPPED" using t by (simp add: ssx_thread_is_mapped_def)
  have pm: "priority_map s (th_priority ?x) = t" using wf_mappedD [OF wf m] by simp
  show ?thesis
  proof (cases "u = t")
    case False
    show ?thesis
    proof (rule thr_other [OF ok wf _ _ _ disjI1 [OF pm] False])
      fix q n
      show "q \<in> queue_elems (pending_threads (sems ?s n)) \<Longrightarrow> q \<in> queue_elems (pending_threads (sems s n))"
        by (simp add: unmap_sems split: if_splits)
    qed (use False in \<open>simp_all add: unmap_fields\<close>)
  next
    case True
    have x: "threads ?s t = ?x\<lparr>th_state := if ssx_thread_is_runnable t s then SUSPENDED_RUNNABLE else SUSPENDED_BLOCKED\<rparr>"
      by (simp add: unmap_fields)
    have r: "ready t ?s = ready t s" using m by (simp add: ready_def x runnable_iff)
    have "thr_base (K t) t ?x (timer_active (ThreadTimer t) s) (ready t s) (timer_ok t s)"
      using ok [of t] unfolding thr_ok_def by blast
    then have "thr_base (K t) t (threads ?s t) (timer_active (ThreadTimer t) s) (ready t s) (timer_ok t s)"
      by (rule thr_base_state) (simp_all add: x m)
    moreover have "th_state (threads ?s t) \<noteq> MAPPED" by (simp add: x)
    ultimately show ?thesis unfolding thr_ok_def True r by simp
  qed
qed

section \<open>Timeouts and wake-ups\<close>

text \<open>The timer of a thread is cancelled only for the thread itself: a change of one thread.\<close>

lemma thr_one:
  assumes wf: "ssx_wf s" and ok: "\<And>u. thr_ok (K u) u s"
    and others: "\<And>u. u \<noteq> t \<Longrightarrow> threads s' u = threads s u \<and> timers s' (ThreadTimer u) = timers s (ThreadTimer u) \<and>
      timer_active (ThreadTimer u) s' = timer_active (ThreadTimer u) s"
    and p: "priority_map s p = t \<or> priority_map s p = 0"
    and run: "\<And>q. q \<noteq> p \<Longrightarrow> q \<in> queue_elems (run_queue s') \<longleftrightarrow> q \<in> queue_elems (run_queue s)"
    and pend: "\<And>q m. q \<noteq> p \<Longrightarrow> q \<in> queue_elems (pending_threads (sems s' m)) \<Longrightarrow> q \<in> queue_elems (pending_threads (sems s m))"
    and t: "thr_ok (K' t) t s'" and K': "\<And>u. u \<noteq> t \<Longrightarrow> K' u = K u"
  shows "thr_ok (K' u) u s'"
proof (cases "u = t")
  case False
  then have "thr_ok (K u) u s'" using others [OF False] by (intro thr_other [OF ok wf _ _ _ p False run pend]) simp_all
  then show ?thesis using K' [OF False] by simp
qed (use t in simp)

lemma thr_timeout:
  assumes wf: "ssx_wf s" and ok: "\<And>u. u \<noteq> t \<Longrightarrow> thr_ok (K u) u s"
    and t: "\<not> timer_active (ThreadTimer t) s" "thr_base (K t) t (threads s t) True (ready t s) (timer_ok t s)"
    and w: "th_state (threads s t) = MAPPED \<Longrightarrow> ready t s \<Longrightarrow> waits (th_priority (threads s t)) s \<Longrightarrow> expired (threads s t)"
  obtains s' where "ssx_thread_timeout t s = Inr s'" "\<And>u. thr_ok (K u) u s'"
proof -
  let ?x = "threads s t"
  let ?y = "?x\<lparr>th_flags := th_flags ?x OR FLAG_TIMED_OUT\<rparr>"
  have d: "\<not> dead ?x" and e: "\<not> expired ?x" and tm: "timed ?x" and p: "th_priority ?x < 32"
    using t(2) by (auto simp: thr_base_def)
  have k: "kont_ok (K t) t ?x" using t(2) d by (simp add: thr_base_def)
  have ky: "kont_ok (K t) t ?y" using k by (simp add: kont_ok_def split: kont.splits)
  have rdy: "thr_base (K t) t ?x False True (timer_ok t s)" if "ready t s" using t(2) that d e unfolding thr_base_def by blast
  have ok_t: "thr_ok (K t) t s" if "ready t s" using rdy [OF that] w that t(1) unfolding thr_ok_def by auto
  have base_y: "thr_base (K t) t z False r (timer_ok t s)" if "z = ?y \<or> z = ?y\<lparr>th_state := SUSPENDED_RUNNABLE\<rparr>" for r z
  proof -
    have "kont_ok (K t) t z" using ky that by (auto simp: kont_ok_def split: kont.splits)
    moreover have "timed z" "expired z" "\<not> dead z" "th_priority z = th_priority ?x" using that tm d by auto
    ultimately show ?thesis using t(2) d unfolding thr_base_def by simp
  qed
  have all: "\<And>u. thr_ok (K u) u s'"
    if s': "threads s' = (threads s)(t := z)" "z = ?y \<or> z = ?y\<lparr>th_state := SUSPENDED_RUNNABLE\<rparr>" "timers s' = timers s" "tq_heap s' = tq_heap s"
      "sems s' = sems s" "queue_elems (run_queue s') = A" "A - {th_priority ?x} = queue_elems (run_queue s) - {th_priority ?x}"
      "priority_map s (th_priority ?x) = t \<or> A = queue_elems (run_queue s)" for s' z A
  proof -
    fix u show "thr_ok (K u) u s'"
    proof (cases "u = t")
      case True
      have "thr_base (K t) t (threads s' t) (timer_active (ThreadTimer t) s') (ready t s') (timer_ok t s')"
        using base_y [OF s'(2), of "ready t s'"] s' t(1) by (simp add: timer_active_def timer_ok_def)
      moreover have "expired (threads s' t)" using s'(1,2) by auto
      ultimately show ?thesis unfolding thr_ok_def True by simp
    next
      case False
      have m: "th_priority (threads s u) \<in> A \<longleftrightarrow> th_priority (threads s u) \<in> queue_elems (run_queue s)"
        if "th_state (threads s u) = MAPPED"
      proof (cases "A = queue_elems (run_queue s)")
        case False
        then have "th_priority (threads s u) \<noteq> th_priority ?x" using s'(8) wf_mappedD [OF wf that] \<open>u \<noteq> t\<close> by auto
        then show ?thesis using s'(7) by auto
      qed simp
      show ?thesis
        by (rule thr_ok_cong [OF _ _ _ _ _ ok [OF False]])
          (use False s' m in \<open>simp_all add: timer_active_def waits_def\<close>)
    qed
  qed
  show thesis
  proof (cases "th_state ?x")
    case MAPPED
    show thesis
    proof (cases "ssx_thread_is_runnable t s")
      case True
      then have "ready t s" using MAPPED by (simp add: ready_def runnable_iff)
      then have "thr_ok (K u) u s" for u using ok ok_t by (cases "u = t") auto
      then show thesis using that [of s] True MAPPED by (simp add: ssx_thread_timeout_def)
    next
      case False
      let ?s1 = "upd_thread t (\<lambda>x. x\<lparr>th_flags := th_flags x OR FLAG_TIMED_OUT\<rparr>) s"
      let ?s2 = "?s1\<lparr>run_queue := queue_insert (run_queue ?s1) (th_priority (threads ?s1 t))\<rparr>"
      have "thr_ok (K u) u ?s2" for u
        by (rule all [of ?s2 ?y "insert (th_priority ?x) (queue_elems (run_queue s))"])
          (use p wf_mappedD [OF wf MAPPED] in \<open>auto simp: upd_thread_def queue_simps\<close>)
      then show thesis using that [of "ssx_schedule ?s2"] False MAPPED by (simp add: ssx_thread_timeout_def Let_def)
    qed
  next
    case SUSPENDED_RUNNABLE
    then have "ready t s" by (simp add: ready_def)
    then have "thr_ok (K u) u s" for u using ok ok_t by (cases "u = t") auto
    then show thesis using that [of s] SUSPENDED_RUNNABLE by (simp add: ssx_thread_timeout_def)
  next
    case SUSPENDED_BLOCKED
    let ?s2 = "upd_thread t (\<lambda>x. x\<lparr>th_flags := th_flags x OR FLAG_TIMED_OUT, th_state := SUSPENDED_RUNNABLE\<rparr>) s"
    have "thr_ok (K u) u ?s2" for u
      by (rule all [of ?s2 "?y\<lparr>th_state := SUSPENDED_RUNNABLE\<rparr>" "queue_elems (run_queue s)"])
        (simp_all add: upd_thread_def)
    then show thesis using that [of ?s2] SUSPENDED_BLOCKED by (simp add: ssx_thread_timeout_def)
  qed (use d in auto)
qed

lemma thr_wake:
  assumes wf: "ssx_wf s" and ok: "\<And>u. thr_ok (K u) u s"
    and th: "threads s' = threads s" "timers s' = timers s" "tq_heap s' = tq_heap s"
    and other: "\<And>n. n \<noteq> m \<Longrightarrow> sems s' n = sems s n"
    and W: "W \<subseteq> queue_elems (pending_threads (sems s m))"
    and pend: "queue_elems (pending_threads (sems s' m)) = queue_elems (pending_threads (sems s m)) - W"
    and run: "queue_elems (run_queue s') = queue_elems (run_queue s) \<union> W"
  shows "thr_ok (K u) u s'"
proof -
  let ?x = "threads s u" and ?p = "th_priority (threads s u)"
  have q: "timer_active y s' = timer_active y s" "timer_ok u s' = timer_ok u s" for y
    using th by (simp_all add: timer_active_def timer_ok_def)
  have base: "thr_base (K u) u ?x (timer_active (ThreadTimer u) s) (ready u s) (timer_ok u s)"
    using ok [of u] by (simp add: thr_ok_def)
  have woken: "pends ?x" "th_semaphore ?x = m" "\<not> waits ?p s'" if "th_state ?x = MAPPED" "?p \<in> W"
  proof -
    have pm: "priority_map s ?p = u" using wf_mappedD [OF wf that(1)] by simp
    have "?p \<in> queue_elems (pending_threads (sems s m))" using that(2) W by blast
    from wf_pendD [OF wf this] pm show "pends ?x" and m: "th_semaphore ?x = m" by simp_all
    have "?p \<notin> queue_elems (pending_threads (sems s' n))" for n
      using other [of n] pend that(2) wf_pendD [OF wf, of ?p n] pm m by (cases "n = m") auto
    then show "\<not> waits ?p s'" by (simp add: waits_def)
  qed
  have r: "ready u s' \<longleftrightarrow> ready u s \<or> th_state ?x = MAPPED \<and> ?p \<in> W" by (auto simp: ready_def th run)
  have "\<not> dead ?x \<Longrightarrow> kont_ok (K u) u ?x" using base unfolding thr_base_def by blast
  then have "ready u s' \<Longrightarrow> K u = K_Sleep \<Longrightarrow> ready u s" using r woken(1) by (auto simp: kont_ok_def)
  then have "thr_base (K u) u ?x (timer_active (ThreadTimer u) s) (ready u s') (timer_ok u s)"
    by (intro thr_base_ready [OF base]) (use r in auto)
  moreover have "waits ?p s" if "waits ?p s'"
  proof -
    from that obtain n where n: "?p \<in> queue_elems (pending_threads (sems s' n))" by (auto simp: waits_def)
    then have "?p \<in> queue_elems (pending_threads (sems s n))" using other [of n] pend by (cases "n = m") auto
    then show ?thesis by (auto simp: waits_def)
  qed
  ultimately show ?thesis using ok [of u] woken(3) r unfolding thr_ok_def th q by blast
qed

section \<open>The running thread\<close>

text \<open>The running thread blocks: it gives up the processor and will go on at \<open>k'\<close>.\<close>

lemma thr_block:
  assumes wf: "ssx_wf s" and ok: "\<And>u. thr_ok (K u) u s" and t: "th_state (threads s t) = MAPPED" "K t = K_Run"
    and y: "threads s' = (threads s)(t := y)" "th_state y = MAPPED" "th_priority y = th_priority (threads s t)"
      "kont_ok k' t y" "\<not> expired y"
    and others: "\<And>u. u \<noteq> t \<Longrightarrow> timers s' (ThreadTimer u) = timers s (ThreadTimer u) \<and>
      timer_active (ThreadTimer u) s' = timer_active (ThreadTimer u) s"
    and tm: "timer_ok t s' = timer_ok t s" "timer_active (ThreadTimer t) s' = timed y"
    and run: "queue_elems (run_queue s') = queue_elems (run_queue s) - {th_priority (threads s t)}"
    and pend: "\<And>m. queue_elems (pending_threads (sems s' m)) \<subseteq> insert (th_priority (threads s t)) (queue_elems (pending_threads (sems s m)))"
  shows "thr_ok ((K(t := k')) u) u s'"
proof -
  let ?p = "th_priority (threads s t)"
  have nr: "\<not> ready t s'" using run y by (simp add: ready_def)
  have base: "thr_base K_Run t (threads s t) (timer_active (ThreadTimer t) s) (ready t s) (timer_ok t s)"
    using ok [of t] t(2) by (simp add: thr_ok_def)
  have "\<not> dead (threads s t)" using t(1) by simp
  then have b: "t \<noteq> 0" "th_priority (threads s t) < 32" "timer_ok t s" using base unfolding thr_base_def by blast+
  have "thr_base k' t y (timed y) False (timer_ok t s)"
    unfolding thr_base_def using y(2-5) b by simp
  then have "thr_ok k' t s'" using nr unfolding thr_ok_def tm y(1) by simp
  then have t': "thr_ok ((K(t := k')) t) t s'" by simp
  show ?thesis
    by (rule thr_one [OF wf ok, where p = ?p and t = t])
      (use t' y(1) others run pend wf_mappedD [OF wf t(1)] in auto)
qed

text \<open>It goes on after a pend or a sleep, with the flags cleared and its timer taken back.\<close>

lemma thr_unblock:
  assumes wf: "ssx_wf s" and ok: "\<And>u. thr_ok (K u) u s" and t: "th_state (threads s t) = MAPPED"
    and y: "threads s' = (threads s)(t := y)" "th_state y = MAPPED" "th_priority y = th_priority (threads s t)"
      "\<not> pends y" "\<not> timed y" "\<not> expired y"
    and others: "\<And>u. u \<noteq> t \<Longrightarrow> timers s' (ThreadTimer u) = timers s (ThreadTimer u) \<and>
      timer_active (ThreadTimer u) s' = timer_active (ThreadTimer u) s"
    and tm: "timer_ok t s' = timer_ok t s" "\<not> timer_active (ThreadTimer t) s'"
    and run: "run_queue s' = run_queue s"
    and pend: "\<And>m. queue_elems (pending_threads (sems s' m)) \<subseteq> queue_elems (pending_threads (sems s m))"
      "\<not> waits (th_priority (threads s t)) s'"
  shows "thr_ok ((K(t := K_Run)) u) u s'"
proof -
  let ?p = "th_priority (threads s t)"
  have base: "thr_base (K t) t (threads s t) (timer_active (ThreadTimer t) s) (ready t s) (timer_ok t s)"
    using ok [of t] by (simp add: thr_ok_def)
  have "\<not> dead (threads s t)" using t by simp
  then have b: "t \<noteq> 0" "th_priority (threads s t) < 32" "timer_ok t s" using base unfolding thr_base_def by blast+
  have "thr_base K_Run t y False r (timer_ok t s)" for r
    unfolding thr_base_def using y(2-6) b by (simp add: kont_ok_def)
  then have "thr_ok K_Run t s'" using pend(2) y(3) tm(2) unfolding thr_ok_def tm(1) y(1) by simp
  then have t': "thr_ok ((K(t := K_Run)) t) t s'" by simp
  show ?thesis
    by (rule thr_one [OF wf ok, where p = ?p and t = t])
      (use t' y(1) others run pend(1) wf_mappedD [OF wf t] in auto)
qed

section \<open>Unmapped threads\<close>

lemma prio_frames:
  "th_flags (x\<lparr>th_priority := p\<rparr>) = th_flags x" "th_state (x\<lparr>th_priority := p\<rparr>) = th_state x"
  "th_priority (x\<lparr>th_priority := p\<rparr>) = p"
  by simp_all

lemma thr_prio:
  assumes ok: "\<And>u. thr_ok (K u) u s" and nm: "th_state (threads s t) \<noteq> MAPPED" and p: "p < 32"
  shows "thr_ok (K u) u (upd_thread t (\<lambda>x. x\<lparr>th_priority := p\<rparr>) s)"
proof -
  let ?s = "upd_thread t (\<lambda>x. x\<lparr>th_priority := p\<rparr>) s"
  have q: "timer_active y ?s = timer_active y s" "timer_ok u ?s = timer_ok u s" "waits r ?s = waits r s" for y r
    by (simp_all add: timer_active_def timer_ok_def waits_def)
  have r: "ready u ?s = ready u s" using nm by (auto simp: ready_def)
  have k: "kont_ok k t (x\<lparr>th_priority := p\<rparr>) = kont_ok k t x" for k x by (simp add: kont_ok_def split: kont.split)
  have "thr_base (K t) t (x\<lparr>th_priority := p\<rparr>) q r tm" if "thr_base (K t) t x q r tm" for x q r tm
    using that p unfolding thr_base_def k by (simp only: prio_frames) blast
  then show ?thesis using ok [of u] nm unfolding thr_ok_def q r by (cases "u = t") simp_all
qed

text \<open>A thread that is done, with its timer cancelled.\<close>

lemma thr_dead:
  assumes ok: "\<And>u. u \<noteq> t \<Longrightarrow> thr_ok (K u) u s" and f: "final = COMPLETED \<or> final = DELETED"
    and q: "\<not> timer_active (ThreadTimer t) s"
  shows "thr_ok (K u) u (upd_thread t (\<lambda>x. x\<lparr>th_state := final\<rparr>) s)"
proof -
  let ?s = "upd_thread t (\<lambda>x. x\<lparr>th_state := final\<rparr>) s"
  have a: "timer_active y ?s = timer_active y s" for y by (simp add: timer_active_def)
  show ?thesis
  proof (cases "u = t")
    case True
    show ?thesis unfolding True thr_ok_def thr_base_def a using f q by (elim disjE) simp_all
  next
    case False
    show ?thesis by (rule thr_ok_cong [OF _ _ _ _ _ ok [OF False]]) (use False in \<open>simp_all add: a waits_def\<close>)
  qed
qed

end
