(* ===== verification/SSX_System.thy ===== *)
theory SSX_System
  imports SSX_Threads_Ok
begin

text \<open>
  The kernel as one transition system: every call of the kernel, from threads and from interrupt
  handlers, the switches between threads, interrupt entry and exit, the timer handler, and time.
\<close>

section \<open>States and steps\<close>

record sys =
  ker :: ssx
  kont :: "ptr \<Rightarrow> kont"
  hnd :: handler

text \<open>
  Kernel calls come from an interrupt handler, from the running thread when it is executing its
  own code, or from the main program before the threads are started; never from the timer handler's
  critical sections.
\<close>

definition may_call :: "sys \<Rightarrow> bool" where
  "may_call S \<longleftrightarrow> open_state (hnd S) \<and>
     (kernel_context_thread (ker S) \<longrightarrow> current_thread (ker S) \<noteq> 0 \<and> kont S (current_thread (ker S)) = K_Run)"

definition thread_call :: "sys \<Rightarrow> bool" where
  "thread_call S \<longleftrightarrow> may_call S \<and> kernel_context_thread (ker S)"

definition irq_enter :: "ssx \<Rightarrow> ssx" where
  "irq_enter s = s\<lparr>ctx_noncritical := ctx_noncritical s + 1\<rparr>"

text \<open>
  A step is labelled with the threads the call may take out of the kernel's queues. A thread whose
  pend has timed out, but that has not run since, is still in the queue of its semaphore, and the
  kernel does not take it out of there when it unmaps it: the invariant below needs that no such
  thread is suspended, deleted or given another priority. \<open>careful_step\<close> excludes exactly these calls.
  Neither the kernel nor its callers test for them: the callback of occ_405/thread/threadSch.c swaps
  the priorities of two threads whatever they wait for.
\<close>

inductive sys_step :: "ptr set \<Rightarrow> sys \<Rightarrow> sys \<Rightarrow> bool" where
  create: "may_call S \<Longrightarrow> dead (threads (ker S) t) \<Longrightarrow> ssx_thread_create t ro st sz p (ker S) = Inr (rc, s') \<Longrightarrow>
    sys_step {} S (S\<lparr>ker := s', kont := (kont S)(t := K_Run)\<rparr>)"
| resume: "may_call S \<Longrightarrow> ssx_thread_resume t (ker S) = Inr (rc, s') \<Longrightarrow> sys_step {} S (S\<lparr>ker := s'\<rparr>)"
| suspend: "may_call S \<Longrightarrow> ssx_thread_suspend t (ker S) = Inr (rc, s') \<Longrightarrow> sys_step {t} S (S\<lparr>ker := s'\<rparr>)"
| delete: "may_call S \<Longrightarrow> ssx_thread_delete t (ker S) = Inr (rc, s') \<Longrightarrow> sys_step {t} S (S\<lparr>ker := s'\<rparr>)"
| complete: "thread_call S \<Longrightarrow> ssx_complete (ker S) = Inr (rc, s') \<Longrightarrow> sys_step {} S (S\<lparr>ker := s'\<rparr>)"
| change: "may_call S \<Longrightarrow> p < 32 \<Longrightarrow> ssx_thread_priority_change t p (ker S) = Inr (rc, s') \<Longrightarrow>
    sys_step {t} S (S\<lparr>ker := s'\<rparr>)"
| swap: "may_call S \<Longrightarrow> \<not> dead (threads (ker S) a) \<Longrightarrow> \<not> dead (threads (ker S) b) \<Longrightarrow>
    ssx_thread_priority_swap a b (ker S) = Inr (rc, s') \<Longrightarrow> sys_step {a, b} S (S\<lparr>ker := s'\<rparr>)"
| sleep: "thread_call S \<Longrightarrow> ssx_sleep_absolute time (ker S) = Inr s' \<Longrightarrow>
    sys_step {} S (S\<lparr>ker := s', kont := (kont S)(current_thread (ker S) := K_Sleep)\<rparr>)"
| sleep_resumed: "kernel_context_thread (ker S) \<Longrightarrow> t = current_thread (ker S) \<Longrightarrow> t \<noteq> 0 \<Longrightarrow> kont S t = K_Sleep \<Longrightarrow>
    ssx_sleep_resumed t (ker S) = (rc, s') \<Longrightarrow> sys_step {} S (S\<lparr>ker := s', kont := (kont S)(t := K_Run)\<rparr>)"
| pend: "may_call S \<Longrightarrow> ssx_semaphore_pend m timeout (ker S) = Inr (Some rc, s') \<Longrightarrow> sys_step {} S (S\<lparr>ker := s'\<rparr>)"
| pend_block: "may_call S \<Longrightarrow> ssx_semaphore_pend m timeout (ker S) = Inr (None, s') \<Longrightarrow>
    sys_step {} S (S\<lparr>ker := s', kont := (kont S)(current_thread (ker S) := K_Pend m (pend_timer (current_thread (ker S)) timeout))\<rparr>)"
| pend_resumed: "kernel_context_thread (ker S) \<Longrightarrow> t = current_thread (ker S) \<Longrightarrow> t \<noteq> 0 \<Longrightarrow> kont S t = K_Pend m x \<Longrightarrow>
    ssx_semaphore_pend_resumed m t x (ker S) = (rc, s') \<Longrightarrow> sys_step {} S (S\<lparr>ker := s', kont := (kont S)(t := K_Run)\<rparr>)"
| post: "may_call S \<Longrightarrow> ssx_semaphore_post m (ker S) = Inr (rc, s') \<Longrightarrow> sys_step {} S (S\<lparr>ker := s'\<rparr>)"
| release_all: "may_call S \<Longrightarrow> ssx_semaphore_release_all m (ker S) = Inr (rc, s') \<Longrightarrow> sys_step {} S (S\<lparr>ker := s'\<rparr>)"
| sem_create: "may_call S \<Longrightarrow> queue_elems (pending_threads (sems (ker S) m)) = {} \<Longrightarrow>
    ssx_semaphore_create m c0 cm (ker S) = Inr (rc, s') \<Longrightarrow> sys_step {} S (S\<lparr>ker := s'\<rparr>)"
| timer_create: "may_call S \<Longrightarrow> \<not> timer_active (UserTimer n) (ker S) \<Longrightarrow> (\<forall>t. cb \<noteq> CB_ThreadTimeout t) \<Longrightarrow>
    k_timer_create (UserTimer n) cb opt (ker S) = Inr (rc, s') \<Longrightarrow> sys_step {} S (S\<lparr>ker := s'\<rparr>)"
| timer_schedule: "may_call S \<Longrightarrow> ssx_timer_schedule_absolute (UserTimer n) tmo per (ker S) = Inr (rc, s') \<Longrightarrow>
    sys_step {} S (S\<lparr>ker := s'\<rparr>)"
| timer_cancel: "may_call S \<Longrightarrow> ssx_timer_cancel (UserTimer n) (ker S) = Inr (rc, s') \<Longrightarrow> sys_step {} S (S\<lparr>ker := s'\<rparr>)"
| start: "ctx_noncritical (ker S) = 0 \<Longrightarrow> hnd S = TH_Idle \<Longrightarrow> ssx_start_threads (ker S) = Inr s' \<Longrightarrow> sys_step {} S (S\<lparr>ker := s'\<rparr>)"
| enter: "open_state (hnd S) \<Longrightarrow> sys_step {} S (S\<lparr>ker := irq_enter (ker S)\<rparr>)"
| leave: "open_state (hnd S) \<Longrightarrow> ctx_noncritical (ker S) \<noteq> 0 \<Longrightarrow> hnd S = TH_Idle \<or> 1 < ctx_noncritical (ker S) \<Longrightarrow>
    sys_step {} S (S\<lparr>ker := ssx_noncritical_exit (ker S)\<rparr>)"
| tick: "ctx_noncritical (ker S) \<noteq> 0 \<Longrightarrow> timer_step (hnd S) (ker S) = Inr (h', s') \<Longrightarrow> sys_step {} S (S\<lparr>ker := s', hnd := h'\<rparr>)"
| time: "sys_step {} S (S\<lparr>ker := (ker S)\<lparr>timebase := tb\<rparr>\<rparr>)"

definition careful_step :: "sys \<Rightarrow> sys \<Rightarrow> bool" where
  "careful_step S S' \<longleftrightarrow> (\<exists>T. sys_step T S S' \<and> (\<forall>t \<in> T. not_stale t (ker S)))"

lemma careful: "sys_step {} S S' \<Longrightarrow> careful_step S S'"
  by (auto simp: careful_step_def)

text \<open>The state \<open>ssx_initialize\<close> leaves, started on memory in which no kernel object exists yet.\<close>

definition blank :: "ssx \<Rightarrow> bool" where
  "blank s \<longleftrightarrow> (\<forall>t. dead (threads s t)) \<and> (\<forall>x. is_timer x \<longrightarrow> \<not> ssx_deque_is_queued x (tq_heap s)) \<and>
     (\<forall>p. 32 < p \<longrightarrow> priority_map s p = 0) \<and> (\<forall>m. pending_threads (sems s m) = 0) \<and>
     (\<forall>n t. tm_callback (timers s (UserTimer n)) \<noteq> CB_ThreadTimeout t) \<and>
     \<not> ctx_thread_mode s \<and> ctx_noncritical s = 0 \<and> ctx_critical s = 0"

definition sys_init :: "sys \<Rightarrow> bool" where
  "sys_init S \<longleftrightarrow> hnd S = TH_Idle \<and> (\<exists>s0 nstack nsize cstack csize tb hz rc. blank s0 \<and>
     ssx_initialize nstack nsize cstack csize tb hz s0 = Inr (rc, ker S))"

section \<open>The invariant\<close>

definition sched_inv :: "ssx \<Rightarrow> bool" where
  "sched_inv s \<longleftrightarrow> next_thread s = priority_map s (queue_min (run_queue s)) \<and> ctx_critical s = 0 \<and>
     (ctx_thread_mode s \<longrightarrow> next_thread s = current_thread s \<or> delayed_switch s \<and> ctx_noncritical s \<noteq> 0)"

definition user_inv :: "ssx \<Rightarrow> bool" where
  "user_inv s \<longleftrightarrow> (\<forall>n t. tm_callback (timers s (UserTimer n)) \<noteq> CB_ThreadTimeout t)"

definition kinv :: "(ptr \<Rightarrow> kont) \<Rightarrow> ssx \<Rightarrow> bool" where
  "kinv K s \<longleftrightarrow> ssx_wf s \<and> (\<forall>t. thr_ok (K t) t s)"

definition hnd_inv :: "handler \<Rightarrow> ssx \<Rightarrow> bool" where
  "hnd_inv h s \<longleftrightarrow> (\<exists>xs. tq_inv h xs s) \<and> (h \<noteq> TH_Idle \<longrightarrow> ctx_noncritical s \<noteq> 0) \<and> (\<forall>now t. h \<noteq> TH_Before now (CB_ThreadTimeout t))"

definition sys_inv :: "sys \<Rightarrow> bool" where
  "sys_inv S \<longleftrightarrow> kinv (kont S) (ker S) \<and> hnd_inv (hnd S) (ker S) \<and> sched_inv (ker S) \<and> user_inv (ker S)"

lemma sched_schedule:
  assumes "ctx_critical s = 0" shows "sched_inv (ssx_schedule s)"
  using assms by (simp add: sched_inv_def ssx_schedule_def Let_def kernel_mode_thread_def kernel_context_thread_def
    ssx_switch_def ssx_next_thread_resume_def)

lemma schedule_ctx [simp]:
  "ctx_critical s = 0 \<Longrightarrow> ctx_critical (ssx_schedule s) = 0"
  "ctx_noncritical (ssx_schedule s) = ctx_noncritical s" "ctx_thread_mode (ssx_schedule s) = ctx_thread_mode s"
  by (simp_all add: ssx_schedule_def Let_def kernel_mode_thread_def kernel_context_thread_def
    ssx_switch_def ssx_next_thread_resume_def)

text \<open>Two states with the same time queue.\<close>

definition tq_same :: "ssx \<Rightarrow> ssx \<Rightarrow> bool" where
  "tq_same s' s \<longleftrightarrow> tq_heap s' = tq_heap s \<and> tq_cursor s' = tq_cursor s \<and> tq_next_timeout s' = tq_next_timeout s \<and>
     timers s' = timers s \<and> pit s' = pit s \<and> pit_set s' = pit_set s \<and> ctx_noncritical s' = ctx_noncritical s"

lemma tq_same_inv:
  assumes "tq_same s' s"
  shows "hnd_inv h s' = hnd_inv h s" "user_inv s' = user_inv s" "timer_active x s' = timer_active x s" "timer_ok t s' = timer_ok t s"
proof -
  show "hnd_inv h s' = hnd_inv h s" using assms tq_inv_cong [of s' s h] by (simp add: tq_same_def hnd_inv_def)
qed (use assms in \<open>simp_all add: tq_same_def user_inv_def timer_active_def timer_ok_def\<close>)

lemma tq_same_simps [simp]:
  "tq_same s s" "tq_same (ssx_schedule s) s' = tq_same s s'" "tq_same (upd_thread t f s) s' = tq_same s s'"
  "tq_same (upd_sem m g s) s' = tq_same s s'" "tq_same (s\<lparr>run_queue := q\<rparr>) s' = tq_same s s'"
  "tq_same (s\<lparr>current_thread := t\<rparr>) s' = tq_same s s'"
  "tq_same (ssx_thread_map t s) s' = tq_same s s'" "tq_same (ssx_thread_unmap t s) s' = tq_same s s'"
  by (simp_all add: tq_same_def upd_thread_def upd_sem_def ssx_thread_map_def ssx_thread_unmap_def Let_def)

end
