(* ===== verification/SSX_System_Inv.thy ===== *)
theory SSX_System_Inv
  imports SSX_System
begin

text \<open>Every step of the kernel keeps the system invariant.\<close>

section \<open>Calls on threads\<close>

lemma kinvD: "kinv K s \<Longrightarrow> ssx_wf s" "kinv K s \<Longrightarrow> thr_ok (K t) t s"
  by (simp_all add: kinv_def)

lemma live_prio: "thr_ok k t s \<Longrightarrow> \<not> dead (threads s t) \<Longrightarrow> t \<noteq> 0 \<and> th_priority (threads s t) < 32"
  unfolding thr_ok_def thr_base_def by blast

lemma kinv_schedule [simp]: "kinv K (ssx_schedule s) = kinv K s"
  by (simp add: kinv_def)

lemma kinv_map:
  assumes k: "kinv K s" and t: "\<not> dead (threads s t)" "th_state (threads s t) \<noteq> MAPPED"
    and free: "priority_map s (th_priority (threads s t)) = 0"
  shows "kinv K (ssx_thread_map t s)"
proof -
  note p = live_prio [OF kinvD(2) [OF k] t(1)]
  have "th_state (threads s t) = SUSPENDED_RUNNABLE \<or> th_state (threads s t) = SUSPENDED_BLOCKED"
    using t by (cases "th_state (threads s t)") auto
  then have "ssx_wf (ssx_thread_map t s)" using p by (intro map_wf_thread [OF kinvD(1) [OF k]] free) auto
  then show ?thesis using thr_map [OF kinvD [OF k] t free] by (simp add: kinv_def)
qed

lemma kinv_unmap: "kinv K s \<Longrightarrow> ssx_thread_is_mapped t s \<Longrightarrow> not_stale t s \<Longrightarrow> kinv K (ssx_thread_unmap t s)"
  unfolding kinv_def using unmap_wf thr_unmap by blast

lemma kinv_prio:
  "kinv K s \<Longrightarrow> th_state (threads s t) \<noteq> MAPPED \<Longrightarrow> p < 32 \<Longrightarrow> kinv K (upd_thread t (\<lambda>x. x\<lparr>th_priority := p\<rparr>) s)"
  unfolding kinv_def using wf_set_prio thr_prio by blast

lemma unmapped [simp]: "th_state (threads (ssx_thread_unmap t s) t) \<noteq> MAPPED" "th_priority (threads (ssx_thread_unmap t s) u) = th_priority (threads s u)"
  "th_state (threads (ssx_thread_unmap t s) t) \<noteq> COMPLETED" "th_state (threads (ssx_thread_unmap t s) t) \<noteq> DELETED"
  by (simp_all add: unmap_fields)

definition sched_same :: "ssx \<Rightarrow> ssx \<Rightarrow> bool" where
  "sched_same s' s \<longleftrightarrow> next_thread s' = next_thread s \<and> priority_map s' = priority_map s \<and> run_queue s' = run_queue s \<and>
     ctx_critical s' = ctx_critical s \<and> ctx_thread_mode s' = ctx_thread_mode s \<and> ctx_noncritical s' = ctx_noncritical s \<and>
     current_thread s' = current_thread s \<and> delayed_switch s' = delayed_switch s"

definition settled :: "ssx \<Rightarrow> ssx \<Rightarrow> bool" where
  "settled s s' \<longleftrightarrow> sched_same s' s \<or> (\<exists>s1. s' = ssx_schedule s1 \<and> ctx_critical s1 = ctx_critical s)"

lemma settled_sched:
  assumes "settled s s'" "sched_inv s" shows "sched_inv s'"
  using assms(1) unfolding settled_def
proof (elim disjE exE conjE)
  fix s1 assume "s' = ssx_schedule s1" "ctx_critical s1 = ctx_critical s"
  moreover have "ctx_critical s = 0" using assms(2) by (simp add: sched_inv_def)
  ultimately show ?thesis using sched_schedule [of s1] by simp
qed (use assms(2) in \<open>auto simp: sched_same_def sched_inv_def\<close>)

lemma settledI: "ctx_critical s1 = ctx_critical s \<Longrightarrow> settled s (ssx_schedule s1)"
  by (auto simp: settled_def)

lemma settled_refl [simp]: "settled s s"
  by (simp add: settled_def sched_same_def)

lemma map_ctx [simp]:
  "ctx_critical (ssx_thread_map t s) = ctx_critical s" "ctx_critical (ssx_thread_unmap t s) = ctx_critical s"
  "ctx_critical (upd_timer x f s) = ctx_critical s" "ctx_critical (k_timer_schedule x s) = ctx_critical s"
  "ctx_critical (snd (k_timer_cancel x s)) = ctx_critical s"
  by (simp_all add: ssx_thread_map_def ssx_thread_unmap_def Let_def upd_thread_def upd_sem_def upd_timer_def
    k_timer_schedule_def k_timer_cancel_def ssx_schedule_hardware_timeout_def)

lemma resume_kinv:
  assumes k: "kinv K s" and c: "ssx_thread_resume t s = Inr (rc, s')"
  shows "kinv K s' \<and> tq_same s' s \<and> settled s s'"
proof (cases "ssx_thread_is_mapped t s")
  case True
  then have "s' = s" using c by (simp add: ssx_thread_resume_def split: if_splits)
  then show ?thesis using k by simp
next
  case False
  then have s': "s' = ssx_schedule (ssx_thread_map t s)" "priority_map s (th_priority (threads s t)) = 0" "\<not> dead (threads s t)"
    using c by (simp_all add: ssx_thread_resume_def ssx_thread_is_active_def split: if_splits)
  have "kinv K (ssx_thread_map t s)"
    using False by (intro kinv_map [OF k s'(3) _ s'(2)]) (simp add: ssx_thread_is_mapped_def)
  then show ?thesis using s'(1) by (simp add: settledI)
qed

lemma suspend_kinv:
  assumes k: "kinv K s" and ns: "not_stale t s" and c: "ssx_thread_suspend t s = Inr (rc, s')"
  shows "kinv K s' \<and> tq_same s' s \<and> settled s s'"
  using c k kinv_unmap [OF k _ ns] by (auto simp: ssx_thread_suspend_def settledI split: if_splits)

lemma change_kinv:
  assumes k: "kinv K s" and ns: "not_stale t s" and p: "p < 32" and c: "ssx_thread_priority_change t p s = Inr (rc, s')"
  shows "kinv K s' \<and> tq_same s' s \<and> settled s s'"
proof (cases "th_priority (threads s t) = p")
  case True
  then have "s' = s" using c by (auto simp: ssx_thread_priority_change_def Let_def split: if_splits)
  then show ?thesis using k by simp
next
  case False
  let ?set = "upd_thread t (\<lambda>x. x\<lparr>th_priority := p\<rparr>)"
  show ?thesis
  proof (cases "ssx_thread_is_mapped t s")
    case True
    have s': "s' = ssx_schedule (ssx_thread_map t (?set (ssx_thread_unmap t s)))" and free: "priority_map s p = 0"
      using c False True by (auto simp: ssx_thread_priority_change_def Let_def split: if_splits)
    have k1: "kinv K (?set (ssx_thread_unmap t s))" by (rule kinv_prio [OF kinv_unmap [OF k True ns] _ p]) simp
    have "kinv K (ssx_thread_map t (?set (ssx_thread_unmap t s)))"
      by (rule kinv_map [OF k1]) (use free False in \<open>simp_all add: unmap_fields\<close>)
    then show ?thesis unfolding s' by (simp add: settledI)
  next
    case unmapped: False
    then have "s' = ?set s" using c False by (auto simp: ssx_thread_priority_change_def Let_def split: if_splits)
    moreover have "kinv K (?set s)" using unmapped by (intro kinv_prio [OF k _ p]) (simp add: ssx_thread_is_mapped_def)
    moreover have "settled s (?set s)" by (simp add: settled_def sched_same_def upd_thread_def)
    ultimately show ?thesis by simp
  qed
qed

lemma stale_unmap:
  assumes "ssx_wf s" "ssx_thread_is_mapped a s" "not_stale b s" "a \<noteq> b"
  shows "not_stale b (ssx_thread_unmap a s)" "ssx_thread_is_mapped b (ssx_thread_unmap a s) = ssx_thread_is_mapped b s"
proof -
  show m: "ssx_thread_is_mapped b (ssx_thread_unmap a s) = ssx_thread_is_mapped b s"
    using assms(4) by (simp add: ssx_thread_is_mapped_def unmap_fields)
  show "not_stale b (ssx_thread_unmap a s)"
    using assms(3,4) unfolding not_stale_def m runnable_iff by (auto simp: unmap_fields unmap_sems)
qed

lemma swap_kinv:
  assumes k: "kinv K s" and ns: "not_stale a s" "not_stale b s" and live: "\<not> dead (threads s a)" "\<not> dead (threads s b)"
    and c: "ssx_thread_priority_swap a b s = Inr (rc, s')"
  shows "kinv K s' \<and> tq_same s' s \<and> settled s s'"
proof (cases "a = b")
  case True
  then have "s' = s" using c by (auto simp: ssx_thread_priority_swap_def split: if_splits)
  then show ?thesis using k by simp
next
  case ne: False
  let ?pa = "th_priority (threads s a)" and ?pb = "th_priority (threads s b)"
  let ?ma = "ssx_thread_is_mapped a s" and ?mb = "ssx_thread_is_mapped b s"
  define s1 where "s1 = (if ?ma then ssx_thread_unmap a s else s)"
  define s2 where "s2 = (if ?mb then ssx_thread_unmap b s1 else s1)"
  define s3 where "s3 = upd_thread a (\<lambda>x. x\<lparr>th_priority := ?pb\<rparr>) s2"
  define s4 where "s4 = upd_thread b (\<lambda>x. x\<lparr>th_priority := ?pa\<rparr>) s3"
  define s5 where "s5 = (if ?ma then ssx_thread_map a s4 else s4)"
  define s6 where "s6 = (if ?mb then ssx_thread_map b s5 else s5)"
  have s': "s' = ssx_schedule s6" and use_a: "?ma \<Longrightarrow> \<not> ?mb \<Longrightarrow> priority_map s ?pb = 0"
    and use_b: "\<not> ?ma \<Longrightarrow> ?mb \<Longrightarrow> priority_map s ?pa = 0"
    using c ne unfolding s6_def s5_def s4_def s3_def s2_def s1_def
    by (simp_all add: ssx_thread_priority_swap_def Let_def k_thread_at_priority_def split: if_splits del: if_split)
  have pr: "?pa < 32" "?pb < 32" using live_prio [OF kinvD(2) [OF k]] live by blast+
  have wf: "ssx_wf s" by (rule kinvD(1) [OF k])
  have ma: "?ma \<Longrightarrow> priority_map s ?pa = a" and mb: "?mb \<Longrightarrow> priority_map s ?pb = b" and z: "?ma \<Longrightarrow> a \<noteq> 0" "?mb \<Longrightarrow> b \<noteq> 0"
    using wf_mappedD [OF wf] by (auto simp: ssx_thread_is_mapped_def)
  have b1: "not_stale b s1" "ssx_thread_is_mapped b s1 = ?mb"
    using stale_unmap [OF wf _ ns(2) ne] ns(2) by (auto simp: s1_def)
  have k1: "kinv K s1" using kinv_unmap [OF k _ ns(1)] k by (simp add: s1_def)
  have k2: "kinv K s2" using kinv_unmap [OF k1 _ b1(1)] k1 b1(2) by (simp add: s2_def)
  have st2: "th_state (threads s2 a) \<noteq> MAPPED" "th_state (threads s2 b) \<noteq> MAPPED"
    "\<not> dead (threads s2 a)" "\<not> dead (threads s2 b)" "th_priority (threads s2 u) = th_priority (threads s u)" for u
    using ne live by (auto simp: s2_def s1_def unmap_fields ssx_thread_is_mapped_def)
  have k3: "kinv K s3" unfolding s3_def by (rule kinv_prio [OF k2 st2(1) pr(2)])
  have k4: "kinv K s4" unfolding s4_def by (rule kinv_prio [OF k3 _ pr(1)]) (use st2 ne in \<open>simp add: s3_def\<close>)
  have st4: "th_state (threads s4 u) = th_state (threads s2 u)" "th_priority (threads s4 a) = ?pb" "th_priority (threads s4 b) = ?pa"
    "priority_map s4 = priority_map s2" for u
    using ne by (auto simp: s4_def s3_def)
  have pm2: "priority_map s2 = (\<lambda>p. if ?mb \<and> p = ?pb then 0 else if ?ma \<and> p = ?pa then 0 else priority_map s p)"
    using ne by (auto simp: s2_def s1_def unmap_fields fun_eq_iff)
  have k5: "kinv K s5"
  proof (cases ?ma)
    case True
    have "priority_map s4 ?pb = 0" using use_a True st4(4) pm2 by auto
    then have "kinv K (ssx_thread_map a s4)" by (intro kinv_map [OF k4]) (simp_all add: st4 st2)
    then show ?thesis by (simp add: s5_def True)
  qed (use k4 in \<open>simp add: s5_def\<close>)
  have "kinv K s6"
  proof (cases ?mb)
    case True
    have "?pa \<noteq> ?pb" if ?ma using ma mb that True ne by auto
    then have "priority_map s5 ?pa = 0" using use_b True st4 pm2 by (auto simp: s5_def map_fields)
    moreover have "threads s5 b = threads s4 b" using ne by (simp add: s5_def map_fields)
    ultimately have "kinv K (ssx_thread_map b s5)" by (intro kinv_map [OF k5]) (simp_all add: st4 st2)
    then show ?thesis by (simp add: s6_def True)
  qed (use k5 in \<open>simp add: s6_def\<close>)
  moreover have "tq_same s6 s" "ctx_critical s6 = ctx_critical s" by (simp_all add: s6_def s5_def s4_def s3_def s2_def s1_def)
  ultimately show ?thesis unfolding s' by (simp add: settledI)
qed

section \<open>Calls that touch timers\<close>

lemma cancel_tq:
  assumes h: "hnd_inv h s" "open_state h" and x: "is_timer x" and s1: "s1 = snd (k_timer_cancel x s)"
  shows "hnd_inv h s1" "\<And>y. is_timer y \<Longrightarrow> timer_active y s1 \<longleftrightarrow> y \<noteq> x \<and> timer_active y s" "timers s1 = timers s"
    "ctx_noncritical s1 = ctx_noncritical s"
proof -
  obtain xs where xs: "tq_inv h xs s" using h(1) by (auto simp: hnd_inv_def)
  show c: "ctx_noncritical s1 = ctx_noncritical s" by (simp add: s1 k_timer_cancel_def Let_def)
  show "timers s1 = timers s" by (simp add: s1 cancel_fields)
  show "\<And>y. is_timer y \<Longrightarrow> timer_active y s1 \<longleftrightarrow> y \<noteq> x \<and> timer_active y s" unfolding s1 by (rule active_cancel [OF xs x])
  show "hnd_inv h s1" using inv_cancel [OF xs h(2) x] h(1) c unfolding s1 hnd_inv_def by auto
qed

lemma set_timer_tq:
  assumes h: "hnd_inv h s" "open_state h" and x: "is_timer x" and s1: "s1 = set_timer x tmo per s"
  shows "hnd_inv h s1" "\<And>y. is_timer y \<Longrightarrow> timer_active y s1 \<longleftrightarrow> y = x \<or> timer_active y s"
    "timers s1 = (timers s)(x := (timers s x)\<lparr>tm_timeout := tmo, tm_period := per\<rparr>)"
    "ctx_noncritical s1 = ctx_noncritical s"
proof -
  obtain xs where xs: "tq_inv h xs s" using h(1) by (auto simp: hnd_inv_def)
  show c: "ctx_noncritical s1 = ctx_noncritical s"
    by (simp add: s1 k_timer_schedule_def ssx_schedule_hardware_timeout_def Let_def upd_timer_def)
  show "timers s1 = (timers s)(x := (timers s x)\<lparr>tm_timeout := tmo, tm_period := per\<rparr>)"
    by (simp add: s1 schedule_fields upd_timer_def)
  show "\<And>y. is_timer y \<Longrightarrow> timer_active y s1 \<longleftrightarrow> y = x \<or> timer_active y s" unfolding s1 by (rule active_set_timer [OF xs x])
  show "hnd_inv h s1" using inv_set_timer [OF xs h(2) x] h(1) c unfolding s1 hnd_inv_def by auto
qed

text \<open>A change of the time queue that leaves the thread timers alone.\<close>

lemma kinv_timers:
  assumes k: "kinv K s" and s: "threads s' = threads s" "run_queue s' = run_queue s" "priority_map s' = priority_map s" "sems s' = sems s"
    and t: "\<And>u. timers s' (ThreadTimer u) = timers s (ThreadTimer u)" "\<And>u. timer_active (ThreadTimer u) s' = timer_active (ThreadTimer u) s"
  shows "kinv K s'"
proof -
  have "thr_ok (K u) u s'" for u
    by (rule thr_ok_cong [OF _ _ _ _ _ kinvD(2) [OF k]]) (simp_all add: s t waits_def)
  then show ?thesis using k ssx_wf_cong [OF s(2,3,1,4)] by (simp add: kinv_def)
qed

lemma frames_cancel:
  "sched_same (snd (k_timer_cancel x s)) s" "sched_same (set_timer x tmo per s) s"
  by (simp_all add: sched_same_def k_timer_cancel_def k_timer_schedule_def ssx_schedule_hardware_timeout_def Let_def upd_timer_def)

lemma user_timer_call:
  assumes i: "kinv K s" "hnd_inv h s" "sched_inv s" "user_inv s" "open_state h"
    and s': "s' = set_timer (UserTimer n) tmo per s \<or> s' = snd (k_timer_cancel (UserTimer n) s)"
  shows "kinv K s' \<and> hnd_inv h s' \<and> sched_inv s' \<and> user_inv s'"
  using s'
proof
  assume e: "s' = set_timer (UserTimer n) tmo per s"
  note q = set_timer_tq [OF i(2,5) _ e]
  have "kinv K s'" by (rule kinv_timers [OF i(1)]) (use q(2,3) in \<open>simp_all add: e\<close>)
  moreover have "sched_inv s'" by (rule settled_sched [OF _ i(3)]) (use frames_cancel in \<open>simp add: e settled_def\<close>)
  ultimately show ?thesis using q i(4) by (simp add: user_inv_def)
next
  assume e: "s' = snd (k_timer_cancel (UserTimer n) s)"
  note q = cancel_tq [OF i(2,5) _ e]
  have "kinv K s'" by (rule kinv_timers [OF i(1)]) (use q(2,3) in \<open>simp_all add: e\<close>)
  moreover have "sched_inv s'" by (rule settled_sched [OF _ i(3)]) (use frames_cancel in \<open>simp add: e settled_def\<close>)
  ultimately show ?thesis using q i(4) by (simp add: user_inv_def)
qed

section \<open>Deleting a thread\<close>

lemma hnd_same: "tq_same s' s \<Longrightarrow> hnd_inv h s \<Longrightarrow> user_inv s \<Longrightarrow> hnd_inv h s' \<and> user_inv s'"
  using tq_same_inv by simp

lemma kill_kinv:
  assumes i: "kinv K s" "hnd_inv h s" "sched_inv s" "user_inv s" "open_state h" and ns: "not_stale t s"
    and f: "final = COMPLETED \<or> final = DELETED" and s': "s' = k_thread_delete t final s"
  shows "kinv K s' \<and> hnd_inv h s' \<and> sched_inv s' \<and> user_inv s'"
proof -
  define s1 where "s1 = (if ssx_thread_is_mapped t s then ssx_thread_unmap t s else s)"
  define s2 where "s2 = snd (k_timer_cancel (ThreadTimer t) s1)"
  define s3 where "s3 = upd_thread t (\<lambda>x. x\<lparr>th_state := final\<rparr>) s2"
  have s'3: "s' = (if ssx_thread_is_mapped t s
      then ssx_schedule (if t = current_thread s3 then s3\<lparr>current_thread := 0\<rparr> else s3) else s3)"
    by (simp add: s' k_thread_delete_def s1_def s2_def s3_def thread_timer_def Let_def)
  have k1: "kinv K s1" using kinv_unmap [OF i(1) _ ns] i(1) by (simp add: s1_def)
  have "tq_same s1 s" by (simp add: s1_def)
  then have h1: "hnd_inv h s1" "user_inv s1" using hnd_same i(2,4) by blast+
  note q = cancel_tq [OF h1(1) i(5) _ s2_def]
  have ok2: "thr_ok (K u) u s2" if "u \<noteq> t" for u
    by (rule thr_ok_cong [OF _ _ _ _ _ kinvD(2) [OF k1]]) (use that q(2,3) in \<open>simp_all add: s2_def waits_def\<close>)
  have "\<not> timer_active (ThreadTimer t) s2" using q(2) by simp
  from thr_dead [where K = K, OF ok2 f this] have ok3: "thr_ok (K u) u s3" for u unfolding s3_def by blast
  have wf: "ssx_wf s'" unfolding s' by (rule wf_delete [OF kinvD(1) [OF i(1)] ns f])
  have "kinv K s'" using wf ok3 unfolding kinv_def s'3 by simp
  moreover have "tq_same s' s2" unfolding s'3 by (simp add: s3_def)
  then have "hnd_inv h s' \<and> user_inv s'" using hnd_same q(1,3) h1(2) by (simp add: user_inv_def)
  moreover have "ctx_critical s3 = ctx_critical s" by (simp add: s3_def s2_def s1_def)
  then have "settled s s'"
  proof (cases "ssx_thread_is_mapped t s")
    case False
    then have "sched_same s' s" using frames_cancel(1) [of "ThreadTimer t" s]
      by (simp add: s'3 s3_def s2_def s1_def sched_same_def upd_thread_def)
    then show ?thesis by (simp add: settled_def)
  qed (use \<open>ctx_critical s3 = ctx_critical s\<close> in \<open>simp add: s'3 settledI\<close>)
  then have "sched_inv s'" by (rule settled_sched [OF _ i(3)])
  ultimately show ?thesis by blast
qed

section \<open>The running thread\<close>

lemma now_running:
  assumes k: "kinv K s" and i: "sched_inv s" and c: "kernel_context_thread s" "t = current_thread s" "t \<noteq> 0"
  shows "th_state (threads s t) = MAPPED" "th_priority (threads s t) \<in> queue_elems (run_queue s)"
proof -
  let ?p = "queue_min (run_queue s)"
  have t: "priority_map s ?p = t" using i c by (simp add: sched_inv_def kernel_context_thread_def)
  have m: "?p < 32 \<and> th_state (threads s t) = MAPPED \<and> th_priority (threads s t) = ?p"
    using wf_mapD [OF kinvD(1) [OF k], of ?p] t c(3) by simp
  then show "th_state (threads s t) = MAPPED" by blast
  have "queue_elems (run_queue s) \<noteq> {}" using m tq.min_lt_iff by blast
  then show "th_priority (threads s t) \<in> queue_elems (run_queue s)" using m tq.min_in by simp
qed

lemma now_run:
  assumes k: "kinv K s" and i: "sched_inv s" and c: "kernel_context_thread s" "t = current_thread s" "t \<noteq> 0" and r: "K t = K_Run"
  shows "running t s" "\<not> pends (threads s t)" "\<not> timed (threads s t)" "\<not> expired (threads s t)" "not_stale t s"
proof -
  note m = now_running [OF k i c]
  have rd: "ready t s" using m by (simp add: ready_def)
  have base: "thr_base K_Run t (threads s t) (timer_active (ThreadTimer t) s) (ready t s) (timer_ok t s)"
    and w: "waits (th_priority (threads s t)) s \<longrightarrow> expired (threads s t)"
    using kinvD(2) [OF k, of t] r m rd by (simp_all add: thr_ok_def)
  have "\<not> dead (threads s t)" using m by simp
  then have "kont_ok K_Run t (threads s t)" "expired (threads s t) \<longrightarrow> timed (threads s t)" using base unfolding thr_base_def by blast+
  then show np: "\<not> pends (threads s t)" and nt: "\<not> timed (threads s t)" and ne: "\<not> expired (threads s t)"
    by (simp_all add: kont_ok_def)
  then have nw: "\<not> waits (th_priority (threads s t)) s" using w by blast
  then show "running t s" using m c(2) by (auto simp: running_def ssx_thread_is_mapped_def runnable_iff waits_def)
  show "not_stale t s" using nw by (auto simp: not_stale_def waits_def)
qed

lemma threads_upd: "threads (upd_thread t f s) = (threads s)(t := f (threads s t))"
  by (simp add: upd_thread_def)

lemma sleep_kinv:
  assumes i: "kinv K s" "hnd_inv h s" "sched_inv s" "user_inv s" "open_state h"
    and c: "kernel_context_thread s" "t = current_thread s" "t \<noteq> 0" "K t = K_Run" and r: "ssx_sleep_absolute time s = Inr s'"
  shows "kinv (K(t := K_Sleep)) s' \<and> hnd_inv h s' \<and> sched_inv s' \<and> user_inv s'"
proof -
  note run = now_run [where K = K, OF i(1,3) c] and now = now_running [OF i(1,3) c(1-3)]
  let ?x = "threads s t"
  let ?y = "?x\<lparr>th_flags := th_flags ?x OR FLAG_TIMER_PEND\<rparr>"
  define s1 where "s1 = set_timer (ThreadTimer t) time (tm_period (timers s (ThreadTimer t))) s"
  note q = set_timer_tq [OF i(2,5) _ s1_def]
  define s2 where "s2 = (upd_thread t (\<lambda>x. x\<lparr>th_flags := th_flags x OR FLAG_TIMER_PEND\<rparr>) s1)\<lparr>run_queue :=
     queue_delete (run_queue s) (th_priority ?x)\<rparr>"
  have "upd_timer (ThreadTimer t) (\<lambda>x. x\<lparr>tm_timeout := time\<rparr>) s =
      upd_timer (ThreadTimer t) (\<lambda>x. x\<lparr>tm_timeout := time, tm_period := tm_period (timers s (ThreadTimer t))\<rparr>) s"
    by (simp add: upd_timer_def)
  then have s': "s' = ssx_schedule s2"
    using r c by (simp add: ssx_sleep_absolute_def Let_def s2_def s1_def thread_timer_def)
  have "thr_ok ((K(t := K_Sleep)) u) u s2" for u
    by (rule thr_block [OF kinvD [OF i(1)] now(1) c(4), of _ ?y])
      (use q(2,3) run(2,4) now(1) in \<open>auto simp: s2_def s1_def kont_ok_def queue_simps timer_ok_def timer_active_def threads_upd\<close>)
  moreover have "ssx_wf s'" using sleep_wf [OF kinvD(1) [OF i(1)] _ r] run(1,2) c(2) by simp
  moreover have "tq_same s' s1" unfolding s' by (simp add: s2_def)
  then have "hnd_inv h s' \<and> user_inv s'" using hnd_same q(1,3) i(4) by (simp add: user_inv_def)
  moreover have "settled s s'" unfolding s' by (rule settledI) (simp add: s2_def s1_def)
  then have "sched_inv s'" by (rule settled_sched [OF _ i(3)])
  ultimately show ?thesis unfolding s' kinv_def by simp
qed

lemma flags_cleared:
  "flag_set (f AND NOT FLAG_TIMER_PEND AND NOT FLAG_TIMED_OUT) FLAG_SEMAPHORE_PEND = flag_set f FLAG_SEMAPHORE_PEND"
  "\<not> flag_set (f AND NOT FLAG_TIMER_PEND AND NOT FLAG_TIMED_OUT) FLAG_TIMER_PEND"
  "\<not> flag_set (f AND NOT FLAG_TIMER_PEND AND NOT FLAG_TIMED_OUT) FLAG_TIMED_OUT"
  by (auto simp: flag_set_bit bit_and_iff bit_not_iff bit_flags)

lemma sleep_resumed_kinv:
  assumes i: "kinv K s" "hnd_inv h s" "sched_inv s" "user_inv s"
    and c: "kernel_context_thread s" "t = current_thread s" "t \<noteq> 0" "K t = K_Sleep" and r: "ssx_sleep_resumed t s = (rc, s')"
  shows "kinv (K(t := K_Run)) s' \<and> hnd_inv h s' \<and> sched_inv s' \<and> user_inv s'"
proof -
  note now = now_running [OF i(1,3) c(1-3)]
  let ?x = "threads s t"
  let ?y = "?x\<lparr>th_flags := th_flags ?x AND NOT (FLAG_TIMER_PEND OR FLAG_TIMED_OUT)\<rparr>"
  have s': "s' = upd_thread t (\<lambda>x. x\<lparr>th_flags := th_flags x AND NOT (FLAG_TIMER_PEND OR FLAG_TIMED_OUT)\<rparr>) s"
    using r by (simp add: ssx_sleep_resumed_def)
  have rd: "ready t s" using now by (simp add: ready_def)
  have ok: "thr_ok K_Sleep t s" using kinvD(2) [OF i(1), of t] c(4) by simp
  have "\<not> dead ?x" using now(1) by simp
  then have k: "\<not> pends ?x" "expired ?x" "\<not> timer_active (ThreadTimer t) s"
    using ok rd unfolding thr_ok_def thr_base_def by (auto simp: kont_ok_def)
  have nw: "\<not> waits (th_priority ?x) s"
  proof
    assume "waits (th_priority ?x) s"
    then obtain m where "th_priority ?x \<in> queue_elems (pending_threads (sems s m))" by (auto simp: waits_def)
    from wf_pendD [OF kinvD(1) [OF i(1)] this] have "pends ?x"
      using wf_mappedD [OF kinvD(1) [OF i(1)] now(1)] by simp
    with k(1) show False by simp
  qed
  have "running t s" using now nw c(2) by (auto simp: running_def ssx_thread_is_mapped_def runnable_iff waits_def)
  then have wf: "ssx_wf s'" using sleep_resumed_wf [OF kinvD(1) [OF i(1)]] r by (metis snd_conv)
  have "thr_ok ((K(t := K_Run)) u) u s'" for u
    by (rule thr_unblock [OF kinvD [OF i(1)], where t = t and y = ?y]) (use now k nw in \<open>auto simp: s' flags_cleared threads_upd timer_active_def timer_ok_def waits_def\<close>)
  moreover have "tq_same s' s" by (simp add: s')
  then have "hnd_inv h s' \<and> user_inv s'" using hnd_same i(2,4) by blast
  moreover have "sched_inv s'" by (rule settled_sched [OF _ i(3)]) (simp add: settled_def sched_same_def s' upd_thread_def)
  ultimately show ?thesis using wf by (simp add: kinv_def)
qed

section \<open>Semaphores\<close>

lemma kinv_sems:
  assumes k: "kinv K s" and wf: "ssx_wf s'"
    and s: "threads s' = threads s" "run_queue s' = run_queue s" "timers s' = timers s" "tq_heap s' = tq_heap s"
    and w: "\<And>m. queue_elems (pending_threads (sems s' m)) \<subseteq> queue_elems (pending_threads (sems s m))"
  shows "kinv K s'"
proof -
  have "thr_ok (K u) u s'" for u
    by (rule thr_ok_cong [OF _ _ _ _ _ kinvD(2) [OF k]]) (use w in \<open>auto simp: s waits_def timer_active_def\<close>)
  then show ?thesis using wf by (simp add: kinv_def)
qed

lemma upd_sem_same: "sched_same (upd_sem m f s) s"
  by (simp add: sched_same_def upd_sem_def)

lemma pend_kinv:
  assumes k: "kinv K s" and r: "ssx_semaphore_pend m timeout s = Inr (Some rc, s')"
  shows "kinv K s' \<and> tq_same s' s \<and> settled s s'"
  using r
proof (cases rule: pend_cases)
  case take
  have "ssx_wf s'" unfolding take(3) by (rule wf_count_dec [OF kinvD(1) [OF k] take(1)])
  then have "kinv K s'" by (rule kinv_sems [OF k]) (auto simp: take(3))
  then show ?thesis using upd_sem_same by (simp add: take(3) settled_def)
qed (use k in simp_all)

lemma pend_block_kinv:
  assumes i: "kinv K s" "hnd_inv h s" "sched_inv s" "user_inv s" "open_state h"
    and c: "kernel_context_thread s \<longrightarrow> current_thread s \<noteq> 0 \<and> K (current_thread s) = K_Run" "t = current_thread s"
    and r: "ssx_semaphore_pend m timeout s = Inr (None, s')"
  shows "kinv (K(t := K_Pend m (pend_timer t timeout))) s' \<and> hnd_inv h s' \<and> sched_inv s' \<and> user_inv s'"
  using r
proof (cases rule: pend_cases)
  case block
  let ?x = "threads s t"
  let ?w = "timeout = SSX_WAIT_FOREVER"
  have c': "kernel_context_thread s" "t = current_thread s" "t \<noteq> 0" "K t = K_Run" using block(4) c by auto
  note run = now_run [where K = K, OF i(1,3) c'] and now = now_running [OF i(1,3) c'(1-3)]
  define s1 where "s1 = (if ?w then s else set_timer (ThreadTimer t) (timebase s + timeout) (tm_period (timers s (ThreadTimer t))) s)"
  have "upd_timer (ThreadTimer t) (\<lambda>x. x\<lparr>tm_timeout := timebase s + timeout\<rparr>) z =
      upd_timer (ThreadTimer t) (\<lambda>x. x\<lparr>tm_timeout := timebase s + timeout, tm_period := tm_period (timers s (ThreadTimer t))\<rparr>) z"
    if "timers z = timers s" for z using that by (simp add: upd_timer_def)
  note set = this
  have same: "tq_same s' s1" and se: "settled s s'"
  proof -
    let ?s2 = "upd_thread t (\<lambda>x. x\<lparr>th_semaphore := m, th_flags := th_flags x OR FLAG_SEMAPHORE_PEND\<rparr>)
      (upd_sem m (\<lambda>x. x\<lparr>pending_threads := queue_insert (pending_threads x) (th_priority ?x)\<rparr>) s)"
    define s3 where "s3 = (if ?w then ?s2 else upd_thread t (\<lambda>x. x\<lparr>th_flags := th_flags x OR FLAG_TIMER_PEND\<rparr>)
      (set_timer (ThreadTimer t) (timebase s + timeout) (tm_period (timers s (ThreadTimer t))) ?s2))"
    have e: "s' = ssx_schedule (s3\<lparr>run_queue := queue_delete (run_queue s3) (th_priority ?x)\<rparr>)"
      using r block(1,2) c' set [of ?s2]
      by (auto simp: ssx_semaphore_pend_def Let_def s3_def thread_timer_def split: if_splits)
    have "tq_same (set_timer x tmo per (upd_thread t f (upd_sem m g s))) (set_timer x tmo per s)" for x tmo per f g
      by (simp add: tq_same_def k_timer_schedule_def upd_timer_def upd_thread_def upd_sem_def timer_active_def
        ssx_schedule_hardware_timeout_def Let_def)
    then show "tq_same s' s1" unfolding e by (simp add: s3_def s1_def)
    show "settled s s'" unfolding e by (rule settledI) (simp add: s3_def)
  qed
  have q: "hnd_inv h s1" "\<And>u. timer_active (ThreadTimer u) s1 \<longleftrightarrow> u = t \<and> \<not> ?w \<or> timer_active (ThreadTimer u) s"
    "\<And>u. u \<noteq> t \<Longrightarrow> timers s1 (ThreadTimer u) = timers s (ThreadTimer u)" "\<And>n. timers s1 (UserTimer n) = timers s (UserTimer n)"
    "timer_ok t s1 = timer_ok t s"
    using set_timer_tq [OF i(2,5), of "ThreadTimer t" s1] i(2) by (auto simp: s1_def timer_ok_def)
  have na: "\<not> timer_active (ThreadTimer t) s"
    using kinvD(2) [OF i(1), of t] run(3) unfolding thr_ok_def thr_base_def by blast
  have act: "timer_active x s' = timer_active x s1" "timers s' = timers s1" "timer_ok t s' = timer_ok t s1" for x
    using same by (simp_all add: tq_same_def timer_active_def timer_ok_def)
  let ?y = "?x\<lparr>th_semaphore := m, th_flags := (if ?w then th_flags ?x OR FLAG_SEMAPHORE_PEND
      else (th_flags ?x OR FLAG_SEMAPHORE_PEND) OR FLAG_TIMER_PEND)\<rparr>"
  have th: "threads s' = (threads s)(t := ?y)" using block(5) c'(2) by simp
  have fy: "timed ?y = (\<not> ?w)" "\<not> expired ?y" "pends ?y" using run(3,4) by simp_all
  have "thr_ok ((K(t := K_Pend m (pend_timer t timeout))) u) u s'" for u
  proof (rule thr_block [OF kinvD [OF i(1)] now(1) c'(4) th])
    show "th_state ?y = MAPPED" "th_priority ?y = th_priority ?x" "\<not> expired ?y" using now(1) fy by simp_all
    show "kont_ok (K_Pend m (pend_timer t timeout)) t ?y"
      using fy by (simp add: kont_ok_def pend_timer_def thread_timer_def)
    show "timer_ok t s' = timer_ok t s" "timer_active (ThreadTimer t) s' = timed ?y" using act q(2,5) na fy(1) by auto
    show "\<And>u. u \<noteq> t \<Longrightarrow> timers s' (ThreadTimer u) = timers s (ThreadTimer u) \<and>
        timer_active (ThreadTimer u) s' = timer_active (ThreadTimer u) s" using act q(2,3) by auto
    show "queue_elems (run_queue s') = queue_elems (run_queue s) - {th_priority ?x}" using block(8) c'(2) by (simp add: queue_simps)
    show "queue_elems (pending_threads (sems s' n)) \<subseteq> insert (th_priority ?x) (queue_elems (pending_threads (sems s n)))" for n
      using block(7) c'(2) by (auto simp: queue_simps)
  qed
  moreover have "ssx_wf s'" using pend_wf_thread [OF kinvD(1) [OF i(1)] _ r] run(1) c'(2) by simp
  moreover have "user_inv s1" using i(4) q(4) by (simp add: user_inv_def)
  then have "hnd_inv h s' \<and> user_inv s'" using hnd_same [OF same q(1)] by blast
  moreover have "sched_inv s'" by (rule settled_sched [OF se i(3)])
  ultimately show ?thesis by (simp add: kinv_def)
qed simp_all

text \<open>The thread that pended runs again: posted, released, or timed out.\<close>

lemma pend_resumed_kinv:
  assumes i: "kinv K s" "hnd_inv h s" "sched_inv s" "user_inv s" "open_state h"
    and c: "kernel_context_thread s" "t = current_thread s" "t \<noteq> 0" "K t = K_Pend m x"
    and r: "ssx_semaphore_pend_resumed m t x s = (rc, s')"
  shows "kinv (K(t := K_Run)) s' \<and> hnd_inv h s' \<and> sched_inv s' \<and> user_inv s'"
proof -
  note now = now_running [OF i(1,3) c(1-3)]
  let ?x = "threads s t"
  have wf: "ssx_wf s" by (rule kinvD(1) [OF i(1)])
  have pm: "priority_map s (th_priority ?x) = t" using wf_mappedD [OF wf now(1)] by simp
  have rd: "ready t s" using now by (simp add: ready_def)
  have ok: "thr_ok (K_Pend m x) t s" using kinvD(2) [OF i(1), of t] c(4) by simp
  have "\<not> dead ?x" using now(1) by simp
  then have base: "kont_ok (K_Pend m x) t ?x" "expired ?x \<longrightarrow> timed ?x"
      "timer_active (ThreadTimer t) s \<longrightarrow> timed ?x \<and> \<not> expired ?x"
    and w: "waits (th_priority ?x) s \<longrightarrow> expired ?x"
    using ok rd now(1) unfolding thr_ok_def thr_base_def by blast+
  have k: "th_semaphore ?x = m" "x = (if timed ?x then ThreadTimer t else Null)" using base(1) by (auto simp: kont_ok_def)
  have only_m: "n = m" if "th_priority ?x \<in> queue_elems (pending_threads (sems s n))" for n
    using wf_pendD [OF wf that] pm k(1) by simp
  have wfs': "ssx_wf s'"
    by (rule resumed_wf [OF wf _ _ _ r])
      (use now only_m w base(2) in \<open>auto simp: ssx_thread_is_mapped_def runnable_iff waits_def\<close>)
  let ?f = "th_flags ?x AND NOT FLAG_SEMAPHORE_PEND"
  let ?y = "?x\<lparr>th_flags := (if timed ?x then ?f AND NOT (FLAG_TIMER_PEND OR FLAG_TIMED_OUT) else ?f)\<rparr>"
  define s1 where "s1 = upd_thread t (\<lambda>x. x\<lparr>th_flags := th_flags x AND NOT FLAG_SEMAPHORE_PEND\<rparr>) s"
  define s2 where "s2 = (if \<not> timed ?x then s1 else if expired ?x
     then upd_sem m (\<lambda>z. z\<lparr>pending_threads := queue_delete (pending_threads z) (th_priority ?x)\<rparr>) s1
     else snd (k_timer_cancel (ThreadTimer t) s1))"
  have e: "s' = (if timed ?x then upd_thread t (\<lambda>x. x\<lparr>th_flags := th_flags x AND NOT (FLAG_TIMER_PEND OR FLAG_TIMED_OUT)\<rparr>) s2 else s2)"
    using r k(2) by (auto simp: ssx_semaphore_pend_resumed_def s1_def s2_def Let_def split: if_splits)
  have th2: "threads s2 = threads s1" "run_queue s2 = run_queue s" "priority_map s2 = priority_map s" by (simp_all add: s2_def s1_def)
  have th: "threads s' = (threads s)(t := ?y)"
  proof -
    have "threads s2 = (threads s)(t := ?x\<lparr>th_flags := ?f\<rparr>)" by (simp add: th2(1) s1_def threads_upd)
    then show ?thesis by (cases "timed ?x") (simp_all add: e threads_upd)
  qed
  have t1: "tq_same s1 s" by (simp add: s1_def)
  have h1: "hnd_inv h s1" "user_inv s1" using hnd_same [OF t1] i(2,4) by blast+
  have a1: "timer_active y s1 = timer_active y s" "timers s1 = timers s" for y using t1 by (simp_all add: tq_same_def timer_active_def)
  have q: "hnd_inv h s2" "user_inv s2" "timers s2 = timers s"
    "\<And>u. timer_active (ThreadTimer u) s2 \<longleftrightarrow> timer_active (ThreadTimer u) s \<and> u \<noteq> t"
  proof -
    have "tq_same (upd_sem m f s1) s1" for f by simp
    note s = this cancel_tq [OF h1(1) i(5), of "ThreadTimer t", OF _ refl]
    show h: "hnd_inv h s2" using s(2) h1 hnd_same [OF s(1)] by (simp add: s2_def)
    show tm: "timers s2 = timers s" using s(4) a1 by (simp add: s2_def)
    then show "user_inv s2" using i(4) by (simp add: user_inv_def)
    show "timer_active (ThreadTimer u) s2 \<longleftrightarrow> timer_active (ThreadTimer u) s \<and> u \<noteq> t" for u
      using s(3) a1 base(2,3) by (auto simp: s2_def timer_active_def)
  qed
  have same: "tq_same s' s2" by (simp add: e)
  have act: "timer_active y s' = timer_active y s2" "timers s' = timers s2" for y
    using same by (simp_all add: tq_same_def timer_active_def)
  have pend: "queue_elems (pending_threads (sems s' n)) =
      queue_elems (pending_threads (sems s n)) - (if timed ?x \<and> expired ?x \<and> n = m then {th_priority ?x} else {})" for n
    by (simp add: e s2_def s1_def queue_simps)
  have fy: "\<not> pends ?y" "\<not> timed ?y" "\<not> expired ?y"
    using base(2) by (auto simp: flag_set_bit bit_and_iff bit_not_iff bit_or_iff bit_flags)
  have "thr_ok ((K(t := K_Run)) u) u s'" for u
  proof (rule thr_unblock [OF kinvD [OF i(1)] now(1) th])
    show "th_state ?y = MAPPED" "th_priority ?y = th_priority ?x" "\<not> pends ?y" "\<not> timed ?y" "\<not> expired ?y"
      using now(1) fy by simp_all
    show "\<And>u. u \<noteq> t \<Longrightarrow> timers s' (ThreadTimer u) = timers s (ThreadTimer u) \<and>
        timer_active (ThreadTimer u) s' = timer_active (ThreadTimer u) s" using act q(3,4) by simp
    show "timer_ok t s' = timer_ok t s" "\<not> timer_active (ThreadTimer t) s'" using act q(3,4) by (simp_all add: timer_ok_def)
    show "run_queue s' = run_queue s" by (simp add: e th2)
    show "queue_elems (pending_threads (sems s' n)) \<subseteq> queue_elems (pending_threads (sems s n))" for n
      using pend by auto
    show "\<not> waits (th_priority ?x) s'"
      using pend only_m w base(2) by (auto simp: waits_def split: if_splits)
  qed
  moreover have "hnd_inv h s' \<and> user_inv s'" using hnd_same [OF same q(1,2)] .
  moreover have "sched_same s' s"
    by (simp add: e s2_def s1_def sched_same_def upd_thread_def upd_sem_def k_timer_cancel_def Let_def)
  then have "sched_inv s'" by (intro settled_sched [OF _ i(3)]) (simp add: settled_def)
  ultimately show ?thesis using wfs' by (simp add: kinv_def)
qed

lemma wake_kinv:
  assumes k: "kinv K s" and wf: "ssx_wf s'"
    and s': "s' = ssx_schedule ((upd_sem m f s)\<lparr>run_queue := q\<rparr>)"
    and W: "W \<subseteq> queue_elems (pending_threads (sems s m))"
    and f: "queue_elems (pending_threads (f (sems s m))) = queue_elems (pending_threads (sems s m)) - W"
    and q: "queue_elems q = queue_elems (run_queue s) \<union> W"
  shows "kinv K s' \<and> tq_same s' s \<and> settled s s'"
proof -
  let ?s1 = "(upd_sem m f s)\<lparr>run_queue := q\<rparr>"
  have "thr_ok (K u) u ?s1" for u
    by (rule thr_wake [OF kinvD [OF k] _ _ _ _ W]) (use f q in \<open>simp_all add: upd_sem_def\<close>)
  moreover have "settled s s'" unfolding s' by (rule settledI) simp
  ultimately show ?thesis using wf unfolding s' kinv_def by simp
qed

lemma post_kinv:
  assumes k: "kinv K s" and r: "ssx_semaphore_post m s = Inr (rc, s')"
  shows "kinv K s' \<and> tq_same s' s \<and> settled s s'"
  using r
proof (cases rule: post_cases)
  case (wake p)
  have "p < 32" by (rule tq.elems_lt [OF wake(2)])
  then show ?thesis
    by (intro wake_kinv [OF k post_wf [OF kinvD(1) [OF k] r] wake(3), of "{p}"]) (use wake in \<open>simp_all add: queue_simps\<close>)
next
  case count
  have "kinv K s'" by (rule kinv_sems [OF k post_wf [OF kinvD(1) [OF k] r]]) (auto simp: count(2) upd_sem_def)
  then show ?thesis using upd_sem_same by (simp add: count(2) settled_def)
qed

lemma release_kinv:
  assumes k: "kinv K s" and r: "ssx_semaphore_release_all m s = Inr (rc, s')"
  shows "kinv K s' \<and> tq_same s' s \<and> settled s s'"
proof -
  have swap: "(upd_sem m f s)\<lparr>run_queue := q\<rparr> = upd_sem m f (s\<lparr>run_queue := q\<rparr>)" for f q
    by (cases s) (simp add: upd_sem_def)
  have "s' = ssx_schedule ((upd_sem m (\<lambda>x. x\<lparr>pending_threads := queue_clear (pending_threads x)\<rparr>) s)\<lparr>run_queue :=
      queue_union (run_queue s) (pending_threads (sems s m))\<rparr>)"
    using r unfolding swap by (simp add: ssx_semaphore_release_all_def Let_def split: if_splits)
  from wake_kinv [OF k release_all_wf [OF kinvD(1) [OF k] r] this, of "queue_elems (pending_threads (sems s m))"]
  show ?thesis by (simp add: queue_simps)
qed

lemma sem_create_kinv:
  assumes k: "kinv K s" and e: "queue_elems (pending_threads (sems s m)) = {}" and r: "ssx_semaphore_create m c0 cm s = Inr (rc, s')"
  shows "kinv K s' \<and> tq_same s' s \<and> settled s s'"
proof -
  have s': "s' = upd_sem m (\<lambda>x. x\<lparr>pending_threads := queue_clear (pending_threads x), sem_count := c0, sem_max_count := cm\<rparr>) s"
    using r by (simp add: ssx_semaphore_create_def split: if_splits)
  have "kinv K s'"
    by (rule kinv_sems [OF k sem_create_wf [OF kinvD(1) [OF k] e r]]) (auto simp: s' upd_sem_def queue_simps)
  then show ?thesis using upd_sem_same by (simp add: s' settled_def)
qed

section \<open>Creating threads and timers\<close>

lemma idle_next_null:
  assumes h: "hnd_inv h s" and x: "is_timer x" "\<not> timer_active x s" and open_h: "open_state h"
    and s': "tq_heap s' = set_next x Null (tq_heap s)" "tq_cursor s' = tq_cursor s" "tq_next_timeout s' = tq_next_timeout s"
      "ctx_noncritical s' = ctx_noncritical s" "pit s' = pit s" "pit_set s' = pit_set s"
      "\<And>y. y \<noteq> x \<Longrightarrow> timers s' y = timers s y"
  shows "hnd_inv h s'" "timer_active y s' = timer_active y s"
proof -
  have nl: "dq_next (tq_heap s) x = Null" using x(2) by (simp add: timer_active_def ssx_deque_is_queued_def)
  have hp: "tq_heap s' = tq_heap s" using nl s'(1) by (simp add: set_next_def fun_upd_idem)
  then show "timer_active y s' = timer_active y s" by (simp add: timer_active_def)
  obtain xs where xs: "tq_inv h xs s" using h by (auto simp: hnd_inv_def)
  have nx: "x \<notin> set xs" using tq_active_iff [OF tq_inv_repr [OF xs] x(1)] x(2) by simp
  have cov: "covered s' zs = covered s zs" if "set zs \<subseteq> set xs" for zs
  proof (rule covered_cong [OF s'(3)])
    fix y assume "y \<in> set zs"
    then have "y \<noteq> x" using nx that by blast
    then show "tm_timeout (timers s' y) = tm_timeout (timers s y)" using s'(7) by simp
  qed
  have "tq_inv h xs s'"
    using open_h
  proof (cases rule: open_cases)
    case 1
    then show ?thesis using xs cov [of xs] hp s'(2) pit_cong [OF s'(5,6,3)] by (simp add: tq_inv_def tq_idle_def)
  next
    case 2
    then obtain us vs where "xs = us @ vs" "tq_at (tq_cursor s) us vs s" using xs by auto
    then have "tq_at (tq_cursor s') us vs s'" using cov [of us] hp s'(2) by (simp add: tq_at_def)
    then show ?thesis using 2 \<open>xs = us @ vs\<close> by blast
  qed
  then show "hnd_inv h s'" using h s'(4) by (auto simp: hnd_inv_def)
qed

lemma create_same:
  assumes "ssx_thread_create t ro st sz p s = Inr (rc, s')" shows "sched_same s' s"
  using assms by (auto simp: sched_same_def ssx_thread_create_def ssx_timer_create_nonpreemptible_def k_timer_create_def
    ssx_deque_element_create_def upd_thread_def upd_timer_def Let_def split: if_splits prod.splits)

lemma create_pit:
  assumes "ssx_thread_create t ro st sz p s = Inr (rc, s')" shows "pit s' = pit s" "pit_set s' = pit_set s"
  using assms by (auto simp: ssx_thread_create_def ssx_timer_create_nonpreemptible_def k_timer_create_def
    ssx_deque_element_create_def upd_thread_def upd_timer_def Let_def split: if_splits prod.splits)

lemma create_kinv:
  assumes i: "kinv K s" "hnd_inv h s" "sched_inv s" "user_inv s" "open_state h" and d: "dead (threads s t)"
    and r: "ssx_thread_create t ro st sz p s = Inr (rc, s')"
  shows "kinv (K(t := K_Run)) s' \<and> hnd_inv h s' \<and> sched_inv s' \<and> user_inv s'"
  using r
proof (rule create_fields)
  fix b l
  assume th: "threads s' = (threads s)(t := (threads s t)\<lparr>th_stack_base := b, th_stack_limit := l,
       th_semaphore := 0, th_priority := p, th_state := SUSPENDED_RUNNABLE, th_flags := 0\<rparr>)"
    and t: "t \<noteq> 0" "p < 32" and pm: "priority_map s' = priority_map s" "run_queue s' = run_queue s" "sems s' = sems s"
    and tq: "tq_heap s' = set_next (ThreadTimer t) Null (tq_heap s)" "tq_cursor s' = tq_cursor s"
      "tq_next_timeout s' = tq_next_timeout s"
    and tm: "timers s' = (timers s)(ThreadTimer t := \<lparr>tm_timeout = 0, tm_period = 0, tm_callback = CB_ThreadTimeout t, tm_options = 0\<rparr>)"
  have same: "sched_same s' s" by (rule create_same [OF r])
  have na: "\<not> timer_active (ThreadTimer t) s" using kinvD(2) [OF i(1), of t] d unfolding thr_ok_def thr_base_def by blast
  have "ctx_noncritical s' = ctx_noncritical s" using same by (simp add: sched_same_def)
  note q = idle_next_null [OF i(2) _ na i(5) tq this create_pit [OF r], unfolded tm]
  have h: "hnd_inv h s'" and act: "\<And>y. timer_active y s' = timer_active y s" by (rule q; simp)+
  have "thr_ok ((K(t := K_Run)) u) u s'" for u
  proof (cases "u = t")
    case True
    have "thr_base K_Run t (threads s' t) False r True" for r
      using t unfolding thr_base_def by (simp add: th kont_ok_def)
    then show ?thesis using na unfolding True thr_ok_def act by (simp add: th tm timer_ok_def)
  next
    case False
    have "thr_ok (K u) u s'"
      by (rule thr_ok_cong [OF _ _ _ _ _ kinvD(2) [OF i(1)]]) (use False in \<open>simp_all add: th tm act pm waits_def\<close>)
    then show ?thesis using False by simp
  qed
  moreover have "ssx_wf s'" using create_wf [OF kinvD(1) [OF i(1)] _ r] d by auto
  moreover have "sched_inv s'" by (rule settled_sched [OF _ i(3)]) (simp add: settled_def same)
  ultimately show ?thesis using h i(4) by (simp add: kinv_def user_inv_def tm)
qed

lemma timer_create_kinv:
  assumes i: "kinv K s" "hnd_inv h s" "sched_inv s" "user_inv s" "open_state h" and na: "\<not> timer_active (UserTimer n) s"
    and cb: "\<forall>t. cb \<noteq> CB_ThreadTimeout t" and r: "k_timer_create (UserTimer n) cb opt s = Inr (rc, s')"
  shows "kinv K s' \<and> hnd_inv h s' \<and> sched_inv s' \<and> user_inv s'"
proof -
  have s': "s' = upd_timer (UserTimer n) (\<lambda>x. x\<lparr>tm_timeout := 0, tm_period := 0, tm_callback := cb, tm_options := opt\<rparr>)
      (s\<lparr>tq_heap := set_next (UserTimer n) Null (tq_heap s)\<rparr>)"
    using r by (simp add: k_timer_create_def ssx_deque_element_create_def)
  have h: "hnd_inv h s'" and act: "\<And>y. timer_active y s' = timer_active y s"
    by (rule idle_next_null [OF i(2) _ na i(5)]; simp add: s' upd_timer_def)+
  have "kinv K s'" by (rule kinv_timers [OF i(1)]) (use act in \<open>simp_all add: s'\<close>)
  moreover have "sched_inv s'" by (rule settled_sched [OF _ i(3)]) (simp add: settled_def sched_same_def s' upd_timer_def)
  ultimately show ?thesis using h i(4) cb by (auto simp: user_inv_def s')
qed

section \<open>The timer handler\<close>

lemma timeout_settled:
  assumes "ssx_thread_timeout t s = Inr s'"
  shows "settled s s'" "ctx_noncritical s' = ctx_noncritical s"
  using assms by (auto simp: ssx_thread_timeout_def settled_def sched_same_def upd_thread_def Let_def
    split: thread_state.splits if_splits intro!: exI)

lemma active_timer_ok:
  assumes "kinv K s" "timer_active (ThreadTimer t) s"
  shows "timer_ok t s" "\<not> dead (threads s t)"
  using kinvD(2) [OF assms(1), of t] assms(2) unfolding thr_ok_def thr_base_def by blast+

text \<open>
  A due timer that is not rescheduled: if it is a user's, the threads are not concerned; if it is a
  thread's, the callback is the timeout of that thread.
\<close>

lemma fire_kinv:
  assumes i: "kinv K s" "sched_inv s" "user_inv s" and d: "is_timer d" "timer_active d s"
    and s2: "s2 = timer_rearm d (s\<lparr>tq_cursor := c\<rparr>)"
    and act: "\<And>u. timer_active (ThreadTimer u) s2 \<longleftrightarrow> timer_active (ThreadTimer u) s \<and>
      (ThreadTimer u = d \<longrightarrow> tm_period (timers s d) \<noteq> 0)"
  shows "if \<exists>t. d = ThreadTimer t
    then tm_options (timers s2 d) = 0 \<and> (\<exists>s3. run_callback (tm_callback (timers s2 d)) s2 = Inr s3 \<and> tm_callback (timers s2 d) \<noteq> CB_Null \<and>
      kinv K s3 \<and> sched_inv s3 \<and> user_inv s3 \<and> ctx_noncritical s3 = ctx_noncritical s)
    else kinv K s2 \<and> sched_inv s2 \<and> user_inv s2 \<and> ctx_noncritical s2 = ctx_noncritical s \<and>
      (\<forall>t. tm_callback (timers s2 d) \<noteq> CB_ThreadTimeout t)"
proof -
  have fr: "threads s2 = threads s" "sems s2 = sems s" "run_queue s2 = run_queue s" "priority_map s2 = priority_map s" "sched_same s2 s"
    by (simp_all add: s2 timer_rearm_def Let_def sched_same_def upd_timer_def)
  have tm: "timers s2 x = (if x = d \<and> tm_period (timers s d) \<noteq> 0
     then (timers s d)\<lparr>tm_timeout := tm_timeout (timers s d) + tm_period (timers s d)\<rparr> else timers s x)" for x
    unfolding s2 rearm_timers by simp
  have sc: "sched_inv s2" by (rule settled_sched [OF _ i(2)]) (simp add: settled_def fr(5))
  have us: "user_inv s2" using i(3) tm by (auto simp: user_inv_def)
  have cn: "ctx_noncritical s2 = ctx_noncritical s" using fr(5) by (simp add: sched_same_def)
  show ?thesis
  proof (cases "\<exists>t. d = ThreadTimer t")
    case False
    have "kinv K s2" by (rule kinv_timers [OF i(1)]) (use False fr tm act in auto)
    moreover from False d(1) obtain n where "d = UserTimer n" by (cases d) auto
    then have "\<forall>t. tm_callback (timers s2 d) \<noteq> CB_ThreadTimeout t" using us by (simp add: user_inv_def)
    ultimately show ?thesis using False sc us cn by simp
  next
    case True
    then obtain t where t: "d = ThreadTimer t" by blast
    have tok: "timer_ok t s" and live: "\<not> dead (threads s t)" using active_timer_ok [OF i(1)] d(2) t by blast+
    then have per: "tm_period (timers s d) = 0" "tm_callback (timers s d) = CB_ThreadTimeout t" "tm_options (timers s d) = 0"
      by (simp_all add: timer_ok_def t)
    have tm2: "timers s2 = timers s" using tm per by (simp add: fun_eq_iff)
    have wf: "ssx_wf s2" using kinvD(1) [OF i(1)] ssx_wf_cong fr by blast
    have rw: "ready u s2 = ready u s" "waits p s2 = waits p s" "timer_ok u s2 = timer_ok u s" for u p
      by (simp_all add: ready_def waits_def timer_ok_def fr tm2)
    have ok: "thr_ok (K u) u s2" if "u \<noteq> t" for u
      by (rule thr_ok_cong [OF _ _ _ _ _ kinvD(2) [OF i(1)]]) (use fr tm2 act that t rw in simp_all)
    have me: "thr_ok (K t) t s" by (rule kinvD(2) [OF i(1)])
    obtain s3 where s3: "ssx_thread_timeout t s2 = Inr s3" "\<And>u. thr_ok (K u) u s3"
    proof (rule thr_timeout [where K = K, OF wf ok])
      show "\<not> timer_active (ThreadTimer t) s2" using act per t by simp
      show "thr_base (K t) t (threads s2 t) True (ready t s2) (timer_ok t s2)"
        using me d(2) t by (simp add: thr_ok_def rw fr)
      show "th_state (threads s2 t) = MAPPED \<Longrightarrow> ready t s2 \<Longrightarrow> waits (th_priority (threads s2 t)) s2 \<Longrightarrow> expired (threads s2 t)"
        using me by (simp add: thr_ok_def rw fr)
    qed auto
    have "sched_inv s3" by (rule settled_sched [OF timeout_settled(1) [OF s3(1)] sc])
    moreover have "user_inv s3" using us timeout_frames(4) [OF s3(1)] by (simp add: user_inv_def)
    moreover have "kinv K s3" using s3(2) wf_timeout [OF wf s3(1)] by (simp add: kinv_def)
    ultimately show ?thesis
      using True per tm2 s3(1) timeout_settled(2) [OF s3(1)] cn by (simp add: run_callback_def)
  qed
qed

lemma elem_kinv:
  assumes i: "kinv K s" "hnd_inv (TH_Loop now d) s" "sched_inv s" "user_inv s"
  obtains h' s' where "timer_elem now d s = Inr (h', s')" "kinv K s'" "hnd_inv h' s'" "sched_inv s'" "user_inv s'"
proof -
  obtain xs where xs: "tq_inv (TH_Loop now d) xs s" and cn: "ctx_noncritical s \<noteq> 0" using i(2) by (auto simp: hnd_inv_def)
  have "\<exists>h' s'. timer_elem now d s = Inr (h', s') \<and> kinv K s' \<and> sched_inv s' \<and> user_inv s' \<and> ctx_noncritical s' = ctx_noncritical s \<and>
      (\<forall>now t. h' \<noteq> TH_Before now (CB_ThreadTimeout t))"
  proof (cases "d = TIME_QUEUE")
    case True
    then show ?thesis using i by (simp add: timer_elem_def)
  next
    case nT: False
    obtain us vs where at: "xs = us @ vs" "tq_at d us vs s" using xs by (auto simp: tq_inv_def)
    have r: "tq_repr (tq_heap s) xs" and dh: "d = hd (vs @ [TIME_QUEUE])" using at by (simp_all add: tq_at_def)
    have "vs \<noteq> []" using dh nT by auto
    then obtain vs' where vs: "vs = d # vs'" using dh by (cases vs) auto
    have dxs: "d \<in> set xs" using at(1) vs by simp
    have d: "is_timer d" "timer_active d s" using dqi.repr_own [OF r dxs] dqi.queued_iff [OF r, of d] dxs by (auto simp: timer_active_def)
    define s1 where "s1 = s\<lparr>tq_cursor := dq_next (tq_heap s) d\<rparr>"
    show ?thesis
    proof (cases "tm_timeout (timers s d) \<le> now")
      case False
      let ?s = "s1\<lparr>tq_next_timeout := min (tm_timeout (timers s1 d)) (tq_next_timeout s1)\<rparr>"
      have "timer_elem now d s = Inr (TH_Window now, ?s)" using False nT by (simp add: timer_elem_def s1_def Let_def)
      moreover have "kinv K ?s" by (rule kinv_timers [OF i(1)]) (simp_all add: s1_def timer_active_def)
      moreover have "sched_inv ?s" by (rule settled_sched [OF _ i(3)]) (simp add: settled_def sched_same_def s1_def)
      ultimately show ?thesis using i(4) by (simp add: user_inv_def s1_def)
    next
      case due: True
      define s2 where "s2 = timer_rearm d s1"
      obtain us' where us': "tq_at (tq_cursor s2) us' vs' s2"
          "\<forall>y. y \<in> set us' \<longleftrightarrow> y \<in> set us \<or> y = d \<and> tm_period (timers s d) \<noteq> 0"
        using rearm_inv(1) [OF at(2) [unfolded vs] s1_def s2_def] by blast
      have r2: "tq_repr (tq_heap s2) (us' @ vs')" using us'(1) by (simp add: tq_at_def)
      have dist: "distinct (us @ d # vs')" using dqi.repr_distinct [OF r] at(1) vs by simp
      have act: "timer_active (ThreadTimer u) s2 \<longleftrightarrow> timer_active (ThreadTimer u) s \<and>
          (ThreadTimer u = d \<longrightarrow> tm_period (timers s d) \<noteq> 0)" for u
        unfolding tq_active_iff [OF r2 is_timer_simps(2)] tq_active_iff [OF r is_timer_simps(2)] using us'(2) at(1) vs dist by auto
      note fire = fire_kinv [OF i(1,3,4) d s2_def [unfolded s1_def] act]
      have e: "timer_elem now d s = (let cb = tm_callback (timers s2 d)
          in if cb = CB_Null then Inr (TH_Loop now (tq_cursor s2), s2)
             else if tm_options (timers s2 d) AND SSX_TIMER_CALLBACK_PREEMPTIBLE \<noteq> 0 then Inr (TH_Before now cb, s2)
             else kbind (run_callback cb s2) (\<lambda>s3. Inr (TH_Window now, s3)))"
        using nT due by (simp add: timer_elem_def s1_def [symmetric] s2_def [symmetric] Let_def) (simp add: s1_def)
      show ?thesis
      proof (cases "\<exists>t. d = ThreadTimer t")
        case True
        then show ?thesis using fire unfolding e by (auto simp: Let_def)
      next
        case False
        then have f: "kinv K s2" "sched_inv s2" "user_inv s2" "ctx_noncritical s2 = ctx_noncritical s"
          "\<forall>t. tm_callback (timers s2 d) \<noteq> CB_ThreadTimeout t" using fire by auto
        then have "run_callback (tm_callback (timers s2 d)) s2 = Inr s2" by (simp add: run_callback_def split: callback.split)
        then show ?thesis using f unfolding e by (auto simp: Let_def)
      qed
    qed
  qed
  then obtain h' s' where e: "timer_elem now d s = Inr (h', s')" "kinv K s'" "sched_inv s'" "user_inv s'"
    "ctx_noncritical s' = ctx_noncritical s" "\<forall>now t. h' \<noteq> TH_Before now (CB_ThreadTimeout t)" by blast
  obtain ys where "tq_inv h' ys s'" using elem_inv [OF xs e(1)] by blast
  then have "hnd_inv h' s'" using e(5,6) cn by (auto simp: hnd_inv_def)
  then show thesis using that e by blast
qed

lemma tick_kinv:
  assumes i: "kinv K s" "hnd_inv h s" "sched_inv s" "user_inv s" and cn: "ctx_noncritical s \<noteq> 0"
  obtains h' s' where "timer_step h s = Inr (h', s')" "kinv K s'" "hnd_inv h' s'" "sched_inv s'" "user_inv s'"
proof (cases h)
  case TH_Idle
  then obtain xs where xs: "tq_inv TH_Idle xs s" using i(2) by (auto simp: hnd_inv_def)
  note e = enter_inv [OF xs]
  have "hnd_inv TH_Check s" using e(2) cn by (auto simp: hnd_inv_def)
  then show thesis using that [of TH_Check s] e(1) i TH_Idle by (simp add: timer_step_def)
next
  case TH_Check
  then obtain xs where xs: "tq_inv TH_Check xs s" using i(2) by (auto simp: hnd_inv_def)
  obtain h' s' where e: "timer_check s = (h', s')" by (cases "timer_check s")
  have fr: "sched_same s' s" "threads s' = threads s" "sems s' = sems s" "run_queue s' = run_queue s" "priority_map s' = priority_map s"
      "timers s' = timers s" "tq_heap s' = tq_heap s" "\<forall>now cb. h' \<noteq> TH_Before now cb" "ctx_noncritical s' = ctx_noncritical s"
    using e by (auto simp: timer_check_def sched_same_def ssx_schedule_hardware_timeout_def Let_def split: if_splits)
  have "hnd_inv h' s'" using check_inv(1) [OF xs e] fr(8,9) cn by (auto simp: hnd_inv_def)
  moreover have "kinv K s'" by (rule kinv_timers [OF i(1)]) (use fr in \<open>simp_all add: timer_active_def\<close>)
  moreover have "sched_inv s'" by (rule settled_sched [OF _ i(3)]) (simp add: settled_def fr(1))
  moreover have "user_inv s'" using i(4) fr(6) by (simp add: user_inv_def)
  ultimately show thesis using that [of h' s'] e TH_Check by (simp add: timer_step_def)
next
  case (TH_Loop now d)
  with i(2) have l: "hnd_inv (TH_Loop now d) s" by simp
  show thesis
    by (rule elem_kinv [OF i(1) l i(3,4)]) (use that TH_Loop in \<open>simp add: timer_step_def\<close>)
next
  case (TH_Before now cb)
  then have "run_callback cb s = Inr s" using i(2) by (auto simp: hnd_inv_def run_callback_def split: callback.split)
  moreover have "hnd_inv (TH_Window now) s" using i(2) TH_Before by (auto simp: hnd_inv_def tq_inv_def)
  ultimately show thesis using that [of "TH_Window now" s] i TH_Before by (simp add: timer_step_def)
next
  case (TH_Window now)
  have "hnd_inv (TH_Loop now (tq_cursor s)) s" using i(2) TH_Window by (auto simp: hnd_inv_def tq_inv_def)
  then show thesis using that [of "TH_Loop now (tq_cursor s)" s] i TH_Window by (simp add: timer_step_def)
qed

section \<open>Every step keeps the invariant\<close>

lemma settled_inv:
  assumes "kinv K s'" "tq_same s' s" "settled s s'" "hnd_inv h s" "sched_inv s" "user_inv s"
  shows "kinv K s' \<and> hnd_inv h s' \<and> sched_inv s' \<and> user_inv s'"
  using assms hnd_same settled_sched by blast

lemma may_callD:
  assumes "may_call S" "sys_inv S"
  shows "kinv (kont S) (ker S)" "hnd_inv (hnd S) (ker S)" "sched_inv (ker S)" "user_inv (ker S)" "open_state (hnd S)"
  using assms by (simp_all add: may_call_def sys_inv_def)

end
