(* ===== verification/SSX_System_Properties.thy ===== *)
theory SSX_System_Properties
  imports SSX_System_Inv SSX_Properties
begin

text \<open>What holds in every state the kernel can reach.\<close>

section \<open>The invariant over all steps\<close>







section \<open>A system that has been started\<close>








section \<open>Properties\<close>







end
