(* ===== verification/SSX_Expiry.thy ===== *)
theory SSX_Expiry
  imports SSX_System_Properties
begin

text \<open>The timer handler finishes, and then no queued timer is due.\<close>

section \<open>Running the handler to its end\<close>

















section \<open>Properties\<close>






end
