(* ===== verification/Errl.thy ===== *)
theory Errl imports Trace begin

text \<open>
  Error logs (occ_405/errl/errl.c, errl.h): eight statically allocated log slots, a bit word
  that says which are in use, and the operations that create, extend, commit and delete a
  log. A slot is the bytes of the packed structure \<open>ErrlEntry_t\<close> (120 bytes) followed by its
  user-detail sections; \<open>E_\<close> and \<open>U_\<close> name the offsets of its fields.

  The values the code reads from other components (time, chip id, role, state, clip history,
  the registers of the PGPE and of the OCC interrupt controller) are inputs of the state.
  What the code asks of other components is recorded in \<open>errl_events\<close>. Tracing by the
  error-log code itself is not part of the model.
\<close>

section \<open>Data\<close>

datatype ERRL_SEVERITY =
  ERRL_SEV_INFORMATIONAL | ERRL_SEV_PREDICTIVE | ERRL_SEV_UNRECOVERABLE
| ERRL_SEV_CALLHOME_DATA | ERRL_SEV_PGPE_ERROR

definition sev_code :: "ERRL_SEVERITY \<Rightarrow> u8" where
  "sev_code v = (case v of ERRL_SEV_INFORMATIONAL \<Rightarrow> 0 | ERRL_SEV_PREDICTIVE \<Rightarrow> 1
     | ERRL_SEV_UNRECOVERABLE \<Rightarrow> 2 | ERRL_SEV_CALLHOME_DATA \<Rightarrow> 3 | ERRL_SEV_PGPE_ERROR \<Rightarrow> 4)"

definition MAX_ERRL_ENTRY_SZ :: u16 where "MAX_ERRL_ENTRY_SZ = 0x850"
definition MAX_ERRL_CALL_HOME_SZ :: u16 where "MAX_ERRL_CALL_HOME_SZ = 0xC00"
definition MAX_ERRL_PGPE_ENTRY_SZ :: u16 where "MAX_ERRL_PGPE_ENTRY_SZ = 0xE20"
definition ERRL_MAX_CALLOUTS :: u8 where "ERRL_MAX_CALLOUTS = 6"
definition ERRL_MAX_SLOTS :: nat where "ERRL_MAX_SLOTS = 8"
definition ERRL_INVALID_SLOT :: u8 where "ERRL_INVALID_SLOT = 0xFF"
definition MAX_PGPE_DBUG_DATA :: u32 where "MAX_PGPE_DBUG_DATA = 0x860"
definition MAX_PGPE_DBUG_DATA_NO_SLOT :: u32 where "MAX_PGPE_DBUG_DATA_NO_SLOT = 0x300"
definition ERRL_SLOT_MASK_DEFAULT :: u32 where "ERRL_SLOT_MASK_DEFAULT = 0xFFFFFFFF"
definition ERRL_SLOT_MASK_INFORMATIONAL :: u32 where "ERRL_SLOT_MASK_INFORMATIONAL = 0xFDFFFFFF"
definition ERRL_SLOT_MASK_OCC_ERROR :: u32 where "ERRL_SLOT_MASK_OCC_ERROR = 0x07FFFFFF"
definition ERRL_SLOT_MASK_CALL_HOME_DATA :: u32 where "ERRL_SLOT_MASK_CALL_HOME_DATA = 0xFEFFFFFF"
definition ERRL_SLOT_MASK_PGPE_ERROR :: u32 where "ERRL_SLOT_MASK_PGPE_ERROR = 0xFBFFFFFF"
definition ERRL_ACTIONS_FORCE_SEND :: u8 where "ERRL_ACTIONS_FORCE_SEND = 0x10"
definition ERRL_ACTIONS_SAFE_MODE_REQUIRED :: u8 where "ERRL_ACTIONS_SAFE_MODE_REQUIRED = 0x40"
definition ERRL_ACTIONS_RESET_REQUIRED :: u8 where "ERRL_ACTIONS_RESET_REQUIRED = 0x80"
definition ERRL_ACTIONS_MANUFACTURING_ERROR :: u8 where "ERRL_ACTIONS_MANUFACTURING_ERROR = 0x08"
definition DEFAULT_TRACE_SIZE :: u16 where "DEFAULT_TRACE_SIZE = 1536"
definition WOF_DISABLED_RC :: u8 where "WOF_DISABLED_RC = 0xDA"
definition FSP_SUPPORTED_OCC :: u8 where "FSP_SUPPORTED_OCC = 0"
definition ERR_HISTORY_SIZE :: nat where "ERR_HISTORY_SIZE = 0x30"

text \<open>Offsets in \<open>ErrlEntry_t\<close>; a callout has 12 bytes, a user-detail header 4.\<close>

abbreviation (input) "E_checkSum \<equiv> (0 :: nat)"
abbreviation (input) "E_version \<equiv> (2 :: nat)"
abbreviation (input) "E_entryId \<equiv> (3 :: nat)"
abbreviation (input) "E_reasonCode \<equiv> (4 :: nat)"
abbreviation (input) "E_severity \<equiv> (5 :: nat)"
abbreviation (input) "E_actions \<equiv> (6 :: nat)"
abbreviation (input) "E_maxSize \<equiv> (7 :: nat)"
abbreviation (input) "E_extendedRC \<equiv> (9 :: nat)"
abbreviation (input) "E_numCallouts \<equiv> (11 :: nat)"
abbreviation (input) "E_callouts \<equiv> (12 :: nat)"
abbreviation (input) "U_version \<equiv> (84 :: nat)"
abbreviation (input) "U_modId \<equiv> (86 :: nat)"
abbreviation (input) "U_fclipHistory \<equiv> (88 :: nat)"
abbreviation (input) "U_timeStamp \<equiv> (92 :: nat)"
abbreviation (input) "U_occId \<equiv> (100 :: nat)"
abbreviation (input) "U_occRole \<equiv> (101 :: nat)"
abbreviation (input) "U_operatingState \<equiv> (102 :: nat)"
abbreviation (input) "U_committed \<equiv> (103 :: nat)"
abbreviation (input) "U_userData1 \<equiv> (104 :: nat)"
abbreviation (input) "U_userData2 \<equiv> (108 :: nat)"
abbreviation (input) "U_entrySize \<equiv> (116 :: nat)"
abbreviation (input) "U_userDetailEntrySize \<equiv> (118 :: nat)"
definition ERRL_ENTRY_SIZE :: u16 where "ERRL_ENTRY_SIZE = 120"
definition USR_DTL_HEAD_SIZE :: u16 where "USR_DTL_HEAD_SIZE = 4"
definition CALLOUT_SIZE :: nat where "CALLOUT_SIZE = 12"

text \<open>A log handle: null, \<open>INVALID_ERR_HNDL\<close>, or one of the slots.\<close>

datatype errl_hndl = ErrNull | ErrInvalid | ErrSlot nat

datatype errl_event = Reset_requested | Host_notified | Dcache_flushed nat u16

record errl =
  errl_slots :: "nat \<Rightarrow> bytes"
  errSlotBits :: u32
  errIdCounter :: u8
  error_history :: bytes
  errl_trace :: trace
  commits_suspended :: bool
  fir_collection_required :: bool
  errl_events :: "errl_event list"
  oisr0_check_stop :: bool
  occ_interrupt_type :: u8
  errl_time :: u64
  errl_fclip :: u32
  errl_occ_id :: u8
  errl_occ_role :: u8
  errl_occ_state :: u8
  slot_addr :: "nat \<Rightarrow> u32"
  pgpe_trace_addr :: u32
  pgpe_trace_len :: u32
  oci_mem :: "u32 \<Rightarrow> u8"
  wof_data :: bytes
  wof_size :: u16

definition upd_slot :: "nat \<Rightarrow> (bytes \<Rightarrow> bytes) \<Rightarrow> errl \<Rightarrow> errl" where
  "upd_slot i f s = s\<lparr>errl_slots := (errl_slots s)(i := f (errl_slots s i))\<rparr>"

text \<open>The sizes of the arrays behind \<open>G_occErrSlots\<close>.\<close>

definition slot_capacity :: "nat \<Rightarrow> nat" where
  "slot_capacity i = (if i = 5 then 0xE20 else if i = 7 then 0xC00 else 0x850)"

definition entry_sz :: "bytes \<Rightarrow> u16" where "entry_sz b = get16 b U_entrySize"
definition max_sz :: "bytes \<Rightarrow> u16" where "max_sz b = get16 b E_maxSize"
definition committed :: "bytes \<Rightarrow> bool" where "committed b = (b U_committed AND 0x80 \<noteq> 0)"

section \<open>Slots\<close>

definition find_slot :: "u32 \<Rightarrow> errl \<Rightarrow> nat" where
  "find_slot slot_mask s = cntlzw (NOT (errSlotBits s OR slot_mask))"

text \<open>The first critical section only counts zeros; the second takes the slot.\<close>

definition take_slot :: "nat \<Rightarrow> u16 \<Rightarrow> errl \<Rightarrow> (u8 \<times> u8 \<times> u64 \<times> u16) \<times> errl" where
  "take_slot slot maxSize s =
     (let c1 = errIdCounter s + 1;
          c2 = (if c1 = 0 then c1 + 1 else c1)
      in ((of_nat slot, c2, errl_time s, maxSize),
          s\<lparr>errIdCounter := c2, errSlotBits := errSlotBits s OR drop_bit slot 0x80000000\<rparr>))"

definition sev_slots :: "ERRL_SEVERITY \<Rightarrow> u32 \<times> u16" where
  "sev_slots v =
     (case v of
        ERRL_SEV_INFORMATIONAL \<Rightarrow> (ERRL_SLOT_MASK_INFORMATIONAL, MAX_ERRL_ENTRY_SZ)
      | ERRL_SEV_PREDICTIVE \<Rightarrow> (ERRL_SLOT_MASK_OCC_ERROR, MAX_ERRL_ENTRY_SZ)
      | ERRL_SEV_UNRECOVERABLE \<Rightarrow> (ERRL_SLOT_MASK_OCC_ERROR, MAX_ERRL_ENTRY_SZ)
      | ERRL_SEV_PGPE_ERROR \<Rightarrow> (ERRL_SLOT_MASK_PGPE_ERROR, MAX_ERRL_PGPE_ENTRY_SZ)
      | ERRL_SEV_CALLHOME_DATA \<Rightarrow> (ERRL_SLOT_MASK_CALL_HOME_DATA, MAX_ERRL_CALL_HOME_SZ))"

text \<open>
  The result is the slot number with the id, time and size stored through the pointers; when
  no slot is free they are the caller's zeros. A PGPE error retries once with the OCC slots.
\<close>

definition getErrSlotNumAndErrId :: "ERRL_SEVERITY \<Rightarrow> errl \<Rightarrow> (u8 \<times> u8 \<times> u64 \<times> u16) \<times> errl" where
  "getErrSlotNumAndErrId v s =
     (let (slot_mask, maxSize) = sev_slots v;
          slot = find_slot slot_mask s
      in if slot < ERRL_MAX_SLOTS then take_slot slot maxSize s
         else if slot_mask = ERRL_SLOT_MASK_PGPE_ERROR then
           (let slot' = find_slot ERRL_SLOT_MASK_OCC_ERROR s
            in if slot' < ERRL_MAX_SLOTS then take_slot slot' MAX_ERRL_ENTRY_SZ s
               else ((ERRL_INVALID_SLOT, 0, 0, 0), s))
         else ((ERRL_INVALID_SLOT, 0, 0, 0), s))"

definition getErrSlotNumByErrId :: "u8 \<Rightarrow> errl \<Rightarrow> u8" where
  "getErrSlotNumByErrId i_errlId s =
     (if i_errlId \<noteq> 0 then
        (case find (\<lambda>i. i_errlId = errl_slots s i E_entryId) [0..<ERRL_MAX_SLOTS] of
           Some i \<Rightarrow> of_nat i | None \<Rightarrow> ERRL_INVALID_SLOT)
      else ERRL_INVALID_SLOT)"

definition getErrSlotOCIAddr :: "u8 \<Rightarrow> errl \<Rightarrow> u32" where
  "getErrSlotOCIAddr i_SlotNum s =
     (if unat i_SlotNum < ERRL_MAX_SLOTS then slot_addr s (unat i_SlotNum) else 0)"

definition getErrlOCIAddrByID :: "u8 \<Rightarrow> errl \<Rightarrow> u32" where
  "getErrlOCIAddrByID i_id s = getErrSlotOCIAddr (getErrSlotNumByErrId i_id s) s"

definition getErrlLengthByID :: "u8 \<Rightarrow> errl \<Rightarrow> u16" where
  "getErrlLengthByID i_id s =
     (let slot = unat (getErrSlotNumByErrId i_id s)
      in if slot < ERRL_MAX_SLOTS \<and> committed (errl_slots s slot) then entry_sz (errl_slots s slot) else 0)"

text \<open>The loop of \<open>getOldestErrlID\<close>: the accumulator is (id, time stamp).\<close>

definition oldest_step :: "errl \<Rightarrow> nat \<Rightarrow> u8 \<times> u64 \<Rightarrow> u8 \<times> u64" where
  "oldest_step s i acc =
     (let b = errl_slots s i
      in if committed b \<and> (snd acc = 0 \<or> get64 b U_timeStamp \<le> snd acc)
         then (b E_entryId, get64 b U_timeStamp) else acc)"

definition getOldestErrlID :: "errl \<Rightarrow> u8" where
  "getOldestErrlID s = fst (fold (oldest_step s) [0..<ERRL_MAX_SLOTS] (0, 0))"

section \<open>User-detail sections\<close>

text \<open>\<open>l_usrDtlsEntry\<close> and the two \<open>memcpy\<close> calls that store it.\<close>

definition put_header :: "nat \<Rightarrow> u8 \<Rightarrow> u8 \<Rightarrow> u16 \<Rightarrow> bytes \<Rightarrow> bytes" where
  "put_header a version dtype sz b = set16 (a + 2) sz (set8 (a + 1) dtype (set8 a version b))"

definition grow :: "u16 \<Rightarrow> bytes \<Rightarrow> bytes" where
  "grow n b =
     (let b1 = set16 U_userDetailEntrySize (get16 b U_userDetailEntrySize + n) b
      in set16 U_entrySize (get16 b1 U_entrySize + n) b1)"

definition addUsrDtlsToErrl :: "errl_hndl \<Rightarrow> bytes option \<Rightarrow> u16 \<Rightarrow> u8 \<Rightarrow> u8 \<Rightarrow> errl \<Rightarrow> errl" where
  "addUsrDtlsToErrl h data i_size i_version i_type s =
     (case (h, data) of
        (ErrSlot i, Some d) \<Rightarrow>
          (let b = errl_slots s i
           in if \<not> committed b \<and> i_size \<noteq> 0 \<and> entry_sz b < max_sz b then
                (let headerSz = USR_DTL_HEAD_SIZE;
                     availableSize = max_sz b - (entry_sz b + headerSz);
                     sz = (if i_size < availableSize then i_size else availableSize);
                     actual = headerSz + sz;
                     a = unat (entry_sz b);
                     b1 = put_header a i_version i_type sz b;
                     b2 = memcpy b1 (a + unat headerSz) d 0 (unat sz)
                 in upd_slot i (\<lambda>_. grow actual b2) s)
              else s)
      | _ \<Rightarrow> s)"

definition addErrHistory :: "errl_hndl \<Rightarrow> errl \<Rightarrow> errl" where
  "addErrHistory h s =
     (case h of
        ErrSlot i \<Rightarrow>
          (let b = errl_slots s i
           in if \<not> committed b \<and> unat (entry_sz b) + 4 + ERR_HISTORY_SIZE < unat (max_sz b) then
                (let a = unat (entry_sz b);
                     sz = of_nat ERR_HISTORY_SIZE;
                     b1 = memcpy b (a + 4) (error_history s) 0 ERR_HISTORY_SIZE;
                     b2 = put_header a 1 4 sz b1
                 in upd_slot i (\<lambda>_. grow (USR_DTL_HEAD_SIZE + sz) b2) s)
              else s)
      | _ \<Rightarrow> s)"

definition setErrlActions :: "errl_hndl \<Rightarrow> u8 \<Rightarrow> errl \<Rightarrow> errl" where
  "setErrlActions h i_mask s =
     (case h of
        ErrSlot i \<Rightarrow> (if \<not> committed (errl_slots s i)
                      then upd_slot i (\<lambda>b. set8 E_actions (b E_actions OR i_mask) b) s else s)
      | _ \<Rightarrow> s)"

definition addPgpeDataToErrl :: "errl_hndl \<Rightarrow> errl \<Rightarrow> errl" where
  "addPgpeDataToErrl h s =
     (case h of
        ErrSlot i \<Rightarrow>
          (let addr = pgpe_trace_addr s AND 0xF7FFFFFF;
               len0 = pgpe_trace_len s;
               len = (if max_sz (errl_slots s i) \<noteq> MAX_ERRL_PGPE_ENTRY_SZ then MAX_PGPE_DBUG_DATA_NO_SLOT
                      else if len0 > MAX_PGPE_DBUG_DATA then MAX_PGPE_DBUG_DATA else len0)
           in if addr \<noteq> 0 \<and> len \<noteq> 0 then
                setErrlActions h ERRL_ACTIONS_FORCE_SEND
                  (addUsrDtlsToErrl h (Some (\<lambda>k. oci_mem s (addr + of_nat k))) (ucast len) 1 6 s)
              else s)
      | _ \<Rightarrow> s)"

section \<open>Traces in a log\<close>

text \<open>
  The trace argument: a null pointer, one of the three descriptors, or anything else. A
  component name that is not found gives \<open>TRAC_get_buffer_partial\<close> a null descriptor, for
  which it sets the size to 0.
\<close>

datatype trace_arg = TrNull | TrDesc td | TrOther

definition trac_partial :: "td option \<Rightarrow> bytes \<Rightarrow> nat \<Rightarrow> u32 \<Rightarrow> trace \<Rightarrow> (bytes \<times> u32, trace) kcall" where
  "trac_partial d dst a sz tr =
     (case d of
        None \<Rightarrow> Inr ((dst, 0), tr)
      | Some t \<Rightarrow> kbind (TRAC_get_buffer_partial t dst a sz tr) (\<lambda>((rc, dst', sz'), tr'). Inr ((dst', sz'), tr')))"

text \<open>
  The data part: copies the traces to offset \<open>a\<close>, at most \<open>sz\<close> bytes. The result is the
  new slot, \<open>l_usrDtlsEntry.iv_size\<close> and \<open>l_actualSizeOfUsrDtls\<close>.
\<close>

definition all_traces :: "bytes \<Rightarrow> nat \<Rightarrow> u16 \<Rightarrow> trace \<Rightarrow> (bytes \<times> u16 \<times> u16, trace) kcall" where
  "all_traces b a sz tr =
     (let left0 = ucast sz :: u32;
          expect = left0 div 3
      in if expect \<ge> TRACE_HEAD_SIZE then
           kbind (trac_partial (TRAC_get_td (td_comp TD_ERR) tr) b a expect tr) (\<lambda>((b1, n1), tr1).
           let act1 = ucast n1 :: u16; left1 = left0 - n1 in
           kbind (trac_partial (TRAC_get_td (td_comp TD_IMP) tr1) b1 (a + unat act1) (left1 div 2) tr1) (\<lambda>((b2, n2), tr2).
           let act2 = act1 + ucast n2; left2 = left1 - n2 in
           kbind (trac_partial (TRAC_get_td (td_comp TD_INF) tr2) b2 (a + unat act2) left2 tr2) (\<lambda>((b3, n3), tr3).
           let act3 = act2 + ucast n3 in Inr ((b3, act3, act3), tr3))))
         else if sz > ucast TRACE_HEAD_SIZE then
           kbind (trac_partial (TRAC_get_td (td_comp TD_ERR) tr) b a (ucast sz) tr) (\<lambda>((b1, n1), tr1).
             Inr ((b1, ucast n1, 0), tr1))
         else Inr ((b, 0, 0), tr))"

definition one_trace :: "td \<Rightarrow> bytes \<Rightarrow> nat \<Rightarrow> u16 \<Rightarrow> trace \<Rightarrow> (bytes \<times> u16 \<times> u16, trace) kcall" where
  "one_trace d b a sz tr =
     (if sz \<ge> ucast TRACE_HEAD_SIZE then
        kbind (trac_partial (Some d) b a (ucast sz) tr) (\<lambda>((b1, n1), tr1). Inr ((b1, ucast n1, 0), tr1))
      else Inr ((b, 0, 0), tr))"

definition addTraceToErrl :: "trace_arg \<Rightarrow> u16 \<Rightarrow> errl_hndl \<Rightarrow> errl \<Rightarrow> panic_code + errl" where
  "addTraceToErrl i_trace i_traceSz h s =
     (case h of
        ErrSlot i \<Rightarrow>
          (let b = errl_slots s i
           in if \<not> committed b \<and> i_traceSz \<noteq> 0 \<and> unat (entry_sz b) + 4 < unat (max_sz b)
                 \<and> i_trace \<noteq> TrOther then
                (let headerSz = USR_DTL_HEAD_SIZE;
                     availableSize = max_sz b - (entry_sz b + headerSz);
                     sz = (if i_traceSz < availableSize then i_traceSz else availableSize);
                     a = unat (entry_sz b) + unat headerSz
                 in kbind (case i_trace of TrDesc d \<Rightarrow> one_trace d b a sz (errl_trace s)
                                         | _ \<Rightarrow> all_traces b a sz (errl_trace s))
                      (\<lambda>((b1, sz1, act), tr).
                         let act' = (if sz1 \<noteq> 0 then sz1 + headerSz else act);
                             b2 = (if sz1 \<noteq> 0 then put_header (unat (entry_sz b)) 0 1 sz1 b1 else b1)
                         in Inr (upd_slot i (\<lambda>_. grow act' b2) (s\<lparr>errl_trace := tr\<rparr>))))
              else Inr s)
      | _ \<Rightarrow> Inr s)"

section \<open>Creating a log\<close>

text \<open>The assignments after the traces, common to both creation functions.\<close>

definition fill_entry :: "u16 \<Rightarrow> u8 \<Rightarrow> u16 \<Rightarrow> u8 \<Rightarrow> u32 \<Rightarrow> u32 \<Rightarrow> u8 \<Rightarrow> u64 \<Rightarrow> errl \<Rightarrow> bytes \<Rightarrow> bytes" where
  "fill_entry modId reason extReason sev ud1 ud2 eid time s b =
     (let b1 = set8 E_entryId eid b;
          b2 = set8 E_version 1 b1;
          b3 = set64 U_timeStamp time b2;
          b4 = set8 E_severity sev b3;
          b5 = set16 E_extendedRC extReason b4;
          b6 = set8 U_version 1 b5;
          b7 = set16 U_modId modId b6;
          b8 = set8 E_reasonCode reason b7;
          b9 = set32 U_userData1 ud1 b8;
          b10 = set32 U_userData2 ud2 b9;
          b11 = set8 E_numCallouts 0 b10;
          b12 = set32 U_fclipHistory (errl_fclip s) b11;
          b13 = set8 U_occId (errl_occ_id s) b12;
          b14 = set8 U_occRole (errl_occ_role s) b13
      in set8 U_operatingState (errl_occ_state s) b14)"

definition start_entry :: "u16 \<Rightarrow> bytes \<Rightarrow> bytes" where
  "start_entry maxSize b = set16 U_entrySize ERRL_ENTRY_SIZE (set16 E_maxSize maxSize b)"

definition createErrl ::
  "u16 \<Rightarrow> u8 \<Rightarrow> u16 \<Rightarrow> ERRL_SEVERITY \<Rightarrow> trace_arg \<Rightarrow> u16 \<Rightarrow> u32 \<Rightarrow> u32 \<Rightarrow> errl \<Rightarrow> (errl_hndl, errl) kcall" where
  "createErrl i_modId i_reasonCode i_extReasonCode i_sev i_trace i_traceSz ud1 ud2 s =
     (let ((slot, eid, time, maxSize), s1) = getErrSlotNumAndErrId i_sev s
      in if slot \<noteq> ERRL_INVALID_SLOT then
           (let i = unat slot;
                h = ErrSlot i;
                s2 = upd_slot i (start_entry maxSize) s1;
                s3 = addErrHistory h s2
            in kbind (addTraceToErrl i_trace i_traceSz h s3) (\<lambda>s4.
                 let sev = (if i_sev = ERRL_SEV_CALLHOME_DATA then sev_code ERRL_SEV_INFORMATIONAL
                            else sev_code i_sev)
                 in Inr (h, upd_slot i (fill_entry i_modId i_reasonCode i_extReasonCode sev ud1 ud2 eid time s4) s4)))
         else Inr (ErrInvalid, s1))"

definition createPgpeErrl ::
  "u16 \<Rightarrow> u8 \<Rightarrow> u16 \<Rightarrow> ERRL_SEVERITY \<Rightarrow> u32 \<Rightarrow> u32 \<Rightarrow> errl \<Rightarrow> (errl_hndl, errl) kcall" where
  "createPgpeErrl i_modId i_reasonCode i_extReasonCode i_sev ud1 ud2 s =
     (let ((slot, eid, time, maxSize), s1) = getErrSlotNumAndErrId ERRL_SEV_PGPE_ERROR s
      in if slot \<noteq> ERRL_INVALID_SLOT then
           (let i = unat slot;
                h = ErrSlot i;
                s2 = upd_slot i (start_entry maxSize) s1;
                s3 = addErrHistory h s2;
                s4 = (if i_reasonCode = WOF_DISABLED_RC \<and> occ_interrupt_type s3 = FSP_SUPPORTED_OCC
                      then addUsrDtlsToErrl h (Some (wof_data s3)) (wof_size s3) 1 5 s3 else s3);
                s5 = addPgpeDataToErrl h s4
            in kbind (addTraceToErrl TrNull DEFAULT_TRACE_SIZE h s5) (\<lambda>s6.
                 Inr (h, upd_slot i (fill_entry i_modId i_reasonCode i_extReasonCode (sev_code i_sev) ud1 ud2 eid time s6) s6)))
         else Inr (ErrInvalid, s1))"

section \<open>Callouts, severity, commit, delete\<close>

definition addCalloutToErrl :: "errl_hndl \<Rightarrow> u8 \<Rightarrow> u64 \<Rightarrow> u8 \<Rightarrow> errl \<Rightarrow> errl" where
  "addCalloutToErrl h i_type i_value i_priority s =
     (case h of
        ErrSlot i \<Rightarrow>
          (let b = errl_slots s i
           in if \<not> committed b \<and>
                 (b E_actions AND ERRL_ACTIONS_MANUFACTURING_ERROR \<noteq> 0 \<or> b E_severity \<noteq> sev_code ERRL_SEV_INFORMATIONAL) \<and>
                 b E_numCallouts < ERRL_MAX_CALLOUTS then
                (let a = E_callouts + CALLOUT_SIZE * unat (b E_numCallouts);
                     b1 = set8 a i_type b;
                     b2 = set64 (a + 1) i_value b1;
                     b3 = set8 (a + 9) i_priority b2
                 in upd_slot i (\<lambda>_. set8 E_numCallouts (b3 E_numCallouts + 1) b3) s)
              else s)
      | _ \<Rightarrow> s)"

definition setErrlSevToInfo :: "errl_hndl \<Rightarrow> errl \<Rightarrow> errl" where
  "setErrlSevToInfo h s =
     (case h of
        ErrSlot i \<Rightarrow>
          (if \<not> committed (errl_slots s i) then
             upd_slot i (\<lambda>b.
               let b1 = set8 E_severity (sev_code ERRL_SEV_INFORMATIONAL) b;
                   b2 = memset b1 E_callouts 0 (CALLOUT_SIZE * unat (b1 E_numCallouts))
               in set8 E_numCallouts 0 b2) s
           else s)
      | _ \<Rightarrow> s)"

definition getErrlLogId :: "errl_hndl \<Rightarrow> errl \<Rightarrow> u8" where
  "getErrlLogId h s = (case h of ErrSlot i \<Rightarrow> errl_slots s i E_entryId | _ \<Rightarrow> ERRL_INVALID_SLOT)"

text \<open>The checksum loop: the bytes after the checksum field, modulo \<open>2 ^ 16\<close> when stored.\<close>

definition errl_checksum :: "u16 \<Rightarrow> bytes \<Rightarrow> u32" where
  "errl_checksum n b = fold (\<lambda>i acc. acc + ucast (b i)) [2..<unat n] 0"

definition reportErrorLog :: "errl \<Rightarrow> errl" where
  "reportErrorLog s =
     (if \<not> fir_collection_required s \<and> occ_interrupt_type s \<noteq> FSP_SUPPORTED_OCC
      then s\<lparr>errl_events := errl_events s @ [Host_notified]\<rparr> else s)"

definition commit_checkstop :: "nat \<Rightarrow> errl \<Rightarrow> errl" where
  "commit_checkstop i s =
     (if oisr0_check_stop s then
        (let s1 = s\<lparr>errl_events := errl_events s @ [Reset_requested]\<rparr>;
             s2 = upd_slot i (\<lambda>b. set8 E_numCallouts 0 (set8 E_severity (sev_code ERRL_SEV_INFORMATIONAL)
                    (set8 E_actions ERRL_ACTIONS_SAFE_MODE_REQUIRED b))) s1
         in s2\<lparr>commits_suspended := True, fir_collection_required := True\<rparr>)
      else s)"

definition commit_reset :: "nat \<Rightarrow> errl \<Rightarrow> errl" where
  "commit_reset i s =
     (if errl_slots s i E_actions AND ERRL_ACTIONS_RESET_REQUIRED \<noteq> 0 then
        (let s1 = upd_slot i (set8 E_severity (sev_code ERRL_SEV_UNRECOVERABLE)) s
         in if errl_slots s1 i E_numCallouts = 0 then addCalloutToErrl (ErrSlot i) 2 1 3 s1 else s1)
      else s)"

definition commit_finish :: "nat \<Rightarrow> errl \<Rightarrow> errl" where
  "commit_finish i s =
     (let n = errl_slots s i E_numCallouts;
          s1 = (if n < ERRL_MAX_CALLOUTS then
                  upd_slot i (\<lambda>b. memset b (E_callouts + CALLOUT_SIZE * unat n) 0 CALLOUT_SIZE) s else s);
          s2 = upd_slot i (set8 E_numCallouts ERRL_MAX_CALLOUTS) s1;
          s3 = upd_slot i (\<lambda>b. set8 U_committed (b U_committed OR 0x80) b) s2;
          s4 = upd_slot i (\<lambda>b. set16 E_checkSum (ucast (errl_checksum (entry_sz b) b)) b) s3
      in s4\<lparr>errl_events := errl_events s4 @ [Dcache_flushed i (max_sz (errl_slots s4 i))]\<rparr>)"

text \<open>The argument is the pointer to the handle, None for null; the handle is returned updated.\<close>

definition commitErrl :: "errl_hndl option \<Rightarrow> errl \<Rightarrow> errl_hndl option \<times> errl" where
  "commitErrl io_err s =
     (case io_err of
        None \<Rightarrow> (None, s)
      | Some h \<Rightarrow>
          if commits_suspended s then (Some h, s)
          else (Some ErrNull,
                (case h of
                   ErrSlot i \<Rightarrow> reportErrorLog (commit_finish i (commit_reset i (commit_checkstop i s)))
                 | _ \<Rightarrow> s)))"

definition deleteErrl :: "errl_hndl option \<Rightarrow> errl \<Rightarrow> errl_hndl \<times> errl_hndl option \<times> errl" where
  "deleteErrl io_err s =
     (case io_err of
        None \<Rightarrow> (ErrInvalid, None, s)
      | Some (ErrSlot i) \<Rightarrow>
          if i < ERRL_MAX_SLOTS then
            (ErrNull, Some ErrNull,
             (upd_slot i (\<lambda>b. memset b 0 0 (unat (entry_sz b))) s)
               \<lparr>errSlotBits := errSlotBits s AND NOT (drop_bit i 0x80000000)\<rparr>)
          else (ErrInvalid, Some ErrNull, s)
      | Some _ \<Rightarrow> (ErrInvalid, Some ErrNull, s))"

definition INCREMENT_ERR_HISTORY :: "nat \<Rightarrow> errl \<Rightarrow> errl" where
  "INCREMENT_ERR_HISTORY errorIndex s =
     (if errorIndex < ERR_HISTORY_SIZE \<and> error_history s errorIndex < 255
      then s\<lparr>error_history := (error_history s)(errorIndex := error_history s errorIndex + 1)\<rparr> else s)"

end
