(* ===== verification/Errl_Props.thy ===== *)
theory Errl_Props imports Errl begin

text \<open>
  The invariant of the error-log store and its preservation. A slot in use holds a well-formed
  log: \<open>log_ok cap b\<close> says that its sizes agree with each other and with the array behind the
  slot. A free slot has a zeroed entry. \<open>added\<close> describes what every operation that appends a
  section does to the bytes of the slot.
\<close>

section \<open>Well-formed logs\<close>

definition log_ok :: "nat \<Rightarrow> bytes \<Rightarrow> bool" where
  "log_ok cap b \<longleftrightarrow> 120 \<le> unat (entry_sz b) \<and> unat (entry_sz b) \<le> unat (max_sz b) \<and> unat (max_sz b) \<le> cap
     \<and> unat (get16 b U_userDetailEntrySize) = unat (entry_sz b) - 120"

text \<open>
  The log grew by \<open>k\<close> bytes; nothing below its old end changed but the two sizes, and nothing
  at or above its maximum size.
\<close>

definition added :: "nat \<Rightarrow> bytes \<Rightarrow> bytes \<Rightarrow> bool" where
  "added k b b' \<longleftrightarrow> unat (entry_sz b') = unat (entry_sz b) + k
     \<and> unat (get16 b' U_userDetailEntrySize) = unat (get16 b U_userDetailEntrySize) + k
     \<and> (\<forall>j. (j < 116 \<or> 120 \<le> j) \<longrightarrow> (j < unat (entry_sz b) \<or> unat (max_sz b) \<le> j) \<longrightarrow> b' j = b j)"

lemma added_max: "log_ok cap b \<Longrightarrow> added k b b' \<Longrightarrow> max_sz b' = max_sz b"
  unfolding max_sz_def by (rule get_apart) (simp add: added_def log_ok_def)

lemma added_ok:
  "log_ok cap b \<Longrightarrow> added k b b' \<Longrightarrow> unat (entry_sz b) + k \<le> unat (max_sz b) \<Longrightarrow> log_ok cap b'"
  using added_max [of cap b k b'] by (simp add: log_ok_def added_def)

lemma added_refl: "added 0 b b" by (simp add: added_def)

lemma grow_fields:
  "get16 (grow n b) U_entrySize = get16 b U_entrySize + n"
  "get16 (grow n b) U_userDetailEntrySize = get16 b U_userDetailEntrySize + n"
  "j < 116 \<or> 120 \<le> j \<Longrightarrow> grow n b j = b j"
  by (auto simp: grow_def Let_def)

lemma put_header_fields:
  "j < a \<or> a + 4 \<le> j \<Longrightarrow> put_header a v t n b j = b j"
  "put_header a v t n b a = v" "put_header a v t n b (Suc a) = t" "get16 (put_header a v t n b) (Suc (Suc a)) = n"
  by (auto simp: put_header_def)

lemma grow_added:
  assumes ok: "log_ok cap b" "cap < 65536"
    and k: "unat n = k" "unat (entry_sz b) + k \<le> unat (max_sz b)"
    and same: "\<And>j. j < unat (entry_sz b) \<or> unat (max_sz b) \<le> j \<Longrightarrow> c j = b j"
  shows "added k b (grow n c)"
proof -
  have 1: "get16 c U_entrySize = entry_sz b" unfolding entry_sz_def
    by (rule get_apart) (use same ok in \<open>auto simp: log_ok_def\<close>)
  have 2: "get16 c U_userDetailEntrySize = get16 b U_userDetailEntrySize"
    by (rule get_apart) (use same ok in \<open>auto simp: log_ok_def\<close>)
  have lt: "unat (entry_sz b) + unat n < 2 ^ LENGTH(16)"
    "unat (get16 b U_userDetailEntrySize) + unat n < 2 ^ LENGTH(16)"
    using ok k by (auto simp: log_ok_def)
  show ?thesis
    unfolding added_def entry_sz_def [of "grow n c"] grow_fields 1 2
    using lt [THEN unat_add_lem [THEN iffD1]] k(1) same by (auto simp: grow_fields)
qed

section \<open>Appending sections\<close>

lemma usr_dtls_effect:
  assumes ok: "log_ok cap b" "cap < 65536" and room: "unat (entry_sz b) + 4 \<le> unat (max_sz b)"
    and b: "errl_slots s i = b" and c: "\<not> committed b" and n: "n \<noteq> 0"
    and lt: "entry_sz b < max_sz b"
    and k: "k = min (unat n) (unat (max_sz b) - (unat (entry_sz b) + 4))"
  obtains b' where "addUsrDtlsToErrl (ErrSlot i) (Some d) n v ty s = upd_slot i (\<lambda>_. b') s"
    "added (4 + k) b b'" "b' (unat (entry_sz b)) = v" "b' (unat (entry_sz b) + 1) = ty"
    "unat (get16 b' (unat (entry_sz b) + 2)) = k" "\<forall>j < k. b' (unat (entry_sz b) + 4 + j) = d j"
proof -
  define a where "a = unat (entry_sz b)"
  define av where "av = max_sz b - (entry_sz b + USR_DTL_HEAD_SIZE)"
  define sz where "sz = (if n < av then n else av)"
  have mx: "unat (max_sz b) < 65536" using ok by (simp add: log_ok_def)
  have e4: "unat (entry_sz b + 4) = a + 4"
    using room mx unat_add_lem [of "entry_sz b" 4] by (simp add: a_def)
  have av: "unat av = unat (max_sz b) - (a + 4)"
    using room unat_sub [of "entry_sz b + 4" "max_sz b"]
    by (simp add: av_def USR_DTL_HEAD_SIZE_def word_le_nat_alt e4 a_def)
  have sz: "unat sz = k"
    using k by (simp add: sz_def av word_less_nat_alt min_def a_def)
  have h: "unat (USR_DTL_HEAD_SIZE + sz) = 4 + k"
    using sz room mx unat_add_lem [of 4 sz] by (auto simp: USR_DTL_HEAD_SIZE_def k)
  define c' where "c' = memcpy (put_header a v ty sz b) (a + 4) d 0 k"
  define b' where "b' = grow (USR_DTL_HEAD_SIZE + sz) c'"
  have a120: "120 \<le> a" using ok by (simp add: log_ok_def a_def)
  have 1: "addUsrDtlsToErrl (ErrSlot i) (Some d) n v ty s = upd_slot i (\<lambda>_. b') s"
    using b c n lt by (simp add: addUsrDtlsToErrl_def Let_def b'_def c'_def a_def sz [symmetric]
        sz_def av_def USR_DTL_HEAD_SIZE_def)
  have "added (4 + k) b b'" unfolding b'_def
  proof (rule grow_added [OF ok h])
    have "k \<le> unat (max_sz b) - (unat (entry_sz b) + 4)" unfolding k by simp
    then show "unat (entry_sz b) + (4 + k) \<le> unat (max_sz b)" using room by linarith
    show "c' j = b j" if "j < unat (entry_sz b) \<or> unat (max_sz b) \<le> j" for j
      using that k room by (auto simp: c'_def a_def put_header_fields)
  qed
  then show thesis
    by (rule that [OF 1])
      (use a120 sz in \<open>simp_all add: a_def [symmetric] b'_def grow_def Let_def c'_def put_header_fields mem_inside\<close>)
qed

lemma history_effect:
  assumes ok: "log_ok cap b" "cap < 65536" and b: "errl_slots s i = b" and c: "\<not> committed b"
    and room: "unat (entry_sz b) + 52 < unat (max_sz b)"
  obtains b' where "addErrHistory (ErrSlot i) s = upd_slot i (\<lambda>_. b') s" "added 52 b b'"
    "\<forall>j < 48. b' (unat (entry_sz b) + 4 + j) = error_history s j"
proof -
  define a where "a = unat (entry_sz b)"
  define c' where "c' = put_header a 1 4 48 (memcpy b (a + 4) (error_history s) 0 48)"
  define b' where "b' = grow 52 c'"
  have a120: "120 \<le> a" using ok by (simp add: log_ok_def a_def)
  have 1: "addErrHistory (ErrSlot i) s = upd_slot i (\<lambda>_. b') s"
    using b c room by (simp add: addErrHistory_def Let_def a_def [symmetric] b'_def c'_def
        ERR_HISTORY_SIZE_def USR_DTL_HEAD_SIZE_def)
  have "added 52 b b'" unfolding b'_def
    by (rule grow_added [OF ok]) (use room in \<open>auto simp: c'_def a_def put_header_fields\<close>)
  then show thesis
    by (rule that [OF 1])
      (use a120 in \<open>simp add: a_def [symmetric] b'_def grow_fields c'_def put_header_fields mem_inside\<close>)
qed

section \<open>Appending traces\<close>

definition tr_ok :: "trace \<Rightarrow> bool" where
  "tr_ok tr \<longleftrightarrow> (\<forall>d. head_ok (tr_buf tr d))"

lemma trac_locks [simp]:
  "tr_buf (crit_enter tr) = tr_buf tr" "tr_buf (crit_exit tr) = tr_buf tr"
  by (simp_all add: crit_enter_def crit_exit_def)

lemma trac_sem_buf:
  "trac_pend d w tr = Inr (rc, tr') \<Longrightarrow> tr_buf tr' = tr_buf tr"
  "trac_post d tr = Inr tr' \<Longrightarrow> tr_buf tr' = tr_buf tr"
  by (auto simp: trac_pend_def trac_post_def split: if_splits)

lemma trac_partial_ok:
  assumes ok: "tr_ok tr" and r: "trac_partial d dst a sz tr = Inr ((dst', sz'), tr')"
  shows "sz' \<le> sz" "j < a \<or> a + unat sz \<le> j \<Longrightarrow> dst' j = dst j" "tr_buf tr' = tr_buf tr" "tr_ok tr'"
proof -
  have "sz' \<le> sz \<and> (\<forall>j. j < a \<or> a + unat sz \<le> j \<longrightarrow> dst' j = dst j) \<and> tr_buf tr' = tr_buf tr"
  proof (cases d)
    case None
    then show ?thesis using r by (auto simp: trac_partial_def)
  next
    case (Some e)
    show ?thesis
    proof (cases "sz < TRACE_HEAD_SIZE")
      case True
      then show ?thesis using r Some by (auto simp: trac_partial_def TRAC_get_buffer_partial_def)
    next
      case False
      then have z: "40 \<le> unat sz" by (simp add: TRACE_HEAD_SIZE_def word_le_nat_alt not_less)
      have h: "head_ok (tr_buf tr x)" for x using ok by (simp add: tr_ok_def)
      obtain rc where g: "TRAC_get_buffer_partial e dst a sz tr = Inr ((rc, dst', sz'), tr')"
        using r Some by (auto simp: trac_partial_def kbind_Inr)
      then obtain rc1 s1 where p: "trac_pend e True (crit_enter tr) = Inr (rc1, s1)"
        using False by (auto simp: TRAC_get_buffer_partial_def kbind_Inr)
      have b: "tr_buf s1 = tr_buf tr" using trac_sem_buf(1) [OF p] by simp
      show ?thesis
      proof (cases "rc1 = SSX_OK")
        case True
        obtain d' z' where pc: "partial_copy (tr_buf tr e) dst a sz = (d', z')" by (cases "partial_copy (tr_buf tr e) dst a sz")
        then obtain s2 where "trac_post e s1 = Inr s2" "dst' = d'" "sz' = z'" "tr' = crit_exit s2"
          using g False True by (auto simp: TRAC_get_buffer_partial_def p kbind_Inr b)
        with partial_copy_bounds [OF h z pc] trac_sem_buf(2) b show ?thesis by simp
      next
        case F: False
        then show ?thesis using g False b by (auto simp: TRAC_get_buffer_partial_def p)
      qed
    qed
  qed
  then show "sz' \<le> sz" "j < a \<or> a + unat sz \<le> j \<Longrightarrow> dst' j = dst j" "tr_buf tr' = tr_buf tr" "tr_ok tr'"
    using ok unfolding tr_ok_def by (blast, blast, simp_all)
qed

lemma ucast_le16: "unat (x :: u32) \<le> unat (n :: u16) \<Longrightarrow> unat (ucast x :: u16) = unat x"
  using unat_u16_lt [of n] by (simp add: unat_ucast_down)

lemma all_traces_ok:
  assumes ok: "tr_ok tr" and r: "all_traces b a sz tr = Inr ((b', sz', act), tr')"
  shows "unat sz' \<le> unat sz \<and> act \<in> {0, sz'} \<and> (\<forall>j. j < a \<or> a + unat sz \<le> j \<longrightarrow> b' j = b j)
    \<and> tr_buf tr' = tr_buf tr"
proof -
  define l0 where "l0 = (ucast sz :: u32)"
  have l0: "unat l0 = unat sz" by (simp add: l0_def unat_ucast_up)
  consider (three) "l0 div 3 \<ge> TRACE_HEAD_SIZE" | (one) "\<not> l0 div 3 \<ge> TRACE_HEAD_SIZE" "sz > ucast TRACE_HEAD_SIZE"
    | (none) "\<not> l0 div 3 \<ge> TRACE_HEAD_SIZE" "\<not> sz > ucast TRACE_HEAD_SIZE" by blast
  then show ?thesis
  proof cases
    case three
    obtain b1 n1 t1 b2 n2 t2 b3 n3 t3 where
      p1: "trac_partial (TRAC_get_td (td_comp TD_ERR) tr) b a (l0 div 3) tr = Inr ((b1, n1), t1)" and
      p2: "trac_partial (TRAC_get_td (td_comp TD_IMP) t1) b1 (a + unat (ucast n1 :: u16)) ((l0 - n1) div 2) t1 = Inr ((b2, n2), t2)" and
      p3: "trac_partial (TRAC_get_td (td_comp TD_INF) t2) b2 (a + unat (ucast n1 + ucast n2 :: u16)) (l0 - n1 - n2) t2 = Inr ((b3, n3), t3)" and
      e: "b' = b3" "sz' = ucast n1 + ucast n2 + ucast n3" "act = sz'" "tr' = t3"
      using r three unfolding all_traces_def l0_def [symmetric] Let_def
      by (simp add: kbind_Inr split: prod.splits) fastforce
    note q1 = trac_partial_ok [OF ok p1]
    note q2 = trac_partial_ok [OF q1(4) p2]
    note q3 = trac_partial_ok [OF q2(4) p3]
    have u1: "unat n1 \<le> unat l0 div 3" using q1(1) by (simp add: word_le_nat_alt unat_div)
    then have m1: "unat (l0 - n1) = unat l0 - unat n1" by (intro unat_sub) (simp add: word_le_nat_alt)
    have u2: "unat n2 \<le> (unat l0 - unat n1) div 2" using q2(1) m1 by (simp add: word_le_nat_alt unat_div)
    then have m2: "unat (l0 - n1 - n2) = unat l0 - unat n1 - unat n2"
      using m1 by (subst unat_sub) (simp_all add: word_le_nat_alt)
    have u3: "unat n3 \<le> unat l0 - unat n1 - unat n2" using q3(1) m2 by (simp add: word_le_nat_alt)
    have c: "unat (ucast n1 :: u16) = unat n1" "unat (ucast n2 :: u16) = unat n2" "unat (ucast n3 :: u16) = unat n3"
      by (rule ucast_le16 [where n = sz]; use u1 u2 u3 l0 in linarith)+
    have lt: "unat sz < 2 ^ LENGTH(16)" using unat_u16_lt [of sz] by simp
    have s3: "unat n1 + unat n2 + unat n3 \<le> unat sz" using u1 u2 u3 l0 by linarith
    have a2: "unat (ucast n1 + ucast n2 :: u16) = unat n1 + unat n2"
      using unat_add_lem [of "ucast n1 :: u16" "ucast n2"] c s3 lt by simp
    have a3: "unat (ucast n1 + ucast n2 + ucast n3 :: u16) = unat n1 + unat n2 + unat n3"
      using unat_add_lem [of "ucast n1 + ucast n2 :: u16" "ucast n3"] a2 c s3 lt by simp
    have "b3 j = b j" if "j < a \<or> a + unat sz \<le> j" for j
    proof -
      have "b1 j = b j" by (rule q1(2)) (use that l0 in \<open>auto simp: unat_div\<close>)
      moreover have "b2 j = b1 j" by (rule q2(2)) (use that l0 u1 m1 c in \<open>auto simp: unat_div\<close>)
      moreover have "b3 j = b2 j" by (rule q3(2)) (use that l0 u1 u2 m2 a2 in auto)
      ultimately show ?thesis by simp
    qed
    then show ?thesis using e a3 u1 u2 u3 l0 q1(3) q2(3) q3(3) by simp
  next
    case one
    obtain b1 n1 where p: "trac_partial (TRAC_get_td (td_comp TD_ERR) tr) b a l0 tr = Inr ((b1, n1), tr')"
      and e: "b' = b1" "sz' = ucast n1" "act = 0"
      using r one unfolding all_traces_def l0_def [symmetric] Let_def
      by (auto simp: kbind_Inr split: prod.splits)
    note q = trac_partial_ok [OF ok p]
    have "unat n1 \<le> unat sz" using q(1) l0 by (simp add: word_le_nat_alt)
    then show ?thesis using e q(2,3) l0 ucast_le16 [of n1 sz] by simp
  next
    case none
    then show ?thesis using r unfolding all_traces_def l0_def [symmetric] Let_def by simp
  qed
qed

lemma one_trace_ok:
  assumes ok: "tr_ok tr" and r: "one_trace d b a sz tr = Inr ((b', sz', act), tr')"
  shows "unat sz' \<le> unat sz \<and> act \<in> {0, sz'} \<and> (\<forall>j. j < a \<or> a + unat sz \<le> j \<longrightarrow> b' j = b j)
    \<and> tr_buf tr' = tr_buf tr"
proof (cases "sz \<ge> ucast TRACE_HEAD_SIZE")
  case True
  then obtain b1 n1 where p: "trac_partial (Some d) b a (ucast sz) tr = Inr ((b1, n1), tr')"
    and e: "b' = b1" "sz' = ucast n1" "act = 0"
    using r by (auto simp: one_trace_def kbind_Inr split: prod.splits)
  note q = trac_partial_ok [OF ok p]
  have l0: "unat (ucast sz :: u32) = unat sz" by (simp add: unat_ucast_up)
  have "unat n1 \<le> unat sz" using q(1) l0 by (simp add: word_le_nat_alt)
  then show ?thesis using e q(2,3) l0 ucast_le16 [of n1 sz] by simp
next
  case False
  then show ?thesis using r by (simp add: one_trace_def)
qed

lemma add_trace_effect:
  assumes ok: "log_ok cap b" "cap < 65536" and tr: "tr_ok (errl_trace s)" and b: "errl_slots s i = b"
    and r: "addTraceToErrl t n (ErrSlot i) s = Inr s'"
  obtains b' k tr' where "s' = upd_slot i (\<lambda>_. b') (s\<lparr>errl_trace := tr'\<rparr>)" "added k b b'"
    "unat (entry_sz b) + k \<le> unat (max_sz b)" "tr_buf tr' = tr_buf (errl_trace s)"
    "committed b \<Longrightarrow> b' = b" "k \<le> unat n + 4"
proof (cases "\<not> committed b \<and> n \<noteq> 0 \<and> unat (entry_sz b) + 4 < unat (max_sz b) \<and> t \<noteq> TrOther")
  case False
  then have "s' = s"
    using r unfolding addTraceToErrl_def Let_def errl_hndl.case b if_not_P [OF False] by simp
  moreover have "upd_slot i (\<lambda>_. b) (s\<lparr>errl_trace := errl_trace s\<rparr>) = s" using b by (cases s) (auto simp: upd_slot_def)
  ultimately show thesis using added_refl ok by (intro that [of b "errl_trace s" 0]) (simp_all add: log_ok_def)
next
  case True
  define a where "a = unat (entry_sz b)"
  define av where "av = max_sz b - (entry_sz b + USR_DTL_HEAD_SIZE)"
  define sz where "sz = (if n < av then n else av)"
  have room: "a + 4 < unat (max_sz b)" using True by (simp add: a_def)
  have mx: "unat (max_sz b) < 65536" by (rule unat_u16_lt)
  have e4: "unat (entry_sz b + 4) = a + 4"
    using room mx unat_add_lem [of "entry_sz b" 4] by (simp add: a_def)
  have av: "unat av = unat (max_sz b) - (a + 4)"
    using room unat_sub [of "entry_sz b + 4" "max_sz b"]
    by (simp add: av_def USR_DTL_HEAD_SIZE_def word_le_nat_alt e4 a_def)
  have sz: "unat sz \<le> unat (max_sz b) - (a + 4)" by (auto simp: sz_def av [symmetric] word_less_nat_alt)
  define R where "R = (case t of TrDesc d \<Rightarrow> one_trace d b (a + 4) sz (errl_trace s)
    | _ \<Rightarrow> all_traces b (a + 4) sz (errl_trace s))"
  have u4: "unat USR_DTL_HEAD_SIZE = 4" by (simp add: USR_DTL_HEAD_SIZE_def)
  have "kbind R (\<lambda>((b1, sz1, act), tr).
      Inr (upd_slot i (\<lambda>_. grow (if sz1 \<noteq> 0 then sz1 + USR_DTL_HEAD_SIZE else act)
        (if sz1 \<noteq> 0 then put_header a 0 1 sz1 b1 else b1)) (s\<lparr>errl_trace := tr\<rparr>))) = Inr s'"
    using r unfolding addTraceToErrl_def Let_def errl_hndl.case b u4
      av_def [symmetric] sz_def [symmetric] a_def [symmetric] if_P [OF True [folded a_def]] R_def by assumption
  then obtain b1 sz1 act tr1 where g: "R = Inr ((b1, sz1, act), tr1)"
    and s': "s' = upd_slot i (\<lambda>_. grow (if sz1 \<noteq> 0 then sz1 + USR_DTL_HEAD_SIZE else act)
        (if sz1 \<noteq> 0 then put_header a 0 1 sz1 b1 else b1)) (s\<lparr>errl_trace := tr1\<rparr>)"
    by (auto simp: kbind_Inr)
  have P: "unat sz1 \<le> unat sz \<and> act \<in> {0, sz1} \<and> (\<forall>j. j < a + 4 \<or> a + 4 + unat sz \<le> j \<longrightarrow> b1 j = b j)
    \<and> tr_buf tr1 = tr_buf (errl_trace s)"
  proof (cases t)
    case TrNull
    then show ?thesis using all_traces_ok [OF tr, of b "a + 4" sz b1 sz1 act tr1] g R_def by simp
  next
    case (TrDesc d)
    then show ?thesis using one_trace_ok [OF tr, of d b "a + 4" sz b1 sz1 act tr1] g R_def by simp
  next
    case TrOther
    then show ?thesis using True by simp
  qed
  define k where "k = (if sz1 \<noteq> 0 then unat sz1 + 4 else 0)"
  define m where "m = (if sz1 \<noteq> 0 then sz1 + USR_DTL_HEAD_SIZE else act)"
  define c where "c = (if sz1 \<noteq> 0 then put_header a 0 1 sz1 b1 else b1)"
  have km: "unat m = k"
    using P sz mx unat_add_lem [of sz1 4] by (auto simp: m_def k_def USR_DTL_HEAD_SIZE_def)
  have kb: "a + k \<le> unat (max_sz b)" using P sz room by (auto simp: k_def)
  have "unat sz \<le> unat n" by (simp add: sz_def word_less_nat_alt)
  then have kn: "k \<le> unat n + 4" using P by (auto simp: k_def)
  have "added k b (grow m c)"
  proof (rule grow_added [OF ok km])
    show "unat (entry_sz b) + k \<le> unat (max_sz b)" using kb by (simp add: a_def)
    show "c j = b j" if "j < unat (entry_sz b) \<or> unat (max_sz b) \<le> j" for j
    proof -
      have "j < a + 4 \<or> a + 4 + unat sz \<le> j" "j < a \<or> a + 4 \<le> j" using that sz room by (auto simp: a_def)
      moreover from this(1) P have "b1 j = b j" by blast
      ultimately show ?thesis by (simp add: c_def put_header_fields)
    qed
  qed
  then show thesis
    by (rule that [rotated]) (use s' kb kn P True in \<open>simp_all add: m_def c_def a_def\<close>)
qed

section \<open>The store\<close>

definition used :: "errl \<Rightarrow> nat \<Rightarrow> bool" where
  "used s i \<longleftrightarrow> bit (errSlotBits s) (31 - i)"

definition slot_ok :: "nat \<Rightarrow> bytes \<Rightarrow> bool" where
  "slot_ok i b \<longleftrightarrow> log_ok (slot_capacity i) b \<and> b E_numCallouts \<le> ERRL_MAX_CALLOUTS"

definition free_ok :: "bytes \<Rightarrow> bool" where
  "free_ok b \<longleftrightarrow> (\<forall>j < 120. b j = 0)"

definition errl_wf :: "errl \<Rightarrow> bool" where
  "errl_wf s \<longleftrightarrow> tr_ok (errl_trace s) \<and>
     (\<forall>i < 8. if used s i then slot_ok i (errl_slots s i) else free_ok (errl_slots s i))"

text \<open>What a step may do to memory outside the slots: nothing.\<close>

definition in_bounds :: "errl \<Rightarrow> errl \<Rightarrow> bool" where
  "in_bounds s s' \<longleftrightarrow> (\<forall>i j. 8 \<le> i \<or> slot_capacity i \<le> j \<longrightarrow> errl_slots s' i j = errl_slots s i j)"

lemma in_bounds_refl: "in_bounds s s" by (simp add: in_bounds_def)

lemma in_bounds_trans: "in_bounds s t \<Longrightarrow> in_bounds t u \<Longrightarrow> in_bounds s u"
  unfolding in_bounds_def by metis

lemma capacity: "slot_capacity i < 65536" "2128 \<le> slot_capacity i"
  by (simp_all add: slot_capacity_def)

lemma upd_slot_fields [simp]:
  "errl_slots (upd_slot i f s) j = (if j = i then f (errl_slots s i) else errl_slots s j)"
  "errSlotBits (upd_slot i f s) = errSlotBits s" "errl_trace (upd_slot i f s) = errl_trace s"
  "errIdCounter (upd_slot i f s) = errIdCounter s" "error_history (upd_slot i f s) = error_history s"
  "errl_time (upd_slot i f s) = errl_time s"
  "commits_suspended (upd_slot i f s) = commits_suspended s"
  "fir_collection_required (upd_slot i f s) = fir_collection_required s"
  "errl_events (upd_slot i f s) = errl_events s"
  by (simp_all add: upd_slot_def)

lemma wf_upd_slot:
  assumes wf: "errl_wf s" and i: "i < 8" and u: "used s i"
    and ok: "slot_ok i (f (errl_slots s i))"
    and out: "\<And>j. slot_capacity i \<le> j \<Longrightarrow> f (errl_slots s i) j = errl_slots s i j"
  shows "errl_wf (upd_slot i f s)" "in_bounds s (upd_slot i f s)"
  using assms by (auto simp: errl_wf_def used_def in_bounds_def)

lemma wf_slotD: "errl_wf s \<Longrightarrow> i < 8 \<Longrightarrow> used s i \<Longrightarrow> slot_ok i (errl_slots s i)"
  by (simp add: errl_wf_def)

lemma log_ok_cong:
  "(\<And>j. j \<in> {7, 8} \<union> {116..<120} \<Longrightarrow> b' j = b j) \<Longrightarrow> log_ok cap b \<Longrightarrow> log_ok cap b'"
proof -
  assume *: "\<And>j. j \<in> {7, 8} \<union> {116..<120} \<Longrightarrow> b' j = b j"
  have "entry_sz b' = entry_sz b" "max_sz b' = max_sz b"
    "get16 b' U_userDetailEntrySize = get16 b U_userDetailEntrySize"
    unfolding entry_sz_def max_sz_def by (rule get_apart(1); rule *; simp; arith)+
  then show "log_ok cap b \<Longrightarrow> log_ok cap b'" by (simp add: log_ok_def)
qed

lemma added_slot_ok:
  assumes "slot_ok i b" "added k b b'" "unat (entry_sz b) + k \<le> unat (max_sz b)"
  shows "slot_ok i b'" "slot_capacity i \<le> j \<Longrightarrow> b' j = b j"
proof -
  have "b' 11 = b 11" using assms by (simp add: added_def slot_ok_def log_ok_def)
  then show "slot_ok i b'" using assms added_ok [of "slot_capacity i" b k b'] by (simp add: slot_ok_def)
  assume "slot_capacity i \<le> j"
  with assms capacity(2) [of i] show "b' j = b j" by (simp add: added_def slot_ok_def log_ok_def)
qed

section \<open>Allocation\<close>

lemma find_slot_free:
  assumes "find_slot m s = i" "i < 8"
  shows "\<not> used s i" "\<not> bit m (31 - i)"
    "j < i \<Longrightarrow> \<not> bit m (31 - j) \<Longrightarrow> used s j"
proof -
  have "bit (NOT (errSlotBits s OR m)) (31 - i)"
    using cntlzw_props(3) [of "NOT (errSlotBits s OR m)"] assms by (simp add: find_slot_def)
  then show "\<not> used s i" "\<not> bit m (31 - i)" by (simp_all add: used_def bit_not_iff bit_or_iff bit_and_iff)
  assume j: "j < i" "\<not> bit m (31 - j)"
  then have "\<not> bit (NOT (errSlotBits s OR m)) (31 - j)"
    using cntlzw_props(2) [of j "NOT (errSlotBits s OR m)"] assms by (simp add: find_slot_def)
  then show "used s j" using j by (simp add: used_def bit_not_iff bit_or_iff bit_and_iff)
qed

lemma find_slot_full:
  assumes "\<not> find_slot m s < 8" "i < 8" "\<not> bit m (31 - i)"
  shows "used s i"
proof -
  have "\<not> bit (NOT (errSlotBits s OR m)) (31 - i)"
    using cntlzw_props(2) [of i "NOT (errSlotBits s OR m)"] assms by (simp add: find_slot_def)
  then show ?thesis using assms by (simp add: used_def bit_not_iff bit_or_iff bit_and_iff)
qed

lemma slot_masks:
  "i < 8 \<Longrightarrow> \<not> bit ERRL_SLOT_MASK_INFORMATIONAL (31 - i) \<longleftrightarrow> i = 6"
  "i < 8 \<Longrightarrow> \<not> bit ERRL_SLOT_MASK_OCC_ERROR (31 - i) \<longleftrightarrow> i < 5"
  "i < 8 \<Longrightarrow> \<not> bit ERRL_SLOT_MASK_CALL_HOME_DATA (31 - i) \<longleftrightarrow> i = 7"
  "i < 8 \<Longrightarrow> \<not> bit ERRL_SLOT_MASK_PGPE_ERROR (31 - i) \<longleftrightarrow> i = 5"
proof -
  have *: "\<forall>i \<in> set [0..<8]. (\<not> bit ERRL_SLOT_MASK_INFORMATIONAL (31 - i) \<longleftrightarrow> i = 6)
    \<and> (\<not> bit ERRL_SLOT_MASK_OCC_ERROR (31 - i) \<longleftrightarrow> i < 5)
    \<and> (\<not> bit ERRL_SLOT_MASK_CALL_HOME_DATA (31 - i) \<longleftrightarrow> i = 7)
    \<and> (\<not> bit ERRL_SLOT_MASK_PGPE_ERROR (31 - i) \<longleftrightarrow> i = 5)"
    by (simp add: upt_rec ERRL_SLOT_MASK_INFORMATIONAL_def ERRL_SLOT_MASK_OCC_ERROR_def
        ERRL_SLOT_MASK_CALL_HOME_DATA_def ERRL_SLOT_MASK_PGPE_ERROR_def)
  show "i < 8 \<Longrightarrow> \<not> bit ERRL_SLOT_MASK_INFORMATIONAL (31 - i) \<longleftrightarrow> i = 6"
    "i < 8 \<Longrightarrow> \<not> bit ERRL_SLOT_MASK_OCC_ERROR (31 - i) \<longleftrightarrow> i < 5"
    "i < 8 \<Longrightarrow> \<not> bit ERRL_SLOT_MASK_CALL_HOME_DATA (31 - i) \<longleftrightarrow> i = 7"
    "i < 8 \<Longrightarrow> \<not> bit ERRL_SLOT_MASK_PGPE_ERROR (31 - i) \<longleftrightarrow> i = 5"
    using bspec [OF *, of i] by auto
qed

text \<open>The slots a severity may use: the masks of the code as a set.\<close>

definition sev_range :: "ERRL_SEVERITY \<Rightarrow> nat set" where
  "sev_range v =
     (case v of ERRL_SEV_INFORMATIONAL \<Rightarrow> {6} | ERRL_SEV_CALLHOME_DATA \<Rightarrow> {7}
      | ERRL_SEV_PGPE_ERROR \<Rightarrow> {0..5} | _ \<Rightarrow> {0..4})"

lemma alloc_cases:
  assumes "getErrSlotNumAndErrId v s = ((slot, eid, time, maxSize), s')"
  obtains (ok) i where "i \<in> sev_range v" "i < 8" "\<not> used s i" "slot = of_nat i" "unat slot = i"
      "((slot, eid, time, maxSize), s') = take_slot i maxSize s"
      "120 \<le> unat maxSize" "unat maxSize \<le> slot_capacity i"
  | (full) "\<forall>i \<in> sev_range v. used s i" "slot = ERRL_INVALID_SLOT" "s' = s"
proof -
  obtain m mx where mm: "sev_slots v = (m, mx)" by (cases "sev_slots v")
  have range: "i < 8 \<Longrightarrow> \<not> bit m (31 - i) \<Longrightarrow> i \<in> sev_range v \<and> unat mx \<le> slot_capacity i" for i
    using mm by (cases v) (auto simp: sev_slots_def slot_masks sev_range_def slot_capacity_def
        MAX_ERRL_ENTRY_SZ_def MAX_ERRL_PGPE_ENTRY_SZ_def MAX_ERRL_CALL_HOME_SZ_def)
  have mx: "120 \<le> unat mx" using mm by (cases v) (auto simp: sev_slots_def
        MAX_ERRL_ENTRY_SZ_def MAX_ERRL_PGPE_ENTRY_SZ_def MAX_ERRL_CALL_HOME_SZ_def)
  have pgpe: "m = ERRL_SLOT_MASK_PGPE_ERROR \<longleftrightarrow> v = ERRL_SEV_PGPE_ERROR"
    using mm by (cases v) (auto simp: sev_slots_def ERRL_SLOT_MASK_INFORMATIONAL_def ERRL_SLOT_MASK_OCC_ERROR_def
        ERRL_SLOT_MASK_CALL_HOME_DATA_def ERRL_SLOT_MASK_PGPE_ERROR_def)
  have fs: "fst (take_slot i x s) = (of_nat i, e, t, z) \<Longrightarrow> z = x" for i x e t z
    by (simp add: take_slot_def Let_def)
  consider (1) "find_slot m s < 8"
    | (2) "\<not> find_slot m s < 8" "v = ERRL_SEV_PGPE_ERROR" "find_slot ERRL_SLOT_MASK_OCC_ERROR s < 8"
    | (3) "\<not> find_slot m s < 8" "v = ERRL_SEV_PGPE_ERROR" "\<not> find_slot ERRL_SLOT_MASK_OCC_ERROR s < 8"
    | (4) "\<not> find_slot m s < 8" "v \<noteq> ERRL_SEV_PGPE_ERROR" by blast
  then show thesis
  proof cases
    case 1
    define i where "i = find_slot m s"
    have e: "((slot, eid, time, maxSize), s') = take_slot i mx s"
      using assms 1 by (simp add: getErrSlotNumAndErrId_def mm ERRL_MAX_SLOTS_def i_def)
    then have "maxSize = mx" "slot = of_nat i" by (auto simp: take_slot_def Let_def)
    with e 1 range [of i] mx find_slot_free [of m s i] show thesis
      by (intro ok [of i]) (auto simp: i_def unat_of_nat)
  next
    case 2
    define i where "i = find_slot ERRL_SLOT_MASK_OCC_ERROR s"
    have e: "((slot, eid, time, maxSize), s') = take_slot i MAX_ERRL_ENTRY_SZ s"
      using assms 2(1,3) pgpe 2(2) unfolding getErrSlotNumAndErrId_def mm
      by (simp add: ERRL_MAX_SLOTS_def i_def)
    then have "maxSize = MAX_ERRL_ENTRY_SZ" "slot = of_nat i" by (auto simp: take_slot_def Let_def)
    moreover have "i < 5" using find_slot_free(2) [of ERRL_SLOT_MASK_OCC_ERROR s i] 2 slot_masks(2) [of i]
      by (simp add: i_def)
    ultimately show thesis using e 2 find_slot_free(1) [of ERRL_SLOT_MASK_OCC_ERROR s i] capacity(2) [of i]
      by (intro ok [of i]) (auto simp: i_def unat_of_nat sev_range_def MAX_ERRL_ENTRY_SZ_def)
  next
    case 3
    show thesis
    proof (rule full)
      show "\<forall>i \<in> sev_range v. used s i"
      proof
        fix i assume "i \<in> sev_range v"
        then have "i < 5 \<or> i = 5" using 3 by (auto simp: sev_range_def)
        then show "used s i"
          using find_slot_full [OF 3(3), of i] find_slot_full [OF 3(1), of i] slot_masks(2,4) [of i] pgpe 3 by auto
      qed
    qed (use assms [unfolded getErrSlotNumAndErrId_def mm] 3 in \<open>auto simp: ERRL_MAX_SLOTS_def pgpe\<close>)
  next
    case 4
    show thesis
    proof (rule full)
      show "\<forall>i \<in> sev_range v. used s i"
      proof
        fix i assume i: "i \<in> sev_range v"
        then have "i < 8 \<and> \<not> bit m (31 - i)" using mm 4(2) slot_masks [of i]
          by (cases v) (auto simp: sev_range_def sev_slots_def)
        then show "used s i" using find_slot_full [OF 4(1)] by blast
      qed
    qed (use assms 4 pgpe in \<open>auto simp: getErrSlotNumAndErrId_def mm ERRL_MAX_SLOTS_def\<close>)
  qed
qed

section \<open>Preservation\<close>

text \<open>Taking a free slot and starting a log in it.\<close>

lemma used_take: "i < 8 \<Longrightarrow> used (snd (take_slot j m s)) i \<longleftrightarrow> i = j \<or> used s i"
  by (auto simp: used_def take_slot_def Let_def bit_or_iff bit_prio_mask)

lemma take_slot_fields [simp]:
  "errl_slots (snd (take_slot j m s)) = errl_slots s" "errl_trace (snd (take_slot j m s)) = errl_trace s"
  "commits_suspended (snd (take_slot j m s)) = commits_suspended s"
  by (simp_all add: take_slot_def Let_def)

lemma start_wf:
  assumes wf: "errl_wf s" and i: "i < 8" "\<not> used s i" and m: "120 \<le> unat m" "unat m \<le> slot_capacity i"
  defines "t \<equiv> upd_slot i (start_entry m) (snd (take_slot i m s))"
  shows "errl_wf t" "in_bounds s t" "used t i" "entry_sz (errl_slots t i) = 120" "max_sz (errl_slots t i) = m"
    "\<not> committed (errl_slots t i)"
proof -
  have "free_ok (errl_slots s i)" using wf i unfolding errl_wf_def by metis
  then have z: "\<forall>j < 120. errl_slots s i j = 0" by (simp add: free_ok_def)
  let ?b = "start_entry m (errl_slots s i)"
  have f3: "?b j = errl_slots s i j" if "j \<notin> {7, 8, 116, 117}" for j
    using that by (auto simp: start_entry_def set16_def)
  have f: "get16 ?b 116 = 120" "get16 ?b 7 = m" "\<And>j. j \<notin> {7, 8, 116, 117} \<Longrightarrow> ?b j = errl_slots s i j"
    using f3 by (simp_all add: start_entry_def ERRL_ENTRY_SIZE_def)
  have "get16 ?b 118 = get16 (errl_slots s i) 118" by (rule get_apart) (use f(3) in auto)
  also have "\<dots> = 0" using z by (intro get16_zero) simp_all
  finally have g: "get16 ?b 118 = 0" .
  have ok: "slot_ok i ?b"
    using f m g z by (simp add: slot_ok_def log_ok_def entry_sz_def max_sz_def)
  show "errl_wf t" unfolding errl_wf_def t_def
    using wf ok i used_take [of _ i m s] by (auto simp: errl_wf_def used_def)
  show "in_bounds s t" using i f(3) capacity(2) [of i] by (auto simp: in_bounds_def t_def)
  show "used t i" using used_take [of i i m s] i by (simp add: t_def used_def)
  show "entry_sz (errl_slots t i) = 120" "max_sz (errl_slots t i) = m"
    using f by (simp_all add: t_def entry_sz_def max_sz_def)
  show "\<not> committed (errl_slots t i)" using f(3) z by (simp add: t_def committed_def)
qed

lemma usr_dtls_wf:
  assumes wf: "errl_wf s" and i: "i < 8" "used s i"
    and room: "entry_sz (errl_slots s i) < max_sz (errl_slots s i) \<Longrightarrow>
      unat (entry_sz (errl_slots s i)) + 4 \<le> unat (max_sz (errl_slots s i))"
  shows "errl_wf (addUsrDtlsToErrl (ErrSlot i) d n v ty s)" "in_bounds s (addUsrDtlsToErrl (ErrSlot i) d n v ty s)"
proof -
  let ?b = "errl_slots s i"
  have ok: "slot_ok i ?b" by (rule wf_slotD [OF wf i])
  have "errl_wf (addUsrDtlsToErrl (ErrSlot i) d n v ty s) \<and> in_bounds s (addUsrDtlsToErrl (ErrSlot i) d n v ty s)"
  proof (cases "\<not> committed ?b \<and> n \<noteq> 0 \<and> entry_sz ?b < max_sz ?b \<and> d \<noteq> None")
    case True
    then obtain e where d: "d = Some e" by blast
    define k where "k = min (unat n) (unat (max_sz ?b) - (unat (entry_sz ?b) + 4))"
    have lo: "log_ok (slot_capacity i) ?b" using ok by (simp add: slot_ok_def)
    obtain b' where 1: "addUsrDtlsToErrl (ErrSlot i) (Some e) n v ty s = upd_slot i (\<lambda>_. b') s"
      and a: "added (4 + k) ?b b'"
      by (rule usr_dtls_effect [OF lo capacity(1) _ refl, of n k e v ty]) (use True room k_def in auto)
    have kb: "unat (entry_sz ?b) + (4 + k) \<le> unat (max_sz ?b)" using True room by (auto simp: k_def)
    show ?thesis unfolding d 1
      using wf_upd_slot [OF wf i, of "\<lambda>_. b'"] added_slot_ok [OF ok a kb] by blast
  next
    case False
    then have "addUsrDtlsToErrl (ErrSlot i) d n v ty s = s"
      by (cases d) (auto simp: addUsrDtlsToErrl_def Let_def)
    then show ?thesis using wf in_bounds_refl by simp
  qed
  then show "errl_wf (addUsrDtlsToErrl (ErrSlot i) d n v ty s)" "in_bounds s (addUsrDtlsToErrl (ErrSlot i) d n v ty s)"
    by blast+
qed

lemma history_wf:
  assumes wf: "errl_wf s" and i: "i < 8" "used s i"
  shows "errl_wf (addErrHistory (ErrSlot i) s)" "in_bounds s (addErrHistory (ErrSlot i) s)"
    "errSlotBits (addErrHistory (ErrSlot i) s) = errSlotBits s"
proof -
  let ?b = "errl_slots s i"
  have ok: "slot_ok i ?b" by (rule wf_slotD [OF wf i])
  have "errl_wf (addErrHistory (ErrSlot i) s) \<and> in_bounds s (addErrHistory (ErrSlot i) s)"
  proof (cases "\<not> committed ?b \<and> unat (entry_sz ?b) + 52 < unat (max_sz ?b)")
    case True
    have lo: "log_ok (slot_capacity i) ?b" using ok by (simp add: slot_ok_def)
    obtain b' where 1: "addErrHistory (ErrSlot i) s = upd_slot i (\<lambda>_. b') s" and a: "added 52 ?b b'"
      by (rule history_effect [OF lo capacity(1) refl]) (use True in auto)
    show ?thesis unfolding 1
      using wf_upd_slot [OF wf i, of "\<lambda>_. b'"] added_slot_ok [OF ok a] True by auto
  next
    case False
    then have "addErrHistory (ErrSlot i) s = s" by (auto simp: addErrHistory_def Let_def ERR_HISTORY_SIZE_def)
    then show ?thesis using wf in_bounds_refl by simp
  qed
  then show "errl_wf (addErrHistory (ErrSlot i) s)" "in_bounds s (addErrHistory (ErrSlot i) s)" by blast+
  show "errSlotBits (addErrHistory (ErrSlot i) s) = errSlotBits s" by (simp add: addErrHistory_def Let_def)
qed

lemma add_trace_wf:
  assumes wf: "errl_wf s" and i: "i < 8" "used s i" and r: "addTraceToErrl t n (ErrSlot i) s = Inr s'"
  shows "errl_wf s'" "in_bounds s s'" "errSlotBits s' = errSlotBits s"
proof -
  let ?b = "errl_slots s i"
  have ok: "slot_ok i ?b" by (rule wf_slotD [OF wf i])
  have lo: "log_ok (slot_capacity i) ?b" using ok by (simp add: slot_ok_def)
  have tr: "tr_ok (errl_trace s)" using wf by (simp add: errl_wf_def)
  obtain b' k tr' where 1: "s' = upd_slot i (\<lambda>_. b') (s\<lparr>errl_trace := tr'\<rparr>)"
    and a: "added k ?b b'" and k: "unat (entry_sz ?b) + k \<le> unat (max_sz ?b)" and b: "tr_buf tr' = tr_buf (errl_trace s)"
    by (rule add_trace_effect [OF lo capacity(1) tr refl r])
  have wf1: "errl_wf (s\<lparr>errl_trace := tr'\<rparr>)" using wf b by (simp add: errl_wf_def tr_ok_def used_def)
  have u: "used (s\<lparr>errl_trace := tr'\<rparr>) i" using i by (simp add: used_def)
  note w = wf_upd_slot [OF wf1 i(1) u, of "\<lambda>_. b'"]
  have "slot_ok i b'" "\<And>j. slot_capacity i \<le> j \<Longrightarrow> b' j = ?b j" using added_slot_ok [OF ok a k] by auto
  with w show "errl_wf s'" unfolding 1 by simp
  show "in_bounds s s'" using added_slot_ok(2) [OF ok a k] i by (auto simp: in_bounds_def 1)
  show "errSlotBits s' = errSlotBits s" by (simp add: 1)
qed

text \<open>Updates of the fixed part of the entry that leave the sizes alone.\<close>

lemma wf_entry_upd:
  assumes wf: "errl_wf s" and i: "i < 8" "used s i"
    and same: "\<And>j. j \<in> {7, 8} \<union> {116..<120} \<union> {j. 2128 \<le> j} \<Longrightarrow> f (errl_slots s i) j = errl_slots s i j"
    and n: "f (errl_slots s i) 11 \<le> ERRL_MAX_CALLOUTS"
  shows "errl_wf (upd_slot i f s)" "in_bounds s (upd_slot i f s)"
proof -
  have ok: "slot_ok i (errl_slots s i)" by (rule wf_slotD [OF wf i])
  have "log_ok (slot_capacity i) (f (errl_slots s i))"
    by (rule log_ok_cong [OF same]) (use ok in \<open>auto simp: slot_ok_def\<close>)
  with n have "slot_ok i (f (errl_slots s i))" by (simp add: slot_ok_def)
  with wf_upd_slot [OF wf i, of f] same capacity(2) [of i]
  show "errl_wf (upd_slot i f s)" "in_bounds s (upd_slot i f s)" by simp_all
qed

lemma wf_field_cong:
  "errl_slots s' = errl_slots s \<Longrightarrow> errSlotBits s' = errSlotBits s \<Longrightarrow> errl_trace s' = errl_trace s \<Longrightarrow>
   errl_wf s' = errl_wf s \<and> in_bounds s s'"
  by (auto simp: errl_wf_def used_def in_bounds_def)

lemma wf_ghost [simp]:
  "errl_wf (s\<lparr>errl_events := x\<rparr>) = errl_wf s" "errl_wf (s\<lparr>commits_suspended := y\<rparr>) = errl_wf s"
  "errl_wf (s\<lparr>fir_collection_required := z\<rparr>) = errl_wf s"
  "in_bounds s0 (s\<lparr>errl_events := x\<rparr>) = in_bounds s0 s" "in_bounds s0 (s\<lparr>commits_suspended := y\<rparr>) = in_bounds s0 s"
  "in_bounds s0 (s\<lparr>fir_collection_required := z\<rparr>) = in_bounds s0 s"
  by (simp_all add: errl_wf_def used_def in_bounds_def)

lemma fill_frames:
  "j \<in> {7, 8} \<union> {116..<120} \<union> {j. 2128 \<le> j} \<Longrightarrow> fill_entry m r x sv u1 u2 eid tm st b j = b j"
  "fill_entry m r x sv u1 u2 eid tm st b 11 = 0"
  by (auto simp: fill_entry_def Let_def)

lemma actions_wf:
  assumes "errl_wf s" "i < 8" "used s i"
  shows "errl_wf (setErrlActions (ErrSlot i) m s)" "in_bounds s (setErrlActions (ErrSlot i) m s)"
    "errSlotBits (setErrlActions h m s) = errSlotBits s"
proof -
  have n: "errl_slots s i 11 \<le> ERRL_MAX_CALLOUTS" using wf_slotD [OF assms] by (simp add: slot_ok_def)
  let ?f = "\<lambda>b. set8 6 (b 6 OR m) b"
  have "errl_wf (upd_slot i ?f s)" by (rule wf_entry_upd(1) [OF assms]) (use n in auto)
  moreover have "in_bounds s (upd_slot i ?f s)" by (rule wf_entry_upd(2) [OF assms]) (use n in auto)
  ultimately show "errl_wf (setErrlActions (ErrSlot i) m s)" "in_bounds s (setErrlActions (ErrSlot i) m s)"
    using assms(1) in_bounds_refl by (auto simp: setErrlActions_def)
  show "errSlotBits (setErrlActions h m s) = errSlotBits s" by (simp add: setErrlActions_def split: errl_hndl.splits)
qed

lemma usr_dtls_bits: "errSlotBits (addUsrDtlsToErrl h d n v ty s) = errSlotBits s"
  by (simp add: addUsrDtlsToErrl_def Let_def split: errl_hndl.splits option.splits)

lemma callout_wf:
  assumes "errl_wf s" "i < 8" "used s i"
  shows "errl_wf (addCalloutToErrl (ErrSlot i) ty v p s)" "in_bounds s (addCalloutToErrl (ErrSlot i) ty v p s)"
    "errSlotBits (addCalloutToErrl h ty v p s) = errSlotBits s"
proof -
  let ?b = "errl_slots s i"
  let ?a = "12 + 12 * unat (?b 11)"
  let ?f = "\<lambda>_ :: bytes. set8 11 (?b 11 + 1) (set8 (?a + 9) p (set64 (?a + 1) v (set8 ?a ty ?b)))"
  have n: "?b 11 \<le> ERRL_MAX_CALLOUTS" using wf_slotD [OF assms] by (simp add: slot_ok_def)
  have "errl_wf (addCalloutToErrl (ErrSlot i) ty v p s) \<and> in_bounds s (addCalloutToErrl (ErrSlot i) ty v p s)"
  proof (cases "\<not> committed ?b \<and> (?b 6 AND ERRL_ACTIONS_MANUFACTURING_ERROR \<noteq> 0 \<or> ?b 5 \<noteq> sev_code ERRL_SEV_INFORMATIONAL)
      \<and> ?b 11 < ERRL_MAX_CALLOUTS")
    case True
    then have lt: "?b 11 < 6" by (simp add: ERRL_MAX_CALLOUTS_def)
    then have u: "unat (?b 11) < 6" by (simp add: word_less_nat_alt)
    then have "unat (?b 11 + 1) \<le> 6" using unat_add_lem [of "?b 11" 1] by simp
    then have "?b 11 + 1 \<le> ERRL_MAX_CALLOUTS" by (simp add: ERRL_MAX_CALLOUTS_def word_le_nat_alt)
    moreover have "addCalloutToErrl (ErrSlot i) ty v p s = upd_slot i ?f s"
      using True by (simp add: addCalloutToErrl_def Let_def CALLOUT_SIZE_def)
    moreover have "errl_wf (upd_slot i ?f s)"
      by (rule wf_entry_upd(1) [OF assms]) (use u calculation in auto)
    moreover have "in_bounds s (upd_slot i ?f s)"
      by (rule wf_entry_upd(2) [OF assms]) (use u calculation in auto)
    ultimately show ?thesis by simp
  next
    case False
    then have "addCalloutToErrl (ErrSlot i) ty v p s = s" by (auto simp: addCalloutToErrl_def Let_def)
    then show ?thesis using assms in_bounds_refl by simp
  qed
  then show "errl_wf (addCalloutToErrl (ErrSlot i) ty v p s)" "in_bounds s (addCalloutToErrl (ErrSlot i) ty v p s)"
    by blast+
  show "errSlotBits (addCalloutToErrl h ty v p s) = errSlotBits s"
    by (simp add: addCalloutToErrl_def Let_def split: errl_hndl.splits)
qed

lemma sev_info_wf:
  assumes "errl_wf s" "i < 8" "used s i"
  shows "errl_wf (setErrlSevToInfo (ErrSlot i) s)" "in_bounds s (setErrlSevToInfo (ErrSlot i) s)"
    "errSlotBits (setErrlSevToInfo h s) = errSlotBits s"
proof -
  let ?b = "errl_slots s i"
  have "?b 11 \<le> 6" using wf_slotD [OF assms] by (simp add: slot_ok_def ERRL_MAX_CALLOUTS_def)
  then have u: "unat (?b 11) \<le> 6" by (simp add: word_le_nat_alt)
  let ?f = "\<lambda>b. set8 11 0 (memset (set8 5 0 b) 12 0 (12 * unat (b 11)))"
  have "errl_wf (upd_slot i ?f s)" by (rule wf_entry_upd(1) [OF assms]) (use u in auto)
  moreover have "in_bounds s (upd_slot i ?f s)" by (rule wf_entry_upd(2) [OF assms]) (use u in auto)
  ultimately show "errl_wf (setErrlSevToInfo (ErrSlot i) s)" "in_bounds s (setErrlSevToInfo (ErrSlot i) s)"
    using assms(1) in_bounds_refl
    by (simp_all add: setErrlSevToInfo_def Let_def CALLOUT_SIZE_def sev_code_def)
  show "errSlotBits (setErrlSevToInfo h s) = errSlotBits s"
    by (simp add: setErrlSevToInfo_def Let_def split: errl_hndl.splits)
qed

section \<open>Creating, committing and deleting logs\<close>

lemma used_bits: "errSlotBits s' = errSlotBits s \<Longrightarrow> used s' i = used s i"
  by (simp add: used_def)

lemma take_id: "getErrSlotNumAndErrId v s = ((slot, eid, time, maxSize), s') \<Longrightarrow> slot \<noteq> ERRL_INVALID_SLOT \<Longrightarrow>
   eid \<noteq> 0 \<and> time = errl_time s"
  by (auto simp: getErrSlotNumAndErrId_def take_slot_def Let_def add_eq_0_iff split: if_splits prod.splits)

text \<open>The assignments that finish a new log, in a slot that already holds a well-formed one.\<close>

lemma finish_wf:
  assumes wf: "errl_wf s" and i: "i < 8" "used s i"
  shows "errl_wf (upd_slot i (fill_entry m r x sv u1 u2 eid tm st) s)"
    "in_bounds s (upd_slot i (fill_entry m r x sv u1 u2 eid tm st) s)"
  by (rule wf_entry_upd [OF wf i]; use fill_frames(2) in \<open>auto intro: fill_frames(1)\<close>)+

lemma fill_fields:
  "fill_entry m r x sv u1 u2 eid tm st b 3 = eid" "fill_entry m r x sv u1 u2 eid tm st b 4 = r"
  "fill_entry m r x sv u1 u2 eid tm st b 5 = sv" "fill_entry m r x sv u1 u2 eid tm st b 103 = b 103"
  "get16 (fill_entry m r x sv u1 u2 eid tm st b) 86 = m"
  by (simp_all add: fill_entry_def Let_def)

lemma create_errl_wf:
  assumes wf: "errl_wf s" and r: "createErrl m rc x v t n u1 u2 s = Inr (h, s')"
  obtains (created) i where "h = ErrSlot i" "i \<in> sev_range v" "i < 8" "\<not> used s i" "used s' i"
      "errl_wf s'" "in_bounds s s'" "errl_slots s' i 3 \<noteq> 0" "errl_slots s' i 4 = rc"
  | (full) "h = ErrInvalid" "s' = s" "\<forall>i \<in> sev_range v. used s i"
proof -
  obtain slot eid tm mx s1 where a: "getErrSlotNumAndErrId v s = ((slot, eid, tm, mx), s1)"
    by (cases "getErrSlotNumAndErrId v s") auto
  from a show thesis
  proof (cases rule: alloc_cases)
    case (ok i)
    have s1: "s1 = snd (take_slot i mx s)" using ok(6) by (metis snd_conv)
    have ne: "slot \<noteq> ERRL_INVALID_SLOT" using ok(2,5) by (auto simp: ERRL_INVALID_SLOT_def)
    let ?s2 = "upd_slot i (start_entry mx) s1"
    note w2 = start_wf [OF wf ok(2,3,7,8), folded s1]
    note w3 = history_wf [OF w2(1) ok(2) w2(3)]
    have u3: "used (addErrHistory (ErrSlot i) ?s2) i" using w2(3) used_bits [OF w3(3)] by simp
    from r obtain s4 where t: "addTraceToErrl t n (ErrSlot i) (addErrHistory (ErrSlot i) ?s2) = Inr s4"
      and h: "h = ErrSlot i" and s': "\<exists>sv. s' = upd_slot i (fill_entry m rc x sv u1 u2 eid tm s4) s4"
      using ne ok(5) by (auto simp: createErrl_def a Let_def kbind_Inr)
    note w4 = add_trace_wf [OF w3(1) ok(2) u3 t]
    have u4: "used s4 i" using u3 used_bits [OF w4(3)] by simp
    from s' obtain sv where e: "s' = upd_slot i (fill_entry m rc x sv u1 u2 eid tm s4) s4" by blast
    note w5 = finish_wf [OF w4(1) ok(2) u4]
    show thesis
    proof (rule created [OF h ok(1,2,3)])
      show "used s' i" using u4 by (simp add: e used_def)
      show "errl_wf s'" unfolding e by (rule w5)
      show "in_bounds s s'" unfolding e
        by (rule in_bounds_trans [OF in_bounds_trans [OF in_bounds_trans [OF w2(2) w3(2)] w4(2)] w5(2)])
      show "errl_slots s' i 3 \<noteq> 0" "errl_slots s' i 4 = rc" using take_id [OF a ne] by (simp_all add: e fill_fields)
    qed
  next
    case full
    have "h = ErrInvalid" "s' = s" using r full by (simp_all add: createErrl_def a Let_def)
    with full(1) show thesis by (intro \<open>h = ErrInvalid \<Longrightarrow> s' = s \<Longrightarrow> \<forall>i \<in> sev_range v. used s i \<Longrightarrow> thesis\<close>)
  qed
qed

text \<open>How long a new log is: its fixed part, the history and the traces it was asked for.\<close>

lemma create_errl_size:
  assumes wf: "errl_wf s" and r: "createErrl m rc x v t n u1 u2 s = Inr (ErrSlot i, s')"
  shows "unat (entry_sz (errl_slots s' i)) \<le> 176 + unat n" "max_sz (errl_slots s' i) = snd (sev_slots v) \<or> v = ERRL_SEV_PGPE_ERROR"
proof -
  obtain slot eid tm mx s1 where a: "getErrSlotNumAndErrId v s = ((slot, eid, tm, mx), s1)"
    by (cases "getErrSlotNumAndErrId v s") auto
  from a have "unat (entry_sz (errl_slots s' i)) \<le> 176 + unat n \<and> (max_sz (errl_slots s' i) = snd (sev_slots v) \<or> v = ERRL_SEV_PGPE_ERROR)"
  proof (cases rule: alloc_cases)
    case (ok k)
    have s1: "s1 = snd (take_slot k mx s)" using ok(6) by (metis snd_conv)
    have ne: "slot \<noteq> ERRL_INVALID_SLOT" using ok(2,5) by (auto simp: ERRL_INVALID_SLOT_def)
    let ?s2 = "upd_slot k (start_entry mx) s1" let ?s3 = "addErrHistory (ErrSlot k) ?s2"
    note w2 = start_wf [OF wf ok(2,3,7,8), folded s1]
    note w3 = history_wf [OF w2(1) ok(2) w2(3)]
    have u3: "used ?s3 k" using w2(3) by (simp add: used_def w3(3))
    from r obtain s4 sv where t: "addTraceToErrl t n (ErrSlot k) ?s3 = Inr s4" and k: "i = k"
      and s': "s' = upd_slot k (fill_entry m rc x sv u1 u2 eid tm s4) s4"
      using ne ok(5) by (auto simp: createErrl_def a Let_def kbind_Inr)
    have lo2: "log_ok (slot_capacity k) (errl_slots ?s2 k)" using wf_slotD [OF w2(1) ok(2) w2(3)] by (simp add: slot_ok_def)
    have lo3: "log_ok (slot_capacity k) (errl_slots ?s3 k)" using wf_slotD [OF w3(1) ok(2) u3] by (simp add: slot_ok_def)
    have h: "unat (entry_sz (errl_slots ?s3 k)) \<le> 172 \<and> max_sz (errl_slots ?s3 k) = mx"
    proof (cases "unat (entry_sz (errl_slots ?s2 k)) + 52 < unat (max_sz (errl_slots ?s2 k))")
      case True
      obtain b' where 1: "?s3 = upd_slot k (\<lambda>_. b') ?s2" and ad: "added 52 (errl_slots ?s2 k) b'"
        by (rule history_effect [OF lo2 capacity(1) refl w2(6) True])
      show ?thesis using ad w2(4,5) added_max [OF lo2 ad] by (simp add: 1 added_def)
    next
      case False
      then have "?s3 = ?s2" using w2(6) by (simp add: addErrHistory_def Let_def ERR_HISTORY_SIZE_def)
      then show ?thesis using w2(4,5) by simp
    qed
    have tr: "tr_ok (errl_trace ?s3)" using w3(1) by (simp add: errl_wf_def)
    obtain b' j tr' where 4: "s4 = upd_slot k (\<lambda>_. b') (?s3\<lparr>errl_trace := tr'\<rparr>)" and ad: "added j (errl_slots ?s3 k) b'" and j: "j \<le> unat n + 4"
      by (rule add_trace_effect [OF lo3 capacity(1) tr refl t])
    have "errl_slots s4 k = b'" by (simp add: 4)
    moreover have "entry_sz (fill_entry m rc x sv u1 u2 eid tm s4 b') = entry_sz b'" "max_sz (fill_entry m rc x sv u1 u2 eid tm s4 b') = max_sz b'"
      unfolding entry_sz_def max_sz_def by (rule get_apart(1), rule fill_frames(1), force)+
    moreover have "mx = snd (sev_slots v) \<or> v = ERRL_SEV_PGPE_ERROR"
      using a ok(5) ne by (auto simp: getErrSlotNumAndErrId_def take_slot_def Let_def ERRL_SLOT_MASK_PGPE_ERROR_def sev_slots_def
        ERRL_SLOT_MASK_INFORMATIONAL_def ERRL_SLOT_MASK_OCC_ERROR_def ERRL_SLOT_MASK_CALL_HOME_DATA_def split: if_splits ERRL_SEVERITY.splits)
    ultimately show ?thesis using h j ad added_max [OF lo3 ad] by (simp add: s' k added_def)
  next
    case full
    then show ?thesis using r by (simp add: createErrl_def a Let_def)
  qed
  then show "unat (entry_sz (errl_slots s' i)) \<le> 176 + unat n" "max_sz (errl_slots s' i) = snd (sev_slots v) \<or> v = ERRL_SEV_PGPE_ERROR" by simp_all
qed

lemma delete_wf_errl:
  assumes wf: "errl_wf s" and i: "i < 8" "used s i" and r: "deleteErrl (Some (ErrSlot i)) s = (h, p, s')"
  shows "errl_wf s'" "in_bounds s s'" "\<not> used s' i" "\<And>j. j < 8 \<Longrightarrow> j \<noteq> i \<Longrightarrow> used s' j = used s j"
    "h = ErrNull" "p = Some ErrNull" "free_ok (errl_slots s' i)"
    "\<And>j. j \<noteq> i \<Longrightarrow> errl_slots s' j = errl_slots s j"
proof -
  have ok: "slot_ok i (errl_slots s i)" by (rule wf_slotD [OF wf i])
  then have n: "120 \<le> unat (entry_sz (errl_slots s i))" "unat (entry_sz (errl_slots s i)) \<le> slot_capacity i"
    by (auto simp: slot_ok_def log_ok_def)
  have s': "s' = (upd_slot i (\<lambda>b. memset b 0 0 (unat (entry_sz b))) s)
      \<lparr>errSlotBits := errSlotBits s AND NOT (drop_bit i 0x80000000)\<rparr>" and hp: "h = ErrNull" "p = Some ErrNull"
    using r i by (simp_all add: deleteErrl_def ERRL_MAX_SLOTS_def)
  have u: "used s' j \<longleftrightarrow> used s j \<and> j \<noteq> i" if "j < 8" for j
    using that i(1) by (auto simp: used_def s' bit_and_iff bit_not_iff bit_prio_mask)
  show fr: "free_ok (errl_slots s' i)" using n by (simp add: free_ok_def s' memset_def)
  show oth: "\<And>j. j \<noteq> i \<Longrightarrow> errl_slots s' j = errl_slots s j" by (simp add: s')
  show "errl_wf s'"
  proof -
    have "tr_ok (errl_trace s')" using wf by (simp add: errl_wf_def s')
    moreover have "if used s' j then slot_ok j (errl_slots s' j) else free_ok (errl_slots s' j)" if "j < 8" for j
      using that u [OF that] fr oth [of j] wf by (cases "j = i") (auto simp: errl_wf_def)
    ultimately show ?thesis by (simp add: errl_wf_def)
  qed
  show "in_bounds s s'" using n i by (auto simp: in_bounds_def s')
  show "\<not> used s' i" "\<And>j. j < 8 \<Longrightarrow> j \<noteq> i \<Longrightarrow> used s' j = used s j" using u i by auto
  show "h = ErrNull" "p = Some ErrNull" by (rule hp)+
qed

text \<open>The checksum does not depend on the checksum field.\<close>

lemma checksum_cong:
  assumes "\<And>j. 2 \<le> j \<Longrightarrow> b' j = b j" shows "errl_checksum n b' = errl_checksum n b"
  unfolding errl_checksum_def by (rule fold_cong) (use assms in auto)

lemma commit_checkstop_wf:
  assumes "errl_wf s" "i < 8" "used s i"
  shows "errl_wf (commit_checkstop i s)" "in_bounds s (commit_checkstop i s)" "errSlotBits (commit_checkstop i s) = errSlotBits s"
proof -
  let ?f = "\<lambda>b. set8 11 0 (set8 5 0 (set8 6 0x40 b))"
  have "errl_wf (upd_slot i ?f s)" by (rule wf_entry_upd(1) [OF assms]) auto
  moreover have "in_bounds s (upd_slot i ?f s)" by (rule wf_entry_upd(2) [OF assms]) auto
  moreover have "commit_checkstop i s = (if oisr0_check_stop s
      then (upd_slot i ?f s)\<lparr>errl_events := errl_events s @ [Reset_requested],
        commits_suspended := True, fir_collection_required := True\<rparr> else s)"
    by (simp add: commit_checkstop_def Let_def sev_code_def ERRL_ACTIONS_SAFE_MODE_REQUIRED_def upd_slot_def)
  ultimately show "errl_wf (commit_checkstop i s)" "in_bounds s (commit_checkstop i s)"
      "errSlotBits (commit_checkstop i s) = errSlotBits s"
    using assms(1) in_bounds_refl by simp_all
qed

lemma commit_reset_wf:
  assumes "errl_wf s" "i < 8" "used s i"
  shows "errl_wf (commit_reset i s)" "in_bounds s (commit_reset i s)" "errSlotBits (commit_reset i s) = errSlotBits s"
proof -
  let ?s = "upd_slot i (set8 5 2) s"
  have n: "errl_slots s i 11 \<le> ERRL_MAX_CALLOUTS" using wf_slotD [OF assms] by (simp add: slot_ok_def)
  have w: "errl_wf ?s" by (rule wf_entry_upd(1) [OF assms]) (use n in auto)
  have b: "in_bounds s ?s" by (rule wf_entry_upd(2) [OF assms]) (use n in auto)
  have u: "used ?s i" using assms(3) by (simp add: used_def)
  note c = callout_wf [OF w assms(2) u]
  show "errl_wf (commit_reset i s)" "in_bounds s (commit_reset i s)" "errSlotBits (commit_reset i s) = errSlotBits s"
    using assms(1) w b c in_bounds_trans [OF b c(2)] in_bounds_refl
    by (simp_all add: commit_reset_def Let_def sev_code_def)
qed

text \<open>The last part of the commit as one update of the slot.\<close>

definition finish_log :: "bytes \<Rightarrow> bytes" where
  "finish_log b =
     (let b1 = (if b 11 < 6 then memset b (12 + 12 * unat (b 11)) 0 12 else b);
          b2 = set8 103 (b1 103 OR 0x80) (set8 11 6 b1)
      in set16 0 (ucast (errl_checksum (entry_sz b2) b2)) b2)"

lemma commit_finish_eq:
  "commit_finish i s = (upd_slot i finish_log s)
     \<lparr>errl_events := errl_events s @ [Dcache_flushed i (max_sz (finish_log (errl_slots s i)))]\<rparr>"
  by (auto simp: commit_finish_def Let_def finish_log_def upd_slot_def ERRL_MAX_CALLOUTS_def CALLOUT_SIZE_def set8_def)

lemma finish_log_frames:
  assumes "b 11 \<le> 6"
  shows "j \<in> {7, 8} \<union> {116..<120} \<union> {j. 2128 \<le> j} \<Longrightarrow> finish_log b j = b j"
    "finish_log b 11 = 6" "committed (finish_log b)" "120 \<le> j \<Longrightarrow> finish_log b j = b j"
    "get16 (finish_log b) 0 = ucast (errl_checksum (entry_sz (finish_log b)) (finish_log b))"
    "2 \<le> j \<Longrightarrow> j < 12 \<Longrightarrow> j \<noteq> 11 \<Longrightarrow> finish_log b j = b j" "entry_sz (finish_log b) = entry_sz b"
proof -
  have u: "b 11 < 6 \<Longrightarrow> unat (b 11) < 6" by (simp add: word_less_nat_alt)
  show 1: "j \<in> {7, 8} \<union> {116..<120} \<union> {j. 2128 \<le> j} \<Longrightarrow> finish_log b j = b j" for j
    using u by (auto simp: finish_log_def Let_def)
  show "120 \<le> j \<Longrightarrow> finish_log b j = b j" "2 \<le> j \<Longrightarrow> j < 12 \<Longrightarrow> j \<noteq> 11 \<Longrightarrow> finish_log b j = b j"
    using u by (auto simp: finish_log_def Let_def)
  show "finish_log b 11 = 6" by (simp add: finish_log_def Let_def)
  have "bit (x OR 0x80 :: u8) 7" for x by (simp add: bit_or_iff)
  then have "(x OR 0x80 :: u8) AND 0x80 \<noteq> 0" for x
    by (metis bit_and_iff bit_0_eq bot_apply bot_bool_def bit_or_iff)
  then show "committed (finish_log b)" by (simp add: committed_def finish_log_def Let_def)
  show e: "entry_sz (finish_log b) = entry_sz b" unfolding entry_sz_def by (rule get_apart(1)) (simp add: 1)
  define b2 where "b2 = set8 103 ((if b 11 < 6 then memset b (12 + 12 * unat (b 11)) 0 12 else b) 103 OR 0x80)
    (set8 11 6 (if b 11 < 6 then memset b (12 + 12 * unat (b 11)) 0 12 else b))"
  have f: "finish_log b = set16 0 (ucast (errl_checksum (entry_sz b2) b2)) b2"
    by (simp add: finish_log_def Let_def b2_def)
  have "errl_checksum n (finish_log b) = errl_checksum n b2" for n
    unfolding f by (rule checksum_cong) simp
  moreover have "entry_sz (finish_log b) = entry_sz b2" unfolding f by (simp add: entry_sz_def)
  ultimately show "get16 (finish_log b) 0 = ucast (errl_checksum (entry_sz (finish_log b)) (finish_log b))"
    by (simp add: f)
qed

lemma commit_wf:
  assumes wf: "errl_wf s" and i: "i < 8" "used s i" and act: "\<not> commits_suspended s"
    and r: "commitErrl (Some (ErrSlot i)) s = (h, s')"
  shows "errl_wf s'" "in_bounds s s'" "h = Some ErrNull" "errSlotBits s' = errSlotBits s"
    "committed (errl_slots s' i)"
    "get16 (errl_slots s' i) 0 = ucast (errl_checksum (entry_sz (errl_slots s' i)) (errl_slots s' i))"
    "\<And>j. j \<noteq> i \<Longrightarrow> errl_slots s' j = errl_slots s j"
proof -
  let ?s1 = "commit_checkstop i s" let ?s2 = "commit_reset i ?s1"
  have s': "s' = reportErrorLog (commit_finish i ?s2)" and h: "h = Some ErrNull"
    using r act by (simp_all add: commitErrl_def)
  note w1 = commit_checkstop_wf [OF wf i]
  have u1: "used ?s1 i" using w1(3) i by (simp add: used_def)
  note w2 = commit_reset_wf [OF w1(1) i(1) u1]
  have u2: "used ?s2 i" using w2(3) u1 by (simp add: used_def)
  have n: "errl_slots ?s2 i 11 \<le> 6" using wf_slotD [OF w2(1) i(1) u2] by (simp add: slot_ok_def ERRL_MAX_CALLOUTS_def)
  note F = finish_log_frames [where b = "errl_slots ?s2 i", OF n]
  have w3: "errl_wf (upd_slot i finish_log ?s2)" "in_bounds ?s2 (upd_slot i finish_log ?s2)"
    by (rule wf_entry_upd [OF w2(1) i(1) u2]; use F(2) in \<open>auto intro: F(1) simp: ERRL_MAX_CALLOUTS_def\<close>)+
  have rep: "errl_wf (reportErrorLog t) = errl_wf t" "in_bounds s (reportErrorLog t) = in_bounds s t"
    "errl_slots (reportErrorLog t) = errl_slots t" "errSlotBits (reportErrorLog t) = errSlotBits t" for t
    by (simp_all add: reportErrorLog_def)
  show "errl_wf s'" "in_bounds s s'" unfolding s' rep commit_finish_eq
    using w3 in_bounds_trans [OF in_bounds_trans [OF w1(2) w2(2)] w3(2)] by simp_all
  show "h = Some ErrNull" by (rule h)
  show "errSlotBits s' = errSlotBits s" unfolding s' rep commit_finish_eq using w1(3) w2(3) by simp
  show "committed (errl_slots s' i)" using F(3) by (simp add: s' rep commit_finish_eq)
  show "get16 (errl_slots s' i) 0 = ucast (errl_checksum (entry_sz (errl_slots s' i)) (errl_slots s' i))"
    using F(5) by (simp add: s' rep commit_finish_eq)
  show "\<And>j. j \<noteq> i \<Longrightarrow> errl_slots s' j = errl_slots s j"
    by (simp add: s' rep commit_finish_eq commit_reset_def commit_checkstop_def addCalloutToErrl_def Let_def)
qed

section \<open>The oldest log\<close>

lemma oldest_fold:
  assumes "\<And>i. i \<in> set is \<Longrightarrow> committed (errl_slots s i) \<Longrightarrow> get64 (errl_slots s i) U_timeStamp \<noteq> 0"
  shows "let (e, t) = fold (oldest_step s) is (0, 0) in
    (t = 0 \<longrightarrow> e = 0 \<and> (\<forall>i \<in> set is. \<not> committed (errl_slots s i))) \<and>
    (t \<noteq> 0 \<longrightarrow> (\<exists>i \<in> set is. committed (errl_slots s i) \<and> e = errl_slots s i E_entryId
        \<and> t = get64 (errl_slots s i) U_timeStamp)) \<and>
    (\<forall>i \<in> set is. committed (errl_slots s i) \<longrightarrow> t \<le> get64 (errl_slots s i) U_timeStamp)"
  using assms
proof (induction "is" rule: rev_induct)
  case Nil
  then show ?case by simp
next
  case (snoc x xs)
  obtain e t where f: "fold (oldest_step s) xs (0, 0) = (e, t)" by (cases "fold (oldest_step s) xs (0, 0)")
  have IH: "(t = 0 \<longrightarrow> e = 0 \<and> (\<forall>i \<in> set xs. \<not> committed (errl_slots s i))) \<and>
    (t \<noteq> 0 \<longrightarrow> (\<exists>i \<in> set xs. committed (errl_slots s i) \<and> e = errl_slots s i E_entryId
        \<and> t = get64 (errl_slots s i) U_timeStamp)) \<and>
    (\<forall>i \<in> set xs. committed (errl_slots s i) \<longrightarrow> t \<le> get64 (errl_slots s i) U_timeStamp)"
    using snoc.IH snoc.prems by (simp add: f)
  have x: "committed (errl_slots s x) \<Longrightarrow> get64 (errl_slots s x) U_timeStamp \<noteq> 0" using snoc.prems by simp
  show ?case
  proof (cases "committed (errl_slots s x) \<and> (t = 0 \<or> get64 (errl_slots s x) U_timeStamp \<le> t)")
    case True
    then have "oldest_step s x (e, t) = (errl_slots s x E_entryId, get64 (errl_slots s x) U_timeStamp)"
      by (simp add: oldest_step_def Let_def)
    moreover have "get64 (errl_slots s x) U_timeStamp \<le> get64 (errl_slots s i) U_timeStamp"
      if "i \<in> set xs" "committed (errl_slots s i)" for i
    proof (cases "t = 0")
      case False
      then show ?thesis using True IH that order_trans by blast
    qed (use IH that in auto)
    ultimately show ?thesis using True x by (simp add: f)
  next
    case False
    then have "oldest_step s x (e, t) = (e, t)"
      by (simp only: oldest_step_def Let_def snd_conv if_False)
    with False IH show ?thesis by (auto simp: f)
  qed
qed

section \<open>PGPE logs\<close>

lemma create_pgpe_errl_wf:
  assumes wf: "errl_wf s" and ws: "unat (wof_size s) \<le> 1900"
    and r: "createPgpeErrl m rc x v u1 u2 s = Inr (h, s')"
  shows "errl_wf s'" "in_bounds s s'"
proof -
  obtain slot eid tm mx s1 where a: "getErrSlotNumAndErrId ERRL_SEV_PGPE_ERROR s = ((slot, eid, tm, mx), s1)"
    by (cases "getErrSlotNumAndErrId ERRL_SEV_PGPE_ERROR s") auto
  from a have "errl_wf s' \<and> in_bounds s s'"
  proof (cases rule: alloc_cases)
    case full
    then show ?thesis using r wf in_bounds_refl by (simp add: createPgpeErrl_def a Let_def)
  next
    case (ok i)
    have s1: "s1 = snd (take_slot i mx s)" using ok(6) by (metis snd_conv)
    have ne: "slot \<noteq> ERRL_INVALID_SLOT" using ok(2,5) by (auto simp: ERRL_INVALID_SLOT_def)
    have mx: "2128 \<le> unat mx" using a ne by (auto simp: getErrSlotNumAndErrId_def sev_slots_def take_slot_def Let_def
          MAX_ERRL_ENTRY_SZ_def MAX_ERRL_PGPE_ENTRY_SZ_def split: if_splits)
    let ?s2 = "upd_slot i (start_entry mx) s1"
    note w2 = start_wf [OF wf ok(2,3,7,8), folded s1]
    let ?b = "errl_slots ?s2 i"
    let ?s3 = "addErrHistory (ErrSlot i) ?s2"
    note w3 = history_wf [OF w2(1) ok(2) w2(3)]
    have u3: "used ?s3 i" using w2(3) used_bits [OF w3(3)] by simp
    have lo: "log_ok (slot_capacity i) ?b" using wf_slotD [OF w2(1) ok(2) w2(3)] by (simp add: slot_ok_def)
    obtain b3 where h3: "?s3 = upd_slot i (\<lambda>_. b3) ?s2" "added 52 ?b b3"
      by (rule history_effect [OF lo capacity(1) refl w2(6)]) (use w2(4,5) mx in auto)
    have m3: "max_sz b3 = mx" using added_max [OF lo h3(2)] w2(5) by simp
    have e3: "unat (entry_sz b3) = 172" using h3(2) w2(4) by (simp add: added_def)
    have c3: "\<not> committed b3" using h3(2) w2(6) lo by (auto simp: committed_def added_def log_ok_def)
    have wsz: "wof_size ?s3 = wof_size s" unfolding h3(1) by (simp add: s1 take_slot_def Let_def upd_slot_def)
    define s4 where "s4 = (if rc = WOF_DISABLED_RC \<and> occ_interrupt_type ?s3 = FSP_SUPPORTED_OCC
                      then addUsrDtlsToErrl (ErrSlot i) (Some (wof_data ?s3)) (wof_size ?s3) 1 5 ?s3 else ?s3)"
    have w4: "errl_wf s4" "in_bounds ?s3 s4" "used s4 i"
      using usr_dtls_wf [OF w3(1) ok(2) u3, of "Some (wof_data ?s3)" "wof_size ?s3" 1 5] u3 w3(1) in_bounds_refl
        usr_dtls_bits mx e3 m3 by (auto simp: s4_def used_def h3(1))
    have room: "unat (entry_sz (errl_slots s4 i)) + 4 \<le> unat (max_sz (errl_slots s4 i))"
    proof (cases "wof_size ?s3 = 0 \<or> s4 = ?s3")
      case True
      then have "s4 = ?s3" by (auto simp: s4_def addUsrDtlsToErrl_def Let_def)
      then have "errl_slots s4 i = b3" by (simp add: h3(1))
      then show ?thesis using e3 m3 mx by simp
    next
      case False
      then have s4: "s4 = addUsrDtlsToErrl (ErrSlot i) (Some (wof_data ?s3)) (wof_size ?s3) 1 5 ?s3"
        by (auto simp: s4_def split: if_splits)
      have lo3: "log_ok (slot_capacity i) b3" using wf_slotD [OF w3(1) ok(2) u3] by (simp add: slot_ok_def h3(1))
      obtain b4 where "s4 = upd_slot i (\<lambda>_. b4) ?s3"
        "added (4 + min (unat (wof_size ?s3)) (unat (max_sz b3) - (unat (entry_sz b3) + 4))) b3 b4"
        unfolding s4
        by (rule usr_dtls_effect [OF lo3 capacity(1) _ _ c3 _ _ refl, of "?s3" i "wof_size ?s3" "wof_data ?s3" 1 5])
          (use e3 m3 mx False in \<open>auto simp: h3(1) word_less_nat_alt\<close>)
      then show ?thesis using added_max [OF lo3, of _ b4] e3 m3 mx ws wsz by (auto simp: added_def)
    qed
    define s5 where "s5 = addPgpeDataToErrl (ErrSlot i) s4"
    have w5: "errl_wf s5 \<and> in_bounds s4 s5 \<and> used s5 i"
    proof -
      let ?d = "\<lambda>n. addUsrDtlsToErrl (ErrSlot i) (Some (\<lambda>k. oci_mem s4 ((pgpe_trace_addr s4 AND 0xF7FFFFFF) + of_nat k))) n 1 6 s4"
      have ud: "used (?d n) i" for n using w4(3) by (simp add: used_def usr_dtls_bits)
      note wd = usr_dtls_wf [OF w4(1) ok(2) w4(3) room]
      have "errl_wf (setErrlActions (ErrSlot i) q (?d n)) \<and> in_bounds s4 (setErrlActions (ErrSlot i) q (?d n))
          \<and> used (setErrlActions (ErrSlot i) q (?d n)) i" for n q
        using actions_wf [OF wd(1) ok(2) ud] in_bounds_trans [OF wd(2) actions_wf(2) [OF wd(1) ok(2) ud]] ud
        by (simp add: used_def)
      then show ?thesis using w4 in_bounds_refl by (simp add: s5_def addPgpeDataToErrl_def Let_def)
    qed
    from r obtain s6 where t: "addTraceToErrl TrNull DEFAULT_TRACE_SIZE (ErrSlot i) s5 = Inr s6"
      and e: "s' = upd_slot i (fill_entry m rc x (sev_code v) u1 u2 eid tm s6) s6"
      using ne ok(5) by (auto simp: createPgpeErrl_def a Let_def kbind_Inr s5_def s4_def)
    note w6 = add_trace_wf [OF _ ok(2) _ t]
    have "errl_wf s6" "in_bounds s5 s6" "used s6 i" using w6 w5 by (auto simp: used_def)
    then show ?thesis unfolding e
      using finish_wf [OF _ ok(2)] in_bounds_trans [OF in_bounds_trans [OF in_bounds_trans [OF in_bounds_trans [OF w2(2) w3(2)] w4(2)]]] w5
        in_bounds_trans by meson
  qed
  then show "errl_wf s'" "in_bounds s s'" by blast+
qed

end
