(* ===== verification/Errl_Properties.thy ===== *)
theory Errl_Properties imports Errl_Props begin

text \<open>
  The error-log store as a transition system and the properties of its operations. A step is one
  call of an operation of errl.c on a handle the caller owns; every state reached from a
  well-formed store is well formed and no step writes outside the slot arrays.
\<close>

section \<open>The store as a transition system\<close>







section \<open>An empty store\<close>

definition zero_trace :: trace where
  "zero_trace = \<lparr>tr_buf = (\<lambda>d. trac_init_values_buffer (td_comp d) (\<lambda>_. 0)), tr_sem = (\<lambda>_. 1), circ_full = False,
     circ_head = 0, circ_tail = 0, circ_count = 0, circ_buf = (\<lambda>_. \<lparr>ce_len = 0, ce_comp = [], ce_entry = (\<lambda>_. 0)\<rparr>),
     tr_thread = True, tr_crit = 0, tr_time = 0, tr_hz = 37500000\<rparr>"

definition empty_store :: errl where
  "empty_store = \<lparr>errl_slots = (\<lambda>_ _. 0), errSlotBits = 0, errIdCounter = 0, error_history = (\<lambda>_. 0),
     errl_trace = zero_trace, commits_suspended = False, fir_collection_required = False, errl_events = [],
     oisr0_check_stop = False, occ_interrupt_type = 0, errl_time = 5, errl_fclip = 0, errl_occ_id = 0,
     errl_occ_role = 0, errl_occ_state = 3, slot_addr = (\<lambda>_. 0), pgpe_trace_addr = 0, pgpe_trace_len = 0,
     oci_mem = (\<lambda>_. 0), wof_data = (\<lambda>_. 0), wof_size = 200\<rparr>"

lemma empty_store_wf: "errl_wf empty_store"
proof -
  have "tr_ok zero_trace" using ring_init by (simp add: tr_ok_def zero_trace_def ring_ok_def)
  then show ?thesis by (simp add: errl_wf_def empty_store_def used_def free_ok_def)
qed

text \<open>Without traces a log can always be created; with a free slot the handle is that of a slot.\<close>

lemma create_plain: "\<exists>h s'. createErrl m rc x v TrNull 0 u1 u2 s = Inr (h, s')"
proof -
  have "addTraceToErrl TrNull 0 h s = Inr s" for h s
    by (simp add: addTraceToErrl_def split: errl_hndl.split)
  then show ?thesis by (auto simp: createErrl_def Let_def split: prod.split)
qed

text \<open>With the trace mutexes free, the traces can be copied too, and are released again.\<close>

lemma partial_free:
  assumes "tr_sem tr = (\<lambda>_. 1)"
  obtains b' n tr' where "trac_partial d b a sz tr = Inr ((b', n), tr')" "tr_sem tr' = (\<lambda>_. 1)"
proof -
  have "\<exists>b' n tr'. trac_partial d b a sz tr = Inr ((b', n), tr') \<and> tr_sem tr' = (\<lambda>_. 1)"
  proof (cases d)
    case (Some t)
    obtain dat n where "partial_copy (tr_buf tr t) b a sz = (dat, n)" by (cases "partial_copy (tr_buf tr t) b a sz")
    with Some assms show ?thesis
      by (cases "tr_thread tr") (simp_all add: trac_partial_def TRAC_get_buffer_partial_def trac_pend_def trac_post_def
        crit_enter_def crit_exit_def, auto)
  qed (use assms in \<open>simp add: trac_partial_def\<close>)
  then show thesis using that by blast
qed

definition runs :: "'e + 'a \<Rightarrow> bool" where
  "runs m \<longleftrightarrow> (\<exists>r. m = Inr r)"

lemma runs_Inr [simp]: "runs (Inr x)" by (simp add: runs_def)

lemma runs_partial:
  assumes t: "tr_sem tr = (\<lambda>_. 1)" and k: "\<And>b' n tr'. tr_sem tr' = (\<lambda>_. 1) \<Longrightarrow> runs (f ((b', n), tr'))"
  shows "runs (kbind (trac_partial d b a sz tr) f)"
proof -
  obtain b' n tr' where e: "trac_partial d b a sz tr = Inr ((b', n), tr')" and t': "tr_sem tr' = (\<lambda>_. 1)"
    by (rule partial_free [OF t])
  show ?thesis unfolding e using k [OF t'] by simp
qed

lemma all_traces_free: "tr_sem tr = (\<lambda>_. 1) \<Longrightarrow> runs (all_traces b a sz tr)"
  unfolding all_traces_def Let_def by (auto intro!: runs_partial)

lemma alloc_trace [simp]: "errl_trace (snd (getErrSlotNumAndErrId v s)) = errl_trace s"
  by (simp add: getErrSlotNumAndErrId_def Let_def split: prod.split)

lemma history_trace [simp]: "errl_trace (addErrHistory h s) = errl_trace s"
  by (simp add: addErrHistory_def Let_def split: errl_hndl.split)

lemma create_with_traces:
  assumes "tr_sem (errl_trace s) = (\<lambda>_. 1)"
  shows "\<exists>h s'. createErrl m rc x v TrNull n u1 u2 s = Inr (h, s')"
proof -
  have add: "\<exists>s'. addTraceToErrl TrNull n h s1 = Inr s'" if "tr_sem (errl_trace s1) = (\<lambda>_. 1)" for h s1
  proof -
    have "all_traces b a sz (errl_trace s1) \<noteq> Inl e" for b a sz e
      using all_traces_free [OF that, of b a sz] by (auto simp: runs_def)
    then show ?thesis by (cases h) (auto simp: addTraceToErrl_def Let_def kbind_def split: sum.split prod.split)
  qed
  obtain slot eid time cap s1 where g: "getErrSlotNumAndErrId v s = ((slot, eid, time, cap), s1)"
    by (cases "getErrSlotNumAndErrId v s") auto
  have "errl_trace s1 = errl_trace s" using alloc_trace [of v s] g by simp
  then have "tr_sem (errl_trace (addErrHistory h (upd_slot i f s1))) = (\<lambda>_. 1)" for h i f
    using assms by simp
  then have "addTraceToErrl TrNull n h (addErrHistory h' (upd_slot i f s1)) \<noteq> Inl e" for h h' i f e
    using add by (metis sum.distinct(1))
  then show ?thesis unfolding createErrl_def g by (auto simp: Let_def kbind_def split: sum.split)
qed

section \<open>Only the log itself changes\<close>

text \<open>Every operation on slot \<open>i\<close> leaves the bytes of the other logs alone.\<close>

lemma one_slot:
  "j \<noteq> i \<Longrightarrow> errl_slots (addErrHistory (ErrSlot i) s) j = errl_slots s j"
  "j \<noteq> i \<Longrightarrow> errl_slots (addCalloutToErrl (ErrSlot i) ty val p s) j = errl_slots s j"
  "addTraceToErrl t n (ErrSlot i) s = Inr s' \<Longrightarrow> j \<noteq> i \<Longrightarrow> errl_slots s' j = errl_slots s j"
  by (auto simp: addErrHistory_def addCalloutToErrl_def addTraceToErrl_def Let_def kbind_Inr split: if_splits)

lemma create_others:
  assumes a: "getErrSlotNumAndErrId v s = ((slot, eid, tm, mx), s1)" and s1: "errl_slots s1 = errl_slots s"
    and r: "createErrl m rc x v t n u1 u2 s = Inr (ErrSlot i, s')" and j: "j \<noteq> i"
  shows "errl_slots s' j = errl_slots s j"
proof -
  from r have i: "i = unat slot" and ne: "slot \<noteq> ERRL_INVALID_SLOT"
    by (auto simp: createErrl_def a Let_def kbind_Inr split: if_splits)
  from r obtain s4 sv where t: "addTraceToErrl t n (ErrSlot i) (addErrHistory (ErrSlot i) (upd_slot i (start_entry mx) s1)) = Inr s4"
    and e: "s' = upd_slot i (fill_entry m rc x sv u1 u2 eid tm s4) s4"
    using ne by (auto simp: createErrl_def a Let_def kbind_Inr i)
  show ?thesis using one_slot(3) [OF t j] one_slot(1) [OF j] j by (simp add: e s1)
qed

lemma alloc_slots: "errl_slots (snd (getErrSlotNumAndErrId v s)) = errl_slots s"
  by (simp add: getErrSlotNumAndErrId_def Let_def split: prod.split)

lemma create_fields_errl:
  assumes wf: "errl_wf s" and r: "createErrl m rc x v t n u1 u2 s = Inr (h, s')"
  shows "case h of ErrSlot i \<Rightarrow> i \<in> sev_range v \<and> i < 8 \<and> \<not> used s i \<and> used s' i \<and> errl_slots s' i E_entryId \<noteq> 0
        \<and> errl_slots s' i E_reasonCode = rc \<and> (\<forall>j. j \<noteq> i \<longrightarrow> errl_slots s' j = errl_slots s j)
      | ErrInvalid \<Rightarrow> s' = s \<and> (\<forall>i \<in> sev_range v. used s i) | ErrNull \<Rightarrow> False"
  using wf r
proof (cases rule: create_errl_wf)
  case (created i)
  obtain slot eid tm mx s1 where a: "getErrSlotNumAndErrId v s = ((slot, eid, tm, mx), s1)"
    by (cases "getErrSlotNumAndErrId v s") auto
  have "errl_slots s1 = errl_slots s" using alloc_slots [of v s] by (simp add: a)
  from create_others [OF a this] r created show ?thesis by simp
qed simp

section \<open>A section that does not fit\<close>


text \<open>A store with one log in the slot for informational logs.\<close>

definition one_log :: errl where
  "one_log = upd_slot 6 (start_entry 0x850) (empty_store\<lparr>errSlotBits := 0x02000000\<rparr>)"

lemma one_log_wf: "errl_wf one_log" "used one_log 6"
proof -
  have b: "bit (0x02000000 :: u32) n \<longleftrightarrow> n = 25" for n
  proof -
    have "(0x02000000 :: u32) = 2 ^ 25" by simp
    then show ?thesis by (auto simp only: bit_exp_iff) auto
  qed
  have u: "used one_log i \<longleftrightarrow> i = 6" if "i < 8" for i
  proof -
    have "errSlotBits one_log = 0x02000000" by (simp add: one_log_def)
    then show ?thesis using that by (simp only: used_def b) auto
  qed
  show "used one_log 6" by (simp add: u)
  have "slot_ok 6 (errl_slots one_log 6)"
    by (simp add: slot_ok_def log_ok_def one_log_def start_entry_def entry_sz_def max_sz_def slot_capacity_def
      ERRL_ENTRY_SIZE_def empty_store_def get16_zero)
  then show "errl_wf one_log"
    using empty_store_wf u by (auto simp: errl_wf_def one_log_def used_def empty_store_def)
qed



section \<open>Properties\<close>



text \<open>
  C29: Creating a log takes a free slot among those its severity may use, gives it a non-zero
  identifier and the reason code, and changes no other log; the invalid handle is returned, with
  the store unchanged, exactly when every such slot is in use.
\<close>

theorem create_takes_a_free_slot:
  assumes "errl_wf s" "createErrl m rc x v t n u1 u2 s = Inr (h, s')"
  shows "if \<forall>i \<in> sev_range v. used s i then h = ErrInvalid \<and> s' = s
    else \<exists>i \<in> sev_range v. h = ErrSlot i \<and> \<not> used s i \<and> used s' i \<and> errl_slots s' i E_entryId \<noteq> 0
      \<and> errl_slots s' i E_reasonCode = rc \<and> (\<forall>j. j \<noteq> i \<longrightarrow> errl_slots s' j = errl_slots s j)"
  using create_fields_errl [OF assms] by (cases h) auto

theorem create_takes_a_free_slot_witness:
  "\<exists>h s'. createErrl 0x600 0xB3 0 ERRL_SEV_INFORMATIONAL TrNull 0 1 2 empty_store = Inr (h, s') \<and>
     h = ErrSlot 6 \<and> used s' 6"
proof -
  obtain h s' where c: "createErrl 0x600 0xB3 0 ERRL_SEV_INFORMATIONAL TrNull 0 1 2 empty_store = Inr (h, s')"
    using create_plain by blast
  have "\<not> used empty_store 6" by (simp add: used_def empty_store_def)
  with create_takes_a_free_slot [OF empty_store_wf c] c show ?thesis by (auto simp: sev_range_def)
qed



text \<open>
  The log whose identifier is reported as the oldest is a committed one with the smallest
  time stamp; the identifier is 0 exactly when no log is committed (committed logs having a
  non-zero time stamp and identifier).
\<close>

theorem oldest_log:
  assumes "\<forall>i < 8. committed (errl_slots s i) \<longrightarrow>
      get64 (errl_slots s i) U_timeStamp \<noteq> 0 \<and> errl_slots s i E_entryId \<noteq> 0"
  shows "if \<exists>i < 8. committed (errl_slots s i)
    then \<exists>i < 8. committed (errl_slots s i) \<and> getOldestErrlID s = errl_slots s i E_entryId \<and>
      (\<forall>j < 8. committed (errl_slots s j) \<longrightarrow> get64 (errl_slots s i) U_timeStamp \<le> get64 (errl_slots s j) U_timeStamp)
    else getOldestErrlID s = 0"
proof -
  obtain e t where f: "fold (oldest_step s) [0..<ERRL_MAX_SLOTS] (0, 0) = (e, t)" by fastforce
  have "\<And>i. i \<in> set [0..<8] \<Longrightarrow> committed (errl_slots s i) \<Longrightarrow> get64 (errl_slots s i) U_timeStamp \<noteq> 0"
    using assms by simp
  note o = oldest_fold [OF this, of "[0..<8]"]
  have e: "getOldestErrlID s = e" by (simp add: getOldestErrlID_def f)
  from o f show ?thesis unfolding e by (auto simp: ERRL_MAX_SLOTS_def Let_def split: prod.splits)
qed

theorem oldest_log_witness: "getOldestErrlID one_log = 0"
proof -
  have "\<not> committed (errl_slots one_log i)" for i
    by (simp add: one_log_def empty_store_def committed_def start_entry_def)
  with oldest_log [of one_log] show ?thesis by simp
qed

text \<open>
  Adding user details to an uncommitted log with room for the section's header appends one
  section: its type, version and size, then the data, cut to the room left; the log's sizes grow
  by exactly that and none of its earlier bytes change, nor any beyond its maximum size.
\<close>

theorem user_details_appended:
  assumes ok: "log_ok cap b" "cap < 65536" and b: "errl_slots s i = b" "\<not> committed b"
    and n: "n \<noteq> 0" "unat (entry_sz b) + 4 \<le> unat (max_sz b)"
    and k: "k = min (unat n) (unat (max_sz b) - (unat (entry_sz b) + 4))"
    and b': "b' = errl_slots (addUsrDtlsToErrl (ErrSlot i) (Some d) n ver ty s) i"
  shows "added (4 + k) b b' \<and> b' (unat (entry_sz b)) = ver \<and> b' (unat (entry_sz b) + 1) = ty \<and>
    unat (get16 b' (unat (entry_sz b) + 2)) = k \<and> (\<forall>j < k. b' (unat (entry_sz b) + 4 + j) = d j)"
proof -
  have "entry_sz b < max_sz b" using n(2) by (simp add: word_less_nat_alt)
  from usr_dtls_effect [OF ok n(2) b n(1) this k] obtain b1 where
    "addUsrDtlsToErrl (ErrSlot i) (Some d) n ver ty s = upd_slot i (\<lambda>_. b1) s" "added (4 + k) b b1"
    "b1 (unat (entry_sz b)) = ver" "b1 (unat (entry_sz b) + 1) = ty"
    "unat (get16 b1 (unat (entry_sz b) + 2)) = k" "\<forall>j < k. b1 (unat (entry_sz b) + 4 + j) = d j" by blast
  then show ?thesis by (simp add: b')
qed

theorem user_details_appended_witness:
  "errl_slots (addUsrDtlsToErrl (ErrSlot 6) (Some (\<lambda>_. 7)) 3 1 2 one_log) 6 126 = 7"
proof -
  let ?b = "errl_slots one_log 6"
  have sz: "entry_sz ?b = 120" "max_sz ?b = 2128"
    by (simp_all add: one_log_def start_entry_def entry_sz_def max_sz_def ERRL_ENTRY_SIZE_def)
  have "log_ok 2128 ?b" using wf_slotD [OF one_log_wf(1) _ one_log_wf(2)] by (simp add: slot_ok_def slot_capacity_def)
  moreover have "\<not> committed ?b" by (simp add: one_log_def empty_store_def committed_def start_entry_def)
  ultimately have "\<forall>j < 3. errl_slots (addUsrDtlsToErrl (ErrSlot 6) (Some (\<lambda>_. 7)) 3 1 2 one_log) 6 (124 + j) = 7"
    using user_details_appended [of 2128 ?b one_log 6 3 3 _ "\<lambda>_. 7" 1 2] by (simp add: sz)
  from this [rule_format, of 2] show ?thesis by simp
qed

end
