(* ===== verification/Sensor.thy ===== *)
theory Sensor imports Errl_Props begin

text \<open>
  The sensor infrastructure (src/occ_405/sensor/sensor.c, sensor.h and the query of
  sensor_query_list.c): sensors with their minimum/maximum pairs, accumulator and mini-sensor,
  and the vector sensors that combine the samples of other sensors. Sensors, vector control
  blocks and mini-sensor cells live in one store each, addressed by pointers (0 is null).
\<close>

section \<open>Data\<close>

datatype VECTOR_SENSOR_OP = VECTOR_OP_NONE | VECTOR_OP_MAX | VECTOR_OP_MIN | VECTOR_OP_AVG

record vectorSensor =
  operation :: VECTOR_SENSOR_OP
  v_size :: u8
  elem_enabled :: "nat \<Rightarrow> u8"
  source_ptr :: "nat \<Rightarrow> ptr"
  min_pos :: u8
  max_pos :: u8

record sensor =
  gsid :: u16
  timestamp :: u64
  sample :: u16
  sample_min :: u16
  sample_max :: u16
  csm_sample_min :: u16
  csm_sample_max :: u16
  profiler_sample_min :: u16
  profiler_sample_max :: u16
  job_s_sample_min :: u16
  job_s_sample_max :: u16
  accumulator :: u64
  src_accum_snapshot :: u32
  update_tag :: u32
  ipmi_sid :: u32
  vector :: ptr
  mini_sensor :: ptr
  status_reset :: bool

record sensor_info =
  info_name :: string
  info_type :: u16
  info_location :: u16

text \<open>
  The tables G_amec_sensor_list, G_amec_mini_sensor_list and G_sensor_info are indexed by the
  global sensor id; \<open>sn_n\<close> is NUMBER_OF_SENSORS_IN_LIST and \<open>sn_mainmem\<close> lists
  (gsid, smf_mode) of G_main_mem_sensors.
\<close>

record sens =
  sn_sensors :: "ptr \<Rightarrow> sensor"
  sn_vectors :: "ptr \<Rightarrow> vectorSensor"
  sn_minis :: "ptr \<Rightarrow> u16"
  G_amec_sensor_count :: u32
  G_amec_sensor_list :: "nat \<Rightarrow> ptr"
  G_amec_mini_sensor_list :: "nat \<Rightarrow> ptr"
  G_sensor_info :: "nat \<Rightarrow> sensor_info"
  sn_n :: nat
  G_tod :: u64
  G_smf_mode :: bool
  sn_mainmem :: "(nat \<times> u8) list"
  sn_errl :: errl

definition MAX_AMEC_SENSORS :: u32 where "MAX_AMEC_SENSORS = 710"
definition MAX_VECTOR_SENSORS :: u8 where "MAX_VECTOR_SENSORS = 32"
definition VECTOR_SENSOR_DEFAULT_VAL :: u8 where "VECTOR_SENSOR_DEFAULT_VAL = 0xFF"
abbreviation UINT16_MAX :: u16 where "UINT16_MAX \<equiv> 0xFFFF"

definition upd_sensor :: "ptr \<Rightarrow> (sensor \<Rightarrow> sensor) \<Rightarrow> sens \<Rightarrow> sens" where
  "upd_sensor p f s = s\<lparr>sn_sensors := (sn_sensors s)(p := f (sn_sensors s p))\<rparr>"

definition upd_vector :: "ptr \<Rightarrow> (vectorSensor \<Rightarrow> vectorSensor) \<Rightarrow> sens \<Rightarrow> sens" where
  "upd_vector p f s = s\<lparr>sn_vectors := (sn_vectors s)(p := f (sn_vectors s p))\<rparr>"

definition put_mini :: "ptr \<Rightarrow> u16 \<Rightarrow> sens \<Rightarrow> sens" where
  "put_mini p v s = (if p \<noteq> 0 then s\<lparr>sn_minis := (sn_minis s)(p := v)\<rparr> else s)"

definition zero_sensor :: sensor where
  "zero_sensor = \<lparr>gsid = 0, timestamp = 0, sample = 0, sample_min = 0, sample_max = 0,
     csm_sample_min = 0, csm_sample_max = 0, profiler_sample_min = 0, profiler_sample_max = 0,
     job_s_sample_min = 0, job_s_sample_max = 0, accumulator = 0, src_accum_snapshot = 0,
     update_tag = 0, ipmi_sid = 0, vector = 0, mini_sensor = 0, status_reset = False\<rparr>"

definition zero_vector :: vectorSensor where
  "zero_vector = \<lparr>operation = VECTOR_OP_NONE, v_size = 0, elem_enabled = (\<lambda>_. 0), source_ptr = (\<lambda>_. 0),
     min_pos = 0, max_pos = 0\<rparr>"

section \<open>Operations on one sensor\<close>

definition sensor_init :: "ptr \<Rightarrow> u16 \<Rightarrow> ptr \<Rightarrow> sens \<Rightarrow> sens" where
  "sensor_init p i_gsid mini s =
     (if p \<noteq> 0 \<and> G_amec_sensor_count s < MAX_AMEC_SENSORS then
        (upd_sensor p (\<lambda>_. zero_sensor\<lparr>gsid := i_gsid, status_reset := True, mini_sensor := mini\<rparr>) s)
          \<lparr>G_amec_sensor_count := G_amec_sensor_count s + 1\<rparr>
      else s)"

definition clear_fields :: "u8 \<Rightarrow> sensor \<Rightarrow> sensor" where
  "clear_fields ty x =
     (let x1 = (if ty AND 0x01 \<noteq> 0 then x\<lparr>sample_min := UINT16_MAX, sample_max := 0\<rparr> else x);
          x2 = (if ty AND 0x10 \<noteq> 0 then x1\<lparr>csm_sample_min := UINT16_MAX, csm_sample_max := 0\<rparr> else x1);
          x3 = (if ty AND 0x20 \<noteq> 0 then x2\<lparr>profiler_sample_min := UINT16_MAX, profiler_sample_max := 0\<rparr> else x2)
      in if ty AND 0x40 \<noteq> 0 then x3\<lparr>job_s_sample_min := UINT16_MAX, job_s_sample_max := 0\<rparr> else x3)"

definition sensor_clear_minmax :: "ptr \<Rightarrow> u8 \<Rightarrow> sens \<Rightarrow> sens" where
  "sensor_clear_minmax p ty s =
     (if p \<noteq> 0 then
        (let s1 = upd_sensor p (clear_fields ty) s;
             v = vector (sn_sensors s p)
         in if ty AND 0x01 \<noteq> 0 \<and> v \<noteq> 0
            then upd_vector v (\<lambda>x. x\<lparr>max_pos := VECTOR_SENSOR_DEFAULT_VAL, min_pos := VECTOR_SENSOR_DEFAULT_VAL\<rparr>) s1
            else s1)
      else s)"

definition sensor_reset :: "ptr \<Rightarrow> sens \<Rightarrow> sens" where
  "sensor_reset p s =
     (if p \<noteq> 0 then
        (let s1 = upd_sensor p (\<lambda>x. x\<lparr>timestamp := 0, accumulator := 0, sample := 0\<rparr>) s;
             s2 = put_mini (mini_sensor (sn_sensors s1 p)) 0 s1;
             s3 = sensor_clear_minmax p 0xFF s2
         in upd_sensor p (\<lambda>x. x\<lparr>status_reset := False\<rparr>) s3)
      else s)"

definition sensor_vectorize :: "ptr \<Rightarrow> ptr \<Rightarrow> VECTOR_SENSOR_OP \<Rightarrow> sens \<Rightarrow> sens" where
  "sensor_vectorize p v opr s =
     (if v \<noteq> 0 \<and> p \<noteq> 0 then
        upd_vector v (\<lambda>_. zero_vector\<lparr>operation := opr\<rparr>) (upd_sensor p (\<lambda>x. x\<lparr>vector := v\<rparr>) s)
      else s)"

definition sensor_update_minmax :: "u16 \<Rightarrow> sensor \<Rightarrow> sensor" where
  "sensor_update_minmax v x =
     (let x1 = (if v < sample_min x then x\<lparr>sample_min := v\<rparr> else x);
          x2 = (if v > sample_max x1 then x1\<lparr>sample_max := v\<rparr> else x1);
          x3 = (if v < csm_sample_min x2 then x2\<lparr>csm_sample_min := v\<rparr> else x2);
          x4 = (if v > csm_sample_max x3 then x3\<lparr>csm_sample_max := v\<rparr> else x3);
          x5 = (if v < profiler_sample_min x4 then x4\<lparr>profiler_sample_min := v\<rparr> else x4);
          x6 = (if v > profiler_sample_max x5 then x5\<lparr>profiler_sample_max := v\<rparr> else x5);
          x7 = (if v < job_s_sample_min x6 then x6\<lparr>job_s_sample_min := v\<rparr> else x6)
      in if v > job_s_sample_max x7 then x7\<lparr>job_s_sample_max := v\<rparr> else x7)"

definition sensor_update :: "ptr \<Rightarrow> u16 \<Rightarrow> sens \<Rightarrow> sens" where
  "sensor_update p v s =
     (if p \<noteq> 0 then
        (let s1 = (if status_reset (sn_sensors s p) then sensor_reset p s else s);
             s2 = upd_sensor p (\<lambda>x. sensor_update_minmax v (x\<lparr>timestamp := G_tod s1, sample := v\<rparr>)) s1;
             s3 = put_mini (mini_sensor (sn_sensors s2 p)) v s2
         in upd_sensor p (\<lambda>x. x\<lparr>accumulator := accumulator x + ucast v, update_tag := update_tag x + 1\<rparr>) s3)
      else s)"

definition getSensorByGsid :: "u16 \<Rightarrow> sens \<Rightarrow> ptr" where
  "getSensorByGsid g s =
     (if ucast g < G_amec_sensor_count s then G_amec_sensor_list s (unat g) else 0)"

section \<open>Vector sensors\<close>

abbreviation src_sample :: "sens \<Rightarrow> vectorSensor \<Rightarrow> nat \<Rightarrow> u16" where
  "src_sample s v i \<equiv> sample (sn_sensors s (source_ptr v i))"

definition sensor_op_min :: "vectorSensor \<Rightarrow> u8 \<Rightarrow> sens \<Rightarrow> u16 \<times> u8" where
  "sensor_op_min v pos s =
     fold (\<lambda>i (x, p). if elem_enabled v i = 1 \<and> src_sample s v i < x then (src_sample s v i, of_nat i) else (x, p))
       [0..<unat (v_size v)] (UINT16_MAX, pos)"

definition sensor_op_max :: "vectorSensor \<Rightarrow> u8 \<Rightarrow> sens \<Rightarrow> u16 \<times> u8" where
  "sensor_op_max v pos s =
     fold (\<lambda>i (x, p). if elem_enabled v i = 1 \<and> src_sample s v i > x then (src_sample s v i, of_nat i) else (x, p))
       [0..<unat (v_size v)] (0, pos)"

definition sensor_op_avg :: "vectorSensor \<Rightarrow> u16 \<Rightarrow> sens \<Rightarrow> u16" where
  "sensor_op_avg v threshold s =
     (let (sum, number) = fold (\<lambda>i (sum :: u32, number :: u16).
            if elem_enabled v i = 1 \<and> src_sample s v i > threshold
            then (sum + ucast (src_sample s v i), number + 1) else (sum, number))
          [0..<unat (v_size v)] (0, 0)
      in ucast (if number \<noteq> 0 then sum div ucast number else sum))"

definition sensor_vector_update :: "ptr \<Rightarrow> u32 \<Rightarrow> sens \<Rightarrow> sens" where
  "sensor_vector_update p threshold s =
     (if p \<noteq> 0 then
        (let s1 = (if status_reset (sn_sensors s p) then sensor_reset p s else s);
             vp = vector (sn_sensors s1 p);
             v = sn_vectors s1 vp
         in if vp \<noteq> 0 then
              (case operation v of
                 VECTOR_OP_MIN \<Rightarrow>
                   (let (x, pos) = sensor_op_min v 0 s1;
                        s2 = upd_vector vp (\<lambda>v. v\<lparr>min_pos := pos\<rparr>) s1
                    in if x \<noteq> UINT16_MAX then sensor_update p x s2 else s2)
               | VECTOR_OP_MAX \<Rightarrow>
                   (let (x, pos) = sensor_op_max v 0 s1;
                        s2 = upd_vector vp (\<lambda>v. v\<lparr>max_pos := pos\<rparr>) s1
                    in if x \<noteq> 0 then sensor_update p x s2 else s2)
               | VECTOR_OP_AVG \<Rightarrow>
                   (let x = sensor_op_avg v (ucast threshold) s1
                    in if x \<noteq> 0 then sensor_update p x s1 else s1)
               | VECTOR_OP_NONE \<Rightarrow> s1)
            else s1)
      else s)"

definition sensor_vector_elem_enable :: "ptr \<Rightarrow> u8 \<Rightarrow> u8 \<Rightarrow> sens \<Rightarrow> sens" where
  "sensor_vector_elem_enable vp loc en s =
     (if vp \<noteq> 0 \<and> loc < v_size (sn_vectors s vp)
      then upd_vector vp (\<lambda>v. v\<lparr>elem_enabled := (elem_enabled v)(unat loc := en)\<rparr>) s else s)"

definition sensor_vector_elem_add :: "ptr \<Rightarrow> u8 \<Rightarrow> ptr \<Rightarrow> sens \<Rightarrow> sens" where
  "sensor_vector_elem_add vp loc ep s =
     (if vp = 0 \<or> ep = 0 \<or> loc \<ge> MAX_VECTOR_SENSORS then s
      else if loc > v_size (sn_vectors s vp) then s
      else upd_vector vp (\<lambda>v.
             let v1 = (if source_ptr v (unat loc) = 0 then v\<lparr>v_size := v_size v + 1\<rparr> else v)
             in v1\<lparr>source_ptr := (source_ptr v1)(unat loc := ep), elem_enabled := (elem_enabled v1)(unat loc := 1)\<rparr>) s)"

section \<open>Initialisation and query\<close>

definition SENSOR_INITIALIZE :: u16 where "SENSOR_INITIALIZE = 0x0601"
definition SENSOR_QUERY_LIST :: u16 where "SENSOR_QUERY_LIST = 0x0600"
definition INTERNAL_FAILURE :: u8 where "INTERNAL_FAILURE = 0"
definition INTERNAL_INVALID_INPUT_DATA :: u8 where "INTERNAL_INVALID_INPUT_DATA = 0xB3"
definition ERC_ARG_POINTER_FAILURE :: u16 where "ERC_ARG_POINTER_FAILURE = 0x0016"

definition sensor_init_all :: "sens \<Rightarrow> panic_code + sens" where
  "sensor_init_all s =
     (let s1 = fold (\<lambda>i. sensor_init (G_amec_sensor_list s i) (of_nat i) (G_amec_mini_sensor_list s i)) [0..<sn_n s] s
      in if sn_n s \<noteq> unat (G_amec_sensor_count s1) then
           kbind (createErrl SENSOR_INITIALIZE INTERNAL_FAILURE 0 ERRL_SEV_PREDICTIVE TrNull 0
                    (G_amec_sensor_count s1) (of_nat (sn_n s)) (sn_errl s1))
             (\<lambda>(h, e). Inr (s1\<lparr>sn_errl := snd (commitErrl (Some h) e)\<rparr>))
         else Inr s1)"

text \<open>
  The argument of the query: \<open>q_num\<close> is \<open>None\<close> for a null io_numOfSensors, and the two
  flags say which output arrays were passed. The result holds the log handle, the new value of
  *io_numOfSensors and what was written to the two arrays.
\<close>

record query_arg =
  q_startGsid :: u16
  q_present :: u8
  q_type :: u16
  q_loc :: u16
  q_num :: "u16 option"
  q_sensors :: bool
  q_infos :: bool

record query_out =
  o_num :: "u16 option"
  o_list :: "(u16 \<times> string \<times> u16) list"
  o_info :: "sensor_info list"

definition smf_skip :: "sens \<Rightarrow> nat \<Rightarrow> bool" where
  "smf_skip s g \<longleftrightarrow> G_smf_mode s \<and>
     (case find (\<lambda>(i, m). i = g) (sn_mainmem s) of Some (_, m) \<Rightarrow> m = 0 | None \<Rightarrow> False)"

definition query_match :: "query_arg \<Rightarrow> sens \<Rightarrow> nat \<Rightarrow> bool" where
  "query_match q s g \<longleftrightarrow>
     \<not> (q_present q \<noteq> 0 \<and> sample (sn_sensors s (G_amec_sensor_list s g)) = 0) \<and>
     q_type q AND info_type (G_sensor_info s g) \<noteq> 0 \<and>
     q_loc q AND info_location (G_sensor_info s g) \<noteq> 0 \<and>
     \<not> smf_skip s g"

definition query_emit :: "query_arg \<Rightarrow> sens \<Rightarrow> nat \<Rightarrow> u16 \<Rightarrow> query_out \<Rightarrow> query_out" where
  "query_emit q s g n out =
     (let out1 = (if q_sensors q
                  then out\<lparr>o_list := o_list out @ [(of_nat g, take 16 (info_name (G_sensor_info s g)),
                              sample (sn_sensors s (G_amec_sensor_list s g)))]\<rparr> else out);
          out2 = (if q_infos q then out1\<lparr>o_info := o_info out1 @ [G_sensor_info s g]\<rparr> else out1)
      in out2\<lparr>o_num := Some (n + 1)\<rparr>)"

fun query_loop :: "query_arg \<Rightarrow> sens \<Rightarrow> u16 \<Rightarrow> nat list \<Rightarrow> u16 \<Rightarrow> query_out \<Rightarrow> query_out" where
  "query_loop q s lim [] n out = out"
| "query_loop q s lim (g # gs) n out =
     (if \<not> n < lim then out
      else if \<not> query_match q s g then query_loop q s lim gs n out
      else query_loop q s lim gs (n + 1) (query_emit q s g n out))"

definition querySensorList :: "query_arg option \<Rightarrow> sens \<Rightarrow> (errl_hndl \<times> query_out, sens) kcall" where
  "querySensorList arg s =
     (case arg of
        None \<Rightarrow>
          kbind (createErrl SENSOR_QUERY_LIST INTERNAL_INVALID_INPUT_DATA ERC_ARG_POINTER_FAILURE ERRL_SEV_PREDICTIVE
                   TrNull 0 0 0 (sn_errl s))
            (\<lambda>(h, e). Inr ((h, \<lparr>o_num = None, o_list = [], o_info = []\<rparr>), s\<lparr>sn_errl := e\<rparr>))
      | Some q \<Rightarrow>
          (if unat (q_startGsid q) \<ge> sn_n s \<or> \<not> q_sensors q \<and> \<not> q_infos q \<or> q_num q = None then
             kbind (createErrl SENSOR_QUERY_LIST
                      (if unat (q_startGsid q) \<ge> sn_n s then INTERNAL_INVALID_INPUT_DATA else INTERNAL_FAILURE)
                      0 ERRL_SEV_PREDICTIVE TrNull 0 (ucast (q_startGsid q)) (G_amec_sensor_count s) (sn_errl s))
               (\<lambda>(h, e). Inr ((h, \<lparr>o_num = q_num q, o_list = [], o_info = []\<rparr>), s\<lparr>sn_errl := e\<rparr>))
           else
             Inr ((ErrNull, query_loop q s (the (q_num q)) [unat (q_startGsid q)..<sn_n s] 0
                     \<lparr>o_num = Some 0, o_list = [], o_info = []\<rparr>), s)))"

end
