(* ===== verification/Sensor_Props.thy ===== *)
theory Sensor_Props imports Sensor begin

text \<open>
  Facts about the sensor operations: what a run of updates leaves in a sensor, what the vector
  operations compute, the well-formedness of a vector control block, and the query.
\<close>

section \<open>A run of updates\<close>

text \<open>
  The four minimum/maximum pairs as one value, and the values they must have after the samples
  \<open>xs\<close>: least and greatest, with 0xFFFF and 0 for no sample.
\<close>

definition pairs :: "sensor \<Rightarrow> (u16 \<times> u16) list" where
  "pairs x = [(sample_min x, sample_max x), (csm_sample_min x, csm_sample_max x),
     (profiler_sample_min x, profiler_sample_max x), (job_s_sample_min x, job_s_sample_max x)]"

lemma u16_top: "(x :: u16) \<le> UINT16_MAX"
proof -
  have "UINT16_MAX = (- 1 :: u16)" by simp
  then show ?thesis using word_order.extremum [of x] by metis
qed

lemma fold_min: "xs \<noteq> [] \<Longrightarrow> fold min xs UINT16_MAX = Min (set xs)"
  by (cases xs) (simp_all add: Min.set_eq_fold [symmetric] min_absorb1 u16_top del: set_simps)

lemma fold_max: "xs \<noteq> [] \<Longrightarrow> fold max xs (0 :: u16) = Max (set xs)"
  by (cases xs) (simp_all add: Max.set_eq_fold [symmetric] max_absorb1 del: set_simps)

lemma keep_min:
  fixes v m :: "'a :: linorder"
  assumes "f m = y" shows "(if v < m then f v else y) = f (min v m)"
proof (cases "v < m")
  case True
  then have "min v m = v" by (rule min.absorb3)
  with True show ?thesis by simp
next
  case False
  then have "min v m = m" by (intro min_absorb2) (simp add: not_less)
  with False assms show ?thesis by simp
qed

lemma keep_max:
  fixes v m :: "'a :: linorder"
  assumes "f m = y" shows "(if m < v then f v else y) = f (max v m)"
proof (cases "m < v")
  case True
  then have "max v m = v" by (rule max.absorb3)
  with True show ?thesis by simp
next
  case False
  then have "max v m = m" by (intro max_absorb2) (simp add: not_less)
  with False assms show ?thesis by simp
qed

lemmas keep_better =
  keep_min [where f = "\<lambda>w. x\<lparr>sample_min := w\<rparr>" and m = "sample_min x" and y = x for x :: sensor, simplified]
  keep_max [where f = "\<lambda>w. x\<lparr>sample_max := w\<rparr>" and m = "sample_max x" and y = x for x :: sensor, simplified]
  keep_min [where f = "\<lambda>w. x\<lparr>csm_sample_min := w\<rparr>" and m = "csm_sample_min x" and y = x for x :: sensor, simplified]
  keep_max [where f = "\<lambda>w. x\<lparr>csm_sample_max := w\<rparr>" and m = "csm_sample_max x" and y = x for x :: sensor, simplified]
  keep_min [where f = "\<lambda>w. x\<lparr>profiler_sample_min := w\<rparr>" and m = "profiler_sample_min x" and y = x for x :: sensor, simplified]
  keep_max [where f = "\<lambda>w. x\<lparr>profiler_sample_max := w\<rparr>" and m = "profiler_sample_max x" and y = x for x :: sensor, simplified]
  keep_min [where f = "\<lambda>w. x\<lparr>job_s_sample_min := w\<rparr>" and m = "job_s_sample_min x" and y = x for x :: sensor, simplified]
  keep_max [where f = "\<lambda>w. x\<lparr>job_s_sample_max := w\<rparr>" and m = "job_s_sample_max x" and y = x for x :: sensor, simplified]


lemma minmax_eq:
  "sensor_update_minmax v x = x\<lparr>sample_min := min v (sample_min x), sample_max := max v (sample_max x),
     csm_sample_min := min v (csm_sample_min x), csm_sample_max := max v (csm_sample_max x),
     profiler_sample_min := min v (profiler_sample_min x), profiler_sample_max := max v (profiler_sample_max x),
     job_s_sample_min := min v (job_s_sample_min x), job_s_sample_max := max v (job_s_sample_max x)\<rparr>"
  unfolding sensor_update_minmax_def Let_def keep_better by simp

lemma upd_sensor_fields [simp]:
  "sn_sensors (upd_sensor p f s) q = (if q = p then f (sn_sensors s p) else sn_sensors s q)"
  "sn_vectors (upd_sensor p f s) = sn_vectors s" "sn_minis (upd_sensor p f s) = sn_minis s"
  "G_tod (upd_sensor p f s) = G_tod s"
  "sn_sensors (upd_vector v g s) = sn_sensors s" "sn_minis (upd_vector v g s) = sn_minis s"
  "sn_vectors (upd_vector v g s) w = (if w = v then g (sn_vectors s v) else sn_vectors s w)"
  "G_tod (upd_vector v g s) = G_tod s"
  "sn_sensors (put_mini m x s) = sn_sensors s" "sn_vectors (put_mini m x s) = sn_vectors s"
  "G_tod (put_mini m x s) = G_tod s"
  "sn_minis (put_mini m x s) = (if m = 0 then sn_minis s else (sn_minis s)(m := x))"
  by (simp_all add: upd_sensor_def upd_vector_def put_mini_def)

lemma clear_all:
  "clear_fields 0xFF x = x\<lparr>sample_min := UINT16_MAX, sample_max := 0, csm_sample_min := UINT16_MAX,
     csm_sample_max := 0, profiler_sample_min := UINT16_MAX, profiler_sample_max := 0,
     job_s_sample_min := UINT16_MAX, job_s_sample_max := 0\<rparr>"
  by (simp add: clear_fields_def)

lemma reset_sensor:
  assumes "p \<noteq> 0"
  shows "sn_sensors (sensor_reset p s) p =
    (clear_fields 0xFF ((sn_sensors s p)\<lparr>timestamp := 0, accumulator := 0, sample := 0\<rparr>))\<lparr>status_reset := False\<rparr>"
    "q \<noteq> p \<Longrightarrow> sn_sensors (sensor_reset p s) q = sn_sensors s q" "G_tod (sensor_reset p s) = G_tod s"
  using assms by (simp_all add: sensor_reset_def sensor_clear_minmax_def Let_def)

text \<open>One update of a sensor that asks for no reset, and of one that does.\<close>

definition fresh_sensor :: "sensor \<Rightarrow> sensor" where
  "fresh_sensor x = (if status_reset x
     then (clear_fields 0xFF (x\<lparr>timestamp := 0, accumulator := 0, sample := 0\<rparr>))\<lparr>status_reset := False\<rparr> else x)"

lemma update_sensor:
  assumes "p \<noteq> 0"
  shows "sn_sensors (sensor_update p v s) p =
    (let x = sensor_update_minmax v ((fresh_sensor (sn_sensors s p))\<lparr>timestamp := G_tod s, sample := v\<rparr>)
     in x\<lparr>accumulator := accumulator x + ucast v, update_tag := update_tag x + 1\<rparr>)"
    "q \<noteq> p \<Longrightarrow> sn_sensors (sensor_update p v s) q = sn_sensors s q" "G_tod (sensor_update p v s) = G_tod s"
  using assms by (simp_all add: sensor_update_def Let_def fresh_sensor_def reset_sensor)

lemma fresh_fields:
  "status_reset (fresh_sensor x) = False" "update_tag (fresh_sensor x) = update_tag x"
  "mini_sensor (fresh_sensor x) = mini_sensor x"
  by (simp_all add: fresh_sensor_def clear_all)

lemma update_one:
  assumes "p \<noteq> 0" "x = sn_sensors (sensor_update p v s) p" "y = fresh_sensor (sn_sensors s p)"
  shows "\<not> status_reset x" "sample x = v" "timestamp x = G_tod s" "accumulator x = accumulator y + ucast v"
    "update_tag x = update_tag y + 1" "pairs x = map (\<lambda>(a, b). (min v a, max v b)) (pairs y)"
  unfolding assms(2) update_sensor(1) [OF assms(1)] assms(3) [symmetric] Let_def
  using fresh_fields(1) [of "sn_sensors s p"] assms(3) by (simp_all add: minmax_eq pairs_def)

lemma run_updates:
  assumes "p \<noteq> 0" "\<not> status_reset (sn_sensors s p)" "x = sn_sensors (fold (sensor_update p) xs s) p"
  shows "\<not> status_reset x \<and> pairs x = map (\<lambda>(a, b). (fold min xs a, fold max xs b)) (pairs (sn_sensors s p))
    \<and> accumulator x = accumulator (sn_sensors s p) + of_nat (sum_list (map unat xs))
    \<and> update_tag x = update_tag (sn_sensors s p) + of_nat (length xs)
    \<and> G_tod (fold (sensor_update p) xs s) = G_tod s
    \<and> (xs \<noteq> [] \<longrightarrow> sample x = last xs \<and> timestamp x = G_tod s)"
  using assms(2, 3)
proof (induction xs arbitrary: s x)
  case Nil
  then show ?case by (simp add: pairs_def)
next
  case (Cons v xs)
  let ?t = "sensor_update p v s"
  have f: "fresh_sensor (sn_sensors s p) = sn_sensors s p" using Cons.prems(1) by (simp add: fresh_sensor_def)
  note o = update_one [OF assms(1) refl refl, of v s, unfolded f]
  have tod: "G_tod ?t = G_tod s" by (rule update_sensor(3) [OF assms(1)])
  have ih: "x = sn_sensors (fold (sensor_update p) xs ?t) p" using Cons.prems(2) by simp
  note i = Cons.IH [OF o(1) ih]
  have "pairs x = map (\<lambda>(a, b). (fold min (v # xs) a, fold max (v # xs) b)) (pairs (sn_sensors s p))"
    using i o(6) by (simp add: pairs_def)
  moreover have "sample x = last (v # xs) \<and> timestamp x = G_tod s"
    using i o(2,3) tod ih by (cases "xs = []") auto
  ultimately show ?case using i o(1,4,5) tod by (simp add: ac_simps)
qed

lemma history_reset:
  assumes "p \<noteq> 0" "status_reset (sn_sensors s p)" "xs \<noteq> []" "x = sn_sensors (fold (sensor_update p) xs s) p"
  shows "pairs x = replicate 4 (Min (set xs), Max (set xs))" "sample x = last xs" "timestamp x = G_tod s"
    "accumulator x = of_nat (sum_list (map unat xs))"
    "update_tag x = update_tag (sn_sensors s p) + of_nat (length xs)" "\<not> status_reset x"
proof -
  obtain v ys where xs: "xs = v # ys" using assms(3) by (cases xs) auto
  let ?t = "sensor_update p v s"
  let ?y = "sn_sensors ?t p"
  have f: "pairs (fresh_sensor (sn_sensors s p)) = replicate 4 (UINT16_MAX, 0)"
    "accumulator (fresh_sensor (sn_sensors s p)) = 0"
    using assms(2) by (simp_all add: fresh_sensor_def clear_all pairs_def numeral_eq_Suc)
  note o = update_one [OF assms(1) refl refl, of v s, unfolded f fresh_fields]
  have tod: "G_tod ?t = G_tod s" by (rule update_sensor(3) [OF assms(1)])
  have x: "x = sn_sensors (fold (sensor_update p) ys ?t) p" using assms(4) xs by simp
  note r = run_updates [OF assms(1) o(1) x]
  have mm: "fold min ys (min v UINT16_MAX) = Min (set xs)" "fold max ys (max v 0) = Max (set xs)"
    using fold_min [of xs] fold_max [of xs] xs by simp_all
  have "pairs x = map (\<lambda>(a, b). (fold min ys a, fold max ys b)) (pairs ?y)" using r by blast
  also have "\<dots> = replicate 4 (Min (set xs), Max (set xs))"
    unfolding o(6) map_replicate prod.case mm ..
  finally show "pairs x = replicate 4 (Min (set xs), Max (set xs))" .
  show "sample x = last xs" "timestamp x = G_tod s"
    using r o(2,3) tod xs x by (cases "ys = []"; auto)+
  have "accumulator x = accumulator ?y + of_nat (sum_list (map unat ys))" using r by blast
  then show "accumulator x = of_nat (sum_list (map unat xs))" unfolding o(4) xs by simp
  have "update_tag x = update_tag ?y + of_nat (length ys)" using r by blast
  then show "update_tag x = update_tag (sn_sensors s p) + of_nat (length xs)" unfolding o(5) xs by simp
  show "\<not> status_reset x" using r by blast
qed

section \<open>Vector operations\<close>

text \<open>A scan that keeps the first best value and its index, for any strict linear order.\<close>

lemma scan_first:
  fixes lt :: "'a \<Rightarrow> 'a \<Rightarrow> bool"
  assumes tr: "\<And>a b c. lt a b \<Longrightarrow> lt b c \<Longrightarrow> lt a c" and ir: "\<And>a. \<not> lt a a"
    and lin: "\<And>a b. \<not> lt a b \<Longrightarrow> a = b \<or> lt b a"
    and r: "fold (\<lambda>i (x, p). if en i \<and> lt (f i) x then (f i, of_nat i) else (x, p)) [0..<n] (xi, posn) = (x, p)"
  shows "(\<forall>i<n. en i \<longrightarrow> \<not> lt (f i) x) \<and> ((x, p) = (xi, posn) \<or>
    lt x xi \<and> (\<exists>k<n. en k \<and> f k = x \<and> p = of_nat k \<and> (\<forall>j<k. en j \<longrightarrow> lt x (f j))))"
  using r
proof (induction n arbitrary: x p)
  case 0
  then show ?case by simp
next
  case (Suc n)
  obtain y q where y: "fold (\<lambda>i (x, p). if en i \<and> lt (f i) x then (f i, of_nat i) else (x, p)) [0..<n] (xi, posn) = (y, q)"
    by (cases "fold (\<lambda>i (x, p). if en i \<and> lt (f i) x then (f i, of_nat i) else (x, p)) [0..<n] (xi, posn)") blast
  have xp: "(x, p) = (if en n \<and> lt (f n) y then (f n, of_nat n) else (y, q))"
    using Suc.prems y by simp
  note ih = Suc.IH [OF y]
  show ?case
  proof (cases "en n \<and> lt (f n) y")
    case True
    then have x: "x = f n" "p = of_nat n" using xp by simp_all
    have 1: "\<not> lt (f i) x" if "i < Suc n" "en i" for i
    proof (cases "i = n")
      case True
      then show ?thesis using ir unfolding x by simp
    next
      case False
      then have "\<not> lt (f i) y" using ih that by simp
      with \<open>en n \<and> lt (f n) y\<close> show ?thesis using tr [of "f i" "f n" y] unfolding x by blast
    qed
    have 2: "lt x (f j)" if "j < n" "en j" for j
    proof -
      have "\<not> lt (f j) y" using ih that by simp
      then have "f j = y \<or> lt y (f j)" by (rule lin)
      with True show ?thesis using tr [of "f n" y "f j"] unfolding x by auto
    qed
    have "lt x xi" using ih True tr [of "f n" y xi] unfolding x by auto
    moreover have "\<exists>k<Suc n. en k \<and> f k = x \<and> p = of_nat k \<and> (\<forall>j<k. en j \<longrightarrow> lt x (f j))"
      using True x 2 by (intro exI [of _ n]) simp
    ultimately show ?thesis using 1 by simp
  next
    case False
    then have xy: "x = y" "p = q" using xp by (simp_all split: if_splits)
    have "\<forall>i<Suc n. en i \<longrightarrow> \<not> lt (f i) x" using ih False unfolding xy less_Suc_eq by blast
    moreover have "(x, p) = (xi, posn) \<or>
      lt x xi \<and> (\<exists>k<Suc n. en k \<and> f k = x \<and> p = of_nat k \<and> (\<forall>j<k. en j \<longrightarrow> lt x (f j)))"
      using ih less_SucI unfolding xy by blast
    ultimately show ?thesis ..
  qed
qed

lemma op_min_spec:
  assumes "sensor_op_min v pos s = (x, p)" and "n = unat (v_size v)"
  shows "\<forall>i<n. elem_enabled v i = 1 \<longrightarrow> x \<le> src_sample s v i"
    "x = UINT16_MAX \<and> p = pos \<or> (\<exists>k<n. elem_enabled v k = 1 \<and> src_sample s v k = x \<and> p = of_nat k \<and>
       (\<forall>j<k. elem_enabled v j = 1 \<longrightarrow> x < src_sample s v j))"
proof -
  note r = scan_first [where lt = "(<)" and en = "\<lambda>i. elem_enabled v i = 1" and f = "src_sample s v" and n = n
    and xi = UINT16_MAX and posn = pos and x = x and p = p]
  have "(\<forall>i<n. elem_enabled v i = 1 \<longrightarrow> \<not> src_sample s v i < x) \<and> ((x, p) = (UINT16_MAX, pos) \<or>
    x < UINT16_MAX \<and> (\<exists>k<n. elem_enabled v k = 1 \<and> src_sample s v k = x \<and> p = of_nat k \<and>
      (\<forall>j<k. elem_enabled v j = 1 \<longrightarrow> x < src_sample s v j)))"
    by (rule r) (use assms in \<open>auto simp: sensor_op_min_def intro: order.strict_trans\<close>)
  then show "\<forall>i<n. elem_enabled v i = 1 \<longrightarrow> x \<le> src_sample s v i"
    "x = UINT16_MAX \<and> p = pos \<or> (\<exists>k<n. elem_enabled v k = 1 \<and> src_sample s v k = x \<and> p = of_nat k \<and>
       (\<forall>j<k. elem_enabled v j = 1 \<longrightarrow> x < src_sample s v j))"
    unfolding not_less by blast+
qed

lemma op_max_spec:
  assumes "sensor_op_max v pos s = (x, p)" and "n = unat (v_size v)"
  shows "\<forall>i<n. elem_enabled v i = 1 \<longrightarrow> src_sample s v i \<le> x"
    "x = 0 \<and> p = pos \<or> (\<exists>k<n. elem_enabled v k = 1 \<and> src_sample s v k = x \<and> p = of_nat k \<and>
       (\<forall>j<k. elem_enabled v j = 1 \<longrightarrow> src_sample s v j < x))"
proof -
  note r = scan_first [where lt = "(>)" and en = "\<lambda>i. elem_enabled v i = 1" and f = "src_sample s v" and n = n
    and xi = 0 and posn = pos and x = x and p = p]
  have "(\<forall>i<n. elem_enabled v i = 1 \<longrightarrow> \<not> x < src_sample s v i) \<and> ((x, p) = (0, pos) \<or>
    0 < x \<and> (\<exists>k<n. elem_enabled v k = 1 \<and> src_sample s v k = x \<and> p = of_nat k \<and>
      (\<forall>j<k. elem_enabled v j = 1 \<longrightarrow> src_sample s v j < x)))"
    by (rule r) (use assms in \<open>auto simp: sensor_op_max_def\<close>)
  then show "\<forall>i<n. elem_enabled v i = 1 \<longrightarrow> src_sample s v i \<le> x"
    "x = 0 \<and> p = pos \<or> (\<exists>k<n. elem_enabled v k = 1 \<and> src_sample s v k = x \<and> p = of_nat k \<and>
       (\<forall>j<k. elem_enabled v j = 1 \<longrightarrow> src_sample s v j < x))"
    unfolding not_less by blast+
qed

text \<open>The samples an average counts, and the value it returns.\<close>

definition counted :: "vectorSensor \<Rightarrow> u16 \<Rightarrow> sens \<Rightarrow> nat list" where
  "counted v threshold s =
     map unat (filter (\<lambda>x. threshold < x) (map (src_sample s v) (filter (\<lambda>i. elem_enabled v i = 1) [0..<unat (v_size v)])))"

lemma avg_fold:
  fixes f :: "nat \<Rightarrow> u16"
  assumes xs_def: "\<And>n. xs n = map unat (filter (\<lambda>x. t < x) (map f (filter en [0..<n])))" and "n < 256"
  shows "\<exists>a c. fold (\<lambda>i (a :: u32, c :: u16). if en i \<and> f i > t then (a + ucast (f i), c + 1) else (a, c)) [0..<n] (0, 0) = (a, c)
    \<and> unat a = sum_list (xs n) \<and> unat c = length (xs n) \<and> sum_list (xs n) \<le> n * 65535 \<and> length (xs n) \<le> n"
  using assms(2)
proof (induction n)
  case 0
  then show ?case by (simp add: xs_def)
next
  case (Suc n)
  then obtain a c where ih: "fold (\<lambda>i (a :: u32, c :: u16). if en i \<and> f i > t then (a + ucast (f i), c + 1) else (a, c)) [0..<n] (0, 0) = (a, c)"
    "unat a = sum_list (xs n)" "unat c = length (xs n)" "sum_list (xs n) \<le> n * 65535" "length (xs n) \<le> n"
    by auto
  show ?case
  proof (cases "en n \<and> t < f n")
    case True
    have xs: "xs (Suc n) = xs n @ [unat (f n)]" using True by (simp add: xs_def)
    have b: "unat (f n) \<le> 65535" using unat_u16_lt [of "f n"] by linarith
    have "unat a + unat (ucast (f n) :: u32) < 2 ^ 32" unfolding unat_ucast_up using ih(2,4) b Suc.prems by simp
    then have 1: "unat (a + ucast (f n)) = unat a + unat (f n)"
      using unat_add_lem [of a "ucast (f n)"] by (simp add: unat_ucast_up)
    have "unat c + unat (1 :: u16) < 2 ^ 16" using ih(3,5) Suc.prems by simp
    then have 2: "unat (c + 1) = unat c + 1" using unat_add_lem [of c 1] by simp
    show ?thesis using ih True xs 1 2 b by simp
  next
    case False
    then have "xs (Suc n) = xs n" by (auto simp: xs_def)
    moreover have "\<not> (en n \<and> t < f n)" using False .
    ultimately show ?thesis using ih by (simp del: de_Morgan_conj)
  qed
qed

lemma avg_spec:
  "unat (sensor_op_avg v t s) = (if counted v t s = [] then 0 else sum_list (counted v t s) div length (counted v t s))"
proof -
  let ?xs = "counted v t s"
  have n: "unat (v_size v) < 256" using unsigned_less [of "v_size v"] by simp
  obtain a :: u32 and c :: u16 where f: "fold (\<lambda>i (a :: u32, c :: u16). if elem_enabled v i = 1 \<and> src_sample s v i > t
      then (a + ucast (src_sample s v i), c + 1) else (a, c)) [0..<unat (v_size v)] (0, 0) = (a, c)"
    "unat a = sum_list ?xs" "unat c = length ?xs"
    using avg_fold [OF refl n, where t = t and f = "src_sample s v" and en = "\<lambda>i. elem_enabled v i = 1"]
    unfolding counted_def by auto
  have r: "sensor_op_avg v t s = ucast (if c \<noteq> 0 then a div ucast c else a)"
    unfolding sensor_op_avg_def f(1) by simp
  have "x < 65536" if "x \<in> set ?xs" for x using that unat_u16_lt by (auto simp: counted_def)
  then have "sum_list ?xs \<le> 65535 * length ?xs"
    using sum_list_mono [of ?xs "\<lambda>x. x" "\<lambda>_. 65535"] by (fastforce simp: sum_list_triv)
  then have q: "sum_list ?xs div length ?xs \<le> 65535"
    by (cases "?xs = []") (auto intro: order_trans [OF div_le_mono [of _ "65535 * length ?xs"]])
  have "unat (a div ucast c) = sum_list ?xs div length ?xs" by (simp add: unat_div f unat_ucast_up)
  then show ?thesis using q f(2,3) unfolding r by (auto simp: unat_ucast_down unat_eq_0)
qed

section \<open>Well-formed vector control blocks\<close>

text \<open>The sources fill a prefix of the 32 places, and its length is the recorded size.\<close>

definition vec_ok :: "vectorSensor \<Rightarrow> bool" where
  "vec_ok v \<longleftrightarrow> unat (v_size v) \<le> 32 \<and> (\<forall>i<32. source_ptr v i \<noteq> 0 \<longleftrightarrow> i < unat (v_size v))"

lemma zero_vec_ok: "vec_ok (zero_vector\<lparr>operation := opr\<rparr>)"
  by (simp add: vec_ok_def zero_vector_def)

lemma vec_ok_cong:
  "v_size w = v_size v \<Longrightarrow> source_ptr w = source_ptr v \<Longrightarrow> vec_ok v \<Longrightarrow> vec_ok w"
  by (simp add: vec_ok_def)

lemma elem_add_vec:
  assumes ok: "vec_ok (sn_vectors s vp)" and v: "v = sn_vectors (sensor_vector_elem_add vp loc ep s) vp"
  shows "vec_ok v"
    "vp \<noteq> 0 \<Longrightarrow> ep \<noteq> 0 \<Longrightarrow> unat loc < 32 \<Longrightarrow> loc \<le> v_size (sn_vectors s vp) \<Longrightarrow>
       unat (v_size v) = max (unat (v_size (sn_vectors s vp))) (unat loc + 1)
       \<and> source_ptr v (unat loc) = ep \<and> elem_enabled v (unat loc) = 1"
proof -
  let ?u = "sn_vectors s vp"
  have sz: "unat (v_size ?u) \<le> 32" and src: "\<And>i. i < 32 \<Longrightarrow> source_ptr ?u i \<noteq> 0 \<longleftrightarrow> i < unat (v_size ?u)"
    using ok by (auto simp: vec_ok_def)
  have add: "vec_ok v \<and> unat (v_size v) = max (unat (v_size ?u)) (unat loc + 1) \<and> source_ptr v (unat loc) = ep
      \<and> elem_enabled v (unat loc) = 1"
    if c: "vp \<noteq> 0" "ep \<noteq> 0" "unat loc < 32" "loc \<le> v_size ?u"
  proof -
    have le: "unat loc \<le> unat (v_size ?u)" using c(4) by (simp add: word_le_nat_alt)
    have v': "v = (let v1 = (if source_ptr ?u (unat loc) = 0 then ?u\<lparr>v_size := v_size ?u + 1\<rparr> else ?u)
       in v1\<lparr>source_ptr := (source_ptr v1)(unat loc := ep), elem_enabled := (elem_enabled v1)(unat loc := 1)\<rparr>)"
    proof -
      have "\<not> 32 \<le> loc" using c(3) by (simp add: word_le_nat_alt)
      moreover have "\<not> v_size ?u < loc" using c(4) by simp
      ultimately show ?thesis using c(1,2) unfolding v sensor_vector_elem_add_def MAX_VECTOR_SENSORS_def by simp
    qed
    show ?thesis
    proof (cases "source_ptr ?u (unat loc) = 0")
      case True
      then have eq: "unat loc = unat (v_size ?u)" using src [OF c(3)] le by simp
      have "unat (v_size ?u + 1) = unat (v_size ?u) + 1"
        using unat_add_lem [of "v_size ?u" 1] eq c(3) by simp
      then show ?thesis using True eq c(2,3) src unfolding v' vec_ok_def by (auto simp: Let_def)
    next
      case False
      then have "unat loc < unat (v_size ?u)" using src [OF c(3)] by simp
      moreover have "v = ?u\<lparr>source_ptr := (source_ptr ?u)(unat loc := ep), elem_enabled := (elem_enabled ?u)(unat loc := 1)\<rparr>"
        using False unfolding v' by (simp add: Let_def)
      ultimately show ?thesis using sz c(2,3) src unfolding vec_ok_def by auto
    qed
  qed
  show "vec_ok v"
  proof (cases "vp \<noteq> 0 \<and> ep \<noteq> 0 \<and> unat loc < 32 \<and> loc \<le> v_size ?u")
    case True
    then show ?thesis using add by blast
  next
    case False
    then have "v = ?u" unfolding v sensor_vector_elem_add_def MAX_VECTOR_SENSORS_def
      by (auto simp: word_le_nat_alt not_le word_less_nat_alt)
    then show ?thesis using ok by simp
  qed
  show "vp \<noteq> 0 \<Longrightarrow> ep \<noteq> 0 \<Longrightarrow> unat loc < 32 \<Longrightarrow> loc \<le> v_size ?u \<Longrightarrow>
    unat (v_size v) = max (unat (v_size ?u)) (unat loc + 1) \<and> source_ptr v (unat loc) = ep \<and> elem_enabled v (unat loc) = 1"
    using add by blast
qed

section \<open>The query\<close>

definition query_entry :: "sens \<Rightarrow> nat \<Rightarrow> u16 \<times> string \<times> u16" where
  "query_entry s g = (of_nat g, take 16 (info_name (G_sensor_info s g)), sample (sn_sensors s (G_amec_sensor_list s g)))"

lemma query_loop_spec:
  assumes "ms = take (unat lim - unat n) (filter (query_match q s) gs)"
  shows "query_loop q s lim gs n \<lparr>o_num = Some n, o_list = ls, o_info = fs\<rparr> =
    \<lparr>o_num = Some (n + of_nat (length ms)), o_list = ls @ (if q_sensors q then map (query_entry s) ms else []),
     o_info = fs @ (if q_infos q then map (G_sensor_info s) ms else [])\<rparr>"
  using assms
proof (induction gs arbitrary: n ls fs ms)
  case Nil
  then show ?case by simp
next
  case (Cons g gs)
  show ?case
  proof (cases "n < lim")
    case False
    then have "unat lim - unat n = 0" by (simp add: word_less_nat_alt)
    then show ?thesis using False Cons.prems by simp
  next
    case True
    then have lt: "unat n < unat lim" by (simp add: word_less_nat_alt)
    have "unat (n + 1) = unat n + 1" using unat_add_lem [of n 1] lt unat_u16_lt [of lim] by simp
    then have s: "unat lim - unat n = Suc (unat lim - unat (n + 1))" using lt by simp
    show ?thesis
    proof (cases "query_match q s g")
      case False
      then show ?thesis using True Cons.prems Cons.IH [of ms n ls fs] by simp
    next
      case m: True
      define ms' where "ms' = take (unat lim - unat (n + 1)) (filter (query_match q s) gs)"
      have ms: "ms = g # ms'" using Cons.prems m unfolding s ms'_def by simp
      have e: "query_emit q s g n \<lparr>o_num = Some n, o_list = ls, o_info = fs\<rparr> = \<lparr>o_num = Some (n + 1),
          o_list = ls @ (if q_sensors q then [query_entry s g] else []),
          o_info = fs @ (if q_infos q then [G_sensor_info s g] else [])\<rparr>"
        by (simp add: query_emit_def query_entry_def)
      show ?thesis using True m Cons.IH [OF ms'_def] unfolding ms by (simp add: e)
    qed
  qed
qed

end
