(* ===== verification/Sensor_Properties.thy ===== *)
theory Sensor_Properties imports Sensor_Props Errl_Properties begin

text \<open>
  The properties of the sensors (src/occ_405/sensor): the history a run of updates leaves, the
  reductions over a vector of sensors, and the sensor query.
\<close>

section \<open>A small bank of sensors\<close>

definition demo_vector :: vectorSensor where
  "demo_vector = zero_vector\<lparr>operation := VECTOR_OP_MAX, v_size := 3,
     elem_enabled := (\<lambda>i. if i < 3 then 1 else 0), source_ptr := (\<lambda>i. if i < 3 then i + 2 else 0)\<rparr>"

definition demo_sens :: "errl \<Rightarrow> sens" where
  "demo_sens e = \<lparr>sn_sensors = (\<lambda>p. zero_sensor\<lparr>status_reset := (p = 1),
       sample := (if p = 2 then 30 else if p = 3 then 70 else if p = 4 then 50 else 0)\<rparr>),
     sn_vectors = (\<lambda>_. demo_vector), sn_minis = (\<lambda>_. 0), G_amec_sensor_count = 5,
     G_amec_sensor_list = (\<lambda>g. g), G_amec_mini_sensor_list = (\<lambda>_. 0),
     G_sensor_info = (\<lambda>g. \<lparr>info_name = ''TEMP'', info_type = (if g = 3 then 2 else 1), info_location = 4\<rparr>),
     sn_n = 5, G_tod = 99, G_smf_mode = False, sn_mainmem = [], sn_errl = e\<rparr>"

section \<open>Properties\<close>



text \<open>
  The minimum over a vector is the least sample of its enabled elements, at the first
  position that has it; with none below the start value it is UINT16_MAX and the position is
  left alone.
\<close>

theorem vector_minimum:
  assumes "sensor_op_min v pos s = (x, p)"
  shows "(\<forall>i < unat (v_size v). elem_enabled v i = 1 \<longrightarrow> x \<le> src_sample s v i) \<and>
    (x = UINT16_MAX \<and> p = pos \<or> (\<exists>k < unat (v_size v). elem_enabled v k = 1 \<and> src_sample s v k = x \<and> p = of_nat k \<and>
       (\<forall>j < k. elem_enabled v j = 1 \<longrightarrow> x < src_sample s v j)))"
  using op_min_spec [OF assms refl] by blast

theorem vector_minimum_witness:
  "\<exists>x p. sensor_op_min demo_vector 9 (demo_sens empty_store) = (x, p) \<and> x \<le> 30"
proof -
  obtain x p where r: "sensor_op_min demo_vector 9 (demo_sens empty_store) = (x, p)" by fastforce
  have "x \<le> src_sample (demo_sens empty_store) demo_vector 0"
    using conjunct1 [OF vector_minimum [OF r], rule_format, of 0] by (simp add: demo_vector_def)
  then show ?thesis using r by (simp add: demo_vector_def demo_sens_def)
qed

text \<open>
  The maximum over a vector is the greatest sample of its enabled elements, at the first
  position that has it; when all are zero it is 0 and the position is left alone.
\<close>

theorem vector_maximum:
  assumes "sensor_op_max v pos s = (x, p)"
  shows "(\<forall>i < unat (v_size v). elem_enabled v i = 1 \<longrightarrow> src_sample s v i \<le> x) \<and>
    (x = 0 \<and> p = pos \<or> (\<exists>k < unat (v_size v). elem_enabled v k = 1 \<and> src_sample s v k = x \<and> p = of_nat k \<and>
       (\<forall>j < k. elem_enabled v j = 1 \<longrightarrow> src_sample s v j < x)))"
  using op_max_spec [OF assms refl] by blast

theorem vector_maximum_witness:
  "\<exists>x p. sensor_op_max demo_vector 9 (demo_sens empty_store) = (x, p) \<and> 70 \<le> x"
proof -
  obtain x p where r: "sensor_op_max demo_vector 9 (demo_sens empty_store) = (x, p)" by fastforce
  have "src_sample (demo_sens empty_store) demo_vector 1 \<le> x"
    using conjunct1 [OF vector_maximum [OF r], rule_format, of 1] by (simp add: demo_vector_def)
  then show ?thesis using r by (simp add: demo_vector_def demo_sens_def)
qed

text \<open>
  The average over a vector is the exact integer average of the samples of its enabled
  elements that exceed the threshold, 0 when there is none: neither the 32-bit sum nor the 16-bit
  count can overflow for a vector of at most 255 elements.
\<close>

theorem vector_average:
  "unat (sensor_op_avg v t s) =
     (if counted v t s = [] then 0 else sum_list (counted v t s) div length (counted v t s))"
  by (rule avg_spec)

text \<open>
  Elements added to a vector keep it packed: after any sequence of additions, in whatever
  order and at whatever positions, the first v_size entries and no others have a source, and
  v_size is at most 32.
\<close>

theorem vector_stays_packed:
  assumes "vec_ok (sn_vectors s vp)"
  shows "vec_ok (sn_vectors (fold (\<lambda>(loc, ep). sensor_vector_elem_add vp loc ep) adds s) vp)"
  using assms
proof (induction adds arbitrary: s)
  case (Cons a adds)
  obtain loc ep where a: "a = (loc, ep)" by fastforce
  have "vec_ok (sn_vectors (sensor_vector_elem_add vp loc ep s) vp)" by (rule elem_add_vec(1) [OF Cons.prems refl])
  from Cons.IH [OF this] show ?case by (simp add: a)
qed simp

theorem vector_stays_packed_witness:
  "vec_ok (sn_vectors (fold (\<lambda>(loc, ep). sensor_vector_elem_add 7 loc ep) [(0, 2), (5, 3), (1, 4), (1, 5)]
     (sensor_vectorize 1 7 VECTOR_OP_AVG (demo_sens empty_store))) 7)"
  by (rule vector_stays_packed) (simp add: sensor_vectorize_def upd_vector_def zero_vec_ok)

text \<open>
  A sensor query with valid arguments returns, in increasing order of their identifiers, the
  sensors from the start identifier on that match the presence, type, location and secure-mode
  filters, cut to the number asked for; the count it reports is the number of entries returned.
\<close>

theorem query_is_a_filter:
  assumes "unat (q_startGsid q) < sn_n s" "q_sensors q \<or> q_infos q" "q_num q = Some lim"
    and ms: "ms = take (unat lim) (filter (query_match q s) [unat (q_startGsid q)..<sn_n s])"
  shows "querySensorList (Some q) s = Inr ((ErrNull, \<lparr>o_num = Some (of_nat (length ms)),
      o_list = (if q_sensors q then map (query_entry s) ms else []),
      o_info = (if q_infos q then map (G_sensor_info s) ms else [])\<rparr>), s)"
proof -
  have "ms = take (unat lim - unat (0 :: u16)) (filter (query_match q s) [unat (q_startGsid q)..<sn_n s])"
    using ms by simp
  note loop = query_loop_spec [OF this, of "[]" "[]", unfolded append_Nil add_0]
  have "querySensorList (Some q) s = Inr ((ErrNull, query_loop q s lim [unat (q_startGsid q)..<sn_n s] 0
      \<lparr>o_num = Some 0, o_list = [], o_info = []\<rparr>), s)"
    using assms(1-3) by (auto simp: querySensorList_def)
  then show ?thesis unfolding loop .
qed

theorem query_is_a_filter_witness:
  "\<exists>fs. querySensorList (Some \<lparr>q_startGsid = 2, q_present = 1, q_type = 1, q_loc = 6, q_num = Some 9, q_sensors = True,
     q_infos = False\<rparr>) (demo_sens empty_store) = Inr ((ErrNull, \<lparr>o_num = Some 2, o_list = [(2, ''TEMP'', 30), (4, ''TEMP'', 50)],
       o_info = fs\<rparr>), demo_sens empty_store)"
proof -
  let ?q = "\<lparr>q_startGsid = 2, q_present = 1, q_type = 1, q_loc = 6, q_num = Some 9, q_sensors = True, q_infos = False\<rparr>"
  have "filter (query_match ?q (demo_sens empty_store)) [2, 3, 4] = [2, 4]"
    by (simp add: query_match_def smf_skip_def demo_sens_def)
  moreover have "[unat (2 :: u16)..<5] = [2, 3, 4]" by (simp add: upt_rec)
  ultimately have "take (unat (9 :: u16)) (filter (query_match ?q (demo_sens empty_store)) [unat (q_startGsid ?q)..<sn_n (demo_sens empty_store)]) = [2, 4]"
    by (simp add: demo_sens_def)
  note ms = this [symmetric]
  have "unat (q_startGsid ?q) < sn_n (demo_sens empty_store)" "q_sensors ?q \<or> q_infos ?q" "q_num ?q = Some 9"
    by (simp_all add: demo_sens_def)
  from query_is_a_filter [OF this ms] have "querySensorList (Some ?q) (demo_sens empty_store) = Inr ((ErrNull,
      \<lparr>o_num = Some 2, o_list = map (query_entry (demo_sens empty_store)) [2, 4], o_info = []\<rparr>), demo_sens empty_store)" by simp
  moreover have "query_entry (demo_sens empty_store) 2 = (2, ''TEMP'', 30)" "query_entry (demo_sens empty_store) 4 = (4, ''TEMP'', 50)"
    by (simp_all add: query_entry_def demo_sens_def)
  ultimately show ?thesis by simp
qed

end
