(* ===== verification/Amec_Data.thy ===== *)
theory Amec_Data imports Sensor begin

text \<open>
  The data the thermal, power-capping and frequency algorithms share: the parts of
  \<open>g_amec\<close> (amec_sys.h, amec_controller.h, amec_pcap.h, amec_part.h, amec_freq.h), of
  \<open>G_sysConfigData\<close> (occ_sys_config.h) and the globals and static locals those functions
  read and write. Single-bit flags are \<open>bool\<close>; every integer keeps its C width.
\<close>

section \<open>Sensor ids (enum e_gsid)\<close>

definition PWRSYS :: nat where "PWRSYS = 12"
definition PWRPROC :: nat where "PWRPROC = 37"
definition TEMPPROCTHRM :: nat where "TEMPPROCTHRM = 40"
definition PROCPWRTHROT :: nat where "PROCPWRTHROT = 47"
definition PROCOTTHROT :: nat where "PROCOTTHROT = 48"
definition TEMPVDD :: nat where "TEMPVDD = 65"
definition MEMPWRTHROT :: nat where "MEMPWRTHROT = 410"
definition MEMOTTHROT :: nat where "MEMOTTHROT = 411"
definition TEMPCENT :: nat where "TEMPCENT = 412"
definition TEMPDIMMTHRM :: nat where "TEMPDIMMTHRM = 413"
definition TEMPMCDIMMTHRM :: nat where "TEMPMCDIMMTHRM = 414"
definition TEMPPMICTHRM :: nat where "TEMPPMICTHRM = 415"
definition TEMPMCEXTTHRM :: nat where "TEMPMCEXTTHRM = 416"

section \<open>Structures\<close>

record amec_controller =
  ot_error :: u8
  setpoint :: u16
  Pgain :: u16
  total_res :: u16
  speed_request :: u16
  freq_request :: u16
  temp_timeout :: u8

record amec_systemwide =
  sys_fmin :: u16
  sys_fmax :: u16
  max_speed :: u16
  min_speed :: u16
  speed_step :: u16
  speed_step_limit :: u16
  vrm_fault_status :: u8

record amec_pcap =
  ovs_node_pcap :: u16
  norm_node_pcap :: u16
  active_node_pcap :: u16
  active_proc_pcap :: u16
  nominal_mem_pwr :: u16
  turbo_mem_pwr :: u16
  pcap1_mem_pwr :: u16
  active_mem_level :: u8

record amec_proc_pwr_votes =
  ppb_fmax :: u16
  pmax_clip_freq :: u16
  proc_pcap_vote :: u16
  nom_pcap_fmin :: u16
  proc_pcap_nom_vote :: u16
  apss_pmax_clip_freq :: u16

record gpuPcap =
  pwr_limits_read :: bool
  gpu_min_pcap_mw :: u32
  gpu_max_pcap_mw :: u32
  gpu_desired_pcap_mw :: u32

text \<open>\<open>dps_freq\<close> is core_perf.dps_freq_request of the core.\<close>

record amec_core =
  f_request :: u16
  f_reason :: u32
  dps_freq :: u16
  parm_f_override :: u16
  parm_f_reason :: u32

record amec_part =
  part_valid :: u8
  soft_fmin :: u16
  soft_fmax :: u16

record amec_mode_freq =
  mf_fmin :: u16
  mf_fmax :: u16
  mf_min_speed :: u16

record amec_mnfg =
  mem_autoslew :: bool
  mem_slew_counter :: u32
  quad_pstate :: "nat \<Rightarrow> u8"

record sysConfig =
  kvm :: bool
  report_dvfs_nom :: bool
  non_redund_ps :: bool
  mem_type :: u8
  psr :: u8
  total_non_gpu_max_pwr_watts :: u16
  total_proc_mem_pwr_drop_watts :: u16
  current_pcap :: u16
  max_pcap :: u16
  system_pcap :: u16
  sys_num_proc_present :: u8
  master_ppb_fmax :: u32
  mode_freq :: "nat \<Rightarrow> u16"
  apss_huid :: u32

text \<open>OPPB pstate parameters read by the frequency conversion.\<close>

record oppb =
  frequency_min_khz :: u32
  frequency_max_khz :: u32
  frequency_step_khz :: u32
  pstate_min :: u32

section \<open>Static locals\<close>

record gpu_statics =
  L_total_gpu_pcap :: u16
  L_n_plus_1_mode_gpu_total_pcap :: u16
  L_n_mode_gpu_total_pcap :: u16
  L_active_psr_gpu_total_pcap :: u16
  L_per_gpu_pcap :: u16
  L_psr :: u8
  L_first_run :: bool
  L_last_pcap_traced :: "nat \<Rightarrow> u32"

record pcap_statics =
  L_prev_node_pcap :: u32
  L_apss_error_traced :: bool
  L_ticks_mem_pwr_available :: u32
  L_num_chips :: u8

record freq_statics =
  L_last_reason :: u32
  L_mfg_set_trace :: "nat \<Rightarrow> bool"
  L_mfg_clear_trace :: "nat \<Rightarrow> bool"
  l_slew_step :: u16
  L_throttle_traced :: bool
  l_prev_ovs_state :: bool
  l_prev_pcap_state :: bool
  l_pcap_sev :: ERRL_SEVERITY
  l_throttle_traced :: bool
  l_time :: u64

section \<open>The state\<close>

text \<open>
  \<open>oversubPinLive\<close> and \<open>emulate_oversub\<close> feed AMEC_INTF_GET_OVERSUBSCRIPTION();
  \<open>occ_mode\<close> is G_occ_internal_mode; \<open>dcom_posts\<close> counts the posts of
  G_dcomThreadWakeupSem; \<open>amec_now\<close> is the reading of the time base and
  \<open>amec_tb_hz\<close> its frequency.
\<close>

record amec_glob =
  G_dimm_temp_expired_dw0 :: u64
  G_dimm_temp_expired_dw1 :: u64
  G_cent_temp_expired_bitmap :: u16
  G_ocm_dts_type_expired_bitmap :: u8
  G_proc_fmax_mhz :: u16
  G_mhz_per_pstate :: u32
  G_first_proc_gpu_config :: u32
  G_first_num_gpus_sys :: u32
  occ_master :: bool
  pwr_reading_apss :: bool
  oversubPinLive :: bool
  emulate_oversub :: bool
  occ_mode :: u8
  wof_disabled :: u32
  wof_init_state :: u8
  G_present_cores :: u32
  G_core_offline_mask :: u32
  G_allowPstates :: bool
  G_non_dps_power_limited :: bool
  G_amec_opal_proc_throt_reason :: u8
  G_amec_opal_mem_throt_reason :: u8
  G_desired_pstate :: "nat \<Rightarrow> u8"
  dcom_posts :: nat
  amec_now :: u64
  amec_tb_hz :: u64

record amec_thermal =
  thermalproc :: amec_controller
  thermalcent :: amec_controller
  thermaldimm :: amec_controller
  thermalmcdimm :: amec_controller
  thermalpmic :: amec_controller
  thermalmcext :: amec_controller
  thermalvdd :: amec_controller

record amec_freqs =
  cores :: "nat \<Rightarrow> amec_core"
  core2part :: "nat \<Rightarrow> u16"
  part_list :: "nat \<Rightarrow> amec_part"
  part_mode_freq :: "nat \<Rightarrow> amec_mode_freq"
  core_max_freq :: u16
  core_min_freq :: u16
  current_clip_count :: u8
  chip_f_reason_history :: u32
  proc_f_reason :: u32
  parm_f_override_enable :: u8
  slv_ips_freq_request :: u16
  foverride_enable :: u8
  foverride :: u16
  pstate_foverride_enable :: u8
  pstate_foverride :: u16
  mem_throttle_reason :: u8
  mem_speed_request :: u16
  mnfg_parms :: amec_mnfg

record amec =
  am_thermal :: amec_thermal
  am_sys :: amec_systemwide
  am_pcap :: amec_pcap
  am_pcap_valid :: u8
  am_votes :: amec_proc_pwr_votes
  am_gpu :: "nat \<Rightarrow> gpuPcap"
  am_freqs :: amec_freqs
  am_gpu_st :: gpu_statics
  am_pcap_st :: pcap_statics
  am_freq_st :: freq_statics
  am_cfg :: sysConfig
  am_oppb :: oppb
  am_glob :: amec_glob
  am_sens :: sens

text \<open>AMECSENSOR_PTR(x)->sample, sensor_update(AMECSENSOR_PTR(x), v), getSensorByGsid(x)->sample.\<close>

definition amecsensor :: "nat \<Rightarrow> amec \<Rightarrow> u16" where
  "amecsensor x a = sample (sn_sensors (am_sens a) (G_amec_sensor_list (am_sens a) x))"

definition sample_by_gsid :: "nat \<Rightarrow> amec \<Rightarrow> u16" where
  "sample_by_gsid x a = sample (sn_sensors (am_sens a) (getSensorByGsid (of_nat x) (am_sens a)))"

definition update_amecsensor :: "nat \<Rightarrow> u16 \<Rightarrow> amec \<Rightarrow> amec" where
  "update_amecsensor x v a = a\<lparr>am_sens := sensor_update (G_amec_sensor_list (am_sens a) x) v (am_sens a)\<rparr>"

definition oversubscription :: "amec \<Rightarrow> bool" where
  "oversubscription a = (oversubPinLive (am_glob a) \<or> emulate_oversub (am_glob a))"

text \<open>createErrl, addCalloutToErrl, setErrlActions and commitErrl on the error log the state carries.\<close>

definition am_errl :: "amec \<Rightarrow> errl" where
  "am_errl a = sn_errl (am_sens a)"

definition set_errl :: "errl \<Rightarrow> amec \<Rightarrow> amec" where
  "set_errl e a = a\<lparr>am_sens := (am_sens a)\<lparr>sn_errl := e\<rparr>\<rparr>"

end
