(* ===== verification/Amec_Pcap.thy ===== *)
theory Amec_Pcap imports Amec_Data begin

text \<open>
  The power-capping loop of src/occ_405/amec/amec_pcap.c: the GPU power limits, the split of
  the node cap between memory and processor, the processor vote, the performance-preserving
  bound the master computes, and the driver that runs them. The flags that only choose whether
  a trace line is printed (L_trace_pcap_throttle, L_trace_pcap_unthrottle) are left out.
\<close>

definition OCC_MODE_NOMINAL :: nat where "OCC_MODE_NOMINAL = 1"
definition OCC_MODE_MIN_FREQUENCY :: nat where "OCC_MODE_MIN_FREQUENCY = 7"
definition PROC_MHZ_PER_WATT :: int where "PROC_MHZ_PER_WATT = 7"
definition PDROP_THRESH :: int where "PDROP_THRESH = 10"
definition UNTHROTTLE_MEMORY_DELAY :: u32 where "UNTHROTTLE_MEMORY_DELAY = 2"
definition MAX_NUM_GPU_PER_DOMAIN :: nat where "MAX_NUM_GPU_PER_DOMAIN = 3"

definition ERRL_CALLOUT_TYPE_HUID :: u8 where "ERRL_CALLOUT_TYPE_HUID = 1"
definition ERRL_CALLOUT_TYPE_COMPONENT_ID :: u8 where "ERRL_CALLOUT_TYPE_COMPONENT_ID = 2"
definition ERRL_COMPONENT_ID_FIRMWARE :: u64 where "ERRL_COMPONENT_ID_FIRMWARE = 1"
definition ERRL_COMPONENT_ID_OVERSUBSCRIPTION :: u64 where "ERRL_COMPONENT_ID_OVERSUBSCRIPTION = 5"
definition ERRL_CALLOUT_PRIORITY_LOW :: u8 where "ERRL_CALLOUT_PRIORITY_LOW = 1"
definition ERRL_CALLOUT_PRIORITY_MED :: u8 where "ERRL_CALLOUT_PRIORITY_MED = 2"
definition ERRL_CALLOUT_PRIORITY_HIGH :: u8 where "ERRL_CALLOUT_PRIORITY_HIGH = 3"
definition AMEC_GPU_PCAP_MID :: u16 where "AMEC_GPU_PCAP_MID = 0x0C19"
definition GPU_FAILURE :: u8 where "GPU_FAILURE = 0xA2"
definition ERC_GPU_N_MODE_PCAP_CALC_FAILURE :: u16 where "ERC_GPU_N_MODE_PCAP_CALC_FAILURE = 0x00F8"
definition ERC_GPU_N_PLUS_1_MODE_PCAP_CALC_FAILURE :: u16 where "ERC_GPU_N_PLUS_1_MODE_PCAP_CALC_FAILURE = 0x00F9"

abbreviation min_frequency :: "amec \<Rightarrow> u16" where
  "min_frequency a \<equiv> mode_freq (am_cfg a) OCC_MODE_MIN_FREQUENCY"

section \<open>GPU power limits\<close>

definition log_gpu_pcap :: "u16 \<Rightarrow> u16 \<Rightarrow> amec \<Rightarrow> panic_code + amec" where
  "log_gpu_pcap erc watts a =
     kbind (createErrl AMEC_GPU_PCAP_MID GPU_FAILURE erc ERRL_SEV_PREDICTIVE TrNull DEFAULT_TRACE_SIZE
              (ucast watts) (ucast (total_non_gpu_max_pwr_watts (am_cfg a))) (am_errl a))
       (\<lambda>(h, e).
          let e1 = addCalloutToErrl h ERRL_CALLOUT_TYPE_COMPONENT_ID ERRL_COMPONENT_ID_FIRMWARE ERRL_CALLOUT_PRIORITY_HIGH e
          in Inr (set_errl (snd (commitErrl (Some h) e1)) a))"

definition upd_gpu_st :: "(gpu_statics \<Rightarrow> gpu_statics) \<Rightarrow> amec \<Rightarrow> amec" where
  "upd_gpu_st f a = a\<lparr>am_gpu_st := f (am_gpu_st a)\<rparr>"

definition gpu_n_mode :: "amec \<Rightarrow> panic_code + amec" where
  "gpu_n_mode a =
     (let non = total_non_gpu_max_pwr_watts (am_cfg a); ovs = ovs_node_pcap (am_pcap a)
      in if ovs > non then
           Inr (upd_gpu_st (\<lambda>g. g\<lparr>L_n_mode_gpu_total_pcap := ovs - non + total_proc_mem_pwr_drop_watts (am_cfg a)\<rparr>) a)
         else log_gpu_pcap ERC_GPU_N_MODE_PCAP_CALC_FAILURE ovs
                (upd_gpu_st (\<lambda>g. g\<lparr>L_n_mode_gpu_total_pcap := 0\<rparr>) a))"

definition gpu_n_plus_1_mode :: "amec \<Rightarrow> panic_code + amec" where
  "gpu_n_plus_1_mode a =
     (let non = total_non_gpu_max_pwr_watts (am_cfg a); cap = system_pcap (am_cfg a)
      in if cap > non then
           Inr (upd_gpu_st (\<lambda>g. g\<lparr>L_n_plus_1_mode_gpu_total_pcap := cap - non + total_proc_mem_pwr_drop_watts (am_cfg a)\<rparr>) a)
         else log_gpu_pcap ERC_GPU_N_PLUS_1_MODE_PCAP_CALC_FAILURE cap
                (upd_gpu_st (\<lambda>g. g\<lparr>L_n_plus_1_mode_gpu_total_pcap := 0\<rparr>) a))"

definition gpu_active_total :: "amec \<Rightarrow> gpu_statics \<Rightarrow> gpu_statics" where
  "gpu_active_total a g =
     (let non = total_non_gpu_max_pwr_watts (am_cfg a); cap = active_node_pcap (am_pcap a);
          g1 = g\<lparr>L_psr := psr (am_cfg a)\<rparr>
      in if cap > non
         then g1\<lparr>L_active_psr_gpu_total_pcap := store16 (uint (cap - non)
                + uint (L_psr g1) div 100 * uint (total_proc_mem_pwr_drop_watts (am_cfg a)))\<rparr>
         else g1\<lparr>L_active_psr_gpu_total_pcap := 0\<rparr>)"

definition gpu_total :: "bool \<Rightarrow> u32 \<Rightarrow> gpu_statics \<Rightarrow> gpu_statics" where
  "gpu_total oversub n g =
     (let sys = (if oversub then L_n_mode_gpu_total_pcap g else L_n_plus_1_mode_gpu_total_pcap g);
          tot = (if sys < L_active_psr_gpu_total_pcap g then sys else L_active_psr_gpu_total_pcap g)
      in g\<lparr>L_total_gpu_pcap := tot, L_per_gpu_pcap := (if n \<noteq> 0 then ucast (ucast tot div n) else 0)\<rparr>)"

definition gpu_present :: "nat \<Rightarrow> amec \<Rightarrow> bool" where
  "gpu_present i a \<longleftrightarrow> push_bit i 1 AND G_first_proc_gpu_config (am_glob a) \<noteq> 0"

definition gpu_clip :: "u16 \<Rightarrow> gpuPcap \<Rightarrow> u32" where
  "gpu_clip per p =
     (let cap = ucast per * 1000 :: u32
      in if cap < gpu_min_pcap_mw p then gpu_min_pcap_mw p
         else if cap > gpu_max_pcap_mw p then gpu_max_pcap_mw p else cap)"

definition gpu_set_limit :: "nat \<Rightarrow> amec \<Rightarrow> amec" where
  "gpu_set_limit i a =
     (let p = am_gpu a i; g = am_gpu_st a
      in if gpu_present i a \<and> pwr_limits_read p then
           (let cap = gpu_clip (L_per_gpu_pcap g) p
            in if gpu_desired_pcap_mw p \<noteq> cap then
                 (let a1 = (if gpu_desired_pcap_mw p \<noteq> 0 \<or> L_last_pcap_traced g i \<noteq> cap
                            then upd_gpu_st (\<lambda>g. g\<lparr>L_last_pcap_traced := (L_last_pcap_traced g)(i := cap)\<rparr>) a else a)
                  in a1\<lparr>am_gpu := (am_gpu a)(i := p\<lparr>gpu_desired_pcap_mw := cap\<rparr>)\<rparr>)
               else a)
         else a)"

definition amec_gpu_pcap :: "bool \<Rightarrow> bool \<Rightarrow> amec \<Rightarrow> panic_code + amec" where
  "amec_gpu_pcap i_oversubscription i_active_pcap_changed a =
     kbind (if L_first_run (am_gpu_st a) then kbind (gpu_n_mode a) gpu_n_plus_1_mode else Inr a) (\<lambda>a1.
       let a2 = (if L_first_run (am_gpu_st a1) \<or> i_active_pcap_changed \<or> L_psr (am_gpu_st a1) \<noteq> psr (am_cfg a1)
                 then upd_gpu_st (\<lambda>g. gpu_total i_oversubscription (G_first_num_gpus_sys (am_glob a1)) (gpu_active_total a1 g)) a1
                 else a1);
           a3 = fold gpu_set_limit [0..<MAX_NUM_GPU_PER_DOMAIN] a2
       in Inr (upd_gpu_st (\<lambda>g. g\<lparr>L_first_run := False\<rparr>) a3))"

section \<open>Node, memory and processor caps\<close>

definition upd_pcap :: "(amec_pcap \<Rightarrow> amec_pcap) \<Rightarrow> amec \<Rightarrow> amec" where
  "upd_pcap f a = a\<lparr>am_pcap := f (am_pcap a)\<rparr>"

definition upd_votes :: "(amec_proc_pwr_votes \<Rightarrow> amec_proc_pwr_votes) \<Rightarrow> amec \<Rightarrow> amec" where
  "upd_votes f a = a\<lparr>am_votes := f (am_votes a)\<rparr>"

definition upd_pcap_st :: "(pcap_statics \<Rightarrow> pcap_statics) \<Rightarrow> amec \<Rightarrow> amec" where
  "upd_pcap_st f a = a\<lparr>am_pcap_st := f (am_pcap_st a)\<rparr>"

definition pick_node_pcap :: "bool \<Rightarrow> amec \<Rightarrow> u16" where
  "pick_node_pcap oversub a =
     (if oversub \<and> (current_pcap (am_cfg a) = 0 \<or> ovs_node_pcap (am_pcap a) < current_pcap (am_cfg a))
      then ovs_node_pcap (am_pcap a) else norm_node_pcap (am_pcap a))"

text \<open>The memory throttle, given the available power; the result holds the power left to the processor.\<close>

definition mem_throttle :: "int \<Rightarrow> amec \<Rightarrow> int \<times> amec" where
  "mem_throttle avail a =
     (if avail > 0 \<and> active_mem_level (am_pcap a) \<noteq> 0 then
        (let diff = (if unat (occ_mode (am_glob a)) = OCC_MODE_NOMINAL then nominal_mem_pwr (am_pcap a)
                     else turbo_mem_pwr (am_pcap a)) - pcap1_mem_pwr (am_pcap a)
         in if avail \<ge> uint diff then
              (let n = L_ticks_mem_pwr_available (am_pcap_st a) + 1
               in if n = UNTHROTTLE_MEMORY_DELAY
                  then (0, upd_pcap_st (\<lambda>s. s\<lparr>L_ticks_mem_pwr_available := 0\<rparr>) (upd_pcap (\<lambda>p. p\<lparr>active_mem_level := 0\<rparr>) a))
                  else (avail, upd_pcap_st (\<lambda>s. s\<lparr>L_ticks_mem_pwr_available := n\<rparr>) a))
            else (avail, a))
      else if avail < 0 then
        (let a1 = upd_pcap_st (\<lambda>s. s\<lparr>L_ticks_mem_pwr_available := 0\<rparr>) a
         in (avail, if active_mem_level (am_pcap a) = 0 \<and> ppb_fmax (am_votes a) = sys_fmin (am_sys a)
                    then upd_pcap (\<lambda>p. p\<lparr>active_mem_level := 1\<rparr>) a1 else a1))
      else (avail, a))"

definition proc_share :: "u16 \<Rightarrow> u32 \<Rightarrow> int \<Rightarrow> u16" where
  "proc_share p0 frac avail = ucast ((ucast p0 :: u32) + drop_bit 16 (frac * store32 avail))"

definition amec_pcap_calc :: "bool \<Rightarrow> amec \<Rightarrow> panic_code + amec" where
  "amec_pcap_calc i_oversub_state a =
     (let l_node_pwr = amecsensor PWRSYS a;
          l_p0_pwr = amecsensor PWRPROC a;
          a1 = upd_pcap (\<lambda>p. p\<lparr>active_node_pcap := pick_node_pcap i_oversub_state a\<rparr>) a;
          cap = active_node_pcap (am_pcap a1);
          changed = (L_prev_node_pcap (am_pcap_st a1) \<noteq> ucast cap);
          a2 = (if changed then (upd_pcap_st (\<lambda>s. s\<lparr>L_prev_node_pcap := ucast cap\<rparr>) a1)\<lparr>am_pcap_valid := 1\<rparr> else a1);
          l_avail_power = uint cap - uint l_node_pwr
      in kbind (if G_first_proc_gpu_config (am_glob a2) \<noteq> 0 then amec_gpu_pcap i_oversub_state changed a2 else Inr a2)
         (\<lambda>a3.
            let (frac, avail, a4) =
                  (if l_node_pwr \<noteq> 0 then
                     (let (av, b) = mem_throttle l_avail_power (upd_pcap_st (\<lambda>s. s\<lparr>L_apss_error_traced := False\<rparr>) a3)
                      in (push_bit 16 (ucast l_p0_pwr :: u32) div ucast l_node_pwr, av, b))
                   else (0, l_avail_power, upd_pcap_st (\<lambda>s. s\<lparr>L_apss_error_traced := True\<rparr>) a3))
            in if active_mem_level (am_pcap a4) = 0 then
                 Inr (upd_votes (\<lambda>v. v\<lparr>nom_pcap_fmin :=
                          (if active_node_pcap (am_pcap a4) < max_pcap (am_cfg a4) then min_frequency a4
                           else mode_freq (am_cfg a4) OCC_MODE_NOMINAL)\<rparr>)
                        (upd_pcap (\<lambda>p. p\<lparr>active_proc_pcap := proc_share l_p0_pwr frac avail\<rparr>) a4))
               else Inr a4))"

section \<open>The votes\<close>

definition amec_pcap_controller :: "amec \<Rightarrow> amec" where
  "amec_pcap_controller a =
     (let v = am_votes a;
          avail = uint (active_proc_pcap (am_pcap a)) - uint (amecsensor PWRPROC a);
          vote0 = uint (proc_pcap_vote v);
          vote1 = (if vote0 > uint (nom_pcap_fmin v)
                   then uint (core_max_freq (am_freqs a)) + PROC_MHZ_PER_WATT * avail
                   else vote0 + PROC_MHZ_PER_WATT * avail);
          vote2 = (if vote1 > uint (G_proc_fmax_mhz (am_glob a)) then uint (G_proc_fmax_mhz (am_glob a)) else vote1);
          vote3 = (if vote2 < uint (min_frequency a) then uint (min_frequency a) else vote2);
          nom = (if vote3 < uint (nom_pcap_fmin v) then nom_pcap_fmin v else store16 vote3)
      in upd_votes (\<lambda>v. v\<lparr>proc_pcap_nom_vote := nom, proc_pcap_vote := store16 vote3\<rparr>) a)"

definition node_mhz_per_watt :: "sysConfig \<Rightarrow> int" where
  "node_mhz_per_watt c =
     (let n = uint (sys_num_proc_present c)
      in if n = 0 then 1 else if PROC_MHZ_PER_WATT div n = 0 then 1 else PROC_MHZ_PER_WATT div n)"

definition ppb_move :: "int \<Rightarrow> amec \<Rightarrow> u32" where
  "ppb_move avail a =
     (let c = am_cfg a; m = master_ppb_fmax c; mhz = G_mhz_per_pstate (am_glob a)
      in if avail \<le> 0 then
           (let drop0 = store32 (node_mhz_per_watt c * (- avail));
                drop = (if drop0 < mhz then mhz else drop0)
            in if drop < m then m - drop else ucast (min_frequency a))
         else if avail > PDROP_THRESH then m + mhz else m)"

definition amec_ppb_fmax_calc :: "amec \<Rightarrow> amec" where
  "amec_ppb_fmax_calc a =
     (if occ_master (am_glob a) then
        (let a1 = upd_pcap_st (\<lambda>s. s\<lparr>L_num_chips := sys_num_proc_present (am_cfg a)\<rparr>) a;
             avail = uint (active_node_pcap (am_pcap a)) - uint (amecsensor PWRSYS a);
             m1 = ppb_move avail a;
             m2 = (if m1 > ucast (G_proc_fmax_mhz (am_glob a)) then ucast (G_proc_fmax_mhz (am_glob a)) else m1);
             m3 = (if m2 < ucast (min_frequency a) then ucast (min_frequency a) else m2)
         in a1\<lparr>am_cfg := (am_cfg a)\<lparr>master_ppb_fmax := m3\<rparr>\<rparr>)
      else a)"

definition amec_power_control :: "amec \<Rightarrow> panic_code + amec" where
  "amec_power_control a =
     (if pwr_reading_apss (am_glob a) then
        (let ovs = oversubscription a
         in if \<not> non_redund_ps (am_cfg a) \<or> \<not> ovs then
              kbind (amec_pcap_calc ovs a) (\<lambda>a1.
                let a2 = (if active_mem_level (am_pcap a1) = 0 then amec_ppb_fmax_calc (amec_pcap_controller a1) else a1)
                in if active_mem_level (am_pcap a2) \<noteq> 0
                   then Inr (update_amecsensor MEMPWRTHROT 1 a2) else Inr (update_amecsensor MEMPWRTHROT 0 a2))
            else Inr a)
      else Inr (upd_votes (\<lambda>v. v\<lparr>proc_pcap_nom_vote := G_proc_fmax_mhz (am_glob a),
               proc_pcap_vote := G_proc_fmax_mhz (am_glob a), ppb_fmax := G_proc_fmax_mhz (am_glob a)\<rparr>) a))"

section \<open>Facts\<close>

text \<open>
  The share is computed in unsigned 32-bit arithmetic with a logical shift; kept to 16 bits it is
  nevertheless the rounded-down share of a possibly negative available power.
\<close>

lemma proc_share_eq: "proc_share p0 frac avail = store16 (uint p0 + uint frac * avail div 65536)"
proof -
  let ?x = "uint frac * avail"
  have "uint (drop_bit 16 (frac * store32 avail)) = uint (frac * store32 avail) div 65536"
    by (simp add: drop_bit_eq_div uint_div)
  also have "uint (frac * store32 avail) = ?x mod (65536 * 65536)"
    by (simp add: uint_word_ariths uint_store32 mod_mult_right_eq)
  also have "?x mod (65536 * 65536) = 65536 * (?x div 65536 mod 65536) + ?x mod 65536"
    by (rule zmod_zmult2_eq) simp
  also have "(65536 * (?x div 65536 mod 65536) + ?x mod 65536) div 65536 = ?x div 65536 mod 65536"
    by simp
  finally have u: "uint (drop_bit 16 (frac * store32 avail)) = ?x div 65536 mod 65536" .
  have p: "uint p0 mod 4294967296 = uint p0" using uint_u16_bounds [of p0] by simp
  have "uint (proc_share p0 frac avail) = (uint p0 + ?x div 65536 mod 65536) mod 65536"
    by (simp add: proc_share_def unsigned_ucast_eq take_bit_eq_mod uint_word_ariths u mod_mod_cancel p)
  also have "\<dots> = uint (store16 (uint p0 + ?x div 65536))"
    by (simp only: uint_store16 mod_add_right_eq)
  finally show ?thesis by (rule word_uint_eqI)
qed

text \<open>The processor's part of the available power never takes it below zero nor above its share.\<close>

lemma share_bounds:
  assumes n: "node \<noteq> 0" and p: "p0 \<le> node" and f: "frac = push_bit 16 (ucast p0 :: u32) div ucast (node :: u16)"
    and av: "- uint node \<le> avail"
  defines "sh \<equiv> uint frac * avail div 65536"
  shows "0 \<le> uint p0 + sh" "avail \<le> 0 \<Longrightarrow> avail \<le> sh \<and> sh \<le> 0" "0 \<le> avail \<Longrightarrow> 0 \<le> sh \<and> sh \<le> avail"
    "uint frac = uint p0 * 65536 div uint node"
proof -
  have nz: "0 < uint node" using n by (simp add: word_neq_0_conv word_less_def)
  have pb: "0 \<le> uint p0" "uint p0 < 65536" "uint p0 \<le> uint node" using uint_u16_bounds [of p0] p by (simp_all add: word_le_def)
  have u32: "uint (ucast x :: u32) = uint x" for x :: u16
    using uint_u16_bounds [of x] by (simp add: unsigned_ucast_eq take_bit_eq_mod)
  have "uint (push_bit 16 (ucast p0 :: u32)) = uint p0 * 65536"
    using pb by (simp add: push_bit_eq_mult uint_word_ariths u32)
  then show fr: "uint frac = uint p0 * 65536 div uint node" by (simp add: f uint_div u32)
  define q where "q = uint frac"
  have q0: "0 \<le> q" by (simp add: q_def)
  have qn: "q * uint node \<le> uint p0 * 65536"
    unfolding q_def fr using div_mult_mod_eq [of "uint p0 * 65536" "uint node"]
      pos_mod_sign [OF nz, of "uint p0 * 65536"] by linarith
  have q1: "q \<le> 65536"
  proof -
    have "q * uint node \<le> 65536 * uint node" using qn pb by linarith
    then show ?thesis using nz by simp
  qed
  have sh: "sh = q * avail div 65536" by (simp add: sh_def q_def)
  show "0 \<le> uint p0 + sh"
  proof -
    have "q * (- uint node) \<le> q * avail" using av q0 by (intro mult_left_mono) auto
    then have "- (uint p0 * 65536) \<le> q * avail" using qn by linarith
    then have "- (uint p0 * 65536) div 65536 \<le> sh" unfolding sh by (intro zdiv_mono1) simp_all
    then show ?thesis by simp
  qed
  show "avail \<le> 0 \<Longrightarrow> avail \<le> sh \<and> sh \<le> 0"
  proof -
    assume a: "avail \<le> 0"
    have "65536 * avail \<le> q * avail" using q1 a by (intro mult_right_mono_neg)
    moreover have "q * avail \<le> 0" using q0 a by (simp add: mult_nonneg_nonpos)
    ultimately show ?thesis unfolding sh by linarith
  qed
  show "0 \<le> avail \<Longrightarrow> 0 \<le> sh \<and> sh \<le> avail"
  proof -
    assume a: "0 \<le> avail"
    have "q * avail \<le> 65536 * avail" using q1 a by (intro mult_right_mono)
    moreover have "0 \<le> q * avail" using q0 a by simp
    ultimately show ?thesis unfolding sh by linarith
  qed
qed

text \<open>A word clipped into a range.\<close>

lemma clip_words:
  fixes m :: "'a :: len word"
  assumes "lo \<le> hi" and x: "x = (let m2 = (if m > hi then hi else m) in if m2 < lo then lo else m2)"
  shows "lo \<le> x" "x \<le> hi" "lo \<le> m \<Longrightarrow> m \<le> hi \<Longrightarrow> x = m"
  using assms(1) unfolding x by (auto simp: Let_def not_less)

lemma pcap_vote:
  assumes "min_frequency a \<le> G_proc_fmax_mhz (am_glob a)"
  defines "v \<equiv> am_votes (amec_pcap_controller a)"
  shows "min_frequency a \<le> proc_pcap_vote v" "proc_pcap_vote v \<le> G_proc_fmax_mhz (am_glob a)"
    "nom_pcap_fmin v \<le> proc_pcap_nom_vote v" "proc_pcap_vote v \<le> proc_pcap_nom_vote v"
    "nom_pcap_fmin v = nom_pcap_fmin (am_votes a)" "ppb_fmax v = ppb_fmax (am_votes a)"
proof -
  let ?fm = "G_proc_fmax_mhz (am_glob a)" and ?mn = "min_frequency a" and ?nf = "nom_pcap_fmin (am_votes a)"
  obtain vote1 :: int where v1: "v = (let vote2 = (if vote1 > uint ?fm then uint ?fm else vote1);
       vote3 = (if vote2 < uint ?mn then uint ?mn else vote2)
     in (am_votes a)\<lparr>proc_pcap_nom_vote := (if vote3 < uint ?nf then ?nf else store16 vote3), proc_pcap_vote := store16 vote3\<rparr>)"
    unfolding v_def amec_pcap_controller_def upd_votes_def Let_def by simp
  define w where "w = (if (if vote1 > uint ?fm then uint ?fm else vote1) < uint ?mn then uint ?mn
     else (if vote1 > uint ?fm then uint ?fm else vote1))"
  have le: "uint ?mn \<le> uint ?fm" using assms(1) by (simp add: word_le_def)
  have w: "uint ?mn \<le> w" "w \<le> uint ?fm" using le by (auto simp: w_def)
  have w0: "0 \<le> w" using order_trans [OF uint_u16_bounds(1) w(1)] .
  have uw: "uint (store16 w) = w" using w0 w(2) uint_u16_bounds(2) [of ?fm] by (simp add: uint_store16)
  have v: "v = (am_votes a)\<lparr>proc_pcap_nom_vote := (if w < uint ?nf then ?nf else store16 w), proc_pcap_vote := store16 w\<rparr>"
    using v1 unfolding Let_def w_def .
  show "?mn \<le> proc_pcap_vote v" "proc_pcap_vote v \<le> ?fm" "nom_pcap_fmin v \<le> proc_pcap_nom_vote v"
    "proc_pcap_vote v \<le> proc_pcap_nom_vote v" "nom_pcap_fmin v = ?nf" "ppb_fmax v = ppb_fmax (am_votes a)"
    using w unfolding v by (auto simp: word_le_def uw)
qed

lemma ppb_range:
  assumes "min_frequency a \<le> G_proc_fmax_mhz (am_glob a)" "occ_master (am_glob a)"
  defines "m \<equiv> master_ppb_fmax (am_cfg (amec_ppb_fmax_calc a))"
  shows "ucast (min_frequency a) \<le> m" "m \<le> ucast (G_proc_fmax_mhz (am_glob a))"
    "avail = uint (active_node_pcap (am_pcap a)) - uint (amecsensor PWRSYS a) \<Longrightarrow>
     ucast (min_frequency a) \<le> ppb_move avail a \<Longrightarrow> ppb_move avail a \<le> ucast (G_proc_fmax_mhz (am_glob a)) \<Longrightarrow>
     m = ppb_move avail a"
proof -
  have up: "unat (ucast x :: u32) = unat x" for x :: u16 by (rule unat_ucast_up)
  have le: "(ucast (min_frequency a) :: u32) \<le> ucast (G_proc_fmax_mhz (am_glob a))"
    using assms(1) by (simp only: word_le_nat_alt up)
  have m: "m = (let m2 = (if ppb_move (uint (active_node_pcap (am_pcap a)) - uint (amecsensor PWRSYS a)) a > ucast (G_proc_fmax_mhz (am_glob a))
      then ucast (G_proc_fmax_mhz (am_glob a)) else ppb_move (uint (active_node_pcap (am_pcap a)) - uint (amecsensor PWRSYS a)) a)
    in if m2 < ucast (min_frequency a) then ucast (min_frequency a) else m2)"
    using assms(2) by (simp add: m_def amec_ppb_fmax_calc_def Let_def)
  note c = clip_words [OF le m]
  show "ucast (min_frequency a) \<le> m" by (rule c(1))
  show "m \<le> ucast (G_proc_fmax_mhz (am_glob a))" by (rule c(2))
  show "avail = uint (active_node_pcap (am_pcap a)) - uint (amecsensor PWRSYS a) \<Longrightarrow>
     ucast (min_frequency a) \<le> ppb_move avail a \<Longrightarrow> ppb_move avail a \<le> ucast (G_proc_fmax_mhz (am_glob a)) \<Longrightarrow>
     m = ppb_move avail a"
    using c(3) by simp
qed

lemma ppb_move_sheds:
  assumes "avail \<le> 0" "-65535 \<le> avail"
  shows "ppb_move avail a = ucast (min_frequency a) \<or>
    uint (ppb_move avail a) \<le> uint (master_ppb_fmax (am_cfg a)) - max (uint (G_mhz_per_pstate (am_glob a))) (node_mhz_per_watt (am_cfg a) * (- avail))"
proof -
  let ?c = "am_cfg a" and ?mhz = "G_mhz_per_pstate (am_glob a)"
  let ?k = "node_mhz_per_watt ?c"
  have k: "1 \<le> ?k" "?k \<le> 7"
  proof -
    have "7 div n \<le> 7" "0 \<le> 7 div n" if "0 < n" for n :: int
      using that zdiv_mono2 [of 7 1 n] by (auto simp: pos_imp_zdiv_nonneg_iff)
    moreover have "0 \<le> uint (sys_num_proc_present ?c)" by simp
    ultimately show "1 \<le> ?k" "?k \<le> 7"
      by (auto simp: node_mhz_per_watt_def Let_def PROC_MHZ_PER_WATT_def order_class.less_le int_one_le_iff_zero_less)
  qed
  have "?k * (- avail) \<le> 7 * 65535" using k assms by (intro mult_mono) auto
  moreover have "0 \<le> ?k * (- avail)" using k assms by (intro mult_nonneg_nonneg) auto
  ultimately have d: "uint (store32 (?k * (- avail))) = ?k * (- avail)"
    unfolding uint_store32 by (intro mod_pos_pos_trivial) linarith+
  define dr where "dr = (if store32 (?k * (- avail)) < ?mhz then ?mhz else store32 (?k * (- avail)))"
  have dr: "uint dr = max (uint ?mhz) (?k * (- avail))"
    using d by (auto simp: dr_def word_less_def max_def)
  have pm: "ppb_move avail a = (if dr < master_ppb_fmax ?c then master_ppb_fmax ?c - dr else ucast (min_frequency a))"
    using assms(1) by (simp add: ppb_move_def Let_def dr_def)
  show ?thesis
  proof (cases "dr < master_ppb_fmax ?c")
    case True
    then have "uint (master_ppb_fmax ?c - dr) = uint (master_ppb_fmax ?c) - uint dr"
      by (intro uint_sub_lem [THEN iffD1]) (simp add: word_less_def)
    then show ?thesis using True dr pm by simp
  next
    case False
    then show ?thesis using pm by simp
  qed
qed

lemma upd_gpu_frames [simp]:
  "am_gpu (upd_gpu_st f a) = am_gpu a" "am_glob (upd_gpu_st f a) = am_glob a" "am_cfg (upd_gpu_st f a) = am_cfg a"
  "am_gpu_st (upd_gpu_st f a) = f (am_gpu_st a)" "am_pcap (upd_gpu_st f a) = am_pcap a"
  "am_gpu (set_errl e a) = am_gpu a" "am_glob (set_errl e a) = am_glob a" "am_cfg (set_errl e a) = am_cfg a"
  "am_gpu_st (set_errl e a) = am_gpu_st a" "am_pcap (set_errl e a) = am_pcap a"
  by (simp_all add: upd_gpu_st_def set_errl_def)

lemma log_gpu_frames:
  "log_gpu_pcap erc w a = Inr a' \<Longrightarrow> am_gpu a' = am_gpu a \<and> am_glob a' = am_glob a \<and> am_gpu_st a' = am_gpu_st a \<and> am_pcap a' = am_pcap a \<and> am_cfg a' = am_cfg a"
  by (auto simp: log_gpu_pcap_def kbind_Inr Let_def)

lemma gpu_mode_frames:
  "gpu_n_mode a = Inr a' \<Longrightarrow> am_gpu a' = am_gpu a \<and> am_glob a' = am_glob a"
  "gpu_n_plus_1_mode a = Inr a' \<Longrightarrow> am_gpu a' = am_gpu a \<and> am_glob a' = am_glob a"
  by (auto simp: gpu_n_mode_def gpu_n_plus_1_mode_def Let_def dest!: log_gpu_frames split: if_splits)

lemma gpu_set_frame:
  "am_glob (gpu_set_limit i a) = am_glob a" "L_per_gpu_pcap (am_gpu_st (gpu_set_limit i a)) = L_per_gpu_pcap (am_gpu_st a)"
  "am_gpu (gpu_set_limit i a) j =
    (if j = i \<and> gpu_present i a \<and> pwr_limits_read (am_gpu a i)
     then (am_gpu a i)\<lparr>gpu_desired_pcap_mw := gpu_clip (L_per_gpu_pcap (am_gpu_st a)) (am_gpu a i)\<rparr> else am_gpu a j)"
  by (auto simp: gpu_set_limit_def Let_def upd_gpu_st_def)

lemma gpu_fold:
  "distinct is \<Longrightarrow> am_gpu (fold gpu_set_limit is a) j =
    (if j \<in> set is \<and> gpu_present j a \<and> pwr_limits_read (am_gpu a j)
     then (am_gpu a j)\<lparr>gpu_desired_pcap_mw := gpu_clip (L_per_gpu_pcap (am_gpu_st a)) (am_gpu a j)\<rparr> else am_gpu a j)
   \<and> L_per_gpu_pcap (am_gpu_st (fold gpu_set_limit is a)) = L_per_gpu_pcap (am_gpu_st a)"
proof (induction "is" arbitrary: a)
  case Nil
  then show ?case by simp
next
  case (Cons i "is")
  have p: "gpu_present j (gpu_set_limit i a) = gpu_present j a" for j by (simp add: gpu_present_def gpu_set_frame)
  show ?case using Cons.prems Cons.IH [of "gpu_set_limit i a"] by (auto simp: p gpu_set_frame)
qed

lemma gpu_pcap_limits:
  assumes "amec_gpu_pcap ov ch a = Inr a'" "i < 3"
  shows "am_gpu a' i = (if gpu_present i a \<and> pwr_limits_read (am_gpu a i)
    then (am_gpu a i)\<lparr>gpu_desired_pcap_mw := gpu_clip (L_per_gpu_pcap (am_gpu_st a')) (am_gpu a i)\<rparr> else am_gpu a i)"
proof -
  obtain a1 where a1: "(if L_first_run (am_gpu_st a) then kbind (gpu_n_mode a) gpu_n_plus_1_mode else Inr a) = Inr a1"
    and a': "a' = upd_gpu_st (\<lambda>g. g\<lparr>L_first_run := False\<rparr>) (fold gpu_set_limit [0..<MAX_NUM_GPU_PER_DOMAIN]
      (if L_first_run (am_gpu_st a1) \<or> ch \<or> L_psr (am_gpu_st a1) \<noteq> psr (am_cfg a1)
       then upd_gpu_st (\<lambda>g. gpu_total ov (G_first_num_gpus_sys (am_glob a1)) (gpu_active_total a1 g)) a1 else a1))"
    using assms(1) by (auto simp: amec_gpu_pcap_def kbind_Inr Let_def)
  have e: "am_gpu a1 = am_gpu a" "am_glob a1 = am_glob a"
    using a1 gpu_mode_frames by (auto simp: kbind_Inr split: if_splits)
  define a2 where "a2 = (if L_first_run (am_gpu_st a1) \<or> ch \<or> L_psr (am_gpu_st a1) \<noteq> psr (am_cfg a1)
       then upd_gpu_st (\<lambda>g. gpu_total ov (G_first_num_gpus_sys (am_glob a1)) (gpu_active_total a1 g)) a1 else a1)"
  have e2: "am_gpu a2 = am_gpu a" "gpu_present j a2 = gpu_present j a" for j
    using e by (simp_all add: a2_def gpu_present_def)
  have i: "i \<in> set [0..<MAX_NUM_GPU_PER_DOMAIN]" using assms(2) by (simp add: MAX_NUM_GPU_PER_DOMAIN_def)
  note f = gpu_fold [of "[0..<MAX_NUM_GPU_PER_DOMAIN]" a2 i, OF distinct_upt, folded a2_def]
  show ?thesis using f i unfolding a' a2_def [symmetric] by (simp add: e2)
qed

lemma gpu_clip_range:
  "gpu_min_pcap_mw p \<le> gpu_max_pcap_mw p \<Longrightarrow> gpu_min_pcap_mw p \<le> gpu_clip per p \<and> gpu_clip per p \<le> gpu_max_pcap_mw p"
  by (auto simp: gpu_clip_def Let_def not_less)

end
