(* ===== verification/Amec_Freq.thy ===== *)
theory Amec_Freq imports Amec_Pcap "HOL-Library.Signed_Division" begin

text \<open>
  The frequency algorithms of src/occ_405/amec/amec_freq.c: the frequency range of a mode, the
  processor voting box, the frequency state machine that turns core requests into quad
  pstates, the memory voting box and the performance check; with the lookup of a core's
  partition (amec_part.c) and the frequency conversion they call (proc/proc_pstate.c). The
  blocks under POWER_CAP_VOTE and DEBUG_PROC_VOTING_BOX, which no build defines, are left out.
\<close>

section \<open>Constants\<close>

definition OCC_MODE_NOCHANGE :: nat where "OCC_MODE_NOCHANGE = 0"
definition OCC_MODE_OVERSUB :: nat where "OCC_MODE_OVERSUB = 2"
definition OCC_MODE_TURBO :: nat where "OCC_MODE_TURBO = 3"
definition OCC_MODE_DYN_POWER_SAVE :: nat where "OCC_MODE_DYN_POWER_SAVE = 6"
definition OCC_MODE_NOM_PERFORMANCE :: nat where "OCC_MODE_NOM_PERFORMANCE = 8"
definition OCC_MODE_MAX_PERFORMANCE :: nat where "OCC_MODE_MAX_PERFORMANCE = 9"
definition OCC_MODE_DYN_POWER_SAVE_FP :: nat where "OCC_MODE_DYN_POWER_SAVE_FP = 10"
definition OCC_MODE_FMF :: nat where "OCC_MODE_FMF = 12"
definition OCC_MODE_VRM_N :: nat where "OCC_MODE_VRM_N = 14"
definition OCC_MODE_COUNT :: nat where "OCC_MODE_COUNT = 15"
definition WOF_ENABLED :: u8 where "WOF_ENABLED = 5"
definition MAX_NUM_CORES :: nat where "MAX_NUM_CORES = 24"
definition MAXIMUM_QUADS :: nat where "MAXIMUM_QUADS = 6"
definition NUM_CORES_PER_QUAD :: nat where "NUM_CORES_PER_QUAD = 4"
definition AMEC_PART_MAX_PART :: nat where "AMEC_PART_MAX_PART = 1"

definition REASON_SOFT_MIN :: u32 where "REASON_SOFT_MIN = 0x00000008"
definition REASON_SOFT_MAX :: u32 where "REASON_SOFT_MAX = 0x00000010"
definition REASON_PROC_THRM :: u32 where "REASON_PROC_THRM = 0x00000040"
definition REASON_OVERSUB :: u32 where "REASON_OVERSUB = 0x00000100"
definition REASON_OVERRIDE :: u32 where "REASON_OVERRIDE = 0x00000400"
definition REASON_PWR :: u32 where "REASON_PWR = 0x00001000"
definition REASON_PPB :: u32 where "REASON_PPB = 0x00002000"
definition REASON_PMAX :: u32 where "REASON_PMAX = 0x00004000"
definition REASON_UTIL :: u32 where "REASON_UTIL = 0x00008000"
definition REASON_CONN_OC :: u32 where "REASON_CONN_OC = 0x00010000"
definition REASON_OVERRIDE_CORE :: u32 where "REASON_OVERRIDE_CORE = 0x00020000"
definition REASON_IPS :: u32 where "REASON_IPS = 0x00040000"
definition REASON_APSS_PMAX :: u32 where "REASON_APSS_PMAX = 0x00080000"
definition REASON_VDD_THRM :: u32 where "REASON_VDD_THRM = 0x00100000"
definition REASON_VRM_N :: u32 where "REASON_VRM_N = 0x00200000"
definition NON_DPS_POWER_LIMITED :: u32 where
  "NON_DPS_POWER_LIMITED = REASON_PWR OR REASON_PPB OR REASON_PMAX"

definition NO_THROTTLE :: u8 where "NO_THROTTLE = 0"
definition POWERCAP :: u8 where "POWERCAP = 1"
definition CPU_OVERTEMP :: u8 where "CPU_OVERTEMP = 2"
definition POWER_SUPPLY_FAILURE :: u8 where "POWER_SUPPLY_FAILURE = 3"
definition PCAP_EXCEED_REPORT :: u8 where "PCAP_EXCEED_REPORT = 6"
definition PROC_OVERTEMP_EXCEED_REPORT :: u8 where "PROC_OVERTEMP_EXCEED_REPORT = 7"
definition VDD_OVERTEMP :: u8 where "VDD_OVERTEMP = 8"
definition VDD_OVERTEMP_EXCEED_REPORT :: u8 where "VDD_OVERTEMP_EXCEED_REPORT = 9"
definition MANUFACTURING_OVERRIDE :: u8 where "MANUFACTURING_OVERRIDE = 0xAA"

definition upd_freqs :: "(amec_freqs \<Rightarrow> amec_freqs) \<Rightarrow> amec \<Rightarrow> amec" where
  "upd_freqs f a = a\<lparr>am_freqs := f (am_freqs a)\<rparr>"

definition upd_glob :: "(amec_glob \<Rightarrow> amec_glob) \<Rightarrow> amec \<Rightarrow> amec" where
  "upd_glob f a = a\<lparr>am_glob := f (am_glob a)\<rparr>"

definition upd_freq_st :: "(freq_statics \<Rightarrow> freq_statics) \<Rightarrow> amec \<Rightarrow> amec" where
  "upd_freq_st f a = a\<lparr>am_freq_st := f (am_freq_st a)\<rparr>"

definition upd_sys :: "(amec_systemwide \<Rightarrow> amec_systemwide) \<Rightarrow> amec \<Rightarrow> amec" where
  "upd_sys f a = a\<lparr>am_sys := f (am_sys a)\<rparr>"

definition post_dcom :: "amec \<Rightarrow> amec" where
  "post_dcom a = upd_glob (\<lambda>g. g\<lparr>dcom_posts := dcom_posts g + 1\<rparr>) a"

section \<open>Frequency to pstate\<close>

text \<open>
  The pstate is an \<open>int8_t\<close> until the cast of the return; the comparison with the unsigned
  pstate_min converts it to \<open>uint32_t\<close>.
\<close>

definition proc_freq2pstate :: "u32 \<Rightarrow> amec \<Rightarrow> u8" where
  "proc_freq2pstate i_freq_mhz a =
     (let o' = am_oppb a;
          khz = i_freq_mhz * 1000
      in if khz \<le> frequency_min_khz o' then ucast (pstate_min o')
         else
           (let khz1 = (if i_freq_mhz < ucast (min_frequency a) then store32 (uint (min_frequency a) * 1000) else khz)
            in if khz1 < frequency_max_khz o' then
                 (let p = store8 (sint (frequency_max_khz o' - khz1) sdiv sint (frequency_step_khz o'))
                  in if store32 (sint p) > pstate_min o' then ucast (pstate_min o') else p)
               else 0))"

section \<open>The range of a mode\<close>

definition wof_off :: "amec \<Rightarrow> bool" where
  "wof_off a \<longleftrightarrow> wof_disabled (am_glob a) \<noteq> 0 \<or> wof_init_state (am_glob a) \<noteq> WOF_ENABLED"

definition mode_range :: "nat \<Rightarrow> amec \<Rightarrow> u16 \<times> u16" where
  "mode_range i_mode a =
     (let full = (if wof_off a then mode_freq (am_cfg a) OCC_MODE_TURBO else G_proc_fmax_mhz (am_glob a))
      in if i_mode = OCC_MODE_NOCHANGE then (min_frequency a, full)
         else if i_mode < OCC_MODE_COUNT then
           (min_frequency a,
            if i_mode \<in> {OCC_MODE_NOM_PERFORMANCE, OCC_MODE_MAX_PERFORMANCE, OCC_MODE_FMF, OCC_MODE_DYN_POWER_SAVE,
                 OCC_MODE_DYN_POWER_SAVE_FP} then full
            else mode_freq (am_cfg a) i_mode)
         else (0, 0))"

definition ppm_min_speed :: "u16 \<Rightarrow> u16 \<Rightarrow> u16" where
  "ppm_min_speed lo hi = ucast ((ucast lo * 1000 :: u32) div ucast hi)"

definition ppm_freqs :: "amec \<Rightarrow> nat \<Rightarrow> amec_mode_freq" where
  "ppm_freqs a =
     (let lo = min_frequency a; tbl = mode_freq (am_cfg a);
          z = \<lparr>mf_fmin = 0, mf_fmax = 0, mf_min_speed = 0\<rparr>
      in (\<lambda>_. z)
        (0 := \<lparr>mf_fmin = lo, mf_fmax = tbl OCC_MODE_NOMINAL, mf_min_speed = 0\<rparr>,
         2 := \<lparr>mf_fmin = lo, mf_fmax = tbl OCC_MODE_DYN_POWER_SAVE,
               mf_min_speed = ppm_min_speed lo (tbl OCC_MODE_DYN_POWER_SAVE)\<rparr>,
         3 := \<lparr>mf_fmin = lo, mf_fmax = tbl OCC_MODE_DYN_POWER_SAVE_FP,
               mf_min_speed = ppm_min_speed lo (tbl OCC_MODE_DYN_POWER_SAVE_FP)\<rparr>))"

definition AMEC_SET_FREQ_RANGE :: u16 where "AMEC_SET_FREQ_RANGE = 0x0C17"
definition INTERNAL_FW_FAILURE :: u8 where "INTERNAL_FW_FAILURE = 0xA0"
definition ERC_FW_ZERO_FREQ_LIMIT :: u16 where "ERC_FW_ZERO_FREQ_LIMIT = 0x0090"

text \<open>
  The log of the error branch goes to an inner variable that shadows the one the function
  returns: the handle returned is always null.
\<close>

definition amec_set_freq_range :: "nat \<Rightarrow> amec \<Rightarrow> (errl_hndl, amec) kcall" where
  "amec_set_freq_range i_mode a =
     (let (l_freq_min, l_freq_max) = mode_range i_mode a
      in if l_freq_min = 0 \<or> l_freq_max = 0 then
           (if \<not> kvm (am_cfg a) then
              kbind (createErrl AMEC_SET_FREQ_RANGE INTERNAL_FW_FAILURE ERC_FW_ZERO_FREQ_LIMIT ERRL_SEV_PREDICTIVE
                       TrNull DEFAULT_TRACE_SIZE (of_nat i_mode) 0 (am_errl a))
                (\<lambda>(h, e). Inr (ErrNull, set_errl (addCalloutToErrl h ERRL_CALLOUT_TYPE_COMPONENT_ID
                              ERRL_COMPONENT_ID_FIRMWARE ERRL_CALLOUT_PRIORITY_LOW e) a))
            else Inr (ErrNull, a))
         else
           Inr (ErrNull, upd_freqs (\<lambda>f. f\<lparr>part_mode_freq := ppm_freqs a\<rparr>)
                  (upd_sys (\<lambda>y. y\<lparr>sys_fmin := l_freq_min, sys_fmax := l_freq_max\<rparr>) a)))"

section \<open>The processor voting box\<close>

definition amec_part_find_by_core :: "nat \<Rightarrow> amec_freqs \<Rightarrow> amec_part option" where
  "amec_part_find_by_core k f =
     (if k \<ge> MAX_NUM_CORES then None
      else if unat (core2part f k) \<ge> AMEC_PART_MAX_PART then None
      else if part_valid (part_list f (unat (core2part f k))) \<noteq> 0
           then Some (part_list f (unat (core2part f k))) else None)"

record vote =
  vt_freq :: u16
  vt_reason :: u32
  vt_kvm :: u8

text \<open>A vote lower than the current one takes over, with its reason and what it reports.\<close>

definition lower :: "u16 \<Rightarrow> u32 \<Rightarrow> (vote \<Rightarrow> u8) \<Rightarrow> vote \<Rightarrow> vote" where
  "lower freq reason report v =
     (if freq < vt_freq v then \<lparr>vt_freq = freq, vt_reason = reason, vt_kvm = report (v\<lparr>vt_freq := freq\<rparr>)\<rparr> else v)"

definition report_freq :: "amec \<Rightarrow> u16" where
  "report_freq a = (if report_dvfs_nom (am_cfg a) then mode_freq (am_cfg a) OCC_MODE_NOMINAL
     else mode_freq (am_cfg a) OCC_MODE_TURBO)"

definition chip_vote :: "amec \<Rightarrow> vote" where
  "chip_vote a =
     (let tbl = mode_freq (am_cfg a); rep = report_freq a; pv = am_votes a; th = am_thermal a;
          v0 = \<lparr>vt_freq = sys_fmax (am_sys a), vt_reason = 0, vt_kvm = NO_THROTTLE\<rparr>;
          v1 = (if \<not> non_redund_ps (am_cfg a) \<and> oversubscription a \<and> tbl OCC_MODE_OVERSUB \<noteq> 0
                then lower (tbl OCC_MODE_OVERSUB) REASON_OVERSUB vt_kvm v0 else v0);
          v2 = (if vrm_fault_status (am_sys a) \<noteq> 0 \<and> tbl OCC_MODE_VRM_N \<noteq> 0
                then lower (tbl OCC_MODE_VRM_N) REASON_VRM_N vt_kvm v1 else v1);
          v3 = lower (ppb_fmax pv) REASON_PPB (\<lambda>v. if rep \<le> vt_freq v then PCAP_EXCEED_REPORT else POWERCAP) v2;
          v4 = lower (pmax_clip_freq pv) REASON_PMAX (\<lambda>_. POWER_SUPPLY_FAILURE) v3;
          v5 = lower (apss_pmax_clip_freq pv) REASON_APSS_PMAX (\<lambda>_. POWER_SUPPLY_FAILURE) v4;
          v6 = lower (freq_request (thermalproc th)) REASON_PROC_THRM
                 (\<lambda>v. if rep \<le> vt_freq v then PROC_OVERTEMP_EXCEED_REPORT else CPU_OVERTEMP) v5
      in lower (freq_request (thermalvdd th)) REASON_VDD_THRM
           (\<lambda>v. if rep \<le> vt_freq v then VDD_OVERTEMP_EXCEED_REPORT else VDD_OVERTEMP) v6)"

definition soft_min_blockers :: u32 where
  "soft_min_blockers = REASON_PROC_THRM OR REASON_VDD_THRM OR REASON_PPB OR REASON_PMAX OR REASON_CONN_OC"

text \<open>The DPS request and the soft boundaries of the partition.\<close>

definition soft_bounds :: "u32 \<Rightarrow> amec_part option \<Rightarrow> vote \<Rightarrow> vote" where
  "soft_bounds chip_reason part v =
     (case part of
        None \<Rightarrow> v
      | Some p \<Rightarrow>
          if vt_freq v < soft_fmin p then
            (if chip_reason AND soft_min_blockers = 0
             then v\<lparr>vt_freq := soft_fmin p, vt_reason := REASON_SOFT_MIN\<rparr> else v)
          else if vt_freq v > soft_fmax p
          then v\<lparr>vt_freq := soft_fmax p, vt_reason := REASON_SOFT_MAX\<rparr> else v)"

definition dps_vote :: "amec \<Rightarrow> u32 \<Rightarrow> nat \<Rightarrow> vote \<Rightarrow> vote" where
  "dps_vote a chip_reason k v =
     (if \<not> kvm (am_cfg a) then
        soft_bounds chip_reason (amec_part_find_by_core k (am_freqs a))
          (lower (dps_freq (cores (am_freqs a) k)) REASON_UTIL vt_kvm v)
      else v)"

text \<open>The request of the master for idle power save, and its two overrides.\<close>

definition master_vote :: "amec_freqs \<Rightarrow> vote \<Rightarrow> vote" where
  "master_vote f v =
     (let v2 = (if slv_ips_freq_request f \<noteq> 0 then lower (slv_ips_freq_request f) REASON_IPS vt_kvm v else v);
          v3 = (if foverride_enable f \<noteq> 0
                then (if foverride f \<noteq> 0 then v2\<lparr>vt_freq := foverride f, vt_reason := REASON_OVERRIDE\<rparr> else v2)
                       \<lparr>vt_kvm := MANUFACTURING_OVERRIDE\<rparr>
                else v2)
      in if pstate_foverride_enable f \<noteq> 0 \<and> pstate_foverride f \<noteq> 0
         then v3\<lparr>vt_freq := pstate_foverride f, vt_reason := REASON_OVERRIDE\<rparr> else v3)"

text \<open>The system minimum, and the override of a single core.\<close>

definition floor_vote :: "u16 \<Rightarrow> vote \<Rightarrow> vote" where
  "floor_vote fm v = (if vt_freq v < fm then v\<lparr>vt_freq := fm\<rparr> else v)"

definition parm_vote :: "amec_freqs \<Rightarrow> nat \<Rightarrow> vote \<Rightarrow> vote" where
  "parm_vote f k v =
     (if parm_f_override_enable f \<noteq> 0 \<and> parm_f_override (cores f k) > 0
      then v\<lparr>vt_freq := parm_f_override (cores f k), vt_reason := REASON_OVERRIDE_CORE\<rparr> else v)"

text \<open>The vote of one core, from the vote of the chip; the chip's reason is passed apart.\<close>

definition core_vote :: "amec \<Rightarrow> u32 \<Rightarrow> nat \<Rightarrow> vote \<Rightarrow> vote" where
  "core_vote a chip_reason k v =
     parm_vote (am_freqs a) k (floor_vote (sys_fmin (am_sys a))
       (master_vote (am_freqs a) (dps_vote a chip_reason k v)))"

definition core_online :: "nat \<Rightarrow> amec_glob \<Rightarrow> bool" where
  "core_online k g \<longleftrightarrow> drop_bit k 0x80000000 AND G_present_cores g \<noteq> 0 \<and>
     drop_bit k 0x80000000 AND G_core_offline_mask g = 0"

definition power_limited :: "u8 \<Rightarrow> u32 \<Rightarrow> bool" where
  "power_limited mode reason \<longleftrightarrow>
     unat mode \<notin> {OCC_MODE_DYN_POWER_SAVE, OCC_MODE_DYN_POWER_SAVE_FP, OCC_MODE_NOM_PERFORMANCE,
       OCC_MODE_MAX_PERFORMANCE, OCC_MODE_FMF, OCC_MODE_NOCHANGE} \<and> reason AND NON_DPS_POWER_LIMITED \<noteq> 0"

text \<open>The locals of the loop over the cores.\<close>

record vbox =
  vb_max :: u16
  vb_min :: u16
  vb_current_reason :: u32
  vb_kvm :: u8

definition vote_core :: "vote \<Rightarrow> nat \<Rightarrow> vbox \<times> amec \<Rightarrow> vbox \<times> amec" where
  "vote_core chip k = (\<lambda>(b, a).
     if core_online k (am_glob a) then
       (let v = core_vote a (vt_reason chip) k (chip\<lparr>vt_kvm := vb_kvm b\<rparr>);
            a1 = upd_freqs (\<lambda>f. f\<lparr>cores := (cores f)(k := (cores f k)
                    \<lparr>f_request := vt_freq v, f_reason := vt_reason v, parm_f_reason := vt_reason v\<rparr>)\<rparr>) a;
            b1 = (if vt_freq v < vb_min b then b\<lparr>vb_min := vt_freq v, vb_current_reason := vt_reason v\<rparr> else b);
            a2 = upd_glob (\<lambda>g. g\<lparr>G_non_dps_power_limited := power_limited (occ_mode g) (vt_reason v)\<rparr>) a1;
            b2 = (if vt_freq v > vb_max b1 then b1\<lparr>vb_max := vt_freq v\<rparr> else b1)
        in (b2\<lparr>vb_kvm := vt_kvm v\<rparr>, a2))
     else (b, upd_freqs (\<lambda>f. f\<lparr>cores := (cores f)(k := (cores f k)\<lparr>f_request := 0, f_reason := 0\<rparr>)\<rparr>) a))"

definition clip_history :: "vbox \<Rightarrow> amec \<Rightarrow> amec" where
  "clip_history b a =
     (let a1 = upd_freqs (\<lambda>f. f\<lparr>core_min_freq := vb_min b\<rparr>) a; r = vb_current_reason b
      in if vb_min b < sys_fmax (am_sys a) then
           (if r = L_last_reason (am_freq_st a1) then
              upd_freqs (\<lambda>f. if current_clip_count f \<noteq> 0xFF then f\<lparr>current_clip_count := current_clip_count f + 1\<rparr> else f) a1
            else
              upd_freqs (\<lambda>f. (if chip_f_reason_history f AND r = 0
                    then f\<lparr>chip_f_reason_history := chip_f_reason_history f OR r\<rparr> else f)\<lparr>current_clip_count := 1\<rparr>)
                (upd_freq_st (\<lambda>s. s\<lparr>L_last_reason := r\<rparr>) a1))
         else upd_freqs (\<lambda>f. f\<lparr>current_clip_count := 0\<rparr>) (upd_freq_st (\<lambda>s. s\<lparr>L_last_reason := 0\<rparr>) a1))"

definition report_throttle :: "u8 \<Rightarrow> amec \<Rightarrow> amec" where
  "report_throttle r a =
     (if r \<noteq> G_amec_opal_proc_throt_reason (am_glob a) then
        (let a1 = upd_glob (\<lambda>g. g\<lparr>G_amec_opal_proc_throt_reason := r\<rparr>) a
         in if kvm (am_cfg a) then post_dcom a1 else a1)
      else a)"

definition amec_slv_proc_voting_box :: "amec \<Rightarrow> amec" where
  "amec_slv_proc_voting_box a =
     (let a0 = (if \<not> G_allowPstates (am_glob a) \<and> (occ_mode (am_glob a) \<noteq> 0 \<or> kvm (am_cfg a))
                then upd_glob (\<lambda>g. g\<lparr>G_allowPstates := True\<rparr>) a else a);
          chip = chip_vote a0;
          b0 = \<lparr>vb_max = 0, vb_min = sys_fmax (am_sys a0), vb_current_reason = 0, vb_kvm = vt_kvm chip\<rparr>;
          (b, a1) = fold (vote_core chip) [0..<MAX_NUM_CORES] (b0, a0);
          a2 = (if vb_max b \<noteq> 0
                then upd_freqs (\<lambda>f. f\<lparr>core_max_freq := vb_max b, proc_f_reason := vb_current_reason b\<rparr>) a1 else a1);
          a3 = report_throttle (vb_kvm b) a2;
          a4 = update_amecsensor PROCPWRTHROT (if vb_kvm b = PCAP_EXCEED_REPORT \<or> vb_kvm b = POWERCAP then 1 else 0) a3
      in clip_history b a4)"

section \<open>The frequency state machine\<close>

record fsm =
  fs_pmax :: "nat \<Rightarrow> u8"
  fs_chip :: u8
  fs_core :: "nat \<Rightarrow> bool"
  fs_quad :: bool

definition fsm_core :: "amec \<Rightarrow> nat \<Rightarrow> nat \<Rightarrow> fsm \<Rightarrow> fsm" where
  "fsm_core a quad idx s =
     (let req = f_request (cores (am_freqs a) (quad * NUM_CORES_PER_QUAD + idx))
      in if req \<noteq> 0 then
           (let s1 = s\<lparr>fs_core := (fs_core s)(quad := True), fs_quad := True\<rparr>;
                p = proc_freq2pstate (ucast req) a
            in if fs_pmax s1 quad < p then
                 (let s2 = s1\<lparr>fs_pmax := (fs_pmax s1)(quad := p)\<rparr>
                  in if fs_chip s2 < p then s2\<lparr>fs_chip := p\<rparr> else s2)
               else s1)
         else s)"

definition fsm_quad :: "fsm \<Rightarrow> nat \<Rightarrow> amec \<Rightarrow> amec" where
  "fsm_quad s quad a =
     (let st = am_freq_st a;
          q = quad_pstate (mnfg_parms (am_freqs a)) quad;
          p0 = (if fs_core s quad then fs_pmax s quad else fs_chip s);
          (p, st1) = (if q \<noteq> 0xFF
                then (if q > p0 then q else p0,
                      if \<not> L_mfg_clear_trace st quad then st\<lparr>L_mfg_set_trace := (L_mfg_set_trace st)(quad := True)\<rparr> else st)
                else (p0, if L_mfg_clear_trace st quad
                          then st\<lparr>L_mfg_clear_trace := (L_mfg_clear_trace st)(quad := False)\<rparr> else st));
          st2 = (if L_mfg_set_trace st1 quad
                 then st1\<lparr>L_mfg_set_trace := (L_mfg_set_trace st1)(quad := False),
                          L_mfg_clear_trace := (L_mfg_clear_trace st1)(quad := True)\<rparr> else st1)
      in upd_glob (\<lambda>g. g\<lparr>G_desired_pstate := (G_desired_pstate g)(quad := p)\<rparr>) (upd_freq_st (\<lambda>_. st2) a))"

definition fsm_scan :: "amec \<Rightarrow> fsm" where
  "fsm_scan a =
     fold (\<lambda>quad s. fold (fsm_core a quad) [0..<NUM_CORES_PER_QUAD] s) [0..<MAXIMUM_QUADS]
       \<lparr>fs_pmax = (\<lambda>_. 0), fs_chip = 0, fs_core = (\<lambda>_. False), fs_quad = False\<rparr>"

definition amec_slv_freq_smh :: "amec \<Rightarrow> amec" where
  "amec_slv_freq_smh a =
     (let s = fsm_scan a in if fs_quad s then fold (fsm_quad s) [0..<MAXIMUM_QUADS] a else a)"

section \<open>The memory voting box\<close>

definition MEM_REASON_SLEW :: u8 where "MEM_REASON_SLEW = 3"
definition POWER_CAP :: u8 where "POWER_CAP = 1"
definition MEMORY_OVER_TEMP :: u8 where "MEMORY_OVER_TEMP = 2"

definition mem_lower :: "u16 \<Rightarrow> u8 \<Rightarrow> u16 \<times> u8 \<times> u8 \<Rightarrow> u16 \<times> u8 \<times> u8" where
  "mem_lower req reason = (\<lambda>(vt, r, kr). if vt > req then (req, reason, MEMORY_OVER_TEMP) else (vt, r, kr))"

definition amec_slv_mem_voting_box :: "amec \<Rightarrow> amec" where
  "amec_slv_mem_voting_box a =
     (let t = am_thermal a; f = am_freqs a;
          kr0 = (if active_mem_level (am_pcap a) \<noteq> 0 then POWER_CAP else NO_THROTTLE);
          v1 = mem_lower (speed_request (thermalcent t)) 1 (1000, 0, kr0);
          v2 = mem_lower (speed_request (thermaldimm t)) 2 v1;
          v3 = mem_lower (speed_request (thermalmcdimm t)) 4 v2;
          v4 = mem_lower (speed_request (thermalpmic t)) 5 v3;
          (vt, r, kvm_reason) = mem_lower (speed_request (thermalmcext t)) 6 v4;
          a1 = (if mem_autoslew (mnfg_parms f) then
                  (if mem_speed_request f \<ge> 1000 then
                     upd_freq_st (\<lambda>s. s\<lparr>l_slew_step := - 10\<rparr>) (upd_freqs (\<lambda>f. f\<lparr>mnfg_parms :=
                       (mnfg_parms f)\<lparr>mem_slew_counter := mem_slew_counter (mnfg_parms f) + 1\<rparr>\<rparr>) a)
                   else if mem_speed_request f \<le> 10 then
                     upd_freq_st (\<lambda>s. s\<lparr>l_slew_step := 10\<rparr>) (upd_freqs (\<lambda>f. f\<lparr>mnfg_parms :=
                       (mnfg_parms f)\<lparr>mem_slew_counter := mem_slew_counter (mnfg_parms f) + 1\<rparr>\<rparr>) a)
                   else a)
                else a);
          (vt1, r1) = (if mem_autoslew (mnfg_parms f)
                       then (mem_speed_request f + l_slew_step (am_freq_st a1), MEM_REASON_SLEW) else (vt, r));
          a2 = upd_freqs (\<lambda>f. f\<lparr>mem_throttle_reason := r1, mem_speed_request := vt1\<rparr>) a1;
          a3 = upd_freq_st (\<lambda>s. s\<lparr>L_throttle_traced := (r1 \<noteq> 0)\<rparr>) a2
      in if kvm (am_cfg a3) \<and> kvm_reason \<noteq> G_amec_opal_mem_throt_reason (am_glob a3)
         then post_dcom (upd_glob (\<lambda>g. g\<lparr>G_amec_opal_mem_throt_reason := kvm_reason\<rparr>) a3) else a3)"

section \<open>The performance check\<close>

definition AMEC_SLAVE_CHECK_PERFORMANCE :: u16 where "AMEC_SLAVE_CHECK_PERFORMANCE = 0x0C07"
definition OVERSUB_LIMIT_ALERT :: u8 where "OVERSUB_LIMIT_ALERT = 0x33"
definition PCAP_THROTTLE_POWER_LIMIT :: u8 where "PCAP_THROTTLE_POWER_LIMIT = 0x61"
definition ERC_AMEC_SLAVE_OVS_STATE :: u16 where "ERC_AMEC_SLAVE_OVS_STATE = 0x002D"
definition ERC_AMEC_SLAVE_POWERCAP :: u16 where "ERC_AMEC_SLAVE_POWERCAP = 0x002E"
definition ERRL_ACTIONS_CONSOLIDATE_ERRORS :: u8 where "ERRL_ACTIONS_CONSOLIDATE_ERRORS = 0x01"

definition log_oversub :: "amec \<Rightarrow> panic_code + amec" where
  "log_oversub a =
     kbind (createErrl AMEC_SLAVE_CHECK_PERFORMANCE OVERSUB_LIMIT_ALERT ERC_AMEC_SLAVE_OVS_STATE ERRL_SEV_PREDICTIVE
              TrNull DEFAULT_TRACE_SIZE 1 0 (am_errl a))
       (\<lambda>(h, e0).
          let e1 = addCalloutToErrl h ERRL_CALLOUT_TYPE_COMPONENT_ID ERRL_COMPONENT_ID_OVERSUBSCRIPTION ERRL_CALLOUT_PRIORITY_HIGH e0;
              e2 = addCalloutToErrl h ERRL_CALLOUT_TYPE_HUID (ucast (apss_huid (am_cfg a))) ERRL_CALLOUT_PRIORITY_MED e1;
              e3 = addCalloutToErrl h ERRL_CALLOUT_TYPE_COMPONENT_ID ERRL_COMPONENT_ID_FIRMWARE ERRL_CALLOUT_PRIORITY_LOW e2;
              e4 = setErrlActions h ERRL_ACTIONS_CONSOLIDATE_ERRORS e3
          in Inr (set_errl (snd (commitErrl (Some h) e4)) a))"

definition log_pcap :: "u16 \<Rightarrow> amec \<Rightarrow> panic_code + amec" where
  "log_pcap pwr a =
     kbind (createErrl AMEC_SLAVE_CHECK_PERFORMANCE PCAP_THROTTLE_POWER_LIMIT ERC_AMEC_SLAVE_POWERCAP (l_pcap_sev (am_freq_st a))
              TrNull DEFAULT_TRACE_SIZE (ucast pwr) (ucast (system_pcap (am_cfg a))) (am_errl a))
       (\<lambda>(h, e0).
          let e1 = addCalloutToErrl h ERRL_CALLOUT_TYPE_COMPONENT_ID ERRL_COMPONENT_ID_FIRMWARE ERRL_CALLOUT_PRIORITY_HIGH e0;
              e2 = addCalloutToErrl h ERRL_CALLOUT_TYPE_HUID (ucast (apss_huid (am_cfg a))) ERRL_CALLOUT_PRIORITY_HIGH e1;
              e3 = setErrlActions h ERRL_ACTIONS_CONSOLIDATE_ERRORS e2
          in Inr (set_errl (snd (commitErrl (Some h) e3)) (upd_freq_st (\<lambda>s. s\<lparr>l_pcap_sev := ERRL_SEV_INFORMATIONAL\<rparr>) a)))"

definition ms_since :: "u64 \<Rightarrow> amec \<Rightarrow> u32" where
  "ms_since t a = ucast ((amec_now (am_glob a) - t) div (amec_tb_hz (am_glob a) div 1000))"

definition amec_slv_check_perf :: "amec \<Rightarrow> panic_code + amec" where
  "amec_slv_check_perf a =
     (let s = am_freq_st a; now = amec_now (am_glob a); pwr = amecsensor PWRSYS a
      in if \<not> G_non_dps_power_limited (am_glob a) then
           Inr (upd_freq_st (\<lambda>s. s\<lparr>l_throttle_traced := False\<rparr>) a)
         else if oversubscription a then
           (if l_prev_ovs_state s then Inr a
            else log_oversub (upd_freq_st (\<lambda>s. s\<lparr>l_prev_ovs_state := True, l_throttle_traced := True, l_time := now\<rparr>) a))
         else if uint pwr > uint (system_pcap (am_cfg a)) - PDROP_THRESH \<and> current_pcap (am_cfg a) = 0 then
           (if l_prev_pcap_state s then Inr a
            else log_pcap pwr (upd_freq_st (\<lambda>s. s\<lparr>l_prev_pcap_state := True, l_throttle_traced := True, l_time := now\<rparr>) a))
         else if \<not> l_throttle_traced s \<and> ms_since (l_time s) a > 3600000 then
           Inr (upd_freq_st (\<lambda>s. s\<lparr>l_throttle_traced := True, l_time := now\<rparr>) a)
         else Inr a)"

end
