(* ===== verification/Amec_Controller.thy ===== *)
theory Amec_Controller imports Amec_Data begin

text \<open>
  The thermal control loops of src/occ_405/amec/amec_controller.c: a proportional controller
  per temperature source, each with a speed request and a fractional remainder that is carried
  to the next tick. The arithmetic the five loops repeat is \<open>p_control\<close>; each loop is a
  definition of its own with its own guards, sensor, gain and limits.
\<close>

section \<open>The common arithmetic\<close>

definition AMEC_MEMORY_MAX_STEP :: int where "AMEC_MEMORY_MAX_STEP = 1000"
definition AMEC_MEMORY_MIN_STEP :: int where "AMEC_MEMORY_MIN_STEP = 10"
definition AMEC_MEMORY_STEP_SIZE :: int where "AMEC_MEMORY_STEP_SIZE = 10"

text \<open>(UINT16_MAX/4)/10 as the preprocessor leaves it, and its negation -(UINT16_MAX/4)/10.\<close>

definition AMEC_MEMORY_SPEED_CHANGE_LIMIT :: int where "AMEC_MEMORY_SPEED_CHANGE_LIMIT = 65535 div 4 div 10"
definition neg_memory_change_limit :: int where "neg_memory_change_limit = - (65535 div 4 div 10)"

text \<open>l_throttle_chg between its two limits.\<close>

definition clip_chg :: "int \<Rightarrow> int \<Rightarrow> u16 \<Rightarrow> u16" where
  "clip_chg lim neg_lim chg =
     (if sint chg > lim then store16 lim
      else if sint chg < neg_lim then store16 neg_lim else chg)"

text \<open>
  One tick of a loop: \<open>narrow\<close> is the conversion applied to l_throttle_chg times the step.
  Gives the new speed request and the new remainder.
\<close>

definition p_control ::
  "(int \<Rightarrow> int) \<Rightarrow> int \<Rightarrow> int \<Rightarrow> int \<Rightarrow> int \<Rightarrow> int \<Rightarrow> u16 \<Rightarrow> u16 \<Rightarrow> u16 \<Rightarrow> u16 \<Rightarrow> u16 \<Rightarrow> u16 \<times> u16" where
  "p_control narrow lim neg_lim step max_s min_s set_pt temp gain speed res =
     (let l_error = store16 (uint set_pt - uint temp);
          l_throttle = sint l_error * uint gain;
          l_residue = store16 l_throttle;
          l_throttle_chg = clip_chg lim neg_lim (store16 (l_throttle div 65536));
          l_speed = store16 (uint speed + narrow (sint l_throttle_chg * step));
          res1 = res + l_residue;
          l_speed1 = (if res1 < res then store16 (sint l_speed + step) else l_speed);
          l_speed2 = (if sint l_speed1 > max_s then store16 max_s else l_speed1);
          l_speed3 = (if sint l_speed2 < min_s then store16 min_s else l_speed2)
      in (l_speed3, res1))"

definition amec_controller_speed2freq :: "u16 \<Rightarrow> u16 \<Rightarrow> amec \<Rightarrow> u16" where
  "amec_controller_speed2freq i_speed i_fmax a =
     (if i_speed \<ge> max_speed (am_sys a) then 0xFFFF
      else ucast ((ucast i_speed :: u32) * ucast i_fmax div 1000))"

section \<open>Processor and VRM Vdd\<close>

definition run_cpu_loop :: "(int \<Rightarrow> int) \<Rightarrow> u16 \<Rightarrow> amec \<Rightarrow> amec_controller \<Rightarrow> amec_controller" where
  "run_cpu_loop narrow temp a c =
     (let y = am_sys a;
          (sp, rs) = p_control narrow (sint (speed_step_limit y)) (sint (store16 (- uint (speed_step_limit y))))
             (uint (speed_step y)) (uint (max_speed y)) (uint (min_speed y))
             (setpoint c) temp (Pgain c) (speed_request c) (total_res c)
      in c\<lparr>total_res := rs, speed_request := sp, freq_request := amec_controller_speed2freq sp (sys_fmax y) a\<rparr>)"

definition upd_thermal :: "(amec_thermal \<Rightarrow> amec_thermal) \<Rightarrow> amec \<Rightarrow> amec" where
  "upd_thermal f a = a\<lparr>am_thermal := f (am_thermal a)\<rparr>"

definition amec_controller_proc_thermal :: "amec \<Rightarrow> amec" where
  "amec_controller_proc_thermal a =
     (let temp = sample_by_gsid TEMPPROCTHRM a * 10;
          c = thermalproc (am_thermal a)
      in if setpoint c = temp then a
         else (let c1 = run_cpu_loop id temp a c;
                   a1 = upd_thermal (\<lambda>t. t\<lparr>thermalproc := c1\<rparr>) a
               in if freq_request c1 < sys_fmax (am_sys a)
                  then update_amecsensor PROCOTTHROT 1 a1 else update_amecsensor PROCOTTHROT 0 a1))"

definition amec_controller_vrm_vdd_thermal :: "amec \<Rightarrow> amec" where
  "amec_controller_vrm_vdd_thermal a =
     (let temp = sample_by_gsid TEMPVDD a * 10
      in upd_thermal (\<lambda>t. t\<lparr>thermalvdd := run_cpu_loop (\<lambda>x. sint (store16 x)) temp a (thermalvdd t)\<rparr>) a)"

section \<open>Memory\<close>

definition run_mem_loop :: "u16 \<Rightarrow> amec_controller \<Rightarrow> amec_controller" where
  "run_mem_loop temp c =
     (let (sp, rs) = p_control id AMEC_MEMORY_SPEED_CHANGE_LIMIT neg_memory_change_limit AMEC_MEMORY_STEP_SIZE
             AMEC_MEMORY_MAX_STEP AMEC_MEMORY_MIN_STEP (setpoint c) temp (Pgain c) (speed_request c) (total_res c)
      in c\<lparr>total_res := rs, speed_request := sp\<rparr>)"

text \<open>The four kinds of FRU the \<open>DIMM\<close> sensors can be, in the order of l_dimm_types.\<close>

datatype dimm_type = DATA_FRU_DIMM | DATA_FRU_MEMCTRL_DRAM | DATA_FRU_PMIC | DATA_FRU_MEMCTRL_EXT

definition MEM_TYPE_OCM :: u8 where "MEM_TYPE_OCM = 0xA0"
definition OCM_DTS_TYPE_DIMM_MASK :: u8 where "OCM_DTS_TYPE_DIMM_MASK = 0x01"
definition OCM_DTS_TYPE_MEMCTRL_DRAM_MASK :: u8 where "OCM_DTS_TYPE_MEMCTRL_DRAM_MASK = 0x02"
definition OCM_DTS_TYPE_PMIC_MASK :: u8 where "OCM_DTS_TYPE_PMIC_MASK = 0x04"
definition OCM_DTS_TYPE_MEMCTRL_EXT_MASK :: u8 where "OCM_DTS_TYPE_MEMCTRL_EXT_MASK = 0x08"

fun get_ctl :: "dimm_type \<Rightarrow> amec_thermal \<Rightarrow> amec_controller" where
  "get_ctl DATA_FRU_DIMM t = thermaldimm t"
| "get_ctl DATA_FRU_MEMCTRL_DRAM t = thermalmcdimm t"
| "get_ctl DATA_FRU_PMIC t = thermalpmic t"
| "get_ctl DATA_FRU_MEMCTRL_EXT t = thermalmcext t"

fun put_ctl :: "dimm_type \<Rightarrow> amec_controller \<Rightarrow> amec_thermal \<Rightarrow> amec_thermal" where
  "put_ctl DATA_FRU_DIMM c t = t\<lparr>thermaldimm := c\<rparr>"
| "put_ctl DATA_FRU_MEMCTRL_DRAM c t = t\<lparr>thermalmcdimm := c\<rparr>"
| "put_ctl DATA_FRU_PMIC c t = t\<lparr>thermalpmic := c\<rparr>"
| "put_ctl DATA_FRU_MEMCTRL_EXT c t = t\<lparr>thermalmcext := c\<rparr>"

fun dimm_gsid :: "dimm_type \<Rightarrow> nat" where
  "dimm_gsid DATA_FRU_DIMM = TEMPDIMMTHRM"
| "dimm_gsid DATA_FRU_MEMCTRL_DRAM = TEMPMCDIMMTHRM"
| "dimm_gsid DATA_FRU_PMIC = TEMPPMICTHRM"
| "dimm_gsid DATA_FRU_MEMCTRL_EXT = TEMPMCEXTTHRM"

fun dimm_timeout :: "dimm_type \<Rightarrow> amec \<Rightarrow> bool" where
  "dimm_timeout DATA_FRU_DIMM a =
     ((G_dimm_temp_expired_dw0 (am_glob a) \<noteq> 0 \<or> G_dimm_temp_expired_dw1 (am_glob a) \<noteq> 0) \<and>
      (mem_type (am_cfg a) \<noteq> MEM_TYPE_OCM \<or>
       G_ocm_dts_type_expired_bitmap (am_glob a) AND OCM_DTS_TYPE_DIMM_MASK \<noteq> 0))"
| "dimm_timeout DATA_FRU_MEMCTRL_DRAM a =
     (G_ocm_dts_type_expired_bitmap (am_glob a) AND OCM_DTS_TYPE_MEMCTRL_DRAM_MASK \<noteq> 0)"
| "dimm_timeout DATA_FRU_PMIC a =
     (G_ocm_dts_type_expired_bitmap (am_glob a) AND OCM_DTS_TYPE_PMIC_MASK \<noteq> 0)"
| "dimm_timeout DATA_FRU_MEMCTRL_EXT a =
     (G_ocm_dts_type_expired_bitmap (am_glob a) AND OCM_DTS_TYPE_MEMCTRL_EXT_MASK \<noteq> 0)"

definition dimm_step :: "dimm_type \<Rightarrow> amec \<Rightarrow> amec" where
  "dimm_step d a =
     (let c = get_ctl d (am_thermal a);
          winner = (if dimm_timeout d a then setpoint c + 10 else sample_by_gsid (dimm_gsid d) a * 10)
      in if winner = 0 \<or> setpoint c = winner then a
         else upd_thermal (put_ctl d (run_mem_loop winner c)) a)"

definition dimm_types :: "amec \<Rightarrow> dimm_type list" where
  "dimm_types a =
     take (if mem_type (am_cfg a) = MEM_TYPE_OCM then 4 else 1)
       [DATA_FRU_DIMM, DATA_FRU_MEMCTRL_DRAM, DATA_FRU_PMIC, DATA_FRU_MEMCTRL_EXT]"

definition amec_controller_dimm_thermal :: "amec \<Rightarrow> amec" where
  "amec_controller_dimm_thermal a =
     (let a1 = fold dimm_step (dimm_types a) a;
          t = am_thermal a1
      in if uint (speed_request (thermaldimm t)) < AMEC_MEMORY_MAX_STEP \<or>
            uint (speed_request (thermalmcdimm t)) < AMEC_MEMORY_MAX_STEP \<or>
            uint (speed_request (thermalpmic t)) < AMEC_MEMORY_MAX_STEP \<or>
            uint (speed_request (thermalmcext t)) < AMEC_MEMORY_MAX_STEP
         then update_amecsensor MEMOTTHROT 1 a1 else update_amecsensor MEMOTTHROT 0 a1)"

definition amec_controller_membuf_thermal :: "amec \<Rightarrow> amec" where
  "amec_controller_membuf_thermal a =
     (let c = thermalcent (am_thermal a);
          winner = (if G_cent_temp_expired_bitmap (am_glob a) \<noteq> 0 then setpoint c + 10
                    else sample_by_gsid TEMPCENT a * 10)
      in if setpoint c = winner then a
         else upd_thermal (\<lambda>t. t\<lparr>thermalcent := run_mem_loop winner c\<rparr>) a)"

section \<open>What one tick of a loop computes\<close>

text \<open>Bounds that keep a loop's arithmetic inside 16 bits.\<close>

definition loop_range :: "int \<Rightarrow> int \<Rightarrow> int \<Rightarrow> int \<Rightarrow> bool" where
  "loop_range lim step max_s min_s \<longleftrightarrow>
     0 \<le> lim \<and> lim < 32768 \<and> 0 \<le> step \<and> 0 \<le> min_s \<and> min_s \<le> max_s \<and> max_s + (lim + 1) * step < 32768"

text \<open>
  The intended function of a tick: the control effort (error times gain, in 1/65536 of a step)
  is added to the remainder; its whole part, clipped, moves the speed; the rest is the new
  remainder. No width appears in it.
\<close>

definition effort :: "u16 \<Rightarrow> u16 \<Rightarrow> u16 \<Rightarrow> int" where
  "effort set_pt temp gain = (uint set_pt - uint temp) * uint gain"

definition clamp :: "int \<Rightarrow> int \<Rightarrow> int \<Rightarrow> int" where
  "clamp lo hi x = max lo (min hi x)"

definition moved :: "int \<Rightarrow> int \<Rightarrow> u16 \<Rightarrow> int" where
  "moved lim eff res = clamp (- lim) lim (eff div 65536) + (eff mod 65536 + uint res) div 65536"

definition ideal_speed :: "int \<Rightarrow> int \<Rightarrow> int \<Rightarrow> int \<Rightarrow> int \<Rightarrow> u16 \<Rightarrow> u16 \<Rightarrow> int" where
  "ideal_speed lim step max_s min_s eff speed res = clamp min_s max_s (uint speed + moved lim eff res * step)"

lemma clip_chg_eq:
  assumes "0 \<le> lim" "lim < 32768" "-32768 \<le> c" "c < 32768"
  shows "sint (clip_chg lim (- lim) (store16 c)) = clamp (- lim) lim c"
  using assms sint_store16 [of "- lim"] by (auto simp: clip_chg_def sint_store16 clamp_def min_def max_def)

lemma wrap_once: "x mod 65536 = (if x < 65536 then x else x - 65536)" if "0 \<le> x" "x < 131072" for x :: int
  using that minus_mod_self2 [of x 65536] mod_pos_pos_trivial [of "x - 65536" 65536] by simp

lemma carry_iff: "res + store16 e < res \<longleftrightarrow> uint res + e mod 65536 \<ge> 65536" for res :: u16
proof -
  have b: "uint res < 65536" "0 \<le> uint res" "0 \<le> e mod 65536" "e mod 65536 < 65536"
    using uint_u16_bounds by simp_all
  have "uint (res + store16 e) = (uint res + e mod 65536) mod 65536"
    by (simp add: uint_word_ariths uint_store16)
  also have "\<dots> = (if uint res + e mod 65536 < 65536 then uint res + e mod 65536 else uint res + e mod 65536 - 65536)"
    by (rule wrap_once) (use b in linarith)+
  finally show ?thesis unfolding word_less_def using b by (simp split: if_splits)
qed

lemma p_control_eq:
  assumes r: "loop_range lim step max_s min_s" and sp: "uint speed \<le> max_s"
    and e: "\<bar>uint set_pt - uint temp\<bar> < 32768"
    and nw: "\<And>x. -32768 \<le> x \<Longrightarrow> x < 32768 \<Longrightarrow> narrow x = x"
    and eff: "eff = effort set_pt temp gain"
  shows "p_control narrow lim (- lim) step max_s min_s set_pt temp gain speed res =
    (store16 (ideal_speed lim step max_s min_s eff speed res), store16 (eff + uint res))"
proof -
  have lim: "0 \<le> lim" "lim < 32768" and st: "0 \<le> step" and mm: "0 \<le> min_s" "min_s \<le> max_s"
    and top: "max_s + lim * step + step < 32768"
    using r by (auto simp: loop_range_def algebra_simps)
  have err: "sint (store16 (uint set_pt - uint temp)) * uint gain = eff"
    unfolding eff effort_def by (subst sint_store16) (use e in auto)
  define q where "q = eff div 65536"
  have "\<bar>eff\<bar> < 32768 * 65536"
  proof -
    have "\<bar>eff\<bar> = \<bar>uint set_pt - uint temp\<bar> * uint gain" by (simp add: eff effort_def abs_mult)
    also have "\<dots> \<le> 32767 * uint gain" using e by (intro mult_right_mono) simp_all
    also have "\<dots> \<le> 32767 * 65535" using uint_u16_bounds [of gain] by simp
    finally show ?thesis by simp
  qed
  then have q: "-32768 \<le> q" "q < 32768" unfolding q_def by linarith+
  define m where "m = clamp (- lim) lim q"
  have m: "sint (clip_chg lim (- lim) (store16 q)) = m" unfolding m_def by (rule clip_chg_eq [OF lim q])
  have mb: "- lim \<le> m" "m \<le> lim" using lim by (auto simp: m_def clamp_def)
  have prod: "- (lim * step) \<le> m * step" "m * step \<le> lim * step"
    using mult_right_mono [OF mb(1) st] mult_right_mono [OF mb(2) st] by simp_all
  define v where "v = uint speed + m * step"
  have v: "-32768 \<le> v" "v + step < 32768" "-32768 \<le> m * step" "m * step < 32768"
    using prod top mm st sp uint_u16_bounds(1) [of speed] unfolding v_def by linarith+
  note nm = nw [OF v(3,4)]
  define k :: int where "k = (if res + store16 eff < res then 1 else 0)"
  have k: "k = (eff mod 65536 + uint res) div 65536"
  proof -
    have "0 \<le> eff mod 65536 + uint res" "eff mod 65536 + uint res < 131072"
      using uint_u16_bounds [of res] pos_mod_bound [of 65536 eff] pos_mod_sign [of 65536 eff] by linarith+
    moreover have "x div 65536 = (if x < 65536 then 0 else 1)" if "0 \<le> x" "x < 131072" for x :: int
      using that by (auto intro: div_pos_pos_trivial)
    ultimately show ?thesis unfolding k_def carry_iff by (auto simp: add.commute)
  qed
  define w where "w = (if res + store16 eff < res then store16 (sint (store16 v) + step) else store16 v)"
  have w: "w = store16 (v + k * step)" "-32768 \<le> v + k * step" "v + k * step < 32768"
    using v(1,2) st by (auto simp: w_def k_def sint_store16)
  have sw: "sint w = v + k * step" unfolding w(1) by (rule sint_store16 [OF w(2,3)])
  define w2 where "w2 = (if sint w > max_s then store16 max_s else w)"
  have w2: "w2 = store16 (min max_s (v + k * step))" "sint w2 = min max_s (v + k * step)"
    using sw w mm top lim st by (auto simp: w2_def sint_store16)
  have w3: "(if sint w2 < min_s then store16 min_s else w2) = store16 (max min_s (min max_s (v + k * step)))"
    unfolding w2(2) unfolding w2(1) by (auto simp: max_def)
  have vk: "max min_s (min max_s (v + k * step)) = ideal_speed lim step max_s min_s eff speed res"
    by (simp add: ideal_speed_def clamp_def moved_def v_def k m_def q_def algebra_simps)
  have "res + store16 eff = store16 (eff + uint res)" by (simp add: add.commute)
  then show ?thesis
    unfolding p_control_def Let_def err q_def [symmetric] m nm v_def [symmetric] w_def [symmetric] w2_def [symmetric] w3 vk
    by simp
qed

end
