(* ===== verification/Amec_Controller_Props.thy ===== *)
theory Amec_Controller_Props imports Amec_Controller Sensor_Props begin

text \<open>
  Facts about the thermal loops: range of the speed requests, direction of the reaction, the
  account of the control effort over a run of ticks, and the independence of the memory loops.
\<close>

section \<open>One tick\<close>

lemma ideal_range:
  assumes "0 \<le> min_s" "min_s \<le> max_s" "max_s < 32768"
  shows "uint (store16 (ideal_speed lim step max_s min_s eff speed res)) = ideal_speed lim step max_s min_s eff speed res"
    "min_s \<le> ideal_speed lim step max_s min_s eff speed res" "ideal_speed lim step max_s min_s eff speed res \<le> max_s"
  using assms by (auto simp: ideal_speed_def clamp_def uint_store16)

lemma range_max: "loop_range lim step max_s min_s \<Longrightarrow> 0 \<le> min_s \<and> min_s \<le> max_s \<and> max_s < 32768"
proof -
  assume r: "loop_range lim step max_s min_s"
  have "0 \<le> (lim + 1) * step" using r by (simp add: loop_range_def)
  with r show ?thesis unfolding loop_range_def by linarith
qed

lemma carry_01: "(eff mod 65536 + uint (res :: u16)) div 65536 \<in> {0, 1}"
proof -
  have "0 \<le> eff mod 65536 + uint res" "eff mod 65536 + uint res < 131072"
    using uint_u16_bounds [of res] pos_mod_bound [of 65536 eff] pos_mod_sign [of 65536 eff] by linarith+
  then show ?thesis by auto
qed

lemma moved_down: "eff < 0 \<Longrightarrow> 1 \<le> lim \<Longrightarrow> moved lim eff res \<le> 0"
  using carry_01 [of eff res] by (auto simp: moved_def clamp_def)

lemma moved_up: "0 \<le> eff \<Longrightarrow> 0 \<le> lim \<Longrightarrow> 0 \<le> moved lim eff res"
  using carry_01 [of eff res] by (auto simp: moved_def clamp_def)

lemma ideal_down:
  assumes "eff < 0" "1 \<le> lim" "0 \<le> step" shows "ideal_speed lim step max_s min_s eff speed res \<le> max min_s (uint speed)"
proof -
  have "moved lim eff res * step \<le> 0" using moved_down [OF assms(1,2)] assms(3) by (simp add: mult_nonpos_nonneg)
  then show ?thesis by (auto simp: ideal_speed_def clamp_def)
qed

lemma ideal_up:
  assumes "0 \<le> eff" "0 \<le> lim" "0 \<le> step" "uint speed \<le> max_s"
  shows "uint speed \<le> ideal_speed lim step max_s min_s eff speed res"
proof -
  have "0 \<le> moved lim eff res * step" using moved_up [OF assms(1,2)] assms(3) by simp
  then show ?thesis using assms(4) by (auto simp: ideal_speed_def clamp_def)
qed

text \<open>A tick that meets no limit moves speed and remainder by exactly the control effort.\<close>

lemma ideal_exact:
  assumes c: "- lim \<le> eff div 65536" "eff div 65536 \<le> lim"
    and s: "min_s \<le> uint speed + (eff + uint res) div 65536 * step" "uint speed + (eff + uint res) div 65536 * step \<le> max_s"
  shows "ideal_speed lim step max_s min_s eff speed res * 65536 + (eff + uint res) mod 65536 * step
    = uint speed * 65536 + uint res * step + eff * step"
proof -
  have "(eff mod 65536 + uint res + eff div 65536 * 65536) div 65536 = eff div 65536 + (eff mod 65536 + uint res) div 65536"
    by (rule div_mult_self1) simp
  moreover have "eff mod 65536 + uint res + eff div 65536 * 65536 = eff + uint res"
    using div_mult_mod_eq [of eff 65536] by linarith
  ultimately have "eff div 65536 + (eff mod 65536 + uint res) div 65536 = (eff + uint res) div 65536" by simp
  then have "moved lim eff res = (eff + uint res) div 65536" using c by (simp add: moved_def clamp_def)
  then have i: "ideal_speed lim step max_s min_s eff speed res = uint speed + (eff + uint res) div 65536 * step"
    using s by (simp add: ideal_speed_def clamp_def)
  define q r where "q = (eff + uint res) div 65536" and "r = (eff + uint res) mod 65536"
  have "q * 65536 + r = eff + uint res" by (simp add: q_def r_def)
  then have "(q * 65536 + r) * step = (eff + uint res) * step" by simp
  then show ?thesis unfolding i q_def [symmetric] r_def [symmetric] by (simp add: algebra_simps)
qed

section \<open>A run of ticks\<close>

text \<open>The loop of the source under a list of temperatures, and a run that meets no limit.\<close>

definition ctl_tick :: "int \<Rightarrow> int \<Rightarrow> int \<Rightarrow> int \<Rightarrow> u16 \<Rightarrow> u16 \<Rightarrow> u16 \<Rightarrow> u16 \<times> u16 \<Rightarrow> u16 \<times> u16" where
  "ctl_tick lim step max_s min_s set_pt gain temp = (\<lambda>(speed, res).
     p_control id lim (- lim) step max_s min_s set_pt temp gain speed res)"

fun free_run :: "int \<Rightarrow> int \<Rightarrow> int \<Rightarrow> int \<Rightarrow> u16 \<Rightarrow> u16 \<Rightarrow> u16 list \<Rightarrow> u16 \<times> u16 \<Rightarrow> bool" where
  "free_run lim step max_s min_s set_pt gain [] s = True"
| "free_run lim step max_s min_s set_pt gain (temp # ts) s =
     (let e = effort set_pt temp gain; v = uint (fst s) + (e + uint (snd s)) div 65536 * step in
      \<bar>uint set_pt - uint temp\<bar> < 32768 \<and> - lim \<le> e div 65536 \<and> e div 65536 \<le> lim \<and> min_s \<le> v \<and> v \<le> max_s \<and>
      free_run lim step max_s min_s set_pt gain ts (ctl_tick lim step max_s min_s set_pt gain temp s))"

lemma run_account:
  assumes r: "loop_range lim step max_s min_s" and "uint (fst s) \<le> max_s"
    and "free_run lim step max_s min_s set_pt gain ts s"
    and "s' = fold (ctl_tick lim step max_s min_s set_pt gain) ts s"
  shows "uint (fst s') * 65536 + uint (snd s') * step =
    uint (fst s) * 65536 + uint (snd s) * step + (\<Sum>temp \<leftarrow> ts. effort set_pt temp gain) * step"
  using assms(2-)
proof (induction ts arbitrary: s)
  case Nil
  then show ?case by simp
next
  case (Cons temp ts)
  obtain sp rs where s: "s = (sp, rs)" by (cases s)
  let ?e = "effort set_pt temp gain"
  have f: "\<bar>uint set_pt - uint temp\<bar> < 32768" "- lim \<le> ?e div 65536" "?e div 65536 \<le> lim"
    "min_s \<le> uint sp + (?e + uint rs) div 65536 * step" "uint sp + (?e + uint rs) div 65536 * step \<le> max_s"
    and next_ok: "free_run lim step max_s min_s set_pt gain ts (ctl_tick lim step max_s min_s set_pt gain temp s)"
    using Cons.prems(2) unfolding s by (simp_all add: Let_def)
  have t: "ctl_tick lim step max_s min_s set_pt gain temp s =
      (store16 (ideal_speed lim step max_s min_s ?e sp rs), store16 (?e + uint rs))"
    unfolding ctl_tick_def s prod.case
    by (rule p_control_eq [OF r]) (use Cons.prems(1) f(1) s in auto)
  have mm: "0 \<le> min_s" "min_s \<le> max_s" "max_s < 32768" using range_max [OF r] by auto
  note ir = ideal_range [OF mm, where lim = lim and step = step and eff = "?e" and speed = sp and res = rs]
  have le: "uint (fst (ctl_tick lim step max_s min_s set_pt gain temp s)) \<le> max_s"
    unfolding t fst_conv ir(1) by (rule ir(3))
  have "s' = fold (ctl_tick lim step max_s min_s set_pt gain) ts (ctl_tick lim step max_s min_s set_pt gain temp s)"
    using Cons.prems(3) by simp
  note ih = Cons.IH [OF le next_ok this]
  have "uint (fst s') * 65536 + uint (snd s') * step =
      ideal_speed lim step max_s min_s ?e sp rs * 65536 + (?e + uint rs) mod 65536 * step
        + (\<Sum>temp \<leftarrow> ts. effort set_pt temp gain) * step"
    unfolding ih unfolding t fst_conv snd_conv ir(1) unfolding uint_store16 ..
  also have "\<dots> = uint sp * 65536 + uint rs * step + ?e * step + (\<Sum>temp \<leftarrow> ts. effort set_pt temp gain) * step"
    unfolding ideal_exact [OF f(2-)] ..
  finally show ?case by (simp add: s algebra_simps)
qed

section \<open>The memory loops\<close>

lemma mem_loop_range: "loop_range AMEC_MEMORY_SPEED_CHANGE_LIMIT AMEC_MEMORY_STEP_SIZE AMEC_MEMORY_MAX_STEP AMEC_MEMORY_MIN_STEP"
  by (simp add: loop_range_def AMEC_MEMORY_SPEED_CHANGE_LIMIT_def AMEC_MEMORY_STEP_SIZE_def AMEC_MEMORY_MAX_STEP_def
      AMEC_MEMORY_MIN_STEP_def)

lemma mem_consts:
  "AMEC_MEMORY_SPEED_CHANGE_LIMIT = 1638" "AMEC_MEMORY_STEP_SIZE = 10" "AMEC_MEMORY_MAX_STEP = 1000" "AMEC_MEMORY_MIN_STEP = 10"
  by (simp_all add: AMEC_MEMORY_SPEED_CHANGE_LIMIT_def AMEC_MEMORY_STEP_SIZE_def AMEC_MEMORY_MAX_STEP_def
      AMEC_MEMORY_MIN_STEP_def)

lemma neg_limit: "neg_memory_change_limit = - AMEC_MEMORY_SPEED_CHANGE_LIMIT"
  by (simp add: neg_memory_change_limit_def AMEC_MEMORY_SPEED_CHANGE_LIMIT_def)

lemma mem_loop_eq:
  assumes "unat (speed_request c) \<le> 1000" "\<bar>uint (setpoint c) - uint temp\<bar> < 32768" "e = effort (setpoint c) temp (Pgain c)"
  shows "run_mem_loop temp c = c\<lparr>total_res := store16 (e + uint (total_res c)),
    speed_request := store16 (ideal_speed 1638 10 1000 10 e (speed_request c) (total_res c))\<rparr>"
proof -
  have sp: "uint (speed_request c) \<le> 1000" using assms(1) unfolding unat_eq_nat_uint by linarith
  have "p_control id 1638 (- 1638) 10 1000 10 (setpoint c) temp (Pgain c) (speed_request c) (total_res c) =
    (store16 (ideal_speed 1638 10 1000 10 e (speed_request c) (total_res c)), store16 (e + uint (total_res c)))"
    by (rule p_control_eq [OF mem_loop_range [unfolded mem_consts] sp assms(2) id_apply assms(3)])
  then show ?thesis unfolding run_mem_loop_def neg_limit mem_consts by (simp only: prod.case Let_def)
qed

text \<open>A speed request the memory may be given.\<close>

definition mem_speed_ok :: "amec_controller \<Rightarrow> bool" where
  "mem_speed_ok c \<longleftrightarrow> 10 \<le> unat (speed_request c) \<and> unat (speed_request c) \<le> 1000"

lemma speed_uint: "mem_speed_ok c \<Longrightarrow> 10 \<le> uint (speed_request c)" "mem_speed_ok c \<Longrightarrow> uint (speed_request c) \<le> 1000"
  unfolding mem_speed_ok_def unat_eq_nat_uint by linarith+

lemma mem_loop_speed:
  assumes "mem_speed_ok c" "\<bar>uint (setpoint c) - uint temp\<bar> < 32768"
  shows "uint (speed_request (run_mem_loop temp c)) =
    ideal_speed 1638 10 1000 10 (effort (setpoint c) temp (Pgain c)) (speed_request c) (total_res c)"
proof -
  have le: "unat (speed_request c) \<le> 1000" using assms(1) by (simp add: mem_speed_ok_def)
  have e: "speed_request (run_mem_loop temp c) =
      store16 (ideal_speed 1638 10 1000 10 (effort (setpoint c) temp (Pgain c)) (speed_request c) (total_res c))"
    unfolding mem_loop_eq [OF le assms(2) refl] by (cases c) (simp only: amec_controller.simps)
  show ?thesis unfolding e by (rule ideal_range(1)) simp_all
qed

lemma mem_loop_ok:
  assumes "mem_speed_ok c" "\<bar>uint (setpoint c) - uint temp\<bar> < 32768"
  shows "mem_speed_ok (run_mem_loop temp c)"
proof -
  have "10 \<le> uint (speed_request (run_mem_loop temp c))" "uint (speed_request (run_mem_loop temp c)) \<le> 1000"
    unfolding mem_loop_speed [OF assms] by (rule ideal_range; simp)+
  then show ?thesis unfolding mem_speed_ok_def unat_eq_nat_uint by linarith
qed

lemma effort_sign:
  "set_pt < temp \<Longrightarrow> 0 < gain \<Longrightarrow> effort set_pt temp gain < 0" "temp \<le> set_pt \<Longrightarrow> 0 \<le> effort set_pt temp gain"
  using uint_u16_bounds(1) [of gain] by (auto simp: effort_def word_less_def word_le_def mult_neg_pos)

lemma mem_loop_down:
  assumes "mem_speed_ok c" "\<bar>uint (setpoint c) - uint temp\<bar> < 32768" "setpoint c < temp" "0 < Pgain c"
  shows "speed_request (run_mem_loop temp c) \<le> speed_request c"
  unfolding word_le_def mem_loop_speed [OF assms(1,2)]
  using ideal_down [OF effort_sign(1) [OF assms(3,4)], of 1638 10 1000 10 "speed_request c" "total_res c"]
    speed_uint [OF assms(1)] by simp

lemma mem_loop_up:
  assumes "mem_speed_ok c" "\<bar>uint (setpoint c) - uint temp\<bar> < 32768" "temp \<le> setpoint c"
  shows "speed_request c \<le> speed_request (run_mem_loop temp c)"
  unfolding word_le_def mem_loop_speed [OF assms(1,2)]
  by (rule ideal_up [OF effort_sign(2) [OF assms(3)]]) (use speed_uint [OF assms(1)] in auto)

text \<open>What the loop over the FRU types does to each controller, from the state at its start.\<close>

definition dimm_ctl :: "dimm_type \<Rightarrow> amec \<Rightarrow> amec_controller" where
  "dimm_ctl d a = get_ctl d (am_thermal (dimm_step d a))"

lemma get_put: "get_ctl d (put_ctl e c t) = (if d = e then c else get_ctl d t)"
  by (cases d; cases e) simp_all

lemma thermal_frames [simp]:
  "am_thermal (upd_thermal f a) = f (am_thermal a)" "am_glob (upd_thermal f a) = am_glob a"
  "am_cfg (upd_thermal f a) = am_cfg a" "am_sens (upd_thermal f a) = am_sens a" "am_sys (upd_thermal f a) = am_sys a"
  "am_thermal (update_amecsensor x v a) = am_thermal a" "am_glob (update_amecsensor x v a) = am_glob a"
  "am_cfg (update_amecsensor x v a) = am_cfg a" "am_sys (update_amecsensor x v a) = am_sys a"
  by (simp_all add: upd_thermal_def update_amecsensor_def)

lemma timeout_cong: "am_glob b = am_glob a \<Longrightarrow> am_cfg b = am_cfg a \<Longrightarrow> dimm_timeout d b = dimm_timeout d a"
  by (cases d) simp_all

lemma dimm_step_frame:
  "am_glob (dimm_step d a) = am_glob a" "am_cfg (dimm_step d a) = am_cfg a" "am_sens (dimm_step d a) = am_sens a"
  "e \<noteq> d \<Longrightarrow> get_ctl e (am_thermal (dimm_step d a)) = get_ctl e (am_thermal a)"
  by (simp_all add: dimm_step_def Let_def get_put)

lemma dimm_ctl_cong:
  assumes "am_glob b = am_glob a" "am_cfg b = am_cfg a" "am_sens b = am_sens a"
    "get_ctl d (am_thermal b) = get_ctl d (am_thermal a)"
  shows "dimm_ctl d b = dimm_ctl d a"
  using assms timeout_cong [of b a d] by (simp add: dimm_ctl_def dimm_step_def Let_def get_put sample_by_gsid_def)

lemma dimm_fold:
  assumes "distinct ds"
  shows "get_ctl d (am_thermal (fold dimm_step ds a)) = (if d \<in> set ds then dimm_ctl d a else get_ctl d (am_thermal a))"
  using assms
proof (induction ds arbitrary: a)
  case Nil
  then show ?case by simp
next
  case (Cons e ds)
  have ih: "get_ctl d (am_thermal (fold dimm_step ds (dimm_step e a))) =
      (if d \<in> set ds then dimm_ctl d (dimm_step e a) else get_ctl d (am_thermal (dimm_step e a)))"
    using Cons by simp
  show ?case
  proof (cases "d = e")
    case True
    then show ?thesis using ih Cons.prems by (simp add: dimm_ctl_def)
  next
    case False
    then have "dimm_ctl d (dimm_step e a) = dimm_ctl d a"
      by (intro dimm_ctl_cong) (simp_all add: dimm_step_frame)
    then show ?thesis using ih False by (simp add: dimm_step_frame(4))
  qed
qed

lemma dimm_types_distinct: "distinct (dimm_types a)"
  by (simp add: dimm_types_def numeral_eq_Suc)

lemma dimm_types_set:
  "d \<in> set (dimm_types a) \<longleftrightarrow> d = DATA_FRU_DIMM \<or> mem_type (am_cfg a) = MEM_TYPE_OCM"
  by (cases d) (simp_all add: dimm_types_def numeral_eq_Suc)

lemma dimm_thermal_thermal:
  "am_thermal (amec_controller_dimm_thermal a) = am_thermal (fold dimm_step (dimm_types a) a)"
  by (simp add: amec_controller_dimm_thermal_def Let_def)

lemma dimm_thermal_ctl:
  "get_ctl d (am_thermal (amec_controller_dimm_thermal a)) =
    (if d = DATA_FRU_DIMM \<or> mem_type (am_cfg a) = MEM_TYPE_OCM then dimm_ctl d a else get_ctl d (am_thermal a))"
  unfolding dimm_thermal_thermal dimm_fold [OF dimm_types_distinct] dimm_types_set ..

text \<open>The temperature a loop sees, and what the loop does with it.\<close>

definition dimm_temp :: "dimm_type \<Rightarrow> amec \<Rightarrow> u16" where
  "dimm_temp d a = (if dimm_timeout d a then setpoint (get_ctl d (am_thermal a)) + 10 else sample_by_gsid (dimm_gsid d) a * 10)"

lemma dimm_ctl_cases:
  "dimm_ctl d a = get_ctl d (am_thermal a) \<or> dimm_ctl d a = run_mem_loop (dimm_temp d a) (get_ctl d (am_thermal a))"
  by (simp add: dimm_ctl_def dimm_step_def Let_def get_put dimm_temp_def)

lemma dimm_ctl_run:
  assumes "dimm_temp d a \<noteq> 0" "setpoint (get_ctl d (am_thermal a)) \<noteq> dimm_temp d a"
  shows "dimm_ctl d a = run_mem_loop (dimm_temp d a) (get_ctl d (am_thermal a))"
  using assms by (simp add: dimm_ctl_def dimm_step_def Let_def get_put dimm_temp_def)

section \<open>The processor loops\<close>

definition cpu_range :: "amec \<Rightarrow> bool" where
  "cpu_range a \<longleftrightarrow> loop_range (sint (speed_step_limit (am_sys a))) (uint (speed_step (am_sys a)))
     (uint (max_speed (am_sys a))) (uint (min_speed (am_sys a)))"

lemma neg_step_limit: "0 \<le> sint (x :: u16) \<Longrightarrow> sint (store16 (- uint x)) = - sint x"
proof -
  assume p: "0 \<le> sint x"
  have lt: "sint x < 32768" by (rule sint_u16_bounds(2))
  have "store16 (- uint x) = store16 (- sint x)" by simp
  also have "sint (store16 (- sint x)) = - sint x" by (rule sint_store16) (use p lt in linarith)+
  finally show ?thesis .
qed

lemma cpu_loop_eq:
  assumes r: "cpu_range a" and sp: "speed_request c \<le> max_speed (am_sys a)"
    and t: "\<bar>uint (setpoint c) - uint temp\<bar> < 32768"
    and nw: "\<And>x. -32768 \<le> x \<Longrightarrow> x < 32768 \<Longrightarrow> narrow x = x"
    and c': "c' = run_cpu_loop narrow temp a c" and e: "e = effort (setpoint c) temp (Pgain c)"
  shows "uint (speed_request c') = ideal_speed (sint (speed_step_limit (am_sys a))) (uint (speed_step (am_sys a)))
      (uint (max_speed (am_sys a))) (uint (min_speed (am_sys a))) e (speed_request c) (total_res c)"
    "total_res c' = store16 (e + uint (total_res c))"
    "freq_request c' = amec_controller_speed2freq (speed_request c') (sys_fmax (am_sys a)) a"
    "min_speed (am_sys a) \<le> speed_request c'" "speed_request c' \<le> max_speed (am_sys a)"
proof -
  let ?y = "am_sys a"
  have lr: "loop_range (sint (speed_step_limit ?y)) (uint (speed_step ?y)) (uint (max_speed ?y)) (uint (min_speed ?y))"
    using r by (simp add: cpu_range_def)
  have spu: "uint (speed_request c) \<le> uint (max_speed ?y)" using sp by (simp add: word_le_def)
  have l0: "0 \<le> sint (speed_step_limit ?y)" using lr by (simp add: loop_range_def)
  let ?i = "ideal_speed (sint (speed_step_limit ?y)) (uint (speed_step ?y)) (uint (max_speed ?y)) (uint (min_speed ?y))
    e (speed_request c) (total_res c)"
  have pc: "p_control narrow (sint (speed_step_limit ?y)) (- sint (speed_step_limit ?y)) (uint (speed_step ?y))
      (uint (max_speed ?y)) (uint (min_speed ?y)) (setpoint c) temp (Pgain c) (speed_request c) (total_res c) =
    (store16 ?i, store16 (e + uint (total_res c)))"
    by (rule p_control_eq [OF lr spu t nw e])
  have "c' = c\<lparr>total_res := store16 (e + uint (total_res c)), speed_request := store16 ?i,
      freq_request := amec_controller_speed2freq (store16 ?i) (sys_fmax ?y) a\<rparr>"
    unfolding c' run_cpu_loop_def Let_def neg_step_limit [OF l0] pc prod.case
    ..
  then have f: "speed_request c' = store16 ?i" "total_res c' = store16 (e + uint (total_res c))"
    "freq_request c' = amec_controller_speed2freq (store16 ?i) (sys_fmax ?y) a" by simp_all
  have mm: "0 \<le> uint (min_speed ?y)" "uint (min_speed ?y) \<le> uint (max_speed ?y)" "uint (max_speed ?y) < 32768"
    using range_max [OF lr] by auto
  note ir = ideal_range [OF mm, where lim = "sint (speed_step_limit ?y)" and step = "uint (speed_step ?y)" and eff = e
    and speed = "speed_request c" and res = "total_res c"]
  show "uint (speed_request c') = ?i" unfolding f(1) by (rule ir(1))
  show "total_res c' = store16 (e + uint (total_res c))" by (rule f(2))
  show "freq_request c' = amec_controller_speed2freq (speed_request c') (sys_fmax ?y) a" unfolding f by (rule refl)
  show "min_speed ?y \<le> speed_request c'" unfolding word_le_def f(1) ir(1) by (rule ir(2))
  show "speed_request c' \<le> max_speed ?y" unfolding word_le_def f(1) ir(1) by (rule ir(3))
qed

lemma speed2freq_eq:
  "speed < max_speed (am_sys a) \<Longrightarrow> unat speed * unat fm div 1000 < 65536 \<Longrightarrow>
    unat (amec_controller_speed2freq speed fm a) = unat speed * unat fm div 1000"
proof -
  assume lt: "speed < max_speed (am_sys a)" and b: "unat speed * unat fm div 1000 < 65536"
  have "unat speed * unat fm \<le> 65535 * 65535"
    using unat_u16_lt [of speed] unat_u16_lt [of fm] by (intro mult_mono) simp_all
  then have "unat ((ucast speed :: u32) * ucast fm) = unat speed * unat fm"
    by (simp add: unat_mult_lem [THEN iffD1] unat_ucast_up)
  then show ?thesis using lt b by (simp add: amec_controller_speed2freq_def unat_ucast_down unat_div)
qed

end
