(* ===== verification/Amec_Freq_Props.thy ===== *)
theory Amec_Freq_Props imports Amec_Freq Amec_Controller_Props begin

text \<open>
  Facts about the voting boxes, the frequency state machine and the frequency conversion.
\<close>

section \<open>The vote of the chip\<close>

definition chip_limits :: "amec \<Rightarrow> u16 list" where
  "chip_limits a =
     (if \<not> non_redund_ps (am_cfg a) \<and> oversubscription a \<and> mode_freq (am_cfg a) OCC_MODE_OVERSUB \<noteq> 0
      then [mode_freq (am_cfg a) OCC_MODE_OVERSUB] else []) @
     (if vrm_fault_status (am_sys a) \<noteq> 0 \<and> mode_freq (am_cfg a) OCC_MODE_VRM_N \<noteq> 0
      then [mode_freq (am_cfg a) OCC_MODE_VRM_N] else []) @
     [ppb_fmax (am_votes a), pmax_clip_freq (am_votes a), apss_pmax_clip_freq (am_votes a),
      freq_request (thermalproc (am_thermal a)), freq_request (thermalvdd (am_thermal a))]"

lemma lower_freq: "vt_freq (lower f r rep v) = min f (vt_freq v)"
proof (cases "f < vt_freq v")
  case True
  then show ?thesis by (simp add: lower_def min.absorb3)
next
  case False
  then have "min f (vt_freq v) = vt_freq v" by (intro min_absorb2) (rule leI)
  with False show ?thesis by (simp add: lower_def)
qed

lemma lower_if: "vt_freq (if c then lower f r rep v else v) = fold min (if c then [f] else []) (vt_freq v)"
  by (cases c) (simp_all add: lower_freq)

lemma chip_vote_freq: "vt_freq (chip_vote a) = fold min (chip_limits a) (sys_fmax (am_sys a))"
  by (simp only: chip_vote_def chip_limits_def Let_def lower_freq lower_if fold_append fold.simps comp_apply id_apply vote.simps)

text \<open>A reason is given exactly when the frequency is below the maximum of the mode.\<close>

definition reasoned :: "u16 \<Rightarrow> vote \<Rightarrow> bool" where
  "reasoned fm v \<longleftrightarrow> (vt_reason v = 0 \<and> vt_freq v = fm) \<or> (vt_reason v \<noteq> 0 \<and> vt_freq v < fm)"

lemma lower_reasoned:
  assumes "reasoned fm v" "r \<noteq> 0" shows "reasoned fm (lower f r rep v)"
proof (cases "f < vt_freq v")
  case True
  have "vt_freq v \<le> fm" using assms(1) by (auto simp: reasoned_def)
  with True have "f < fm" by (rule less_le_trans)
  then show ?thesis using True assms(2) by (simp add: reasoned_def lower_def)
next
  case False
  then show ?thesis using assms(1) by (simp add: lower_def)
qed

lemma if_reasoned: "reasoned fm v \<Longrightarrow> r \<noteq> 0 \<Longrightarrow> reasoned fm (if c then lower f r rep v else v)"
  by (simp add: lower_reasoned)

lemma reasons_nonzero:
  "REASON_VDD_THRM \<noteq> 0" "REASON_PROC_THRM \<noteq> 0" "REASON_APSS_PMAX \<noteq> 0" "REASON_PMAX \<noteq> 0" "REASON_PPB \<noteq> 0"
  "REASON_VRM_N \<noteq> 0" "REASON_OVERSUB \<noteq> 0"
  by (simp_all add: REASON_VDD_THRM_def REASON_PROC_THRM_def REASON_APSS_PMAX_def
        REASON_PMAX_def REASON_PPB_def REASON_VRM_N_def REASON_OVERSUB_def)

lemma chip_vote_reasoned: "reasoned (sys_fmax (am_sys a)) (chip_vote a)"
  unfolding chip_vote_def Let_def
  by (rule lower_reasoned if_reasoned)+ (simp_all add: reasoned_def reasons_nonzero)

section \<open>The votes of the cores\<close>

abbreviation set_core :: "nat \<Rightarrow> amec_core \<Rightarrow> amec \<Rightarrow> amec" where
  "set_core k c \<equiv> upd_freqs (\<lambda>f. f\<lparr>cores := (cores f)(k := c)\<rparr>)"

lemma amec_upd_frames [simp]:
  "am_freqs (upd_freqs h a) = h (am_freqs a)" "am_cfg (upd_freqs h a) = am_cfg a" "am_sys (upd_freqs h a) = am_sys a"
  "am_glob (upd_freqs h a) = am_glob a" "am_votes (upd_freqs h a) = am_votes a" "am_thermal (upd_freqs h a) = am_thermal a"
  "am_freqs (upd_glob g a) = am_freqs a" "am_cfg (upd_glob g a) = am_cfg a" "am_sys (upd_glob g a) = am_sys a"
  "am_glob (upd_glob g a) = g (am_glob a)" "am_votes (upd_glob g a) = am_votes a" "am_thermal (upd_glob g a) = am_thermal a"
  "am_freqs (upd_freq_st s a) = am_freqs a" "am_cfg (upd_freq_st s a) = am_cfg a" "am_sys (upd_freq_st s a) = am_sys a"
  "am_glob (upd_freq_st s a) = am_glob a" "am_freq_st (upd_freq_st s a) = s (am_freq_st a)"
  "am_freq_st (upd_freqs h a) = am_freq_st a" "am_freq_st (upd_glob g a) = am_freq_st a"
  "am_oppb (upd_freqs h a) = am_oppb a" "am_oppb (upd_glob g a) = am_oppb a" "am_oppb (upd_freq_st s a) = am_oppb a"
  "am_freqs (update_amecsensor x v a) = am_freqs a" "am_freq_st (update_amecsensor x v a) = am_freq_st a"
  "am_sens (upd_freqs h a) = am_sens a" "am_sens (upd_glob g a) = am_sens a" "am_sens (upd_freq_st s a) = am_sens a"
  by (simp_all add: upd_freqs_def upd_glob_def upd_freq_st_def update_amecsensor_def)

text \<open>What the vote of a core depends on.\<close>

definition same_inputs :: "nat \<Rightarrow> amec \<Rightarrow> amec \<Rightarrow> bool" where
  "same_inputs k a b \<longleftrightarrow> am_cfg b = am_cfg a \<and> am_sys b = am_sys a \<and>
     (\<exists>c. am_freqs b = (am_freqs a)\<lparr>cores := c\<rparr> \<and> c k = cores (am_freqs a) k)"

lemma core_vote_cong:
  assumes "same_inputs k a b" shows "core_vote b r k v = core_vote a r k v"
proof -
  obtain c where e: "am_cfg b = am_cfg a" "am_sys b = am_sys a" "am_freqs b = (am_freqs a)\<lparr>cores := c\<rparr>"
    "c k = cores (am_freqs a) k"
    using assms by (auto simp: same_inputs_def)
  have ck: "cores (am_freqs b) k = cores (am_freqs a) k" using e by simp
  have "amec_part_find_by_core k (am_freqs b) = amec_part_find_by_core k (am_freqs a)"
    unfolding amec_part_find_by_core_def e(3) by simp
  then have d: "dps_vote b r k v = dps_vote a r k v" unfolding dps_vote_def ck e(1) by simp
  have m: "master_vote (am_freqs b) w = master_vote (am_freqs a) w" for w
    unfolding master_vote_def e(3) by (cases "am_freqs a") (simp only: amec_freqs.simps)
  have p: "parm_vote (am_freqs b) k w = parm_vote (am_freqs a) k w" for w
    unfolding parm_vote_def ck unfolding e(3) by (cases "am_freqs a") (simp only: amec_freqs.simps)
  show ?thesis unfolding core_vote_def d m p e(2) ..
qed

text \<open>The reported reason does not influence the frequency.\<close>

definition same_vote :: "vote \<Rightarrow> vote \<Rightarrow> bool" where
  "same_vote v w \<longleftrightarrow> vt_freq v = vt_freq w \<and> vt_reason v = vt_reason w"

lemma lower_same: "same_vote v w \<Longrightarrow> same_vote (lower f r rep v) (lower f r rep' w)"
  by (simp add: same_vote_def lower_def)

lemma soft_same: "same_vote v w \<Longrightarrow> same_vote (soft_bounds r p v) (soft_bounds r p w)"
  by (simp add: same_vote_def soft_bounds_def split: option.splits)

lemma dps_same: "same_vote v w \<Longrightarrow> same_vote (dps_vote a r k v) (dps_vote a r k w)"
  unfolding dps_vote_def by (simp add: soft_same lower_same)

lemma master_same: "same_vote v w \<Longrightarrow> same_vote (master_vote f v) (master_vote f w)"
  using lower_same [of v w "slv_ips_freq_request f" REASON_IPS vt_kvm vt_kvm]
  by (simp add: master_vote_def Let_def same_vote_def)

lemma core_vote_same: "same_vote v w \<Longrightarrow> same_vote (core_vote a r k v) (core_vote a r k w)"
  using master_same [OF dps_same, of v w "am_freqs a" a r k]
  by (simp add: core_vote_def floor_vote_def parm_vote_def same_vote_def)

lemma core_vote_kvm:
  "vt_freq (core_vote a r k (v\<lparr>vt_kvm := x\<rparr>)) = vt_freq (core_vote a r k v)"
  "vt_reason (core_vote a r k (v\<lparr>vt_kvm := x\<rparr>)) = vt_reason (core_vote a r k v)"
  using core_vote_same [of "v\<lparr>vt_kvm := x\<rparr>" v a r k] by (simp_all add: same_vote_def)

section \<open>The loop over the cores\<close>

definition core_req :: "amec \<Rightarrow> vote \<Rightarrow> nat \<Rightarrow> vote" where
  "core_req a chip k = core_vote a (vt_reason chip) k chip"

definition core_after :: "amec \<Rightarrow> vote \<Rightarrow> nat \<Rightarrow> amec_core" where
  "core_after a chip k =
     (let c = cores (am_freqs a) k; v = core_req a chip k
      in if core_online k (am_glob a)
         then c\<lparr>f_request := vt_freq v, f_reason := vt_reason v, parm_f_reason := vt_reason v\<rparr>
         else c\<lparr>f_request := 0, f_reason := 0\<rparr>)"

abbreviation online :: "amec \<Rightarrow> nat list \<Rightarrow> nat list" where
  "online a ks \<equiv> filter (\<lambda>k. core_online k (am_glob a)) ks"

definition glob_after :: "amec \<Rightarrow> vote \<Rightarrow> nat list \<Rightarrow> amec_glob" where
  "glob_after a chip ks =
     (if online a ks = [] then am_glob a
      else (am_glob a)\<lparr>G_non_dps_power_limited :=
             power_limited (occ_mode (am_glob a)) (vt_reason (core_req a chip (last (online a ks))))\<rparr>)"

lemma online_cong:
  "core_online k (g\<lparr>G_non_dps_power_limited := x\<rparr>) = core_online k g"
  by (simp add: core_online_def)

lemma vote_core_effect:
  assumes "vote_core chip k (b, a) = (b', a')"
  shows "am_freqs a' = (am_freqs a)\<lparr>cores := (cores (am_freqs a))(k := core_after a chip k)\<rparr>"
    "am_cfg a' = am_cfg a" "am_sys a' = am_sys a" "am_oppb a' = am_oppb a" "am_freq_st a' = am_freq_st a" "am_sens a' = am_sens a"
    "am_glob a' = glob_after a chip [k]"
    "vb_max b' = (if core_online k (am_glob a) then max (vt_freq (core_req a chip k)) (vb_max b) else vb_max b)"
    "vb_min b' = (if core_online k (am_glob a) then min (vt_freq (core_req a chip k)) (vb_min b) else vb_min b)"
proof -
  let ?v = "core_vote a (vt_reason chip) k (chip\<lparr>vt_kvm := vb_kvm b\<rparr>)"
  have v: "vt_freq ?v = vt_freq (core_req a chip k)" "vt_reason ?v = vt_reason (core_req a chip k)"
    unfolding core_req_def by (rule core_vote_kvm)+
  have mx: "max x y = (if y < x then x else y)" and mn: "min x y = (if x < y then x else y)" for x y :: u16
    unfolding max_def min_def by (auto simp: not_le not_less dest: leD)
  note s = assms[unfolded vote_core_def Let_def prod.case]
  show "am_freqs a' = (am_freqs a)\<lparr>cores := (cores (am_freqs a))(k := core_after a chip k)\<rparr>"
    "am_cfg a' = am_cfg a" "am_sys a' = am_sys a" "am_oppb a' = am_oppb a" "am_freq_st a' = am_freq_st a" "am_sens a' = am_sens a"
    "am_glob a' = glob_after a chip [k]"
    using s v by (cases "core_online k (am_glob a)"; auto simp: core_after_def glob_after_def Let_def)+
  show "vb_max b' = (if core_online k (am_glob a) then max (vt_freq (core_req a chip k)) (vb_max b) else vb_max b)"
    using s v(1) unfolding mx by (cases "core_online k (am_glob a)") auto
  show "vb_min b' = (if core_online k (am_glob a) then min (vt_freq (core_req a chip k)) (vb_min b) else vb_min b)"
    using s v(1) unfolding mn by (cases "core_online k (am_glob a)") auto
qed

lemma core_req_cong:
  assumes "vote_core chip j (b, a) = (b', a')" "k \<noteq> j"
  shows "core_req a' chip k = core_req a chip k" "cores (am_freqs a') k = cores (am_freqs a) k"
    "core_online k (am_glob a') = core_online k (am_glob a)" "occ_mode (am_glob a') = occ_mode (am_glob a)"
proof -
  note e = vote_core_effect [OF assms(1)]
  have "same_inputs k a a'" unfolding same_inputs_def
    using e(1-3) assms(2) by (intro conjI exI [of _ "(cores (am_freqs a))(j := core_after a chip j)"]) auto
  then show "core_req a' chip k = core_req a chip k" unfolding core_req_def by (rule core_vote_cong)
  show "cores (am_freqs a') k = cores (am_freqs a) k" using assms(2) unfolding e(1) by simp
  show "core_online k (am_glob a') = core_online k (am_glob a)" unfolding e(7) by (simp add: glob_after_def online_cong)
  show "occ_mode (am_glob a') = occ_mode (am_glob a)" unfolding e(7) by (simp add: glob_after_def)
qed

lemma vote_core_fold:
  assumes "distinct ks" "fold (vote_core chip) ks (b, a) = (b', a')"
  shows "am_freqs a' = (am_freqs a)\<lparr>cores := (\<lambda>k. if k \<in> set ks then core_after a chip k else cores (am_freqs a) k)\<rparr>
    \<and> am_cfg a' = am_cfg a \<and> am_sys a' = am_sys a \<and> am_oppb a' = am_oppb a \<and> am_freq_st a' = am_freq_st a
    \<and> am_sens a' = am_sens a \<and> am_glob a' = glob_after a chip ks
    \<and> vb_max b' = fold max (map (\<lambda>k. vt_freq (core_req a chip k)) (online a ks)) (vb_max b)
    \<and> vb_min b' = fold min (map (\<lambda>k. vt_freq (core_req a chip k)) (online a ks)) (vb_min b)"
  using assms
proof (induction ks arbitrary: a b)
  case Nil
  then show ?case by (cases "am_freqs a") (simp add: glob_after_def)
next
  case (Cons j ks)
  obtain b1 a1 where v: "vote_core chip j (b, a) = (b1, a1)" by (cases "vote_core chip j (b, a)")
  have d: "j \<notin> set ks" "distinct ks" using Cons.prems(1) by auto
  have f: "fold (vote_core chip) ks (b1, a1) = (b', a')" using Cons.prems(2) v by simp
  note e = vote_core_effect [OF v]
  note ih = Cons.IH [OF d(2) f]
  note same = core_req_cong [OF v]
  have ne: "k \<in> set ks \<Longrightarrow> k \<noteq> j" for k using d by blast
  have on1: "online a1 ks = online a ks" by (rule filter_cong) (simp_all add: same(3) ne)
  have rq: "core_req a1 chip k = core_req a chip k" if "k \<in> set ks" for k using same(1) ne that by blast
  have mp: "map (\<lambda>k. vt_freq (core_req a1 chip k)) (online a ks) = map (\<lambda>k. vt_freq (core_req a chip k)) (online a ks)"
    by (rule map_cong) (simp_all add: rq)
  have ca: "core_after a1 chip k = core_after a chip k" if "k \<in> set ks" for k
    using same(2,3) rq ne that unfolding core_after_def Let_def by simp
  have fr: "am_freqs a' = (am_freqs a)\<lparr>cores := (\<lambda>k. if k \<in> set (j # ks) then core_after a chip k else cores (am_freqs a) k)\<rparr>"
  proof -
    have "(\<lambda>k. if k \<in> set ks then core_after a1 chip k else cores (am_freqs a1) k) =
        (\<lambda>k. if k \<in> set (j # ks) then core_after a chip k else cores (am_freqs a) k)"
      unfolding e(1) using ca d by (auto simp: fun_eq_iff)
    moreover have "am_freqs a' = (am_freqs a1)\<lparr>cores := (\<lambda>k. if k \<in> set ks then core_after a1 chip k else cores (am_freqs a1) k)\<rparr>"
      using ih by blast
    ultimately show ?thesis unfolding e(1) by (cases "am_freqs a") (simp only: amec_freqs.simps)
  qed
  have gl: "glob_after a1 chip ks = glob_after a chip (j # ks)"
  proof (cases "online a ks")
    case Nil
    have o: "online a (j # ks) = online a [j]" using Nil by simp
    have "glob_after a1 chip ks = am_glob a1" unfolding glob_after_def on1 using Nil by simp
    then show ?thesis unfolding e(7) glob_after_def o .
  next
    case (Cons i js)
    define l where "l = last (online a ks)"
    have "l \<in> set (online a ks)" unfolding l_def by (rule last_in_set) (simp add: Cons)
    then have l: "core_req a1 chip l = core_req a chip l" using rq by auto
    have l2: "last (online a (j # ks)) = l" "online a (j # ks) \<noteq> []" "online a ks \<noteq> []"
      unfolding l_def using Cons by auto
    obtain x where "am_glob a1 = am_glob a \<or> am_glob a1 = (am_glob a)\<lparr>G_non_dps_power_limited := x\<rparr>"
      unfolding e(7) glob_after_def by (cases "online a [j] = []") auto
    then have g: "(am_glob a1)\<lparr>G_non_dps_power_limited := y\<rparr> = (am_glob a)\<lparr>G_non_dps_power_limited := y\<rparr>"
      "occ_mode (am_glob a1) = occ_mode (am_glob a)" for y by auto
    show ?thesis unfolding glob_after_def on1 l_def [symmetric] l2(1) g l using l2(2,3) by (simp only: if_False)
  qed
  have m: "vb_max b' = fold max (map (\<lambda>k. vt_freq (core_req a chip k)) (online a ks)) (vb_max b1)"
    "vb_min b' = fold min (map (\<lambda>k. vt_freq (core_req a chip k)) (online a ks)) (vb_min b1)"
    using ih unfolding on1 mp by blast+
  have mx: "vb_max b' = fold max (map (\<lambda>k. vt_freq (core_req a chip k)) (online a (j # ks))) (vb_max b)"
    unfolding m(1) e(8) by (cases "core_online j (am_glob a)") (simp_all only: filter.simps if_True if_False list.map fold.simps comp_apply)
  have mn: "vb_min b' = fold min (map (\<lambda>k. vt_freq (core_req a chip k)) (online a (j # ks))) (vb_min b)"
    unfolding m(2) e(9) by (cases "core_online j (am_glob a)") (simp_all only: filter.simps if_True if_False list.map fold.simps comp_apply)
  have rest: "am_cfg a' = am_cfg a" "am_sys a' = am_sys a" "am_oppb a' = am_oppb a" "am_freq_st a' = am_freq_st a"
    "am_sens a' = am_sens a" "am_glob a' = glob_after a chip (j # ks)"
    unfolding gl [symmetric] e(2-6) [symmetric] using ih by blast+
  show ?case by (intro conjI fr rest mx mn)
qed

text \<open>The voting box as a whole.\<close>

lemma clip_history_frames [simp]:
  "am_glob (clip_history b a) = am_glob a" "am_cfg (clip_history b a) = am_cfg a" "am_sys (clip_history b a) = am_sys a"
  "am_sens (clip_history b a) = am_sens a" "am_oppb (clip_history b a) = am_oppb a"
  "cores (am_freqs (clip_history b a)) = cores (am_freqs a)" "core_max_freq (am_freqs (clip_history b a)) = core_max_freq (am_freqs a)"
  "core_min_freq (am_freqs (clip_history b a)) = vb_min b"
  by (simp_all add: clip_history_def Let_def)

lemma report_frames [simp]:
  "am_freqs (report_throttle r a) = am_freqs a" "am_sys (report_throttle r a) = am_sys a" "am_cfg (report_throttle r a) = am_cfg a"
  "G_non_dps_power_limited (am_glob (report_throttle r a)) = G_non_dps_power_limited (am_glob a)"
  "am_sens (report_throttle r a) = am_sens a"
  by (simp_all add: report_throttle_def Let_def post_dcom_def)

definition voting_start :: "amec \<Rightarrow> amec" where
  "voting_start a = (if \<not> G_allowPstates (am_glob a) \<and> (occ_mode (am_glob a) \<noteq> 0 \<or> kvm (am_cfg a))
     then upd_glob (\<lambda>g. g\<lparr>G_allowPstates := True\<rparr>) a else a)"

lemma voting_start_frames:
  "am_freqs (voting_start a) = am_freqs a" "am_cfg (voting_start a) = am_cfg a" "am_sys (voting_start a) = am_sys a"
  "am_votes (voting_start a) = am_votes a" "am_thermal (voting_start a) = am_thermal a"
  "core_online k (am_glob (voting_start a)) = core_online k (am_glob a)"
  "oversubscription (voting_start a) = oversubscription a" "occ_mode (am_glob (voting_start a)) = occ_mode (am_glob a)"
  "G_non_dps_power_limited (am_glob (voting_start a)) = G_non_dps_power_limited (am_glob a)"
  "chip_vote (voting_start a) = chip_vote a"
  by (simp_all add: voting_start_def core_online_def oversubscription_def chip_vote_def report_freq_def)

lemma start_core_req: "core_req (voting_start a) chip k = core_req a chip k"
  unfolding core_req_def
  by (rule core_vote_cong) (cases "am_freqs a"; simp add: same_inputs_def voting_start_frames)

definition core_freqs :: "amec \<Rightarrow> u16 list" where
  "core_freqs a = map (\<lambda>k. vt_freq (core_req a (chip_vote a) k)) (online a [0..<MAX_NUM_CORES])"

lemma voting_box_effect:
  assumes "a' = amec_slv_proc_voting_box a"
  shows "k < 24 \<Longrightarrow> f_request (cores (am_freqs a') k) =
      (if core_online k (am_glob a) then vt_freq (core_req a (chip_vote a) k) else 0)"
    "k < 24 \<Longrightarrow> f_reason (cores (am_freqs a') k) =
      (if core_online k (am_glob a) then vt_reason (core_req a (chip_vote a) k) else 0)"
    "core_max_freq (am_freqs a') = (if fold max (core_freqs a) 0 \<noteq> 0 then fold max (core_freqs a) 0 else core_max_freq (am_freqs a))"
    "core_min_freq (am_freqs a') = fold min (core_freqs a) (sys_fmax (am_sys a))"
    "G_non_dps_power_limited (am_glob a') =
      (if online a [0..<24] = [] then G_non_dps_power_limited (am_glob a)
       else power_limited (occ_mode (am_glob a)) (vt_reason (core_req a (chip_vote a) (last (online a [0..<24])))))"
proof -
  let ?a0 = "voting_start a" and ?chip = "chip_vote a"
  define b0 where "b0 = \<lparr>vb_max = 0, vb_min = sys_fmax (am_sys a), vb_current_reason = 0, vb_kvm = vt_kvm ?chip\<rparr>"
  obtain b a1 where f: "fold (vote_core ?chip) [0..<MAX_NUM_CORES] (b0, ?a0) = (b, a1)"
    by (cases "fold (vote_core ?chip) [0..<MAX_NUM_CORES] (b0, ?a0)")
  note e = vote_core_fold [OF distinct_upt f]
  have on: "online ?a0 ks = online a ks" for ks by (simp add: voting_start_frames(6))
  have cs: "map (\<lambda>k. vt_freq (core_req ?a0 ?chip k)) (online ?a0 [0..<MAX_NUM_CORES]) = core_freqs a"
    unfolding core_freqs_def on start_core_req ..
  have bx: "vb_max b = fold max (core_freqs a) 0" "vb_min b = fold min (core_freqs a) (sys_fmax (am_sys a))"
    using e unfolding cs by (simp_all add: b0_def)
  define a4 where "a4 = update_amecsensor PROCPWRTHROT (if vb_kvm b = PCAP_EXCEED_REPORT \<or> vb_kvm b = POWERCAP then 1 else 0)
    (report_throttle (vb_kvm b) (if vb_max b \<noteq> 0
      then upd_freqs (\<lambda>f. f\<lparr>core_max_freq := vb_max b, proc_f_reason := vb_current_reason b\<rparr>) a1 else a1))"
  have a': "a' = clip_history b a4"
    using f unfolding assms amec_slv_proc_voting_box_def voting_start_def [symmetric] Let_def voting_start_frames
    by (simp add: b0_def a4_def)
  have cores: "cores (am_freqs a') = cores (am_freqs a1)" unfolding a' by (simp add: a4_def)
  have fa: "cores (am_freqs a1) k = core_after ?a0 ?chip k" if "k < 24"
    using e that by (simp add: MAX_NUM_CORES_def)
  have co: "core_online k (am_glob ?a0) = core_online k (am_glob a)" for k by (rule voting_start_frames(6))
  show "f_request (cores (am_freqs a') k) = (if core_online k (am_glob a) then vt_freq (core_req a ?chip k) else 0)" if "k < 24"
    unfolding cores fa [OF that] core_after_def Let_def start_core_req co by simp
  show "f_reason (cores (am_freqs a') k) = (if core_online k (am_glob a) then vt_reason (core_req a ?chip k) else 0)" if "k < 24"
    unfolding cores fa [OF that] core_after_def Let_def start_core_req co by simp
  have "core_max_freq (am_freqs a1) = core_max_freq (am_freqs a)" using e by (simp add: voting_start_frames)
  then show "core_max_freq (am_freqs a') = (if fold max (core_freqs a) 0 \<noteq> 0 then fold max (core_freqs a) 0 else core_max_freq (am_freqs a))"
    unfolding a' by (simp add: a4_def bx(1))
  show "core_min_freq (am_freqs a') = fold min (core_freqs a) (sys_fmax (am_sys a))" unfolding a' by (simp add: bx(2))
  have g: "am_glob a1 = glob_after ?a0 ?chip [0..<24]" using e by (simp add: MAX_NUM_CORES_def)
  have "G_non_dps_power_limited (am_glob a') = G_non_dps_power_limited (am_glob a1)" unfolding a' by (simp add: a4_def)
  also have "\<dots> = (if online a [0..<24] = [] then G_non_dps_power_limited (am_glob a)
       else power_limited (occ_mode (am_glob a)) (vt_reason (core_req a ?chip (last (online a [0..<24])))))"
    unfolding g glob_after_def on start_core_req voting_start_frames(8)
    by (cases "online a [0..<24] = []") (simp_all add: voting_start_frames(9) del: filter_empty_conv)
  finally show "G_non_dps_power_limited (am_glob a') =
      (if online a [0..<24] = [] then G_non_dps_power_limited (am_glob a)
       else power_limited (occ_mode (am_glob a)) (vt_reason (core_req a ?chip (last (online a [0..<24])))))" .
qed

section \<open>The frequency state machine\<close>

text \<open>The cores in scan order as (quad, index); the pstate of a request; the requests of a quad.\<close>

definition scan_order :: "(nat \<times> nat) list" where
  "scan_order = concat (map (\<lambda>q. map (Pair q) [0..<NUM_CORES_PER_QUAD]) [0..<MAXIMUM_QUADS])"

definition core_active :: "amec \<Rightarrow> nat \<times> nat \<Rightarrow> bool" where
  "core_active a qi \<longleftrightarrow> f_request (cores (am_freqs a) (fst qi * NUM_CORES_PER_QUAD + snd qi)) \<noteq> 0"

definition core_pstate :: "amec \<Rightarrow> nat \<times> nat \<Rightarrow> u8" where
  "core_pstate a qi = proc_freq2pstate (ucast (f_request (cores (am_freqs a) (fst qi * NUM_CORES_PER_QUAD + snd qi)))) a"

definition quad_max :: "amec \<Rightarrow> (nat \<times> nat) list \<Rightarrow> nat \<Rightarrow> u8" where
  "quad_max a qis q = fold max (map (core_pstate a) (filter (\<lambda>x. core_active a x \<and> fst x = q) qis)) 0"

definition chip_max :: "amec \<Rightarrow> (nat \<times> nat) list \<Rightarrow> u8" where
  "chip_max a qis = fold max (map (core_pstate a) (filter (core_active a) qis)) 0"

lemma fold_pairs:
  "fold (\<lambda>q. fold (g q) js) qs s = fold (\<lambda>x. g (fst x) (snd x)) (concat (map (\<lambda>q. map (Pair q) js) qs)) s"
  by (induction qs arbitrary: s) (simp_all add: fold_map comp_def)

lemma max_word: "(if x < y then y else x) = max y (x :: u8)"
proof (cases "x < y")
  case True
  then show ?thesis by (simp add: max.absorb3)
next
  case False
  then have "max y x = x" by (intro max_absorb2) (rule leI)
  with False show ?thesis by simp
qed

lemma quad_le_chip: "quad_max a qis q \<le> chip_max a qis"
  unfolding quad_max_def chip_max_def
proof (induction qis rule: rev_induct)
  case Nil
  then show ?case by simp
next
  case (snoc x xs)
  then show ?case by (cases "core_active a x"; cases "fst x = q") (auto intro: max.mono max.coboundedI2)
qed

definition scan_result :: "amec \<Rightarrow> (nat \<times> nat) list \<Rightarrow> fsm" where
  "scan_result a qis = \<lparr>fs_pmax = quad_max a qis, fs_chip = chip_max a qis,
     fs_core = (\<lambda>q. \<exists>x \<in> set qis. core_active a x \<and> fst x = q), fs_quad = (\<exists>x \<in> set qis. core_active a x)\<rparr>"

lemma scan_fold:
  "fold (\<lambda>x. fsm_core a (fst x) (snd x)) qis \<lparr>fs_pmax = (\<lambda>_. 0), fs_chip = 0, fs_core = (\<lambda>_. False), fs_quad = False\<rparr> =
   scan_result a qis"
proof (induction qis rule: rev_induct)
  case Nil
  then show ?case by (simp add: scan_result_def quad_max_def chip_max_def fun_eq_iff)
next
  case (snoc x xs)
  let ?p = "core_pstate a x" and ?s = "scan_result a xs"
  have step: "fold (\<lambda>x. fsm_core a (fst x) (snd x)) (xs @ [x])
      \<lparr>fs_pmax = (\<lambda>_. 0), fs_chip = 0, fs_core = (\<lambda>_. False), fs_quad = False\<rparr> = fsm_core a (fst x) (snd x) ?s"
    using snoc by simp
  show ?case
  proof (cases "core_active a x")
    case False
    then have "fsm_core a (fst x) (snd x) ?s = ?s" by (simp add: fsm_core_def core_active_def)
    moreover have "scan_result a (xs @ [x]) = ?s"
      using False by (simp add: scan_result_def quad_max_def chip_max_def fun_eq_iff)
    ultimately show ?thesis using step by simp
  next
    case True
    have pm: "(if quad_max a xs (fst x) < ?p then ?p else quad_max a xs (fst x)) = max ?p (quad_max a xs (fst x))"
      by (rule max_word)
    have ch: "(if quad_max a xs (fst x) < ?p then if chip_max a xs < ?p then ?p else chip_max a xs else chip_max a xs) =
        max ?p (chip_max a xs)"
    proof (cases "quad_max a xs (fst x) < ?p")
      case True
      then show ?thesis unfolding max_word by simp
    next
      case False
      then have "?p \<le> chip_max a xs" using quad_le_chip [of a xs "fst x"] order_trans [OF leI] by blast
      then show ?thesis using False by (simp add: max_absorb2)
    qed
    have "fsm_core a (fst x) (snd x) ?s = \<lparr>fs_pmax = (quad_max a xs)(fst x := max ?p (quad_max a xs (fst x))),
        fs_chip = max ?p (chip_max a xs), fs_core = (fs_core ?s)(fst x := True), fs_quad = True\<rparr>"
      using True pm ch
      by (cases "quad_max a xs (fst x) < ?p"; cases "chip_max a xs < ?p")
        (simp_all add: fsm_core_def core_active_def core_pstate_def scan_result_def Let_def)
    moreover have "scan_result a (xs @ [x]) = \<lparr>fs_pmax = (quad_max a xs)(fst x := max ?p (quad_max a xs (fst x))),
        fs_chip = max ?p (chip_max a xs), fs_core = (fs_core ?s)(fst x := True), fs_quad = True\<rparr>"
      using True by (simp add: scan_result_def quad_max_def chip_max_def fun_eq_iff)
    ultimately show ?thesis using step by simp
  qed
qed

lemma fsm_scan_eq: "fsm_scan a = scan_result a scan_order"
  unfolding fsm_scan_def fold_pairs scan_order_def [symmetric] scan_fold ..

text \<open>The pstate a quad is given: its slowest core, the slowest core of the chip when all its cores
  are idle, or a slower manufacturing request.\<close>

definition quad_goal :: "amec \<Rightarrow> nat \<Rightarrow> u8" where
  "quad_goal a q =
     (let p0 = (if \<exists>x \<in> set scan_order. core_active a x \<and> fst x = q then quad_max a scan_order q else chip_max a scan_order);
          m = quad_pstate (mnfg_parms (am_freqs a)) q
      in if m \<noteq> 0xFF \<and> m > p0 then m else p0)"

lemma fsm_quad_effect:
  "am_freqs (fsm_quad s q a) = am_freqs a" "am_cfg (fsm_quad s q a) = am_cfg a" "am_sys (fsm_quad s q a) = am_sys a"
  "am_sens (fsm_quad s q a) = am_sens a"
  "G_desired_pstate (am_glob (fsm_quad s q a)) r = (if r = q then
     (let p0 = (if fs_core s q then fs_pmax s q else fs_chip s); m = quad_pstate (mnfg_parms (am_freqs a)) q
      in if m \<noteq> 0xFF \<and> m > p0 then m else p0) else G_desired_pstate (am_glob a) r)"
  by (simp_all add: fsm_quad_def Let_def split: prod.splits)

lemma fsm_quad_fold:
  "distinct qs \<Longrightarrow> am_freqs (fold (fsm_quad s) qs a) = am_freqs a \<and> am_sens (fold (fsm_quad s) qs a) = am_sens a \<and>
    G_desired_pstate (am_glob (fold (fsm_quad s) qs a)) r = (if r \<in> set qs then
     (let p0 = (if fs_core s r then fs_pmax s r else fs_chip s); m = quad_pstate (mnfg_parms (am_freqs a)) r
      in if m \<noteq> 0xFF \<and> m > p0 then m else p0) else G_desired_pstate (am_glob a) r)"
proof (induction qs arbitrary: a)
  case Nil
  then show ?case by simp
next
  case (Cons q qs)
  then have ih: "am_freqs (fold (fsm_quad s) qs (fsm_quad s q a)) = am_freqs a"
    "am_sens (fold (fsm_quad s) qs (fsm_quad s q a)) = am_sens a"
    "G_desired_pstate (am_glob (fold (fsm_quad s) qs (fsm_quad s q a))) r = (if r \<in> set qs then
     (let p0 = (if fs_core s r then fs_pmax s r else fs_chip s); m = quad_pstate (mnfg_parms (am_freqs a)) r
      in if m \<noteq> 0xFF \<and> m > p0 then m else p0) else G_desired_pstate (am_glob (fsm_quad s q a)) r)"
    using Cons.IH [of "fsm_quad s q a"] by (simp_all only: fsm_quad_effect(1,4) distinct.simps)
  have "r = q \<Longrightarrow> r \<notin> set qs" using Cons.prems by auto
  then show ?case using ih(1,2) unfolding fold.simps comp_apply ih(3) fsm_quad_effect(5)
    by (cases "r = q") (simp_all only: if_True if_False list.set insert_iff simp_thms)
qed

lemma freq_smh_effect:
  assumes "a' = amec_slv_freq_smh a" "q < 6"
  shows "G_desired_pstate (am_glob a') q =
     (if \<exists>x \<in> set scan_order. core_active a x then quad_goal a q else G_desired_pstate (am_glob a) q)"
    "am_freqs a' = am_freqs a"
proof -
  let ?s = "scan_result a scan_order"
  have q: "q \<in> set [0..<MAXIMUM_QUADS]" using assms(2) by (simp add: MAXIMUM_QUADS_def)
  have a': "a' = (if fs_quad ?s then fold (fsm_quad ?s) [0..<MAXIMUM_QUADS] a else a)"
    unfolding assms(1) amec_slv_freq_smh_def fsm_scan_eq Let_def ..
  have sf: "fs_core ?s q = (\<exists>x \<in> set scan_order. core_active a x \<and> fst x = q)" "fs_pmax ?s q = quad_max a scan_order q"
    "fs_chip ?s = chip_max a scan_order" "fs_quad ?s = (\<exists>x \<in> set scan_order. core_active a x)"
    by (simp_all add: scan_result_def)
  note f = fsm_quad_fold [OF distinct_upt, of ?s 0 MAXIMUM_QUADS a q, unfolded sf, folded quad_goal_def]
  show "am_freqs a' = am_freqs a" unfolding a' using f by (cases "fs_quad ?s") simp_all
  show "G_desired_pstate (am_glob a') q =
     (if \<exists>x \<in> set scan_order. core_active a x then quad_goal a q else G_desired_pstate (am_glob a) q)"
    using f q unfolding a' sf(4) by (cases "\<exists>x \<in> set scan_order. core_active a x") (simp_all only: if_True if_False)
qed

section \<open>The frequency conversion\<close>

text \<open>Pstate parameters the conversion is meant for: a positive step, at most 127 pstates.\<close>

definition oppb_ok :: "amec \<Rightarrow> bool" where
  "oppb_ok a \<longleftrightarrow> (let o' = am_oppb a in
     0 < unat (frequency_step_khz o') \<and> unat (frequency_step_khz o') < 2147483648 \<and>
     unat (frequency_max_khz o') < 2147483648 \<and> unat (frequency_min_khz o') \<le> unat (frequency_max_khz o') \<and>
     (unat (frequency_max_khz o') - unat (frequency_min_khz o')) div unat (frequency_step_khz o') \<le> 127 \<and>
     unat (pstate_min o') \<le> 127)"

definition clipped_khz :: "nat \<Rightarrow> amec \<Rightarrow> nat" where
  "clipped_khz mhz a = max mhz (unat (min_frequency a)) * 1000"

definition ideal_pstate :: "nat \<Rightarrow> amec \<Rightarrow> nat" where
  "ideal_pstate mhz a =
     (let o' = am_oppb a in
      if mhz * 1000 \<le> unat (frequency_min_khz o') then unat (pstate_min o')
      else min (unat (pstate_min o')) ((unat (frequency_max_khz o') - clipped_khz mhz a) div unat (frequency_step_khz o')))"

lemma sint_small32: "unat (w :: u32) < 2147483648 \<Longrightarrow> sint w = int (unat w)"
proof -
  assume "unat w < 2147483648"
  then have b: "uint w < 2147483648" unfolding unat_eq_nat_uint by linarith
  have b0: "- 2147483648 \<le> uint w" using uint_u32_bounds(1) [of w] by linarith
  have "sint w = uint w" unfolding sint_uint by (rule signed_take_bit_int_eq_self) (use b b0 in simp_all)
  then show ?thesis by simp
qed

lemma sint_store8: "-128 \<le> x \<Longrightarrow> x < 128 \<Longrightarrow> sint (store8 x) = x"
  by (simp add: sint_sbintrunc' signed_take_bit_int_eq_self)

lemma uint_store8: "uint (store8 x) = x mod 256"
  by (simp add: uint_word_of_int take_bit_eq_mod)

lemma sdiv_nat: "int x sdiv int y = int (x div y)"
  by (cases "x = 0"; cases "y = 0") (simp_all add: signed_divide_int_def zdiv_int)

lemma pstate_eq:
  assumes ok: "oppb_ok a" and mf: "unat (min_frequency a) \<le> 6000" and f: "unat mhz \<le> 65535"
  shows "unat (proc_freq2pstate mhz a) = ideal_pstate (unat mhz) a"
proof -
  let ?o = "am_oppb a"
  let ?mn = "unat (frequency_min_khz ?o)" and ?mx = "unat (frequency_max_khz ?o)" and ?st = "unat (frequency_step_khz ?o)"
    and ?pm = "unat (pstate_min ?o)"
  have o: "0 < ?st" "?st < 2147483648" "?mx < 2147483648" "?mn \<le> ?mx" "(?mx - ?mn) div ?st \<le> 127" "?pm \<le> 127"
    using ok unfolding oppb_ok_def Let_def by blast+
  have khz: "unat (mhz * 1000) = unat mhz * 1000"
    using f unat_mult_lem [of mhz 1000] by simp
  have pm8: "unat (ucast (pstate_min ?o) :: u8) = ?pm"
    using o(6) by (simp add: unsigned_ucast_eq take_bit_eq_mod)
  define k1 where "k1 = (if mhz < ucast (min_frequency a) then store32 (uint (min_frequency a) * 1000) else mhz * 1000)"
  have k1: "unat k1 = clipped_khz (unat mhz) a"
  proof (cases "mhz < ucast (min_frequency a)")
    case True
    then have "unat mhz < unat (min_frequency a)" by (simp add: word_less_nat_alt unat_ucast_up)
    moreover have "unat (store32 (uint (min_frequency a) * 1000)) = unat (min_frequency a) * 1000"
    proof -
      have "uint (min_frequency a) * 1000 < 4294967296" using mf unfolding unat_eq_nat_uint by linarith
      then have "uint (store32 (uint (min_frequency a) * 1000)) = uint (min_frequency a) * 1000"
        unfolding uint_store32 by (intro mod_pos_pos_trivial) simp_all
      then show ?thesis unfolding unat_eq_nat_uint by (simp add: nat_mult_distrib)
    qed
    ultimately show ?thesis using True by (simp add: k1_def clipped_khz_def)
  next
    case False
    then have "unat (min_frequency a) \<le> unat mhz" by (simp add: word_less_nat_alt unat_ucast_up)
    then show ?thesis using False khz by (simp add: k1_def clipped_khz_def)
  qed
  have dfn: "proc_freq2pstate mhz a = (if mhz * 1000 \<le> frequency_min_khz ?o then ucast (pstate_min ?o)
     else if k1 < frequency_max_khz ?o then
       (let p = store8 (sint (frequency_max_khz ?o - k1) sdiv sint (frequency_step_khz ?o))
        in if store32 (sint p) > pstate_min ?o then ucast (pstate_min ?o) else p) else 0)"
    unfolding proc_freq2pstate_def Let_def k1_def ..
  show ?thesis
  proof (cases "mhz * 1000 \<le> frequency_min_khz ?o")
    case True
    then have "unat mhz * 1000 \<le> ?mn" using khz by (simp add: word_le_nat_alt)
    then show ?thesis unfolding dfn ideal_pstate_def Let_def using True pm8 by simp
  next
    case gt: False
    then have gtn: "\<not> unat mhz * 1000 \<le> ?mn" using khz by (simp add: word_le_nat_alt)
    have clip: "?mn \<le> clipped_khz (unat mhz) a" using gtn unfolding clipped_khz_def by linarith
    show ?thesis
    proof (cases "k1 < frequency_max_khz ?o")
      case False
      then have "?mx \<le> clipped_khz (unat mhz) a" using k1 by (simp add: word_less_nat_alt)
      then have "ideal_pstate (unat mhz) a = 0" unfolding ideal_pstate_def Let_def using gtn by simp
      then show ?thesis unfolding dfn using gt False by simp
    next
      case True
      then have lt: "clipped_khz (unat mhz) a < ?mx" using k1 by (simp add: word_less_nat_alt)
      define n where "n = (?mx - clipped_khz (unat mhz) a) div ?st"
      have n: "n \<le> 127" unfolding n_def using div_le_mono [of "?mx - clipped_khz (unat mhz) a" "?mx - ?mn" ?st] clip o(5) by linarith
      have d: "unat (frequency_max_khz ?o - k1) = ?mx - clipped_khz (unat mhz) a"
        using unat_sub [of k1 "frequency_max_khz ?o"] True k1 by simp
      have "sint (frequency_max_khz ?o - k1) = int (?mx - clipped_khz (unat mhz) a)"
        using sint_small32 [of "frequency_max_khz ?o - k1"] d o(3) by simp
      moreover have "sint (frequency_step_khz ?o) = int ?st" by (rule sint_small32 [OF o(2)])
      ultimately have q: "sint (frequency_max_khz ?o - k1) sdiv sint (frequency_step_khz ?o) = int n"
        unfolding n_def by (simp only: sdiv_nat)
      have p: "sint (store8 (int n)) = int n" by (rule sint_store8) (use n in simp_all)
      have un: "unat (store8 (int n)) = n" using n unfolding unat_eq_nat_uint uint_store8 by simp
      have "uint (store32 (int n)) = int n" using n unfolding uint_store32 by simp
      then have c: "store32 (int n) > pstate_min ?o \<longleftrightarrow> ?pm < n"
        unfolding word_less_def unat_eq_nat_uint by (simp only: zless_nat_conj nat_less_iff) (use uint_u32_bounds [of "pstate_min ?o"] in linarith)
      have "unat (proc_freq2pstate mhz a) = min ?pm n"
        unfolding dfn Let_def q p using gt True c un pm8 by (simp add: min_def)
      then show ?thesis unfolding ideal_pstate_def Let_def using gtn n_def by simp
    qed
  qed
qed

text \<open>A lower frequency is never given a smaller pstate.\<close>

lemma ideal_pstate_antimono:
  assumes "f \<le> g" shows "ideal_pstate g a \<le> ideal_pstate f a"
proof -
  let ?o = "am_oppb a"
  have c: "clipped_khz f a \<le> clipped_khz g a" using assms by (auto simp: clipped_khz_def max_def)
  have "(unat (frequency_max_khz ?o) - clipped_khz g a) div unat (frequency_step_khz ?o)
      \<le> (unat (frequency_max_khz ?o) - clipped_khz f a) div unat (frequency_step_khz ?o)"
    by (rule div_le_mono) (use c in linarith)
  then show ?thesis using assms by (auto simp: ideal_pstate_def Let_def intro: min.coboundedI2)
qed

section \<open>The memory voting box\<close>

definition mem_requests :: "amec_thermal \<Rightarrow> u16 list" where
  "mem_requests t = map speed_request [thermalcent t, thermaldimm t, thermalmcdimm t, thermalpmic t, thermalmcext t]"

lemma mem_lower_fst: "fst (mem_lower req r v) = min req (fst v)"
proof (cases v)
  case (fields vt r' kr)
  show ?thesis
  proof (cases "req < vt")
    case True
    then show ?thesis using fields by (simp add: mem_lower_def min.absorb3)
  next
    case False
    then have "min req vt = vt" by (intro min_absorb2) (rule leI)
    then show ?thesis using fields False by (simp add: mem_lower_def)
  qed
qed

lemma mem_vote_result:
  assumes "\<not> mem_autoslew (mnfg_parms (am_freqs a))"
  shows "mem_speed_request (am_freqs (amec_slv_mem_voting_box a)) = fold min (mem_requests (am_thermal a)) 1000"
proof -
  let ?t = "am_thermal a"
  define kr0 where "kr0 = (if active_mem_level (am_pcap a) \<noteq> 0 then POWER_CAP else NO_THROTTLE)"
  define v where "v = mem_lower (speed_request (thermalmcext ?t)) 6 (mem_lower (speed_request (thermalpmic ?t)) 5
    (mem_lower (speed_request (thermalmcdimm ?t)) 4 (mem_lower (speed_request (thermaldimm ?t)) 2
    (mem_lower (speed_request (thermalcent ?t)) 1 (1000, 0, kr0)))))"
  obtain vt r kr where v3: "v = (vt, r, kr)" by (cases v)
  have "mem_speed_request (am_freqs (amec_slv_mem_voting_box a)) = vt"
    using assms unfolding amec_slv_mem_voting_box_def Let_def kr0_def [symmetric] v_def [symmetric] v3 prod.case
    by (simp add: post_dcom_def)
  also have "vt = fst v" by (simp add: v3)
  also have "\<dots> = fold min (mem_requests ?t) 1000"
    unfolding v_def mem_lower_fst mem_requests_def list.map fold.simps comp_apply id_apply fst_conv ..
  finally show ?thesis .
qed

text \<open>Manufacturing slew: the speed stays a multiple of 10 between 10 and 1000 and moves by 10 each tick.\<close>

definition slew_ok :: "amec \<Rightarrow> bool" where
  "slew_ok a \<longleftrightarrow> (let m = unat (mem_speed_request (am_freqs a)) in 10 \<le> m \<and> m \<le> 1000 \<and> 10 dvd m) \<and>
     (l_slew_step (am_freq_st a) = 10 \<or> l_slew_step (am_freq_st a) = - 10)"

lemma slew_result:
  assumes "mem_autoslew (mnfg_parms (am_freqs a))" "a' = amec_slv_mem_voting_box a"
  defines "m \<equiv> mem_speed_request (am_freqs a)"
  defines "st \<equiv> (if m \<ge> 1000 then - 10 else if m \<le> 10 then 10 else l_slew_step (am_freq_st a))"
  shows "mem_speed_request (am_freqs a') = m + st" "l_slew_step (am_freq_st a') = st"
proof -
  let ?t = "am_thermal a"
  define kr0 where "kr0 = (if active_mem_level (am_pcap a) \<noteq> 0 then POWER_CAP else NO_THROTTLE)"
  define v where "v = mem_lower (speed_request (thermalmcext ?t)) 6 (mem_lower (speed_request (thermalpmic ?t)) 5
    (mem_lower (speed_request (thermalmcdimm ?t)) 4 (mem_lower (speed_request (thermaldimm ?t)) 2
    (mem_lower (speed_request (thermalcent ?t)) 1 (1000, 0, kr0)))))"
  obtain vt r kr where v3: "v = (vt, r, kr)" by (cases v)
  have "mem_speed_request (am_freqs a') = m + st \<and> l_slew_step (am_freq_st a') = st"
    using assms(1) unfolding assms(2) amec_slv_mem_voting_box_def Let_def kr0_def [symmetric] v_def [symmetric] v3 prod.case
      m_def [symmetric] if_P [OF assms(1)]
    by (cases "1000 \<le> m"; cases "m \<le> 10") (simp_all add: post_dcom_def st_def m_def [symmetric])
  then show "mem_speed_request (am_freqs a') = m + st" "l_slew_step (am_freq_st a') = st" by blast+
qed

lemma slew_step_ok:
  assumes "slew_ok a" "mem_autoslew (mnfg_parms (am_freqs a))" "a' = amec_slv_mem_voting_box a"
  shows "slew_ok a'" "\<bar>int (unat (mem_speed_request (am_freqs a'))) - int (unat (mem_speed_request (am_freqs a)))\<bar> = 10"
proof -
  let ?m = "mem_speed_request (am_freqs a)" and ?l = "l_slew_step (am_freq_st a)"
  define n where "n = unat ?m"
  have n: "10 \<le> n" "n \<le> 1000" "10 dvd n" and l: "?l = 10 \<or> ?l = - 10" using assms(1) by (auto simp: slew_ok_def n_def Let_def)
  define st where "st = (if ?m \<ge> 1000 then - 10 else if ?m \<le> 10 then 10 else ?l)"
  note r = slew_result [OF assms(2,3), folded st_def]
  have up: "unat (?m + 10) = n + 10" using unat_add_lem [of ?m 10] n by (simp add: n_def)
  have dn: "unat (?m + - 10) = n - 10" using unat_sub [of 10 ?m] n by (simp add: n_def word_le_nat_alt)
  have cases: "(st = 10 \<and> n + 10 \<le> 1000) \<or> (st = - 10 \<and> 20 \<le> n)"
  proof (cases "n = 1000 \<or> n = 10")
    case True
    then show ?thesis by (auto simp: st_def word_le_nat_alt n_def)
  next
    case False
    then have "n + 10 \<le> 1000" "20 \<le> n" using n by (auto elim!: dvdE)
    moreover have "st = ?l" using False n by (auto simp: st_def word_le_nat_alt n_def)
    ultimately show ?thesis using l by auto
  qed
  then consider "st = 10" "n + 10 \<le> 1000" | "st = - 10" "20 \<le> n" by blast
  then have "slew_ok a' \<and> \<bar>int (unat (mem_speed_request (am_freqs a'))) - int n\<bar> = 10"
  proof cases
    case 1
    then show ?thesis using r up n by (simp add: slew_ok_def Let_def)
  next
    case 2
    have "10 \<le> n - 10" "n - 10 \<le> 1000" "10 dvd (n - 10)" "\<bar>int (n - 10) - int n\<bar> = 10"
      using 2 n by (simp_all add: dvd_diff_nat)
    then show ?thesis using r dn 2 by (simp add: slew_ok_def Let_def)
  qed
  then show "slew_ok a'" "\<bar>int (unat (mem_speed_request (am_freqs a'))) - int (unat ?m)\<bar> = 10" unfolding n_def by blast+
qed

section \<open>Logs\<close>

lemma set_range_error:
  assumes "fst (mode_range m a) = 0 \<or> snd (mode_range m a) = 0" "\<not> kvm (am_cfg a)"
    "errl_wf (am_errl a)" "i < 5" "\<not> used (am_errl a) i"
    "amec_set_freq_range m a = Inr (h, a')"
  shows "h = ErrNull \<and> errl_wf (am_errl a') \<and> (\<exists>i < 5. used (am_errl a') i \<and> \<not> used (am_errl a) i)
    \<and> am_sys a' = am_sys a \<and> am_freqs a' = am_freqs a"
proof -
  obtain h1 e where c: "createErrl AMEC_SET_FREQ_RANGE INTERNAL_FW_FAILURE ERC_FW_ZERO_FREQ_LIMIT ERRL_SEV_PREDICTIVE TrNull
      DEFAULT_TRACE_SIZE (of_nat m) 0 (am_errl a) = Inr (h1, e)"
    and r: "h = ErrNull" "a' = set_errl (addCalloutToErrl h1 ERRL_CALLOUT_TYPE_COMPONENT_ID ERRL_COMPONENT_ID_FIRMWARE
      ERRL_CALLOUT_PRIORITY_LOW e) a"
    using assms(1,2,6) unfolding amec_set_freq_range_def by (auto simp: kbind_Inr split: prod.splits)
  show ?thesis
  proof (rule create_errl_wf [OF assms(3) c])
    fix j assume j: "h1 = ErrSlot j" "j \<in> sev_range ERRL_SEV_PREDICTIVE" "j < 8" "\<not> used (am_errl a) j" "used e j" "errl_wf e"
    let ?e = "addCalloutToErrl h1 ERRL_CALLOUT_TYPE_COMPONENT_ID ERRL_COMPONENT_ID_FIRMWARE ERRL_CALLOUT_PRIORITY_LOW e"
    have "am_errl a' = ?e" unfolding r(2) by (simp add: am_errl_def set_errl_def)
    moreover have "errl_wf ?e" "used ?e j" using callout_wf [OF j(6,3,5)] j(1,5) used_bits by (simp_all add: used_def)
    moreover have "j < 5" using j(2) by (simp add: sev_range_def)
    moreover have "am_sys a' = am_sys a" "am_freqs a' = am_freqs a" unfolding r(2) by (simp_all add: set_errl_def)
    ultimately show ?thesis using r(1) j(4) by metis
  next
    assume "\<forall>i \<in> sev_range ERRL_SEV_PREDICTIVE. used (am_errl a) i"
    then show ?thesis using assms(4,5) by (simp add: sev_range_def)
  qed
qed

lemma set_errl_frames [simp]:
  "am_freq_st (set_errl e a) = am_freq_st a" "am_glob (set_errl e a) = am_glob a" "am_errl (set_errl e a) = e"
  "am_errl (upd_freq_st f a) = am_errl a"
  by (simp_all add: set_errl_def am_errl_def)

lemma check_perf_once:
  assumes "amec_slv_check_perf a = Inr a'"
  shows "l_prev_ovs_state (am_freq_st a) \<longrightarrow> l_prev_ovs_state (am_freq_st a')"
    "l_prev_pcap_state (am_freq_st a) \<longrightarrow> l_prev_pcap_state (am_freq_st a')"
    "am_errl a' \<noteq> am_errl a \<longrightarrow> \<not> l_prev_ovs_state (am_freq_st a) \<and> l_prev_ovs_state (am_freq_st a')
      \<or> \<not> l_prev_pcap_state (am_freq_st a) \<and> l_prev_pcap_state (am_freq_st a')"
  using assms by (auto simp: amec_slv_check_perf_def Let_def log_oversub_def log_pcap_def kbind_Inr split: if_splits)

end
