(* ===== verification/Amec_Properties.thy ===== *)
theory Amec_Properties imports Amec_Freq_Props Sensor_Properties Errl_Properties begin

text \<open>
  The properties of the control algorithms (src/occ_405/amec): the thermal loops, the power
  capping loop, the voting boxes and the frequency state machine, each with a concrete state on
  which it applies.
\<close>

section \<open>A concrete machine\<close>

definition demo_ctl :: "u16 \<Rightarrow> amec_controller" where
  "demo_ctl sp = \<lparr>ot_error = 0, setpoint = 850, Pgain = 10000, total_res = 500, speed_request = sp,
     freq_request = 4000, temp_timeout = 0\<rparr>"

definition demo_core :: amec_core where
  "demo_core = \<lparr>f_request = 0, f_reason = 0, dps_freq = 3500, parm_f_override = 0, parm_f_reason = 0\<rparr>"

definition demo_freqs :: amec_freqs where
  "demo_freqs = \<lparr>cores = (\<lambda>_. demo_core), core2part = (\<lambda>_. 255),
     part_list = (\<lambda>_. \<lparr>part_valid = 0, soft_fmin = 0, soft_fmax = 0\<rparr>),
     part_mode_freq = (\<lambda>_. \<lparr>mf_fmin = 0, mf_fmax = 0, mf_min_speed = 0\<rparr>), core_max_freq = 3000, core_min_freq = 3000,
     current_clip_count = 0, chip_f_reason_history = 0, proc_f_reason = 0, parm_f_override_enable = 0,
     slv_ips_freq_request = 0, foverride_enable = 0, foverride = 0, pstate_foverride_enable = 0, pstate_foverride = 0,
     mem_throttle_reason = 0, mem_speed_request = 500,
     mnfg_parms = \<lparr>mem_autoslew = False, mem_slew_counter = 0, quad_pstate = (\<lambda>_. 0xFF)\<rparr>\<rparr>"

definition demo_cfg :: sysConfig where
  "demo_cfg = \<lparr>kvm = False, report_dvfs_nom = True, non_redund_ps = False, mem_type = 0xA0, psr = 100,
     total_non_gpu_max_pwr_watts = 800, total_proc_mem_pwr_drop_watts = 50, current_pcap = 0, max_pcap = 2000,
     system_pcap = 1800, sys_num_proc_present = 2, master_ppb_fmax = 3500,
     mode_freq = (\<lambda>m. if m = 7 then 2000 else if m = 1 then 3000 else 3800), apss_huid = 0\<rparr>"

definition demo_glob :: amec_glob where
  "demo_glob = \<lparr>G_dimm_temp_expired_dw0 = 0, G_dimm_temp_expired_dw1 = 0, G_cent_temp_expired_bitmap = 0,
     G_ocm_dts_type_expired_bitmap = 0, G_proc_fmax_mhz = 4000, G_mhz_per_pstate = 17, G_first_proc_gpu_config = 3,
     G_first_num_gpus_sys = 2, occ_master = True, pwr_reading_apss = True, oversubPinLive = False, emulate_oversub = False,
     occ_mode = 3, wof_disabled = 0, wof_init_state = 5, G_present_cores = 0xF0000000, G_core_offline_mask = 0x10000000,
     G_allowPstates = True, G_non_dps_power_limited = True, G_amec_opal_proc_throt_reason = 0,
     G_amec_opal_mem_throt_reason = 0, G_desired_pstate = (\<lambda>_. 0), dcom_posts = 0, amec_now = 0, amec_tb_hz = 37500000\<rparr>"

definition demo_gpu :: gpuPcap where
  "demo_gpu = \<lparr>pwr_limits_read = True, gpu_min_pcap_mw = 150000, gpu_max_pcap_mw = 300000, gpu_desired_pcap_mw = 0\<rparr>"

definition demo_amec :: amec where
  "demo_amec = \<lparr>am_thermal = \<lparr>thermalproc = demo_ctl 900, thermalcent = demo_ctl 700, thermaldimm = demo_ctl 600,
       thermalmcdimm = demo_ctl 550, thermalpmic = demo_ctl 800, thermalmcext = demo_ctl 900, thermalvdd = demo_ctl 900\<rparr>,
     am_sys = \<lparr>sys_fmin = 2000, sys_fmax = 3900, max_speed = 1000, min_speed = 500, speed_step = 1, speed_step_limit = 200,
       vrm_fault_status = 0\<rparr>,
     am_pcap = \<lparr>ovs_node_pcap = 1500, norm_node_pcap = 1800, active_node_pcap = 1000, active_proc_pcap = 400,
       nominal_mem_pwr = 100, turbo_mem_pwr = 120, pcap1_mem_pwr = 60, active_mem_level = 0\<rparr>,
     am_pcap_valid = 0,
     am_votes = \<lparr>ppb_fmax = 3700, pmax_clip_freq = 3800, proc_pcap_vote = 3600, nom_pcap_fmin = 2000,
       proc_pcap_nom_vote = 3600, apss_pmax_clip_freq = 3800\<rparr>,
     am_gpu = (\<lambda>_. demo_gpu),
     am_freqs = demo_freqs,
     am_gpu_st = \<lparr>L_total_gpu_pcap = 0, L_n_plus_1_mode_gpu_total_pcap = 500, L_n_mode_gpu_total_pcap = 400,
       L_active_psr_gpu_total_pcap = 0, L_per_gpu_pcap = 0, L_psr = 100, L_first_run = False, L_last_pcap_traced = (\<lambda>_. 0)\<rparr>,
     am_pcap_st = \<lparr>L_prev_node_pcap = 0, L_apss_error_traced = False, L_ticks_mem_pwr_available = 0, L_num_chips = 0\<rparr>,
     am_freq_st = \<lparr>L_last_reason = 0, L_mfg_set_trace = (\<lambda>_. False), L_mfg_clear_trace = (\<lambda>_. False), l_slew_step = 10,
       L_throttle_traced = False, l_prev_ovs_state = False, l_prev_pcap_state = False, l_pcap_sev = ERRL_SEV_PREDICTIVE,
       l_throttle_traced = False, l_time = 0\<rparr>,
     am_cfg = demo_cfg,
     am_oppb = \<lparr>frequency_min_khz = 2000000, frequency_max_khz = 4000000, frequency_step_khz = 16667, pstate_min = 120\<rparr>,
     am_glob = demo_glob,
     am_sens = (demo_sens empty_store)\<lparr>sn_sensors := (\<lambda>p. zero_sensor\<lparr>sample := (if p = 12 then 1000 else if p = 37 then 400 else 0)\<rparr>)\<rparr>\<rparr>"

lemmas demo_defs = demo_amec_def demo_ctl_def demo_core_def demo_freqs_def demo_cfg_def demo_glob_def

section \<open>The thermal loops\<close>

text \<open>
  C26: One tick of the processor's over-temperature loop computes the intended controller: error
  times gain is added to the carried remainder, the whole steps in it (limited per tick) move the
  speed between the minimum and maximum, and the frequency request is the speed's share of Fmax.
  The speed never rises while the processor is too hot and never falls while it is not.
\<close>

theorem proc_thermal_loop:
  assumes r: "cpu_range a" "1 \<le> sint (speed_step_limit (am_sys a))"
    and c: "c = thermalproc (am_thermal a)" "speed_request c \<le> max_speed (am_sys a)" "min_speed (am_sys a) \<le> speed_request c"
    and t: "temp = sample_by_gsid TEMPPROCTHRM a * 10" "\<bar>uint (setpoint c) - uint temp\<bar> < 32768" "setpoint c \<noteq> temp"
    and c': "c' = thermalproc (am_thermal (amec_controller_proc_thermal a))" and e: "e = effort (setpoint c) temp (Pgain c)"
  shows "uint (speed_request c') = ideal_speed (sint (speed_step_limit (am_sys a))) (uint (speed_step (am_sys a)))
      (uint (max_speed (am_sys a))) (uint (min_speed (am_sys a))) e (speed_request c) (total_res c)
    \<and> total_res c' = store16 (e + uint (total_res c))
    \<and> freq_request c' = amec_controller_speed2freq (speed_request c') (sys_fmax (am_sys a)) a
    \<and> min_speed (am_sys a) \<le> speed_request c' \<and> speed_request c' \<le> max_speed (am_sys a)
    \<and> (if 0 \<le> e then speed_request c \<le> speed_request c' else speed_request c' \<le> speed_request c)"
proof -
  have c1: "c' = run_cpu_loop id temp a c"
    using t(3) unfolding c' amec_controller_proc_thermal_def Let_def c(1) t(1) by simp
  note eqs = cpu_loop_eq [OF r(1) c(2) t(2) _ c1 e, unfolded id_apply, OF refl]
  have st: "0 \<le> uint (speed_step (am_sys a))" by simp
  have b: "uint (min_speed (am_sys a)) \<le> uint (speed_request c)" "uint (speed_request c) \<le> uint (max_speed (am_sys a))"
    using c(2,3) by (simp_all add: word_le_def)
  have "if 0 \<le> e then speed_request c \<le> speed_request c' else speed_request c' \<le> speed_request c"
  proof (cases "0 \<le> e")
    case True
    then show ?thesis
      using ideal_up [OF True _ st b(2), of "sint (speed_step_limit (am_sys a))" "uint (min_speed (am_sys a))" "total_res c"] r(2)
      by (simp add: word_le_def eqs(1))
  next
    case False
    then show ?thesis
      using ideal_down [of e "sint (speed_step_limit (am_sys a))" "uint (speed_step (am_sys a))"
        "uint (max_speed (am_sys a))" "uint (min_speed (am_sys a))" "speed_request c" "total_res c"] r(2) st b(1)
      by (simp add: word_le_def eqs(1))
  qed
  with eqs show ?thesis by blast
qed

theorem proc_thermal_loop_witness:
  "speed_request (thermalproc (am_thermal demo_amec)) \<le>
     speed_request (thermalproc (am_thermal (amec_controller_proc_thermal demo_amec)))"
proof -
  have t: "sample_by_gsid TEMPPROCTHRM demo_amec * 10 = 0"
    by (simp add: sample_by_gsid_def TEMPPROCTHRM_def getSensorByGsid_def demo_defs demo_sens_def zero_sensor_def)
  have r: "cpu_range demo_amec"
    by (simp add: cpu_range_def loop_range_def demo_defs)
  show ?thesis
    using proc_thermal_loop [of demo_amec "demo_ctl 900" 0 _ "effort 850 0 10000", OF r _ _ _ _ t [symmetric] _ _ refl]
    by (simp add: demo_defs effort_def)
qed

text \<open>
  C38: Over any run of ticks in which neither the step limit nor the speed range cuts in, the loop
  loses no control effort to rounding: speed and remainder together account exactly for the sum
  of all errors times the gain.
\<close>

theorem control_effort_conserved:
  assumes "loop_range lim step max_s min_s" "uint (fst s) \<le> max_s" "free_run lim step max_s min_s set_pt gain ts s"
    "s' = fold (ctl_tick lim step max_s min_s set_pt gain) ts s"
  shows "uint (fst s') * 65536 + uint (snd s') * step =
    uint (fst s) * 65536 + uint (snd s) * step + (\<Sum>temp \<leftarrow> ts. effort set_pt temp gain) * step"
  by (rule run_account [OF assms])

theorem control_effort_conserved_witness:
  "\<exists>v r. fold (ctl_tick 1638 10 1000 10 850 10000) [840, 862] (500, 100) = (v, r) \<and>
     uint v * 65536 + uint r * 10 = 500 * 65536 + 100 * 10 + (100000 - 120000) * 10"
proof -
  obtain v r where f: "fold (ctl_tick 1638 10 1000 10 850 10000) [840, 862] (500, 100) = (v, r)" by fastforce
  have l: "loop_range 1638 10 1000 10" by (simp add: loop_range_def)
  have fr: "free_run 1638 10 1000 10 850 10000 [840, 862] (500, 100)" by code_simp
  show ?thesis using control_effort_conserved [OF l _ fr f [symmetric]] f by (simp add: effort_def)
qed

text \<open>
  C37: The memory thermal loops are independent: a tick runs the controller of each monitored kind
  of FRU (DIMM always; memory controller, PMIC and external sensor only with OCM memory) on its own
  temperature, or on ten above the limit when its reading timed out, computes the intended speed
  from that controller's own state, leaves it alone when there is no reading or no error, and never
  touches the controllers of the other kinds. Every speed stays between 10 and 1000.
\<close>

theorem memory_loops_independent:
  assumes ok: "\<forall>d. mem_speed_ok (get_ctl d (am_thermal a))"
    and t: "\<forall>d. \<bar>uint (setpoint (get_ctl d (am_thermal a))) - uint (dimm_temp d a)\<bar> < 32768"
    and c: "c = get_ctl d (am_thermal a)" and c': "c' = get_ctl d (am_thermal (amec_controller_dimm_thermal a))"
    and e: "e = effort (setpoint c) (dimm_temp d a) (Pgain c)"
  shows "mem_speed_ok c' \<and>
    (if (d = DATA_FRU_DIMM \<or> mem_type (am_cfg a) = MEM_TYPE_OCM) \<and> dimm_temp d a \<noteq> 0 \<and> setpoint c \<noteq> dimm_temp d a
     then uint (speed_request c') = ideal_speed 1638 10 1000 10 e (speed_request c) (total_res c)
       \<and> total_res c' = store16 (e + uint (total_res c))
     else c' = c)"
proof -
  have okc: "mem_speed_ok c" and tc: "\<bar>uint (setpoint c) - uint (dimm_temp d a)\<bar> < 32768" using ok t by (simp_all add: c)
  have run: "mem_speed_ok (run_mem_loop (dimm_temp d a) c)" by (rule mem_loop_ok [OF okc tc])
  have eq: "uint (speed_request (run_mem_loop (dimm_temp d a) c)) = ideal_speed 1638 10 1000 10 e (speed_request c) (total_res c)"
    unfolding e by (rule mem_loop_speed [OF okc tc])
  have rs: "total_res (run_mem_loop (dimm_temp d a) c) = store16 (e + uint (total_res c))"
    using okc mem_loop_eq [OF _ tc e] by (simp add: mem_speed_ok_def)
  have skip: "dimm_ctl d a = c" if "dimm_temp d a = 0 \<or> setpoint c = dimm_temp d a"
    using that unfolding dimm_ctl_def dimm_step_def Let_def dimm_temp_def c by (auto split: if_splits)
  show ?thesis
  proof (cases "d = DATA_FRU_DIMM \<or> mem_type (am_cfg a) = MEM_TYPE_OCM")
    case True
    then have d: "c' = dimm_ctl d a" unfolding c' dimm_thermal_ctl by (rule if_P)
    show ?thesis
    proof (cases "dimm_temp d a \<noteq> 0 \<and> setpoint c \<noteq> dimm_temp d a")
      case go: True
      then have "c' = run_mem_loop (dimm_temp d a) c" using dimm_ctl_run [of d a] d by (simp add: c)
      with run eq rs go True show ?thesis by simp
    next
      case False
      with skip d okc show ?thesis by auto
    qed
  next
    case False
    then have "c' = c" unfolding c' dimm_thermal_ctl c by (rule if_not_P)
    with False okc show ?thesis by simp
  qed
qed

theorem memory_loops_independent_witness:
  "mem_speed_ok (get_ctl DATA_FRU_PMIC (am_thermal (amec_controller_dimm_thermal demo_amec)))"
proof -
  have "dimm_temp d demo_amec = 0" for d
    by (cases d) (simp_all add: dimm_temp_def sample_by_gsid_def getSensorByGsid_def demo_defs demo_sens_def zero_sensor_def
      TEMPDIMMTHRM_def TEMPMCDIMMTHRM_def TEMPPMICTHRM_def TEMPMCEXTTHRM_def)
  moreover have "mem_speed_ok (get_ctl d (am_thermal demo_amec)) \<and> setpoint (get_ctl d (am_thermal demo_amec)) = 850" for d
    by (cases d) (simp_all add: mem_speed_ok_def demo_defs)
  ultimately show ?thesis
    by (intro conjunct1 [OF memory_loops_independent [of demo_amec _ DATA_FRU_PMIC, OF _ _ refl refl refl]]) simp_all
qed

section \<open>Power capping\<close>

lemma gpu_cap_frames:
  assumes "amec_gpu_pcap ov ch a = Inr a'"
  shows "am_pcap a' = am_pcap a" "am_cfg a' = am_cfg a" "am_votes a' = am_votes a" "am_glob a' = am_glob a"
proof -
  have logs: "am_pcap b' = am_pcap b \<and> am_cfg b' = am_cfg b \<and> am_votes b' = am_votes b \<and> am_glob b' = am_glob b"
    if "log_gpu_pcap erc w b = Inr b'" for erc w b b'
    using that by (auto simp: log_gpu_pcap_def kbind_Inr Let_def set_errl_def)
  have mode: "am_pcap b' = am_pcap b \<and> am_cfg b' = am_cfg b \<and> am_votes b' = am_votes b \<and> am_glob b' = am_glob b"
    if "gpu_n_mode b = Inr b' \<or> gpu_n_plus_1_mode b = Inr b'" for b b'
    using that by (auto simp: gpu_n_mode_def gpu_n_plus_1_mode_def upd_gpu_st_def Let_def dest!: logs split: if_splits)
  have one: "am_pcap (gpu_set_limit i b) = am_pcap b \<and> am_cfg (gpu_set_limit i b) = am_cfg b
      \<and> am_votes (gpu_set_limit i b) = am_votes b \<and> am_glob (gpu_set_limit i b) = am_glob b" for i b
    by (simp add: gpu_set_limit_def upd_gpu_st_def Let_def)
  have fold: "am_pcap (fold gpu_set_limit xs b) = am_pcap b \<and> am_cfg (fold gpu_set_limit xs b) = am_cfg b
      \<and> am_votes (fold gpu_set_limit xs b) = am_votes b \<and> am_glob (fold gpu_set_limit xs b) = am_glob b" for xs b
    by (induction xs arbitrary: b) (simp_all add: one)
  obtain a1 where a1: "(if L_first_run (am_gpu_st a) then kbind (gpu_n_mode a) gpu_n_plus_1_mode else Inr a) = Inr a1"
    using assms by (auto simp: amec_gpu_pcap_def kbind_Inr)
  have "am_pcap a1 = am_pcap a \<and> am_cfg a1 = am_cfg a \<and> am_votes a1 = am_votes a \<and> am_glob a1 = am_glob a"
    using a1 by (auto simp: kbind_Inr dest!: mode [OF disjI1] mode [OF disjI2] split: if_splits)
  then show "am_pcap a' = am_pcap a" "am_cfg a' = am_cfg a" "am_votes a' = am_votes a" "am_glob a' = am_glob a"
    using assms by (auto simp: amec_gpu_pcap_def a1 Let_def fold upd_gpu_st_def)
qed

text \<open>
  C31: With memory unthrottled, the cap computed for the processor is its measured power plus its
  share of the available node power, rounded down, although the code computes it in unsigned
  32-bit arithmetic and the available power may be negative; the share never exceeds the power
  available, and when the node is over its cap the processor is never asked to shed more than the
  excess.
\<close>

theorem processor_cap_is_its_share:
  assumes r: "amec_pcap_calc ov a = Inr a'" "active_mem_level (am_pcap a) = 0" "active_mem_level (am_pcap a') = 0"
    and n: "node = amecsensor PWRSYS a" "node \<noteq> 0" and p: "p0 = amecsensor PWRPROC a" "p0 \<le> node"
    and av: "avail = uint (pick_node_pcap ov a) - uint node"
    and sh: "sh = uint p0 * 65536 div uint node * avail div 65536"
  shows "uint (active_proc_pcap (am_pcap a')) = uint p0 + sh \<and> active_node_pcap (am_pcap a') = pick_node_pcap ov a
    \<and> (if avail \<le> 0 then avail \<le> sh \<and> sh \<le> 0 else 0 \<le> sh \<and> sh \<le> avail)"
proof -
  define fr where "fr = push_bit 16 (ucast p0 :: u32) div ucast node"
  have lo: "- uint node \<le> avail" using uint_u16_bounds [of "pick_node_pcap ov a"] unfolding av by linarith
  note b0 = share_bounds [OF n(2) p(2) fr_def lo]
  have sh': "uint fr * avail div 65536 = sh" unfolding b0(4) sh ..
  note b = b0(1-3) [unfolded sh']
  have up: "uint p0 + sh < 65536"
  proof (cases "avail \<le> 0")
    case True
    then show ?thesis using b(2) uint_u16_bounds [of p0] by linarith
  next
    case False
    then show ?thesis using b(3) p(2) uint_u16_bounds [of "pick_node_pcap ov a"] av unfolding word_le_def by linarith
  qed
  define a2 where "a2 = (let a1 = upd_pcap (\<lambda>p. p\<lparr>active_node_pcap := pick_node_pcap ov a\<rparr>) a
     in if L_prev_node_pcap (am_pcap_st a1) \<noteq> ucast (pick_node_pcap ov a)
        then (upd_pcap_st (\<lambda>s. s\<lparr>L_prev_node_pcap := ucast (pick_node_pcap ov a)\<rparr>) a1)\<lparr>am_pcap_valid := 1\<rparr> else a1)"
  have a2: "am_pcap a2 = (am_pcap a)\<lparr>active_node_pcap := pick_node_pcap ov a\<rparr>"
    by (simp add: a2_def upd_pcap_def upd_pcap_st_def Let_def)
  obtain a3 ch where a3: "(if G_first_proc_gpu_config (am_glob a2) \<noteq> 0 then amec_gpu_pcap ov ch a2 else Inr a2) = Inr a3"
    and rest: "(let (frac, avl, a4) = (if node \<noteq> 0 then
            (let (av, b) = mem_throttle avail (upd_pcap_st (\<lambda>s. s\<lparr>L_apss_error_traced := False\<rparr>) a3) in (fr, av, b))
          else (0, avail, upd_pcap_st (\<lambda>s. s\<lparr>L_apss_error_traced := True\<rparr>) a3))
      in if active_mem_level (am_pcap a4) = 0 then
           Inr (upd_votes (\<lambda>v. v\<lparr>nom_pcap_fmin := (if active_node_pcap (am_pcap a4) < max_pcap (am_cfg a4) then min_frequency a4
             else mode_freq (am_cfg a4) OCC_MODE_NOMINAL)\<rparr>) (upd_pcap (\<lambda>p. p\<lparr>active_proc_pcap := proc_share p0 frac avl\<rparr>) a4))
         else Inr a4) = (Inr a' :: panic_code + amec)"
    using r(1) unfolding amec_pcap_calc_def n(1) [symmetric] p(1) [symmetric] a2_def
    by (auto simp: Let_def upd_pcap_def upd_pcap_st_def kbind_Inr av fr_def cong: if_cong split del: if_split)
  have a3p: "am_pcap a3 = am_pcap a2" using a3 gpu_cap_frames(1) by (auto split: if_splits)
  let ?b = "upd_pcap_st (\<lambda>s. s\<lparr>L_apss_error_traced := False\<rparr>) a3"
  have lev: "active_mem_level (am_pcap ?b) = 0" using r(2) by (simp add: upd_pcap_st_def a3p a2)
  obtain av2 b2 where m: "mem_throttle avail ?b = (av2, b2)" by fastforce
  have m2: "av2 = avail \<and> active_node_pcap (am_pcap b2) = active_node_pcap (am_pcap a2)"
    using m lev by (auto simp: mem_throttle_def Let_def upd_pcap_def upd_pcap_st_def a3p split: if_splits)
  have "active_mem_level (am_pcap b2) = 0"
    using r(3) rest n(2) by (auto simp: m upd_votes_def upd_pcap_def Let_def split: if_splits)
  then have e: "active_proc_pcap (am_pcap a') = proc_share p0 fr avail" "active_node_pcap (am_pcap a') = pick_node_pcap ov a"
    using m2 rest n(2) by (auto simp: m upd_votes_def upd_pcap_def a2 Let_def)
  have "uint (proc_share p0 fr avail) = uint p0 + sh"
    unfolding proc_share_eq sh' uint_store16 using b(1) up by (rule mod_pos_pos_trivial)
  then show ?thesis unfolding e using b(2,3) by auto
qed

lemma gpu_cap_runs: "\<not> L_first_run (am_gpu_st a) \<Longrightarrow> \<exists>a'. amec_gpu_pcap ov ch a = Inr a'"
  by (simp add: amec_gpu_pcap_def Let_def)

lemma demo_sensors: "amecsensor PWRSYS demo_amec = 1000" "amecsensor PWRPROC demo_amec = 400"
  by (simp_all add: amecsensor_def PWRSYS_def PWRPROC_def demo_amec_def demo_sens_def)

theorem processor_cap_is_its_share_witness:
  "\<exists>a'. amec_pcap_calc False demo_amec = Inr a' \<and> uint (active_proc_pcap (am_pcap a')) = 719"
proof -
  have cap: "pick_node_pcap False demo_amec = 1800" by (simp add: pick_node_pcap_def demo_amec_def)
  define b where "b = upd_pcap_st (\<lambda>s. s\<lparr>L_prev_node_pcap := 1800\<rparr>)
    (upd_pcap (\<lambda>p. p\<lparr>active_node_pcap := 1800\<rparr>) demo_amec)\<lparr>am_pcap_valid := 1\<rparr>"
  obtain a3 where a3: "amec_gpu_pcap False True b = Inr a3"
    using gpu_cap_runs [of b] by (auto simp: b_def upd_pcap_st_def upd_pcap_def demo_amec_def)
  have lev: "active_mem_level (am_pcap a3) = 0"
    using gpu_cap_frames(1) [OF a3] by (simp add: b_def upd_pcap_st_def upd_pcap_def demo_amec_def)
  have prev: "L_prev_node_pcap (am_pcap_st demo_amec) = 0" "G_first_proc_gpu_config (am_glob demo_amec) = 3"
    by (simp_all add: demo_amec_def demo_glob_def)
  obtain a' where a': "amec_pcap_calc False demo_amec = Inr a'" "active_mem_level (am_pcap a') = 0"
    using lev a3
    by (simp add: amec_pcap_calc_def demo_sensors cap prev upd_pcap_def upd_pcap_st_def b_def mem_throttle_def upd_votes_def)
  have "active_mem_level (am_pcap demo_amec) = 0" by (simp add: demo_amec_def)
  from processor_cap_is_its_share [OF a'(1) this a'(2) refl _ refl _ refl refl] a'(1) show ?thesis
    by (simp add: demo_sensors cap)
qed



text \<open>
  C33: The performance-preserving bound the master computes stays between the minimum frequency
  and the processor's maximum. When the node is at or over its cap, the bound goes to the minimum
  or is lowered by at least the overshoot's worth in MHz, and at least one pstate.
\<close>

theorem ppb_bound_sheds:
  assumes "min_frequency a \<le> G_proc_fmax_mhz (am_glob a)" "occ_master (am_glob a)"
    and av: "avail = uint (active_node_pcap (am_pcap a)) - uint (amecsensor PWRSYS a)"
    and m: "m = master_ppb_fmax (am_cfg (amec_ppb_fmax_calc a))"
  shows "ucast (min_frequency a) \<le> m \<and> m \<le> ucast (G_proc_fmax_mhz (am_glob a)) \<and>
    (0 < avail \<or> m = ucast (min_frequency a) \<or> uint m \<le> uint (master_ppb_fmax (am_cfg a))
       - max (uint (G_mhz_per_pstate (am_glob a))) (node_mhz_per_watt (am_cfg a) * (- avail)))"
proof -
  note r = ppb_range [OF assms(1,2), folded m]
  have "0 < avail \<or> m = ucast (min_frequency a) \<or> uint m \<le> uint (ppb_move avail a)"
  proof -
    have "m = (let m1 = ppb_move avail a; hi = ucast (G_proc_fmax_mhz (am_glob a)); m2 = (if m1 > hi then hi else m1)
        in if m2 < ucast (min_frequency a) then ucast (min_frequency a) else m2)"
      using assms(2) by (simp add: m amec_ppb_fmax_calc_def av Let_def)
    then show ?thesis by (auto simp: Let_def word_less_def word_le_def split: if_splits)
  qed
  moreover have "ppb_move avail a = ucast (min_frequency a) \<or> uint (ppb_move avail a) \<le> uint (master_ppb_fmax (am_cfg a))
       - max (uint (G_mhz_per_pstate (am_glob a))) (node_mhz_per_watt (am_cfg a) * (- avail))" if "avail \<le> 0"
    using ppb_move_sheds [OF that] uint_u16_bounds [of "active_node_pcap (am_pcap a)"] uint_u16_bounds [of "amecsensor PWRSYS a"]
    by (simp add: av)
  ultimately show ?thesis using r(1,2) by (smt (verit) word_le_def word_uint_eq_iff)
qed

theorem ppb_bound_sheds_witness:
  "uint (master_ppb_fmax (am_cfg (amec_ppb_fmax_calc demo_amec))) \<le> 3483"
proof -
  have "min_frequency demo_amec = 2000" "G_proc_fmax_mhz (am_glob demo_amec) = 4000" "occ_master (am_glob demo_amec)"
    "active_node_pcap (am_pcap demo_amec) = 1000" "G_mhz_per_pstate (am_glob demo_amec) = 17"
    "master_ppb_fmax (am_cfg demo_amec) = 3500" "node_mhz_per_watt (am_cfg demo_amec) = 3"
    by (simp_all add: demo_amec_def demo_cfg_def demo_glob_def OCC_MODE_MIN_FREQUENCY_def node_mhz_per_watt_def PROC_MHZ_PER_WATT_def)
  then show ?thesis using ppb_bound_sheds [of demo_amec, OF _ _ refl refl] by (auto simp: demo_sensors)
qed

text \<open>
  Each GPU that is present and has reported its limits is asked for the per-GPU share of the
  total, clipped into its own limits; the other GPUs keep what they had.
\<close>

theorem gpu_limits_respected:
  assumes "amec_gpu_pcap ov ch a = Inr a'" "i < 3" "gpu_min_pcap_mw (am_gpu a i) \<le> gpu_max_pcap_mw (am_gpu a i)"
  shows "if gpu_present i a \<and> pwr_limits_read (am_gpu a i)
    then gpu_desired_pcap_mw (am_gpu a' i) = gpu_clip (L_per_gpu_pcap (am_gpu_st a')) (am_gpu a i)
      \<and> gpu_min_pcap_mw (am_gpu a i) \<le> gpu_desired_pcap_mw (am_gpu a' i)
      \<and> gpu_desired_pcap_mw (am_gpu a' i) \<le> gpu_max_pcap_mw (am_gpu a i)
    else am_gpu a' i = am_gpu a i"
  using gpu_pcap_limits [OF assms(1,2)] gpu_clip_range [OF assms(3)] by simp

theorem gpu_limits_respected_witness:
  "\<exists>a'. amec_gpu_pcap False True demo_amec = Inr a' \<and> 150000 \<le> gpu_desired_pcap_mw (am_gpu a' 1)"
proof -
  obtain a' where a': "amec_gpu_pcap False True demo_amec = Inr a'"
    using gpu_cap_runs [of demo_amec] by (auto simp: demo_amec_def)
  have "gpu_present 1 demo_amec" by (simp add: gpu_present_def demo_amec_def demo_glob_def)
  moreover have "am_gpu demo_amec 1 = demo_gpu" by (simp add: demo_amec_def)
  moreover have "pwr_limits_read demo_gpu" "gpu_min_pcap_mw demo_gpu = 150000" "gpu_max_pcap_mw demo_gpu = 300000"
    by (simp_all add: demo_gpu_def)
  ultimately have "150000 \<le> gpu_desired_pcap_mw (am_gpu a' 1)"
    using gpu_limits_respected [OF a', of 1] by auto
  then show ?thesis using a' by blast
qed

end
