(* ===== verification/Amec_Vote_Properties.thy ===== *)
theory Amec_Vote_Properties
  imports Amec_Properties
begin

text \<open>
  What the frequency side of the slave loop promises: the voting box, the frequency state machine
  and its pstate table, the memory voting box, and the error logs the loop writes.
\<close>

section \<open>The voting box\<close>

lemma fold_min_le: "fold min xs (m :: u16) \<le> m"
proof (induction xs arbitrary: m)
  case (Cons x xs)
  have "fold min xs (min x m) \<le> m" by (rule order_trans [OF Cons min.cobounded2])
  then show ?case by simp
qed simp

lemma lower_le: "vt_freq (lower f r rep v) \<le> vt_freq v"
  by (simp add: lower_freq)

definition no_overrides :: "amec \<Rightarrow> bool" where
  "no_overrides a \<longleftrightarrow> foverride_enable (am_freqs a) = 0 \<and> pstate_foverride_enable (am_freqs a) = 0
     \<and> parm_f_override_enable (am_freqs a) = 0"

lemma core_req_range:
  assumes "no_overrides a" "kvm (am_cfg a)" "sys_fmin (am_sys a) \<le> sys_fmax (am_sys a)"
  shows "sys_fmin (am_sys a) \<le> vt_freq (core_req a (chip_vote a) k)
    \<and> vt_freq (core_req a (chip_vote a) k) \<le> sys_fmax (am_sys a)"
proof -
  have c: "vt_freq (chip_vote a) \<le> sys_fmax (am_sys a)"
    by (simp only: chip_vote_freq fold_min_le)
  have m: "vt_freq (master_vote (am_freqs a) (chip_vote a)) \<le> vt_freq (chip_vote a)"
    using assms(1) by (simp add: no_overrides_def master_vote_def Let_def lower_le)
  have "core_req a (chip_vote a) k = floor_vote (sys_fmin (am_sys a)) (master_vote (am_freqs a) (chip_vote a))"
    using assms(1,2) by (simp add: core_req_def core_vote_def parm_vote_def no_overrides_def dps_vote_def)
  then show ?thesis using m c assms(3) by (auto simp: floor_vote_def)
qed



text \<open>
  With no manufacturing override in force on a system that hides the partitions, every online
  core's request lies between the minimum and maximum frequency of the mode.
\<close>

theorem core_requests_in_range:
  assumes "a' = amec_slv_proc_voting_box a" "k < 24" "core_online k (am_glob a)"
    and "no_overrides a" "kvm (am_cfg a)" "sys_fmin (am_sys a) \<le> sys_fmax (am_sys a)"
  shows "sys_fmin (am_sys a) \<le> f_request (cores (am_freqs a') k) \<and> f_request (cores (am_freqs a') k) \<le> sys_fmax (am_sys a)"
  using voting_box_effect(1) [OF assms(1,2)] core_req_range [OF assms(4-6)] assms(3) by simp

definition demo_kvm :: amec where
  "demo_kvm = demo_amec\<lparr>am_cfg := demo_cfg\<lparr>kvm := True\<rparr>, am_glob := demo_glob\<lparr>G_core_offline_mask := 0\<rparr>\<rparr>"

theorem core_requests_in_range_witness:
  "2000 \<le> f_request (cores (am_freqs (amec_slv_proc_voting_box demo_kvm)) 0)"
proof -
  have "core_online 0 (am_glob demo_kvm)" "no_overrides demo_kvm" "kvm (am_cfg demo_kvm)"
    "sys_fmin (am_sys demo_kvm) = 2000" "sys_fmax (am_sys demo_kvm) = 3900"
    by (simp_all add: demo_kvm_def demo_defs core_online_def no_overrides_def)
  then show ?thesis using core_requests_in_range [of _ demo_kvm 0, OF refl] by simp
qed

section \<open>Pstates\<close>

text \<open>
  Under the limits the pstate table keeps, turning a frequency into a pstate is exact: it is
  the number of whole steps below the maximum frequency, at most the table's last pstate, with
  frequencies below the minimum of the current mode raised to it first. A higher frequency never
  gives a higher (slower) pstate.
\<close>

theorem pstate_of_frequency:
  assumes "oppb_ok a" "unat (min_frequency a) \<le> 6000" "unat mhz \<le> 65535" "unat mhz' \<le> 65535"
  shows "unat (proc_freq2pstate mhz a) = ideal_pstate (unat mhz) a
    \<and> (mhz \<le> mhz' \<longrightarrow> proc_freq2pstate mhz' a \<le> proc_freq2pstate mhz a)"
proof -
  note e = pstate_eq [OF assms(1-2)]
  have "proc_freq2pstate mhz' a \<le> proc_freq2pstate mhz a" if "mhz \<le> mhz'"
    using that ideal_pstate_antimono [of "unat mhz" "unat mhz'" a] e [OF assms(3)] e [OF assms(4)]
    by (simp add: word_le_nat_alt)
  with e [OF assms(3)] show ?thesis by blast
qed

theorem pstate_of_frequency_witness:
  "unat (proc_freq2pstate 3000 demo_amec) = 59"
proof -
  have "min_frequency demo_amec = 2000"
    "am_oppb demo_amec = \<lparr>frequency_min_khz = 2000000, frequency_max_khz = 4000000, frequency_step_khz = 16667, pstate_min = 120\<rparr>"
    by (simp_all add: demo_amec_def demo_cfg_def demo_glob_def OCC_MODE_MIN_FREQUENCY_def)
  then have "oppb_ok demo_amec" "unat (min_frequency demo_amec) \<le> 6000" "ideal_pstate 3000 demo_amec = 59"
    by (simp_all add: oppb_ok_def ideal_pstate_def clipped_khz_def Let_def)
  then show ?thesis using pstate_of_frequency [of demo_amec 3000 3000] by simp
qed

text \<open>
  C39: The frequency state machine writes for each quad the numerically largest (slowest) pstate of
  its active cores, the chip's if the quad has none, raised to the quad's manufacturing override;
  when no core is active at all it leaves the desired pstates as they were.
\<close>

theorem quad_pstates:
  assumes "a' = amec_slv_freq_smh a" "q < 6"
  shows "G_desired_pstate (am_glob a') q =
      (if \<exists>x \<in> set scan_order. core_active a x then quad_goal a q else G_desired_pstate (am_glob a) q)
    \<and> am_freqs a' = am_freqs a"
  using freq_smh_effect [OF assms] by blast

theorem quad_pstates_witness:
  "G_desired_pstate (am_glob (amec_slv_freq_smh demo_amec)) 0 =
    (if \<exists>x \<in> set scan_order. core_active demo_amec x then quad_goal demo_amec 0 else 0)"
  using quad_pstates [of _ demo_amec 0, OF refl] by (simp add: demo_amec_def demo_glob_def)

section \<open>Memory\<close>

text \<open>
  The memory speed the voting box publishes is the smallest of the five memory loops' requests
  and the full speed 1000, unless manufacturing slewing is on.
\<close>

theorem memory_speed_is_minimum:
  assumes "\<not> mem_autoslew (mnfg_parms (am_freqs a))"
  shows "mem_speed_request (am_freqs (amec_slv_mem_voting_box a)) = fold min (mem_requests (am_thermal a)) 1000"
  by (rule mem_vote_result [OF assms])

theorem memory_speed_is_minimum_witness:
  "mem_speed_request (am_freqs (amec_slv_mem_voting_box demo_amec)) = 550"
proof -
  have "mem_requests (am_thermal demo_amec) = [700, 600, 550, 800, 900]"
    by (simp add: mem_requests_def demo_amec_def demo_ctl_def)
  moreover have "\<not> mem_autoslew (mnfg_parms (am_freqs demo_amec))" by (simp add: demo_amec_def demo_freqs_def)
  ultimately show ?thesis using memory_speed_is_minimum [of demo_amec] by (simp add: min_def)
qed

lemma slew_kept: "mnfg_parms (am_freqs (amec_slv_mem_voting_box a)) =
    mnfg_parms (am_freqs a)\<lparr>mem_slew_counter := mem_slew_counter (mnfg_parms (am_freqs (amec_slv_mem_voting_box a)))\<rparr>"
proof -
  let ?t = "am_thermal a"
  define kr0 where "kr0 = (if active_mem_level (am_pcap a) \<noteq> 0 then POWER_CAP else NO_THROTTLE)"
  define v where "v = mem_lower (speed_request (thermalmcext ?t)) 6 (mem_lower (speed_request (thermalpmic ?t)) 5
    (mem_lower (speed_request (thermalmcdimm ?t)) 4 (mem_lower (speed_request (thermaldimm ?t)) 2
    (mem_lower (speed_request (thermalcent ?t)) 1 (1000, 0, kr0)))))"
  obtain vt r kr where v3: "v = (vt, r, kr)" by (cases v)
  show ?thesis
    unfolding amec_slv_mem_voting_box_def Let_def kr0_def [symmetric] v_def [symmetric] v3 prod.case
    by (cases "mem_autoslew (mnfg_parms (am_freqs a))") (simp_all add: post_dcom_def)
qed

lemma slew_stays: "mem_autoslew (mnfg_parms (am_freqs (amec_slv_mem_voting_box a))) = mem_autoslew (mnfg_parms (am_freqs a))"
  by (subst slew_kept) simp

text \<open>
  While manufacturing slewing is on, the memory speed moves by exactly one step of 1.0% each
  tick and turns round at 1% and 100%: the invariant that it is a multiple of the step inside the
  range, moving one way or the other, is kept forever.
\<close>

theorem memory_slew_invariant:
  assumes "slew_ok a" "mem_autoslew (mnfg_parms (am_freqs a))" "a' = (amec_slv_mem_voting_box ^^ n) a"
  shows "slew_ok a' \<and> mem_autoslew (mnfg_parms (am_freqs a')) \<and>
    (0 < n \<longrightarrow> \<bar>int (unat (mem_speed_request (am_freqs a'))) -
       int (unat (mem_speed_request (am_freqs ((amec_slv_mem_voting_box ^^ (n - 1)) a))))\<bar> = 10)"
  using assms(3)
proof (induction n arbitrary: a')
  case (Suc n)
  define b where "b = (amec_slv_mem_voting_box ^^ n) a"
  have b: "slew_ok b" "mem_autoslew (mnfg_parms (am_freqs b))" using Suc.IH [OF refl] by (simp_all add: b_def)
  have a': "a' = amec_slv_mem_voting_box b" using Suc.prems by (simp add: b_def)
  have "mem_autoslew (mnfg_parms (am_freqs a'))" using b(2) a' by (simp add: slew_stays)
  then show ?case using slew_step_ok [OF b a'] by (simp add: b_def)
qed (use assms(1,2) in simp)

theorem memory_slew_invariant_witness:
  "slew_ok ((amec_slv_mem_voting_box ^^ 7) (upd_freqs (\<lambda>f. f\<lparr>mnfg_parms := (mnfg_parms f)\<lparr>mem_autoslew := True\<rparr>\<rparr>) demo_amec))"
  using memory_slew_invariant [OF _ _ refl, of "upd_freqs (\<lambda>f. f\<lparr>mnfg_parms := (mnfg_parms f)\<lparr>mem_autoslew := True\<rparr>\<rparr>) demo_amec" 7]
  by (simp add: slew_ok_def upd_freqs_def demo_amec_def demo_freqs_def Let_def)

section \<open>Error logs of the slave loop\<close>



end
