(* ===== verification/FIR_ECC.thy ===== *)
theory FIR_ECC
  imports OCC_Bytes
begin

text \<open>
  occ_gpe0/firdata/ecc.c: the error-correcting code of the PNOR flash, 8 parity bits for each 64-bit
  word. The engine is a 32-bit big-endian machine, so the conversions to and from big-endian order
  are the identity (native.h), and the constant \<open>1ul\<close> has 32 bits: shifting it by 32 or more is
  undefined in C. Its value is the parameter \<open>ub\<close>, of which nothing is known.
\<close>

unbundle bit_operations_syntax

section \<open>The code\<close>

definition ECC_CLEAN :: u8 where "ECC_CLEAN = 0"
definition ECC_CORRECTED :: u8 where "ECC_CORRECTED = 1"
definition ECC_UNCORRECTABLE :: u8 where "ECC_UNCORRECTABLE = 2"

definition ECC_GD :: u8 where "ECC_GD = 0xff"
definition ECC_UE :: u8 where "ECC_UE = 0xfe"
definition ECC_E0 :: u8 where "ECC_E0 = 71"
definition ECC_E1 :: u8 where "ECC_E1 = 70"
definition ECC_E2 :: u8 where "ECC_E2 = 69"
definition ECC_E3 :: u8 where "ECC_E3 = 68"
definition ECC_E4 :: u8 where "ECC_E4 = 67"
definition ECC_E5 :: u8 where "ECC_E5 = 66"
definition ECC_E6 :: u8 where "ECC_E6 = 65"
definition ECC_E7 :: u8 where "ECC_E7 = 64"

definition eccMatrix :: "u64 list" where
  "eccMatrix =
    [0x0000e8423c0f99ff, 0x00e8423c0f99ff00, 0xe8423c0f99ff0000, 0x423c0f99ff0000e8,
     0x3c0f99ff0000e842, 0x0f99ff0000e8423c, 0x99ff0000e8423c0f, 0xff0000e8423c0f99]"

definition syndromeMatrix :: "u8 list" where
  "syndromeMatrix =
  [ECC_GD, ECC_E7, ECC_E6, ECC_UE, ECC_E5, ECC_UE, ECC_UE, 47,
   ECC_E4, ECC_UE, ECC_UE, 37, ECC_UE, 35, 39, ECC_UE,
   ECC_E3, ECC_UE, ECC_UE, 48, ECC_UE, 30, 29, ECC_UE,
   ECC_UE, 57, 27, ECC_UE, 31, ECC_UE, ECC_UE, ECC_UE,
   ECC_E2, ECC_UE, ECC_UE, 17, ECC_UE, 18, 40, ECC_UE,
   ECC_UE, 58, 22, ECC_UE, 21, ECC_UE, ECC_UE, ECC_UE,
   ECC_UE, 16, 49, ECC_UE, 19, ECC_UE, ECC_UE, ECC_UE,
   23, ECC_UE, ECC_UE, ECC_UE, ECC_UE, 20, ECC_UE, ECC_UE,
   ECC_E1, ECC_UE, ECC_UE, 51, ECC_UE, 46, 9, ECC_UE,
   ECC_UE, 34, 10, ECC_UE, 32, ECC_UE, ECC_UE, 36,
   ECC_UE, 62, 50, ECC_UE, 14, ECC_UE, ECC_UE, ECC_UE,
   13, ECC_UE, ECC_UE, ECC_UE, ECC_UE, ECC_UE, ECC_UE, ECC_UE,
   ECC_UE, 61, 8, ECC_UE, 41, ECC_UE, ECC_UE, ECC_UE,
   11, ECC_UE, ECC_UE, ECC_UE, ECC_UE, ECC_UE, ECC_UE, ECC_UE,
   15, ECC_UE, ECC_UE, ECC_UE, ECC_UE, ECC_UE, ECC_UE, ECC_UE,
   ECC_UE, ECC_UE, 12, ECC_UE, ECC_UE, ECC_UE, ECC_UE, ECC_UE,
   ECC_E0, ECC_UE, ECC_UE, 55, ECC_UE, 45, 43, ECC_UE,
   ECC_UE, 56, 38, ECC_UE, 1, ECC_UE, ECC_UE, ECC_UE,
   ECC_UE, 25, 26, ECC_UE, 2, ECC_UE, ECC_UE, ECC_UE,
   24, ECC_UE, ECC_UE, ECC_UE, ECC_UE, ECC_UE, 28, ECC_UE,
   ECC_UE, 59, 54, ECC_UE, 42, ECC_UE, ECC_UE, 44,
   6, ECC_UE, ECC_UE, ECC_UE, ECC_UE, ECC_UE, ECC_UE, ECC_UE,
   5, ECC_UE, ECC_UE, ECC_UE, ECC_UE, ECC_UE, ECC_UE, ECC_UE,
   ECC_UE, ECC_UE, ECC_UE, ECC_UE, ECC_UE, ECC_UE, ECC_UE, ECC_UE,
   ECC_UE, 63, 53, ECC_UE, 0, ECC_UE, ECC_UE, ECC_UE,
   33, ECC_UE, ECC_UE, ECC_UE, ECC_UE, ECC_UE, ECC_UE, ECC_UE,
   3, ECC_UE, ECC_UE, 52, ECC_UE, ECC_UE, ECC_UE, ECC_UE,
   ECC_UE, ECC_UE, ECC_UE, ECC_UE, ECC_UE, ECC_UE, ECC_UE, ECC_UE,
   7, ECC_UE, ECC_UE, ECC_UE, ECC_UE, ECC_UE, ECC_UE, ECC_UE,
   ECC_UE, 60, ECC_UE, ECC_UE, ECC_UE, ECC_UE, ECC_UE, ECC_UE,
   ECC_UE, ECC_UE, ECC_UE, ECC_UE, 4, ECC_UE, ECC_UE, ECC_UE,
   ECC_UE, ECC_UE, ECC_UE, ECC_UE, ECC_UE, ECC_UE, ECC_UE, ECC_UE]"

definition parity_check :: "u64 \<Rightarrow> u8" where
  "parity_check data =
     (let ones = fold (\<lambda>x n. if data AND drop_bit x 0x8000000000000000 \<noteq> 0 then n + 1 else n) [0..<64] (0 :: nat)
      in of_nat (ones mod 2))"

definition generateECC :: "u64 \<Rightarrow> u8" where
  "generateECC data =
     fold (\<lambda>i result. result OR push_bit i (parity_check (eccMatrix ! i AND data))) [0..<8] 0"

definition verifyECC :: "u64 \<Rightarrow> u8 \<Rightarrow> u8" where
  "verifyECC data ecc = syndromeMatrix ! unat (generateECC data XOR ecc)"

text \<open>The shift \<open>1ul << k\<close>.\<close>

definition shl_1ul :: "(nat \<Rightarrow> u32) \<Rightarrow> nat \<Rightarrow> u32" where
  "shl_1ul ub k = (if k < 32 then push_bit k 1 else ub k)"

definition correctECC :: "(nat \<Rightarrow> u32) \<Rightarrow> u64 \<Rightarrow> u8 \<Rightarrow> u8 \<times> u64 \<times> u8" where
  "correctECC ub data ecc =
     (let badBit = verifyECC data ecc
      in if badBit \<noteq> ECC_GD \<and> badBit \<noteq> ECC_UE then
           (if badBit \<ge> ECC_E7 then (badBit, data, ecc XOR push_bit (unat (badBit - ECC_E7)) 1)
            else (badBit, data XOR ucast (shl_1ul ub (unat (63 - badBit))), ecc))
         else (badBit, data, ecc))"

text \<open>The positions in the buffers are 32-bit numbers; \<open>at8\<close> and \<open>at9\<close> are those of word \<open>j\<close> without
  and with its ECC byte.\<close>

definition at8 :: "nat \<Rightarrow> nat" where "at8 j = unat (of_nat (8 * j) :: u32)"
definition at9 :: "nat \<Rightarrow> nat" where "at9 j = unat (of_nat (9 * j) :: u32)"

definition injectECC :: "bytes \<Rightarrow> u32 \<Rightarrow> bytes \<Rightarrow> bytes" where
  "injectECC src srcSz dst =
     (if srcSz mod 8 \<noteq> 0 then dst
      else fold (\<lambda>j d. let data = get64 src (at8 j); d1 = set64 (at9 j) data d
                       in set8 (at9 j + 8) (generateECC data) d1)
             [0..<unat srcSz div 8] dst)"

definition remove_word :: "(nat \<Rightarrow> u32) \<Rightarrow> nat \<Rightarrow> u8 \<times> bytes \<times> bytes \<Rightarrow> u8 \<times> bytes \<times> bytes" where
  "remove_word ub j = (\<lambda>(rc, src, dst).
     let (badBit, data, ecc) = correctECC ub (get64 src (at9 j)) (src (at9 j + 8));
         (rc, src) =
           (if badBit = ECC_UE then (ECC_UNCORRECTABLE, src)
            else if badBit \<noteq> ECC_GD then
              (if rc \<noteq> ECC_UNCORRECTABLE then ECC_CORRECTED else rc, set8 (at9 j + 8) ecc (set64 (at9 j) data src))
            else (rc, src))
     in (rc, src, set64 (at8 j) data dst))"

definition removeECC :: "(nat \<Rightarrow> u32) \<Rightarrow> bytes \<Rightarrow> bytes \<Rightarrow> u32 \<Rightarrow> u8 \<times> bytes \<times> bytes" where
  "removeECC ub src dst dstSz =
     (if dstSz mod 8 \<noteq> 0 then (- 1, src, dst)
      else fold (remove_word ub) [0..<unat dstSz div 8] (ECC_CLEAN, src, dst))"

section \<open>The parity\<close>

lemma fold_count: "fold (\<lambda>x n. if P x then n + 1 else n) xs (k :: nat) = length (filter P xs) + k"
  by (induction xs arbitrary: k) auto

lemma top_bit: "x < 64 \<Longrightarrow> (d AND drop_bit x (0x8000000000000000 :: u64) \<noteq> 0) = bit d (63 - x)"
proof -
  assume x: "x < 64"
  have e: "(0x8000000000000000 :: u64) = push_bit 63 1" by simp
  have "drop_bit x (0x8000000000000000 :: u64) = push_bit (63 - x) 1"
  proof (rule bit_word_eqI)
    fix n assume "n < LENGTH(64)"
    then have "n < 64" by simp
    then show "bit (drop_bit x (0x8000000000000000 :: u64)) n = bit (push_bit (63 - x) (1 :: u64)) n"
      using x unfolding e bit_drop_bit_eq bit_push_bit_iff bit_1_iff o_def by auto
  qed
  then show ?thesis by (simp only: and_exp_eq_0_iff_not_bit [of d "63 - x"] push_bit_of_1 not_not)
qed

definition odd_bits :: "u64 \<Rightarrow> bool" where
  "odd_bits d = odd (length (filter (bit d) [0..<64]))"

lemma odd_xor: "odd (length (filter (\<lambda>x. P x \<noteq> Q x) xs)) = (odd (length (filter P xs)) \<noteq> odd (length (filter Q xs)))"
  by (induction xs) auto

lemma odd_bits_xor: "odd_bits (x XOR y) = (odd_bits x \<noteq> odd_bits y)"
  unfolding odd_bits_def bit_xor_iff odd_xor ..

lemma odd_bits_single: "k < 64 \<Longrightarrow> odd_bits (m AND push_bit k 1) = bit m k"
proof -
  assume k: "k < 64"
  have "filter (bit (m AND push_bit k 1)) [0..<64] = filter (\<lambda>i. bit m k \<and> i = k) [0..<64]"
    by (rule filter_cong) (auto simp: bit_simps)
  moreover have "{i. i = k} \<inter> set [0..<64] = {k}" using k by auto
  then have "length (filter (\<lambda>i. i = k) [0..<64]) = 1" by (simp only: distinct_length_filter [OF distinct_upt]) simp
  ultimately show ?thesis by (cases "bit m k") (simp_all add: odd_bits_def)
qed

lemma of_bool_odd: "of_nat (n mod 2) = (of_bool (odd n) :: u8)"
  by (cases "odd n") (simp_all add: odd_iff_mod_2_eq_one)

lemma parity_odd: "parity_check d = of_bool (odd_bits d)"
proof -
  have "fold (\<lambda>x n. if d AND drop_bit x 0x8000000000000000 \<noteq> 0 then n + 1 else n) [0..<64] (0 :: nat)
      = length (filter (\<lambda>x. bit d (63 - x)) [0..<64])"
    unfolding fold_count add_0_right by (rule arg_cong [where f = length], rule filter_cong [OF refl], rule top_bit) simp
  also have "\<dots> = length (filter (bit d) (map (\<lambda>x. 63 - x) [0..<64]))" unfolding filter_map length_map o_def ..
  also have "map (\<lambda>x. 63 - x) [0..<64] = rev [0..<64]"
    by (rule nth_equalityI) (auto simp: rev_nth simp del: upt_Suc)
  also have "length (filter (bit d) (rev [0..<64])) = length (filter (bit d) [0..<64])"
    unfolding rev_filter [symmetric] length_rev ..
  finally show ?thesis unfolding parity_check_def odd_bits_def Let_def of_bool_odd by (rule arg_cong)
qed

section \<open>The code is linear\<close>

lemma bit_or_fold:
  "bit (fold (\<lambda>i r. r OR push_bit i (of_bool (P i))) xs (r :: u8)) n \<longleftrightarrow> bit r n \<or> n \<in> set xs \<and> n < 8 \<and> P n"
proof (induction xs arbitrary: r)
  case (Cons i xs)
  have "bit (r OR push_bit i (of_bool (P i))) n \<longleftrightarrow> bit r n \<or> n = i \<and> n < 8 \<and> P i"
    by (cases "P i") (auto simp: bit_or_iff bit_exp_iff)
  then show ?case unfolding fold.simps o_apply Cons.IH by auto
qed simp

lemma bit_ECC: "bit (generateECC d) n \<longleftrightarrow> n < 8 \<and> odd_bits (eccMatrix ! n AND d)"
  by (auto simp: generateECC_def parity_odd bit_or_fold simp del: upt_Suc)

lemma ECC_xor: "generateECC (x XOR y) = generateECC x XOR generateECC y"
  by (rule bit_word_eqI) (simp add: bit_xor_iff bit_ECC bit.conj_xor_distrib odd_bits_xor)

text \<open>Column \<open>k\<close> of the matrix, the effect of data bit \<open>k\<close>.\<close>

definition column :: "nat \<Rightarrow> u8" where
  "column k = horner_sum of_bool 2 (map (\<lambda>n. bit (eccMatrix ! n) k) [0..<8])"

lemma ECC_single: "k < 64 \<Longrightarrow> generateECC (push_bit k 1) = column k"
  by (rule bit_word_eqI) (auto simp: bit_ECC odd_bits_single [simplified] column_def bit_horner_sum_bit_word_iff)

text \<open>The tables are right: checked by evaluation, entry by entry.\<close>

primrec parities :: "nat \<Rightarrow> bool list" where
  "parities 0 = [False]"
| "parities (Suc k) = parities k @ map Not (parities k)"

lemma length_parities [simp]: "length (parities k) = 2 ^ k" by (induction k) simp_all

lemma parities_nth: "n < 2 ^ k \<Longrightarrow> parities k ! n = odd (length (filter (bit n) [0..<k]))"
proof (induction k arbitrary: n)
  case (Suc k)
  show ?case
  proof (cases "n < 2 ^ k")
    case True
    then have "\<not> bit n k" by (simp add: bit_iff_odd)
    then show ?thesis using True Suc.IH by (simp add: nth_append)
  next
    case False
    let ?m = "n - 2 ^ k"
    have m: "?m < 2 ^ k" "take_bit k n = ?m" using False Suc.prems by (auto simp: take_bit_eq_mod mod_if)
    have "bit n k" using False Suc.prems by (simp add: bit_iff_odd div_if)
    moreover have "filter (bit n) [0..<k] = filter (bit ?m) [0..<k]"
      unfolding m(2) [symmetric] by (rule filter_cong) (simp_all add: bit_take_bit_iff)
    ultimately show ?thesis using False Suc.IH [OF m(1)] m(1) by (simp add: nth_append)
  qed
qed simp

lemma syndrome_even_table: "list_all2 (\<lambda>p y. p \<or> y = ECC_UE) (tl (parities 8)) (tl syndromeMatrix)"
  by code_simp

section \<open>Code words with flipped bits\<close>

text \<open>Position \<open>k\<close> of a code word: a data bit below 64, an ECC bit from there to 71.\<close>

definition flip :: "nat \<Rightarrow> u64 \<times> u8 \<Rightarrow> u64 \<times> u8" where
  "flip k = (\<lambda>(d, e). if k < 64 then (d XOR push_bit k 1, e) else (d, e XOR push_bit (k - 64) 1))"

definition effect :: "nat \<Rightarrow> u8" where
  "effect k = (if k < 64 then column k else push_bit (k - 64) 1)"

definition named :: "nat \<Rightarrow> u8" where
  "named k = (if k < 64 then of_nat (63 - k) else of_nat k)"

definition codeword :: "u64 \<Rightarrow> u64 \<times> u8" where
  "codeword d = (d, generateECC d)"

definition syndrome :: "u64 \<times> u8 \<Rightarrow> u8" where
  "syndrome w = generateECC (fst w) XOR snd w"

lemma verify_syndrome: "verifyECC d e = syndromeMatrix ! unat (syndrome (d, e))"
  by (simp add: verifyECC_def syndrome_def)

lemma syndrome_codeword: "syndrome (codeword d) = 0"
  by (simp add: syndrome_def codeword_def)

lemma syndrome_flip: "k < 72 \<Longrightarrow> syndrome (flip k w) = effect k XOR syndrome w"
  by (cases w) (simp add: syndrome_def flip_def effect_def ECC_xor ECC_single [simplified] ac_simps)

lemma effect_tables:
  "list_all (\<lambda>k. syndromeMatrix ! unat (effect k) = named k \<and> parities 8 ! unat (effect k)) [0..<72]"
  by code_simp

lemma syndrome_effect: "k < 72 \<Longrightarrow> syndromeMatrix ! unat (effect k) = named k" "k < 72 \<Longrightarrow> parities 8 ! unat (effect k)"
  using effect_tables by (simp_all add: list_all_iff del: upt_Suc parities.simps)

lemma unat_named: assumes "k < 72" shows "unat (named k) = (if k < 64 then 63 - k else k)"
proof -
  have u: "unat (of_nat m :: u8) = m" if "m < 256" for m
    using that by (simp add: unsigned_of_nat take_bit_eq_mod)
  show ?thesis using assms u [of "63 - k"] u [of k] unfolding named_def by (cases "k < 64") presburger+
qed

lemma named_inj: "j < 72 \<Longrightarrow> k < 72 \<Longrightarrow> named j = named k \<Longrightarrow> j = k"
proof -
  assume j: "j < 72" and k: "k < 72" and e: "named j = named k"
  have "(if j < 64 then 63 - j else j) = (if k < 64 then 63 - k else k)"
    unfolding unat_named [OF j, symmetric] unat_named [OF k, symmetric] e ..
  then show "j = k" using j k by (auto split: if_splits)
qed

lemma named_range:
  assumes "k < 72" shows "named k \<noteq> ECC_GD" "named k \<noteq> ECC_UE" "ECC_E7 \<le> named k \<longleftrightarrow> 64 \<le> k"
proof -
  have u: "unat ECC_GD = 255" "unat ECC_UE = 254" "unat ECC_E7 = 64" by (simp_all add: ECC_GD_def ECC_UE_def ECC_E7_def)
  have "unat (named k) < 72" "64 \<le> unat (named k) \<longleftrightarrow> 64 \<le> k" using unat_named [OF assms] assms by auto
  then show "named k \<noteq> ECC_GD" "named k \<noteq> ECC_UE" "ECC_E7 \<le> named k \<longleftrightarrow> 64 \<le> k"
    using u unfolding word_le_nat_alt by auto
qed

lemma syndrome_zero: "syndromeMatrix ! 0 = ECC_GD"
  by (simp add: syndromeMatrix_def)

lemma even_effects:
  assumes "j < 72" "k < 72" "j \<noteq> k" shows "syndromeMatrix ! unat (effect j XOR effect k) = ECC_UE"
proof -
  let ?x = "effect j XOR effect k"
  have "effect j \<noteq> effect k" using assms syndrome_effect(1) named_inj by metis
  then have "?x \<noteq> 0" by (metis word_bw_same(3) xor.assoc xor.left_neutral xor.right_neutral)
  then have nz: "unat ?x \<noteq> 0" by (simp add: unat_eq_0)
  have lt: "unat y < 256" for y :: u8 using unsigned_less [of y] by simp
  have p: "parities 8 ! unat y = odd (length (filter (bit y) [0..<8]))" for y :: u8
  proof -
    have "bit (unat y) = bit y" by (rule ext) (simp add: bit_unsigned_iff)
    then show ?thesis using parities_nth [of "unat y" 8] lt [of y] by (simp del: parities.simps upt_Suc)
  qed
  have "\<not> parities 8 ! unat ?x"
    using syndrome_effect(2) [OF assms(1)] syndrome_effect(2) [OF assms(2)] unfolding p bit_xor_iff odd_xor by simp
  moreover have "tl (parities 8) ! (unat ?x - 1) \<or> tl syndromeMatrix ! (unat ?x - 1) = ECC_UE"
    using list_all2_nthD [OF syndrome_even_table, of "unat ?x - 1"] nz lt [of ?x] by simp
  ultimately show ?thesis using nz lt [of ?x] by (simp add: nth_tl syndromeMatrix_def del: parities.simps)
qed

end
