(* ===== verification/FIR_ECC_Properties.thy ===== *)
theory FIR_ECC_Properties
  imports FIR_ECC
begin

text \<open>What the error-correcting code of the PNOR flash corrects, detects and misses.\<close>

unbundle bit_operations_syntax

section \<open>Correction\<close>

lemma correct_good: "correctECC ub d (generateECC d) = (ECC_GD, d, generateECC d)"
  using syndrome_codeword [of d]
  by (simp add: correctECC_def verify_syndrome codeword_def syndrome_zero)

lemma verify_one:
  assumes "k < 72" "(d', e') = flip k (codeword d)" shows "verifyECC d' e' = named k"
  using assms syndrome_flip [OF assms(1), of "codeword d"] syndrome_effect(1) [OF assms(1)]
  by (simp add: verify_syndrome syndrome_codeword)

lemma correct_one:
  assumes k: "k < 72" and f: "(d', e') = flip k (codeword d)"
  shows "correctECC ub d' e' = (named k, (if k < 64 then d' XOR ucast (shl_1ul ub k) else d), generateECC d)"
proof (cases "k < 64")
  case True
  have "unat (63 - named k) = k" using True unat_named [OF k] by (simp add: unat_sub word_le_nat_alt)
  then show ?thesis using True named_range [OF k]
    unfolding correctECC_def verify_one [OF k f] Let_def using f by (simp add: flip_def codeword_def)
next
  case False
  have "unat (named k - ECC_E7) = k - 64" using False unat_named [OF k] by (simp add: ECC_E7_def unat_sub word_le_nat_alt)
  then show ?thesis using False named_range [OF k]
    unfolding correctECC_def verify_one [OF k f] Let_def using f by (simp add: flip_def codeword_def xor.assoc)
qed

lemma correct_fixable:
  assumes k: "k < 32 \<or> 64 \<le> k \<and> k < 72" and f: "(d', e') = flip k (codeword d)"
  shows "correctECC ub d' e' = (named k, d, generateECC d)"
proof -
  have "ucast (shl_1ul ub k) = (push_bit k 1 :: u64)" if "k < 32"
    using that unfolding shl_1ul_def by (intro bit_word_eqI) (auto simp: bit_unsigned_iff bit_exp_iff)
  then show ?thesis using correct_one [OF _ f, of ub] k f by (auto simp: flip_def codeword_def xor.assoc)
qed

section \<open>Streams\<close>

text \<open>The code word at position \<open>j\<close> of a stream, and a code word after an error in transit.\<close>

definition word_at :: "bytes \<Rightarrow> nat \<Rightarrow> u64 \<times> u8" where
  "word_at b j = (get64 b (9 * j), b (9 * j + 8))"

definition damage :: "nat option \<Rightarrow> u64 \<times> u8 \<Rightarrow> u64 \<times> u8" where
  "damage err w = (case err of None \<Rightarrow> w | Some k \<Rightarrow> flip k w)"

lemma at_plain: "9 * j < 4294967296 \<Longrightarrow> at9 j = 9 * j \<and> at8 j = 8 * j"
  unfolding at9_def at8_def by (simp add: unsigned_of_nat take_bit_eq_mod del: of_nat_mult)

lemma word_at_set: "word_at (set8 (9 * j + 8) e (set64 (9 * j) d b)) i = (if i = j then (d, e) else word_at b i)"
proof (cases "i = j")
  case False
  then have "9 * i + 9 \<le> 9 * j \<or> 9 * j + 9 \<le> 9 * i" by linarith
  then show ?thesis using False by (auto simp: word_at_def)
qed (simp add: word_at_def)

lemma inject_prefix:
  assumes "9 * m < 4294967296" "j < m"
  shows "word_at (fold (\<lambda>j d. let data = get64 src (at8 j); d1 = set64 (at9 j) data d
           in set8 (at9 j + 8) (generateECC data) d1) [0..<m] dst) j = codeword (get64 src (8 * j))"
  using assms by (induction m) (auto simp: at_plain Let_def word_at_set codeword_def less_Suc_eq)

lemma inject_words:
  assumes "srcSz mod 8 = 0" "9 * (unat srcSz div 8) < 4294967296" "j < unat srcSz div 8"
  shows "word_at (injectECC src srcSz dst) j = codeword (get64 src (8 * j))"
  using inject_prefix [OF assms(2,3), of src dst] assms(1) by (simp add: injectECC_def)

text \<open>One step of the loop, on a code word with at most one bit wrong that can be corrected.\<close>

definition fixable :: "nat option \<Rightarrow> bool" where
  "fixable err = (case err of None \<Rightarrow> True | Some k \<Rightarrow> k < 32 \<or> 64 \<le> k \<and> k < 72)"

lemma remove_step:
  assumes "9 * j < 4294967296" "word_at src j = damage err (codeword d)" "fixable err" "rc \<noteq> ECC_UNCORRECTABLE"
    and r: "remove_word ub j (rc, src, dst) = (rc', src', dst')"
  shows "rc' = (if err = None then rc else ECC_CORRECTED)" "dst' = set64 (8 * j) d dst"
    "word_at src' i = (if i = j then codeword d else word_at src i)"
proof -
  have a: "at9 j = 9 * j" "at8 j = 8 * j" using at_plain [OF assms(1)] by simp_all
  have w: "get64 src (9 * j) = fst (damage err (codeword d))" "src (9 * j + 8) = snd (damage err (codeword d))"
    using arg_cong [OF assms(2), of fst] arg_cong [OF assms(2), of snd] by (simp_all add: word_at_def)
  have gu: "ECC_GD \<noteq> ECC_UE" by (simp add: ECC_GD_def ECC_UE_def)
  have "rc' = (if err = None then rc else ECC_CORRECTED) \<and> dst' = set64 (8 * j) d dst \<and>
    word_at src' i = (if i = j then codeword d else word_at src i)"
  proof (cases err)
    case None
    then show ?thesis using r assms(2) correct_good [of ub d] gu
      by (auto simp: remove_word_def a w damage_def codeword_def)
  next
    case (Some k)
    then have k: "k < 32 \<or> 64 \<le> k \<and> k < 72" using assms(3) by (simp add: fixable_def)
    then have "k < 72" by auto
    note nr = named_range [OF this]
    show ?thesis using r assms(4) correct_fixable [OF k, of "fst (flip k (codeword d))" "snd (flip k (codeword d))" d ub] nr Some
      by (auto simp: remove_word_def a w damage_def word_at_set codeword_def)
  qed
  then show "rc' = (if err = None then rc else ECC_CORRECTED)" "dst' = set64 (8 * j) d dst"
    "word_at src' i = (if i = j then codeword d else word_at src i)" by simp_all
qed

lemma remove_prefix:
  assumes "9 * n < 4294967296" "\<forall>j < n. word_at src j = damage (err j) (codeword (dat j)) \<and> fixable (err j)" "m \<le> n"
    and "fold (remove_word ub) [0..<m] (ECC_CLEAN, src, dst) = (rc, s1, d1)"
  shows "rc = (if \<exists>j < m. err j \<noteq> None then ECC_CORRECTED else ECC_CLEAN) \<and>
    (\<forall>j < n. word_at s1 j = (if j < m then codeword (dat j) else word_at src j)) \<and>
    (\<forall>j < m. get64 d1 (8 * j) = dat j) \<and> (\<forall>i. 8 * m \<le> i \<longrightarrow> d1 i = dst i)"
  using assms(3,4)
proof (induction m arbitrary: rc s1 d1)
  case (Suc m)
  obtain rc0 s0 d0 where f: "fold (remove_word ub) [0..<m] (ECC_CLEAN, src, dst) = (rc0, s0, d0)" by (metis prod_cases3)
  have ih: "rc0 = (if \<exists>j < m. err j \<noteq> None then ECC_CORRECTED else ECC_CLEAN)"
      "\<And>j. j < n \<Longrightarrow> word_at s0 j = (if j < m then codeword (dat j) else word_at src j)"
      "\<And>j. j < m \<Longrightarrow> get64 d0 (8 * j) = dat j" "\<And>i. 8 * m \<le> i \<Longrightarrow> d0 i = dst i"
    using Suc.IH [OF _ f] Suc.prems(1) by simp_all
  have m: "m < n" "9 * m < 4294967296" using Suc.prems(1) assms(1) by simp_all
  have w: "word_at s0 m = damage (err m) (codeword (dat m))" "fixable (err m)" using ih(2) [OF m(1)] assms(2) m(1) by auto
  have rc: "rc0 \<noteq> ECC_UNCORRECTABLE" by (simp add: ih(1) ECC_CORRECTED_def ECC_CLEAN_def ECC_UNCORRECTABLE_def)
  have "remove_word ub m (rc0, s0, d0) = (rc, s1, d1)" using Suc.prems(2) f by simp
  note st = remove_step [OF m(2) w rc this]
  have "get64 d1 (8 * j) = dat j" if "j < Suc m" for j
  proof (cases "j = m")
    case False
    then have "8 * j + 8 \<le> 8 * m" using that by simp
    then show ?thesis using ih(3) [of j] that False by (simp add: st(2))
  qed (simp add: st(2))
  moreover have "d1 i = dst i" if "8 * Suc m \<le> i" for i using that ih(4) [of i] by (simp add: st(2))
  moreover have "rc = (if \<exists>j < Suc m. err j \<noteq> None then ECC_CORRECTED else ECC_CLEAN)"
    using ih(1) st(1) by (auto simp: less_Suc_eq)
  ultimately show ?case using ih(2) st(3) by (auto simp: less_Suc_eq)
qed simp

section \<open>Properties\<close>

lemma stream_bytes:
  assumes "\<forall>j < n. get64 d (8 * j) = get64 src (8 * j)" "i < 8 * n" shows "d i = src i"
proof -
  have "i div 8 < n" using assms(2) by (simp add: div_less_iff_less_mult ac_simps)
  then have "get64 d (8 * (i div 8)) = get64 src (8 * (i div 8))" using assms(1) by blast
  from get64_inj [OF this, of "i mod 8"] show ?thesis by (simp add: mult_div_mod_eq)
qed

text \<open>
  C22: The ECC survives the flash. Data that is given its ECC, damaged in storage in at most one bit of
  each 9-byte code word, neither of them in the upper half of the data, and then stripped of its ECC
  comes out byte for byte; the stored stream is repaired in place, the status is ECC_CORRECTED
  exactly when some word was damaged and ECC_CLEAN otherwise, and nothing beyond the destination
  is written.
\<close>

theorem stream_survives:
  assumes "srcSz mod 8 = 0" "9 * (unat srcSz div 8) < 4294967296" "n = unat srcSz div 8"
    and "\<forall>j < n. word_at stored j = damage (err j) (word_at (injectECC src srcSz buf) j) \<and> fixable (err j)"
    and "removeECC ub stored dst srcSz = (rc, stored', dst')"
  shows "rc = (if \<exists>j < n. err j \<noteq> None then ECC_CORRECTED else ECC_CLEAN)
    \<and> (\<forall>i. dst' i = (if i < unat srcSz then src i else dst i))
    \<and> (\<forall>j < n. word_at stored' j = word_at (injectECC src srcSz buf) j)"
proof -
  have w: "word_at (injectECC src srcSz buf) j = codeword (get64 src (8 * j))" if "j < n" for j
    using inject_words [OF assms(1,2)] that assms(3) by simp
  have f: "fold (remove_word ub) [0..<n] (ECC_CLEAN, stored, dst) = (rc, stored', dst')"
    using assms(1,3,5) by (simp add: removeECC_def)
  have "9 * n < 4294967296" using assms(2,3) by simp
  from remove_prefix [OF this, of stored err "\<lambda>j. get64 src (8 * j)" n] assms(4) w f
  have r: "rc = (if \<exists>j < n. err j \<noteq> None then ECC_CORRECTED else ECC_CLEAN)"
    "\<forall>j < n. word_at stored' j = codeword (get64 src (8 * j))" "\<forall>j < n. get64 dst' (8 * j) = get64 src (8 * j)"
    "\<forall>i. 8 * n \<le> i \<longrightarrow> dst' i = dst i" by fastforce+
  have "unat srcSz mod 8 = 0" using arg_cong [OF assms(1), of unat] by (simp add: unat_mod)
  then have "unat srcSz = 8 * n" using assms(3) by auto
  then show ?thesis using r(1,2,4) w stream_bytes [OF r(3)] by auto
qed

theorem stream_survives_witness:
  "\<exists>stored stored' dst'. removeECC (\<lambda>_. 0) stored (\<lambda>_. 0) 8 = (ECC_CORRECTED, stored', dst') \<and> (\<forall>i < 8. dst' i = of_nat i)"
proof -
  let ?S = "injectECC of_nat 8 (\<lambda>_. 0)"
  obtain d e where de: "flip 5 (word_at ?S 0) = (d, e)" by (cases "flip 5 (word_at ?S 0)")
  define stored where "stored = set8 8 e (set64 0 d ?S)"
  define err where "err = (\<lambda>j :: nat. if j = 0 then Some (5 :: nat) else None)"
  obtain rc stored' dst' where r: "removeECC (\<lambda>_. 0) stored (\<lambda>_. 0) 8 = (rc, stored', dst')" by (metis prod_cases3)
  have "\<forall>j < 1. word_at stored j = damage (err j) (word_at ?S j) \<and> fixable (err j)"
    using word_at_set [of 0 e d ?S 0] de by (simp add: stored_def err_def damage_def fixable_def)
  from stream_survives [OF _ _ _ this r]
  have "rc = ECC_CORRECTED" "\<forall>i < 8. dst' i = of_nat i" by (simp_all add: err_def)
  then show ?thesis using r by blast
qed

text \<open>
  C24: Two wrong bits are always detected. Any two different bits of a code word flipped, in the data,
  in the ECC byte or in both, give the status ECC_UE, and neither data nor ECC is touched.
\<close>

theorem double_error_detected:
  assumes "j < 72" "k < 72" "j \<noteq> k" "(d', e') = flip j (flip k (codeword d))"
  shows "correctECC ub d' e' = (ECC_UE, d', e')"
proof -
  have "syndrome (d', e') = effect j XOR effect k" unfolding assms(4) using assms(1,2)
    by (simp add: syndrome_flip syndrome_codeword)
  then show ?thesis using even_effects [OF assms(1-3)] by (simp add: correctECC_def verify_syndrome)
qed

theorem double_error_detected_witness:
  "\<exists>d' e'. (d', e') = flip 3 (flip 70 (codeword 0x123456789abcdef0)) \<and> correctECC (\<lambda>_. 0) d' e' = (ECC_UE, d', e')"
proof -
  obtain d' e' where f: "(d', e') = flip 3 (flip 70 (codeword 0x123456789abcdef0))" by (metis surj_pair)
  have "correctECC (\<lambda>_. 0) d' e' = (ECC_UE, d', e')" by (rule double_error_detected [OF _ _ _ f]) simp_all
  then show ?thesis using f by blast
qed

text \<open>
  C25: A wrong bit in the upper half of the data is reported as corrected and is not. The mask that
  is to flip the bit back is the 32-bit constant 1ul shifted by 32 or more, and no 32-bit value
  reaches the upper half: whatever the machine makes of that shift, the status names the right bit,
  the ECC byte is unchanged and the bit stays wrong.
\<close>

theorem upper_half_not_corrected:
  assumes "32 \<le> k" "k < 64" "(d', e') = flip k (codeword d)"
  shows "\<exists>d''. correctECC ub d' e' = (of_nat (63 - k), d'', generateECC d) \<and> bit d'' k \<noteq> bit d k \<and>
    (of_nat (63 - k) :: u8) \<noteq> ECC_GD \<and> (of_nat (63 - k) :: u8) \<noteq> ECC_UE"
proof -
  have k: "k < 72" using assms(2) by simp
  have "\<not> bit (ucast (shl_1ul ub k) :: u64) k" using assms(1) by (auto simp: bit_ucast_iff dest: bit_imp_le_length)
  moreover have "bit d' k \<longleftrightarrow> \<not> bit d k" using assms by (simp add: flip_def codeword_def bit_xor_iff bit_exp_iff)
  ultimately have "bit (d' XOR ucast (shl_1ul ub k)) k \<noteq> bit d k" by (simp add: bit_xor_iff)
  moreover have "named k = of_nat (63 - k)" using assms(2) by (simp add: named_def)
  ultimately show ?thesis using correct_one [OF k assms(3), of ub] named_range(1,2) [OF k] assms(2) by (intro exI [of _ "d' XOR ucast (shl_1ul ub k)"]) (simp del: of_nat_diff)
qed

theorem upper_half_not_corrected_witness:
  "\<exists>d' e' d''. (d', e') = flip 40 (codeword 0) \<and> correctECC (\<lambda>_. 0) d' e' = (23, d'', generateECC 0) \<and> bit d'' 40"
proof -
  obtain d' e' where f: "(d', e') = flip 40 (codeword 0)" by (metis surj_pair)
  from upper_half_not_corrected [OF _ _ f, of "\<lambda>_. 0"] show ?thesis using f by auto
qed

end
