(* ===== verification/Rtls.thy ===== *)
theory Rtls
  imports Sensor
begin

text \<open>
  occ_405/rtls: the real-time loop. A hardware timer interrupts every 500 us; each tick runs one of
  16 sequences of tasks, skipping a task unless its flags contain every flag of the global run mask.
  The function pointers of the task table are the parameter \<open>func\<close> (\<open>None\<close> is NULL): a task is a
  function on the whole state, of which this theory fixes only what the loop itself uses. Error
  logs are values: what createErrl was called with, appended to \<open>rtl_logs\<close> when committed.
\<close>

unbundle bit_operations_syntax

section \<open>Flags, tasks and tables\<close>

definition RTL_FLAG_NONE :: u32 where "RTL_FLAG_NONE = 0x00000000"
definition RTL_FLAG_RUN :: u32 where "RTL_FLAG_RUN = 0x00000001"
definition RTL_FLAG_MSTR :: u32 where "RTL_FLAG_MSTR = 0x00000002"
definition RTL_FLAG_NOTMSTR :: u32 where "RTL_FLAG_NOTMSTR = 0x00000004"
definition RTL_FLAG_OBS :: u32 where "RTL_FLAG_OBS = 0x00000008"
definition RTL_FLAG_ACTIVE :: u32 where "RTL_FLAG_ACTIVE = 0x00000010"
definition RTL_FLAG_RST_REQ :: u32 where "RTL_FLAG_RST_REQ = 0x00000020"
definition RTL_FLAG_NO_APSS :: u32 where "RTL_FLAG_NO_APSS = 0x00000040"
definition RTL_FLAG_MSTR_READY :: u32 where "RTL_FLAG_MSTR_READY = 0x00000080"
definition RTL_FLAG_STANDBY :: u32 where "RTL_FLAG_STANDBY = 0x00000100"
definition RTL_FLAG_APSS_NOT_INITD :: u32 where "RTL_FLAG_APSS_NOT_INITD = 0x00000200"

definition TASK_ID_APSS_START :: nat where "TASK_ID_APSS_START = 0"
definition TASK_ID_CORE_DATA_LOW :: nat where "TASK_ID_CORE_DATA_LOW = 1"
definition TASK_ID_APSS_CONT :: nat where "TASK_ID_APSS_CONT = 2"
definition TASK_ID_CORE_DATA_HIGH :: nat where "TASK_ID_CORE_DATA_HIGH = 3"
definition TASK_ID_APSS_DONE :: nat where "TASK_ID_APSS_DONE = 4"
definition TASK_ID_DCOM_RX_INBX :: nat where "TASK_ID_DCOM_RX_INBX = 5"
definition TASK_ID_DCOM_TX_INBX :: nat where "TASK_ID_DCOM_TX_INBX = 6"
definition TASK_ID_POKE_WDT :: nat where "TASK_ID_POKE_WDT = 7"
definition TASK_ID_DCOM_WAIT_4_MSTR :: nat where "TASK_ID_DCOM_WAIT_4_MSTR = 8"
definition TASK_ID_DCOM_RX_OUTBX :: nat where "TASK_ID_DCOM_RX_OUTBX = 9"
definition TASK_ID_DCOM_TX_OUTBX :: nat where "TASK_ID_DCOM_TX_OUTBX = 10"
definition TASK_ID_MISC_405_CHECKS :: nat where "TASK_ID_MISC_405_CHECKS = 11"
definition TASK_ID_DCOM_PARSE_FW_MSG :: nat where "TASK_ID_DCOM_PARSE_FW_MSG = 12"
definition TASK_ID_AMEC_SLAVE :: nat where "TASK_ID_AMEC_SLAVE = 13"
definition TASK_ID_AMEC_MASTER :: nat where "TASK_ID_AMEC_MASTER = 14"
definition TASK_ID_CORE_DATA_CONTROL :: nat where "TASK_ID_CORE_DATA_CONTROL = 15"
definition TASK_ID_GPU_SM :: nat where "TASK_ID_GPU_SM = 16"
definition TASK_ID_DIMM_SM :: nat where "TASK_ID_DIMM_SM = 17"
definition TASK_ID_MEMORY_CONTROL :: nat where "TASK_ID_MEMORY_CONTROL = 18"
definition TASK_ID_NEST_DTS :: nat where "TASK_ID_NEST_DTS = 19"
definition TASK_ID_24X7 :: nat where "TASK_ID_24X7 = 20"
definition TASK_ID_GPE_TIMINGS :: nat where "TASK_ID_GPE_TIMINGS = 21"
definition TASK_ID_GET_TOD :: nat where "TASK_ID_GET_TOD = 22"
definition TASK_ID_APSS_RESET :: nat where "TASK_ID_APSS_RESET = 23"
definition TASK_END :: nat where "TASK_END = 24"

definition APSS_TASK_FLAGS :: u32 where
  "APSS_TASK_FLAGS = RTL_FLAG_MSTR OR RTL_FLAG_NOTMSTR OR RTL_FLAG_OBS OR RTL_FLAG_ACTIVE OR RTL_FLAG_MSTR_READY OR RTL_FLAG_RUN"
definition FLAGS_DCOM_RX_SLV_INBX :: u32 where
  "FLAGS_DCOM_RX_SLV_INBX = RTL_FLAG_MSTR OR RTL_FLAG_NOTMSTR OR RTL_FLAG_OBS OR RTL_FLAG_ACTIVE OR RTL_FLAG_RUN OR RTL_FLAG_STANDBY OR RTL_FLAG_RST_REQ OR RTL_FLAG_APSS_NOT_INITD"
definition FLAGS_DCOM_TX_SLV_INBX :: u32 where
  "FLAGS_DCOM_TX_SLV_INBX = RTL_FLAG_MSTR OR RTL_FLAG_OBS OR RTL_FLAG_ACTIVE OR RTL_FLAG_MSTR_READY OR RTL_FLAG_RUN OR RTL_FLAG_STANDBY OR RTL_FLAG_RST_REQ OR RTL_FLAG_APSS_NOT_INITD"
definition FLAGS_DCOM_WAIT_4_MSTR :: u32 where
  "FLAGS_DCOM_WAIT_4_MSTR = RTL_FLAG_MSTR OR RTL_FLAG_NOTMSTR OR RTL_FLAG_OBS OR RTL_FLAG_ACTIVE OR RTL_FLAG_MSTR_READY OR RTL_FLAG_NO_APSS OR RTL_FLAG_RUN OR RTL_FLAG_STANDBY OR RTL_FLAG_RST_REQ OR RTL_FLAG_APSS_NOT_INITD"
definition FLAGS_DCOM_RX_SLV_OUTBOX :: u32 where
  "FLAGS_DCOM_RX_SLV_OUTBOX = RTL_FLAG_MSTR OR RTL_FLAG_OBS OR RTL_FLAG_ACTIVE OR RTL_FLAG_MSTR_READY OR RTL_FLAG_NO_APSS OR RTL_FLAG_RUN OR RTL_FLAG_STANDBY OR RTL_FLAG_RST_REQ OR RTL_FLAG_APSS_NOT_INITD"
definition FLAGS_DCOM_TX_SLV_OUTBOX :: u32 where
  "FLAGS_DCOM_TX_SLV_OUTBOX = RTL_FLAG_MSTR OR RTL_FLAG_NOTMSTR OR RTL_FLAG_OBS OR RTL_FLAG_ACTIVE OR RTL_FLAG_NO_APSS OR RTL_FLAG_RUN OR RTL_FLAG_STANDBY OR RTL_FLAG_APSS_NOT_INITD"
definition FLAGS_LOW_CORES_DATA :: u32 where
  "FLAGS_LOW_CORES_DATA = RTL_FLAG_MSTR OR RTL_FLAG_NOTMSTR OR RTL_FLAG_OBS OR RTL_FLAG_ACTIVE OR RTL_FLAG_MSTR_READY OR RTL_FLAG_NO_APSS OR RTL_FLAG_RUN OR RTL_FLAG_APSS_NOT_INITD"
definition FLAGS_HIGH_CORES_DATA :: u32 where
  "FLAGS_HIGH_CORES_DATA = RTL_FLAG_MSTR OR RTL_FLAG_NOTMSTR OR RTL_FLAG_OBS OR RTL_FLAG_ACTIVE OR RTL_FLAG_MSTR_READY OR RTL_FLAG_NO_APSS OR RTL_FLAG_RUN OR RTL_FLAG_APSS_NOT_INITD"
definition FLAGS_NEST_DTS :: u32 where
  "FLAGS_NEST_DTS = RTL_FLAG_MSTR OR RTL_FLAG_NOTMSTR OR RTL_FLAG_OBS OR RTL_FLAG_ACTIVE OR RTL_FLAG_MSTR_READY OR RTL_FLAG_NO_APSS OR RTL_FLAG_RUN OR RTL_FLAG_APSS_NOT_INITD"
definition FLAGS_MEMORY_DATA :: u32 where "FLAGS_MEMORY_DATA = RTL_FLAG_NONE"
definition FLAGS_MEMORY_CONTROL :: u32 where "FLAGS_MEMORY_CONTROL = RTL_FLAG_NONE"
definition FLAGS_FAST_CORES_DATA :: u32 where
  "FLAGS_FAST_CORES_DATA = RTL_FLAG_MSTR OR RTL_FLAG_NOTMSTR OR RTL_FLAG_OBS OR RTL_FLAG_ACTIVE OR RTL_FLAG_MSTR_READY OR RTL_FLAG_NO_APSS OR RTL_FLAG_RUN OR RTL_FLAG_APSS_NOT_INITD"
definition FLAGS_AMEC_SLAVE :: u32 where
  "FLAGS_AMEC_SLAVE = RTL_FLAG_MSTR OR RTL_FLAG_NOTMSTR OR RTL_FLAG_OBS OR RTL_FLAG_ACTIVE OR RTL_FLAG_MSTR_READY OR RTL_FLAG_NO_APSS OR RTL_FLAG_RUN OR RTL_FLAG_APSS_NOT_INITD"
definition FLAGS_AMEC_MASTER :: u32 where
  "FLAGS_AMEC_MASTER = RTL_FLAG_MSTR OR RTL_FLAG_OBS OR RTL_FLAG_ACTIVE OR RTL_FLAG_MSTR_READY OR RTL_FLAG_NO_APSS OR RTL_FLAG_RUN OR RTL_FLAG_APSS_NOT_INITD"
definition FLAGS_24X7 :: u32 where
  "FLAGS_24X7 = RTL_FLAG_MSTR OR RTL_FLAG_NOTMSTR OR RTL_FLAG_OBS OR RTL_FLAG_ACTIVE OR RTL_FLAG_MSTR_READY OR RTL_FLAG_NO_APSS OR RTL_FLAG_RUN OR RTL_FLAG_APSS_NOT_INITD"
definition FLAGS_GPU_SM :: u32 where "FLAGS_GPU_SM = RTL_FLAG_NONE"
definition FLAGS_GET_TOD :: u32 where
  "FLAGS_GET_TOD = RTL_FLAG_MSTR OR RTL_FLAG_NOTMSTR OR RTL_FLAG_OBS OR RTL_FLAG_ACTIVE OR RTL_FLAG_MSTR_READY OR RTL_FLAG_NO_APSS OR RTL_FLAG_RUN OR RTL_FLAG_APSS_NOT_INITD"
definition FLAGS_APSS_START_MEAS :: u32 where "FLAGS_APSS_START_MEAS = APSS_TASK_FLAGS"
definition FLAGS_APSS_CONT_MEAS :: u32 where "FLAGS_APSS_CONT_MEAS = APSS_TASK_FLAGS"
definition FLAGS_APSS_DONE_MEAS :: u32 where "FLAGS_APSS_DONE_MEAS = APSS_TASK_FLAGS"
definition FLAGS_APSS_RESET :: u32 where
  "FLAGS_APSS_RESET = RTL_FLAG_MSTR OR RTL_FLAG_NOTMSTR OR RTL_FLAG_OBS OR RTL_FLAG_ACTIVE OR RTL_FLAG_MSTR_READY"
definition FLAGS_DCOM_PARSE_OCC_FW_MSG :: u32 where
  "FLAGS_DCOM_PARSE_OCC_FW_MSG = RTL_FLAG_MSTR OR RTL_FLAG_NOTMSTR OR RTL_FLAG_OBS OR RTL_FLAG_ACTIVE OR RTL_FLAG_MSTR_READY OR RTL_FLAG_NO_APSS OR RTL_FLAG_RUN OR RTL_FLAG_STANDBY OR RTL_FLAG_RST_REQ OR RTL_FLAG_APSS_NOT_INITD"
definition FLAGS_MISC_405_CHECKS :: u32 where
  "FLAGS_MISC_405_CHECKS = RTL_FLAG_MSTR OR RTL_FLAG_NOTMSTR OR RTL_FLAG_OBS OR RTL_FLAG_ACTIVE OR RTL_FLAG_MSTR_READY OR RTL_FLAG_NO_APSS OR RTL_FLAG_RUN OR RTL_FLAG_STANDBY OR RTL_FLAG_RST_REQ OR RTL_FLAG_APSS_NOT_INITD"
definition FLAGS_CORE_DATA_CONTROL :: u32 where
  "FLAGS_CORE_DATA_CONTROL = RTL_FLAG_MSTR OR RTL_FLAG_NOTMSTR OR RTL_FLAG_ACTIVE OR RTL_FLAG_MSTR_READY OR RTL_FLAG_NO_APSS OR RTL_FLAG_RUN OR RTL_FLAG_APSS_NOT_INITD"
definition FLAGS_POKE_WDT :: u32 where
  "FLAGS_POKE_WDT = RTL_FLAG_RUN OR RTL_FLAG_MSTR OR RTL_FLAG_NOTMSTR OR RTL_FLAG_STANDBY OR RTL_FLAG_OBS OR RTL_FLAG_ACTIVE OR RTL_FLAG_MSTR_READY OR RTL_FLAG_NO_APSS OR RTL_FLAG_APSS_NOT_INITD"
definition FLAGS_GPE_TIMINGS :: u32 where
  "FLAGS_GPE_TIMINGS = RTL_FLAG_MSTR OR RTL_FLAG_NOTMSTR OR RTL_FLAG_OBS OR RTL_FLAG_ACTIVE OR RTL_FLAG_MSTR_READY OR RTL_FLAG_NO_APSS OR RTL_FLAG_RUN OR RTL_FLAG_APSS_NOT_INITD"
definition MEMORY_CONTROL_RTL_FLAGS :: u32 where
  "MEMORY_CONTROL_RTL_FLAGS = RTL_FLAG_MSTR OR RTL_FLAG_NOTMSTR OR RTL_FLAG_ACTIVE OR RTL_FLAG_MSTR_READY OR RTL_FLAG_NO_APSS OR RTL_FLAG_RUN OR RTL_FLAG_APSS_NOT_INITD"
definition MEMORY_DATA_RTL_FLAGS :: u32 where
  "MEMORY_DATA_RTL_FLAGS = RTL_FLAG_MSTR OR RTL_FLAG_NOTMSTR OR RTL_FLAG_OBS OR RTL_FLAG_ACTIVE OR RTL_FLAG_MSTR_READY OR RTL_FLAG_NO_APSS OR RTL_FLAG_RUN OR RTL_FLAG_APSS_NOT_INITD"
definition GPU_RTL_FLAGS :: u32 where
  "GPU_RTL_FLAGS = RTL_FLAG_MSTR OR RTL_FLAG_NOTMSTR OR RTL_FLAG_OBS OR RTL_FLAG_ACTIVE OR RTL_FLAG_MSTR_READY OR RTL_FLAG_NO_APSS OR RTL_FLAG_RUN OR RTL_FLAG_APSS_NOT_INITD"

definition G_task_flags :: "u32 list" where
  "G_task_flags =
    [FLAGS_APSS_START_MEAS, FLAGS_LOW_CORES_DATA, FLAGS_APSS_CONT_MEAS, FLAGS_HIGH_CORES_DATA, 
     FLAGS_APSS_DONE_MEAS, FLAGS_DCOM_RX_SLV_INBX, FLAGS_DCOM_TX_SLV_INBX, FLAGS_POKE_WDT, 
     FLAGS_DCOM_WAIT_4_MSTR, FLAGS_DCOM_RX_SLV_OUTBOX, FLAGS_DCOM_TX_SLV_OUTBOX, FLAGS_MISC_405_CHECKS, 
     FLAGS_DCOM_PARSE_OCC_FW_MSG, FLAGS_AMEC_SLAVE, FLAGS_AMEC_MASTER, FLAGS_CORE_DATA_CONTROL, 
     FLAGS_GPU_SM, FLAGS_MEMORY_DATA, FLAGS_MEMORY_CONTROL, FLAGS_NEST_DTS, FLAGS_24X7, FLAGS_GPE_TIMINGS, 
     FLAGS_GET_TOD, FLAGS_APSS_RESET]"

definition G_tick0_seq :: "nat list" where
  "G_tick0_seq =
    [TASK_ID_APSS_RESET,
     TASK_ID_APSS_START,
     TASK_ID_GET_TOD,
     TASK_ID_CORE_DATA_LOW,
     TASK_ID_DIMM_SM,
     TASK_ID_APSS_CONT,
     TASK_ID_CORE_DATA_HIGH,
     TASK_ID_APSS_DONE,
     TASK_ID_MEMORY_CONTROL,
     TASK_ID_CORE_DATA_CONTROL,
     TASK_ID_24X7,
     TASK_ID_POKE_WDT,
     TASK_ID_GPE_TIMINGS,
     TASK_ID_DCOM_WAIT_4_MSTR,
     TASK_ID_DCOM_RX_INBX,
     TASK_ID_DCOM_RX_OUTBX,
     TASK_ID_DCOM_TX_OUTBX,
     TASK_ID_DCOM_TX_INBX,
     TASK_ID_AMEC_SLAVE,
     TASK_ID_AMEC_MASTER,
     TASK_ID_DCOM_PARSE_FW_MSG,
     TASK_ID_MISC_405_CHECKS,
     TASK_END]"

definition G_tick1_seq :: "nat list" where
  "G_tick1_seq =
    [TASK_ID_APSS_START,
     TASK_ID_GET_TOD,
     TASK_ID_CORE_DATA_LOW,
     TASK_ID_GPU_SM,
     TASK_ID_APSS_CONT,
     TASK_ID_APSS_DONE,
     TASK_ID_MEMORY_CONTROL,
     TASK_ID_CORE_DATA_CONTROL,
     TASK_ID_24X7,
     TASK_ID_POKE_WDT,
     TASK_ID_GPE_TIMINGS,
     TASK_ID_DCOM_WAIT_4_MSTR,
     TASK_ID_DCOM_RX_INBX,
     TASK_ID_DCOM_RX_OUTBX,
     TASK_ID_DCOM_TX_OUTBX,
     TASK_ID_DCOM_TX_INBX,
     TASK_ID_AMEC_SLAVE,
     TASK_ID_AMEC_MASTER,
     TASK_ID_DCOM_PARSE_FW_MSG,
     TASK_ID_MISC_405_CHECKS,
     TASK_END]"

definition G_tick2_seq :: "nat list" where
  "G_tick2_seq =
    [TASK_ID_APSS_RESET,
     TASK_ID_APSS_START,
     TASK_ID_GET_TOD,
     TASK_ID_CORE_DATA_LOW,
     TASK_ID_DIMM_SM,
     TASK_ID_APSS_CONT,
     TASK_ID_CORE_DATA_HIGH,
     TASK_ID_APSS_DONE,
     TASK_ID_MEMORY_CONTROL,
     TASK_ID_CORE_DATA_CONTROL,
     TASK_ID_24X7,
     TASK_ID_POKE_WDT,
     TASK_ID_GPE_TIMINGS,
     TASK_ID_DCOM_WAIT_4_MSTR,
     TASK_ID_DCOM_RX_INBX,
     TASK_ID_DCOM_RX_OUTBX,
     TASK_ID_DCOM_TX_OUTBX,
     TASK_ID_DCOM_TX_INBX,
     TASK_ID_AMEC_SLAVE,
     TASK_ID_AMEC_MASTER,
     TASK_ID_DCOM_PARSE_FW_MSG,
     TASK_ID_MISC_405_CHECKS,
     TASK_END]"

definition G_tick3_seq :: "nat list" where
  "G_tick3_seq =
    [TASK_ID_APSS_START,
     TASK_ID_GET_TOD,
     TASK_ID_NEST_DTS,
     TASK_ID_GPU_SM,
     TASK_ID_APSS_CONT,
     TASK_ID_CORE_DATA_HIGH,
     TASK_ID_APSS_DONE,
     TASK_ID_MEMORY_CONTROL,
     TASK_ID_CORE_DATA_CONTROL,
     TASK_ID_24X7,
     TASK_ID_POKE_WDT,
     TASK_ID_GPE_TIMINGS,
     TASK_ID_DCOM_WAIT_4_MSTR,
     TASK_ID_DCOM_RX_INBX,
     TASK_ID_DCOM_RX_OUTBX,
     TASK_ID_DCOM_TX_OUTBX,
     TASK_ID_DCOM_TX_INBX,
     TASK_ID_AMEC_SLAVE,
     TASK_ID_AMEC_MASTER,
     TASK_ID_DCOM_PARSE_FW_MSG,
     TASK_ID_MISC_405_CHECKS,
     TASK_END]"

definition G_tick4_seq :: "nat list" where
  "G_tick4_seq =
    [TASK_ID_APSS_RESET,
     TASK_ID_APSS_START,
     TASK_ID_GET_TOD,
     TASK_ID_CORE_DATA_LOW,
     TASK_ID_DIMM_SM,
     TASK_ID_APSS_CONT,
     TASK_ID_CORE_DATA_HIGH,
     TASK_ID_APSS_DONE,
     TASK_ID_MEMORY_CONTROL,
     TASK_ID_CORE_DATA_CONTROL,
     TASK_ID_24X7,
     TASK_ID_POKE_WDT,
     TASK_ID_GPE_TIMINGS,
     TASK_ID_DCOM_WAIT_4_MSTR,
     TASK_ID_DCOM_RX_INBX,
     TASK_ID_DCOM_RX_OUTBX,
     TASK_ID_DCOM_TX_OUTBX,
     TASK_ID_DCOM_TX_INBX,
     TASK_ID_AMEC_SLAVE,
     TASK_ID_AMEC_MASTER,
     TASK_ID_DCOM_PARSE_FW_MSG,
     TASK_ID_MISC_405_CHECKS,
     TASK_END]"

definition G_tick5_seq :: "nat list" where
  "G_tick5_seq =
    [TASK_ID_APSS_START,
     TASK_ID_GET_TOD,
     TASK_ID_CORE_DATA_LOW,
     TASK_ID_GPU_SM,
     TASK_ID_APSS_CONT,
     TASK_ID_APSS_DONE,
     TASK_ID_MEMORY_CONTROL,
     TASK_ID_CORE_DATA_CONTROL,
     TASK_ID_24X7,
     TASK_ID_POKE_WDT,
     TASK_ID_GPE_TIMINGS,
     TASK_ID_DCOM_WAIT_4_MSTR,
     TASK_ID_DCOM_RX_INBX,
     TASK_ID_DCOM_RX_OUTBX,
     TASK_ID_DCOM_TX_OUTBX,
     TASK_ID_DCOM_TX_INBX,
     TASK_ID_AMEC_SLAVE,
     TASK_ID_AMEC_MASTER,
     TASK_ID_DCOM_PARSE_FW_MSG,
     TASK_ID_MISC_405_CHECKS,
     TASK_END]"

definition G_tick6_seq :: "nat list" where
  "G_tick6_seq =
    [TASK_ID_APSS_RESET,
     TASK_ID_APSS_START,
     TASK_ID_GET_TOD,
     TASK_ID_CORE_DATA_LOW,
     TASK_ID_DIMM_SM,
     TASK_ID_APSS_CONT,
     TASK_ID_CORE_DATA_HIGH,
     TASK_ID_APSS_DONE,
     TASK_ID_MEMORY_CONTROL,
     TASK_ID_CORE_DATA_CONTROL,
     TASK_ID_24X7,
     TASK_ID_POKE_WDT,
     TASK_ID_GPE_TIMINGS,
     TASK_ID_DCOM_WAIT_4_MSTR,
     TASK_ID_DCOM_RX_INBX,
     TASK_ID_DCOM_RX_OUTBX,
     TASK_ID_DCOM_TX_OUTBX,
     TASK_ID_DCOM_TX_INBX,
     TASK_ID_AMEC_SLAVE,
     TASK_ID_AMEC_MASTER,
     TASK_ID_DCOM_PARSE_FW_MSG,
     TASK_ID_MISC_405_CHECKS,
     TASK_END]"

definition G_tick7_seq :: "nat list" where
  "G_tick7_seq =
    [TASK_ID_APSS_START,
     TASK_ID_GET_TOD,
     TASK_ID_GPU_SM,
     TASK_ID_APSS_CONT,
     TASK_ID_CORE_DATA_HIGH,
     TASK_ID_APSS_DONE,
     TASK_ID_MEMORY_CONTROL,
     TASK_ID_CORE_DATA_CONTROL,
     TASK_ID_24X7,
     TASK_ID_POKE_WDT,
     TASK_ID_GPE_TIMINGS,
     TASK_ID_DCOM_WAIT_4_MSTR,
     TASK_ID_DCOM_RX_INBX,
     TASK_ID_DCOM_RX_OUTBX,
     TASK_ID_DCOM_TX_OUTBX,
     TASK_ID_DCOM_TX_INBX,
     TASK_ID_AMEC_SLAVE,
     TASK_ID_AMEC_MASTER,
     TASK_ID_DCOM_PARSE_FW_MSG,
     TASK_ID_MISC_405_CHECKS,
     TASK_END]"

definition G_tick8_seq :: "nat list" where
  "G_tick8_seq =
    [TASK_ID_APSS_RESET,
     TASK_ID_APSS_START,
     TASK_ID_GET_TOD,
     TASK_ID_CORE_DATA_LOW,
     TASK_ID_DIMM_SM,
     TASK_ID_APSS_CONT,
     TASK_ID_CORE_DATA_HIGH,
     TASK_ID_APSS_DONE,
     TASK_ID_MEMORY_CONTROL,
     TASK_ID_CORE_DATA_CONTROL,
     TASK_ID_24X7,
     TASK_ID_POKE_WDT,
     TASK_ID_GPE_TIMINGS,
     TASK_ID_DCOM_WAIT_4_MSTR,
     TASK_ID_DCOM_RX_INBX,
     TASK_ID_DCOM_RX_OUTBX,
     TASK_ID_DCOM_TX_OUTBX,
     TASK_ID_DCOM_TX_INBX,
     TASK_ID_AMEC_SLAVE,
     TASK_ID_AMEC_MASTER,
     TASK_ID_DCOM_PARSE_FW_MSG,
     TASK_ID_MISC_405_CHECKS,
     TASK_END]"

definition G_tick9_seq :: "nat list" where
  "G_tick9_seq =
    [TASK_ID_APSS_START,
     TASK_ID_GET_TOD,
     TASK_ID_CORE_DATA_LOW,
     TASK_ID_GPU_SM,
     TASK_ID_APSS_CONT,
     TASK_ID_APSS_DONE,
     TASK_ID_MEMORY_CONTROL,
     TASK_ID_CORE_DATA_CONTROL,
     TASK_ID_24X7,
     TASK_ID_POKE_WDT,
     TASK_ID_GPE_TIMINGS,
     TASK_ID_DCOM_WAIT_4_MSTR,
     TASK_ID_DCOM_RX_INBX,
     TASK_ID_DCOM_RX_OUTBX,
     TASK_ID_DCOM_TX_OUTBX,
     TASK_ID_DCOM_TX_INBX,
     TASK_ID_AMEC_SLAVE,
     TASK_ID_AMEC_MASTER,
     TASK_ID_DCOM_PARSE_FW_MSG,
     TASK_ID_MISC_405_CHECKS,
     TASK_END]"

definition G_tick10_seq :: "nat list" where
  "G_tick10_seq =
    [TASK_ID_APSS_RESET,
     TASK_ID_APSS_START,
     TASK_ID_GET_TOD,
     TASK_ID_CORE_DATA_LOW,
     TASK_ID_DIMM_SM,
     TASK_ID_APSS_CONT,
     TASK_ID_CORE_DATA_HIGH,
     TASK_ID_APSS_DONE,
     TASK_ID_MEMORY_CONTROL,
     TASK_ID_CORE_DATA_CONTROL,
     TASK_ID_24X7,
     TASK_ID_POKE_WDT,
     TASK_ID_GPE_TIMINGS,
     TASK_ID_DCOM_WAIT_4_MSTR,
     TASK_ID_DCOM_RX_INBX,
     TASK_ID_DCOM_RX_OUTBX,
     TASK_ID_DCOM_TX_OUTBX,
     TASK_ID_DCOM_TX_INBX,
     TASK_ID_AMEC_SLAVE,
     TASK_ID_AMEC_MASTER,
     TASK_ID_DCOM_PARSE_FW_MSG,
     TASK_ID_MISC_405_CHECKS,
     TASK_END]"

definition G_tick11_seq :: "nat list" where
  "G_tick11_seq =
    [TASK_ID_APSS_START,
     TASK_ID_GET_TOD,
     TASK_ID_GPU_SM,
     TASK_ID_APSS_CONT,
     TASK_ID_CORE_DATA_HIGH,
     TASK_ID_APSS_DONE,
     TASK_ID_MEMORY_CONTROL,
     TASK_ID_CORE_DATA_CONTROL,
     TASK_ID_24X7,
     TASK_ID_POKE_WDT,
     TASK_ID_GPE_TIMINGS,
     TASK_ID_DCOM_WAIT_4_MSTR,
     TASK_ID_DCOM_RX_INBX,
     TASK_ID_DCOM_RX_OUTBX,
     TASK_ID_DCOM_TX_OUTBX,
     TASK_ID_DCOM_TX_INBX,
     TASK_ID_AMEC_SLAVE,
     TASK_ID_AMEC_MASTER,
     TASK_ID_DCOM_PARSE_FW_MSG,
     TASK_ID_MISC_405_CHECKS,
     TASK_END]"

definition G_tick12_seq :: "nat list" where
  "G_tick12_seq =
    [TASK_ID_APSS_RESET,
     TASK_ID_APSS_START,
     TASK_ID_GET_TOD,
     TASK_ID_CORE_DATA_LOW,
     TASK_ID_DIMM_SM,
     TASK_ID_APSS_CONT,
     TASK_ID_CORE_DATA_HIGH,
     TASK_ID_APSS_DONE,
     TASK_ID_MEMORY_CONTROL,
     TASK_ID_CORE_DATA_CONTROL,
     TASK_ID_24X7,
     TASK_ID_POKE_WDT,
     TASK_ID_GPE_TIMINGS,
     TASK_ID_DCOM_WAIT_4_MSTR,
     TASK_ID_DCOM_RX_INBX,
     TASK_ID_DCOM_RX_OUTBX,
     TASK_ID_DCOM_TX_OUTBX,
     TASK_ID_DCOM_TX_INBX,
     TASK_ID_AMEC_SLAVE,
     TASK_ID_AMEC_MASTER,
     TASK_ID_DCOM_PARSE_FW_MSG,
     TASK_ID_MISC_405_CHECKS,
     TASK_END]"

definition G_tick13_seq :: "nat list" where
  "G_tick13_seq =
    [TASK_ID_APSS_START,
     TASK_ID_GET_TOD,
     TASK_ID_CORE_DATA_LOW,
     TASK_ID_GPU_SM,
     TASK_ID_APSS_CONT,
     TASK_ID_APSS_DONE,
     TASK_ID_MEMORY_CONTROL,
     TASK_ID_CORE_DATA_CONTROL,
     TASK_ID_24X7,
     TASK_ID_POKE_WDT,
     TASK_ID_GPE_TIMINGS,
     TASK_ID_DCOM_WAIT_4_MSTR,
     TASK_ID_DCOM_RX_INBX,
     TASK_ID_DCOM_RX_OUTBX,
     TASK_ID_DCOM_TX_OUTBX,
     TASK_ID_DCOM_TX_INBX,
     TASK_ID_AMEC_SLAVE,
     TASK_ID_AMEC_MASTER,
     TASK_ID_DCOM_PARSE_FW_MSG,
     TASK_ID_MISC_405_CHECKS,
     TASK_END]"

definition G_tick14_seq :: "nat list" where
  "G_tick14_seq =
    [TASK_ID_APSS_RESET,
     TASK_ID_APSS_START,
     TASK_ID_GET_TOD,
     TASK_ID_CORE_DATA_LOW,
     TASK_ID_DIMM_SM,
     TASK_ID_APSS_CONT,
     TASK_ID_CORE_DATA_HIGH,
     TASK_ID_APSS_DONE,
     TASK_ID_MEMORY_CONTROL,
     TASK_ID_CORE_DATA_CONTROL,
     TASK_ID_24X7,
     TASK_ID_POKE_WDT,
     TASK_ID_GPE_TIMINGS,
     TASK_ID_DCOM_WAIT_4_MSTR,
     TASK_ID_DCOM_RX_INBX,
     TASK_ID_DCOM_RX_OUTBX,
     TASK_ID_DCOM_TX_OUTBX,
     TASK_ID_DCOM_TX_INBX,
     TASK_ID_AMEC_SLAVE,
     TASK_ID_AMEC_MASTER,
     TASK_ID_DCOM_PARSE_FW_MSG,
     TASK_ID_MISC_405_CHECKS,
     TASK_END]"

definition G_tick15_seq :: "nat list" where
  "G_tick15_seq =
    [TASK_ID_APSS_START,
     TASK_ID_GET_TOD,
     TASK_ID_GPU_SM,
     TASK_ID_APSS_CONT,
     TASK_ID_CORE_DATA_HIGH,
     TASK_ID_APSS_DONE,
     TASK_ID_MEMORY_CONTROL,
     TASK_ID_CORE_DATA_CONTROL,
     TASK_ID_24X7,
     TASK_ID_POKE_WDT,
     TASK_ID_GPE_TIMINGS,
     TASK_ID_DCOM_WAIT_4_MSTR,
     TASK_ID_DCOM_RX_INBX,
     TASK_ID_DCOM_RX_OUTBX,
     TASK_ID_DCOM_TX_OUTBX,
     TASK_ID_DCOM_TX_INBX,
     TASK_ID_AMEC_SLAVE,
     TASK_ID_AMEC_MASTER,
     TASK_ID_DCOM_PARSE_FW_MSG,
     TASK_ID_MISC_405_CHECKS,
     TASK_END]"

definition G_tick_table :: "nat list list" where
  "G_tick_table =
    [G_tick0_seq, G_tick1_seq, G_tick2_seq, G_tick3_seq, G_tick4_seq, G_tick5_seq, G_tick6_seq, 
     G_tick7_seq, G_tick8_seq, G_tick9_seq, G_tick10_seq, G_tick11_seq, G_tick12_seq, G_tick13_seq, 
     G_tick14_seq, G_tick15_seq]"

section \<open>State\<close>

datatype log_severity = SEV_INFORMATIONAL | SEV_PREDICTIVE | SEV_UNRECOVERABLE

record elog =
  el_mod :: u16
  el_reason :: u8
  el_ext :: u16
  el_sev :: log_severity
  el_ud1 :: u32
  el_ud2 :: u32
  el_callout :: bool

definition mk_log :: "u16 \<Rightarrow> u8 \<Rightarrow> u16 \<Rightarrow> log_severity \<Rightarrow> u32 \<Rightarrow> u32 \<Rightarrow> bool \<Rightarrow> elog" where
  "mk_log m r e v a b c = \<lparr>el_mod = m, el_reason = r, el_ext = e, el_sev = v, el_ud1 = a, el_ud2 = b, el_callout = c\<rparr>"

record rtl =
  run_mask :: u32
  run_mask_deferred :: u32
  current_tick :: u32
  mics_per_tick :: u32
  task_flags :: "nat \<Rightarrow> u32"
  task_data :: "nat \<Rightarrow> ptr"
  bad_id_reported :: bool
  time_error_logged :: bool
  rtl_dur :: u32
  time_exceeded_count :: nat
  rtl_logs :: "elog list"

definition MAX_NUM_TICKS :: u32 where "MAX_NUM_TICKS = 16"

definition GLOBAL_RUN_MASK :: u32 where
  "GLOBAL_RUN_MASK = RTL_FLAG_RUN OR RTL_FLAG_STANDBY OR RTL_FLAG_MSTR_READY OR RTL_FLAG_APSS_NOT_INITD"

definition RTLS_OCB_INIT_MOD :: u16 where "RTLS_OCB_INIT_MOD = 0x0400"
definition RTLS_DO_TICK_MOD :: u16 where "RTLS_DO_TICK_MOD = 0x0401"
definition RTLS_START_TASK_MOD :: u16 where "RTLS_START_TASK_MOD = 0x0402"
definition RTLS_STOP_TASK_MOD :: u16 where "RTLS_STOP_TASK_MOD = 0x0403"
definition RTLS_TASK_RUNABLE_MOD :: u16 where "RTLS_TASK_RUNABLE_MOD = 0x0404"
definition RTLS_SET_TASK_DATA_MOD :: u16 where "RTLS_SET_TASK_DATA_MOD = 0x0405"

definition INTERNAL_HW_FAILURE :: u8 where "INTERNAL_HW_FAILURE = 0xB0"
definition ERC_RTL_TIME_EXCEEDED :: u16 where "ERC_RTL_TIME_EXCEEDED = 0x0190"
definition OCC_NO_EXTENDED_RC :: u16 where "OCC_NO_EXTENDED_RC = 0"

definition add_log :: "elog \<Rightarrow> 'a rtl_scheme \<Rightarrow> 'a rtl_scheme" where
  "add_log l s = s\<lparr>rtl_logs := rtl_logs s @ [l]\<rparr>"

section \<open>Operations\<close>

text \<open>\<open>rc\<close> is what the hardware library answers to the request for the periodic timer.\<close>

definition rtl_ocb_init :: "u32 \<Rightarrow> 'a rtl_scheme \<Rightarrow> 'a rtl_scheme" where
  "rtl_ocb_init rc s =
     (if rc \<noteq> 0 then add_log (mk_log RTLS_OCB_INIT_MOD INTERNAL_HW_FAILURE OCC_NO_EXTENDED_RC SEV_PREDICTIVE rc 0 False) s else s)"

definition rtl_start_task :: "nat \<Rightarrow> 'a rtl_scheme \<Rightarrow> 'a rtl_scheme" where
  "rtl_start_task t s =
     (if t < TASK_END then s\<lparr>task_flags := (task_flags s)(t := task_flags s t OR RTL_FLAG_RUN)\<rparr>
      else add_log (mk_log RTLS_START_TASK_MOD INTERNAL_INVALID_INPUT_DATA OCC_NO_EXTENDED_RC SEV_PREDICTIVE (of_nat t) 0 False) s)"

definition rtl_stop_task :: "nat \<Rightarrow> 'a rtl_scheme \<Rightarrow> 'a rtl_scheme" where
  "rtl_stop_task t s =
     (if t < TASK_END then s\<lparr>task_flags := (task_flags s)(t := task_flags s t AND NOT RTL_FLAG_RUN)\<rparr>
      else add_log (mk_log RTLS_STOP_TASK_MOD INTERNAL_INVALID_INPUT_DATA OCC_NO_EXTENDED_RC SEV_PREDICTIVE (of_nat t) 0 False) s)"

definition task_matches :: "nat \<Rightarrow> 'a rtl_scheme \<Rightarrow> bool" where
  "task_matches t s \<longleftrightarrow> task_flags s t AND run_mask s = run_mask s"

definition rtl_task_is_runnable :: "nat \<Rightarrow> 'a rtl_scheme \<Rightarrow> bool \<times> 'a rtl_scheme" where
  "rtl_task_is_runnable t s =
     (if t < TASK_END then (task_matches t s, s)
      else (False, add_log (mk_log RTLS_TASK_RUNABLE_MOD INTERNAL_FAILURE OCC_NO_EXTENDED_RC SEV_UNRECOVERABLE (of_nat t) 0 True) s))"

definition rtl_set_task_data :: "nat \<Rightarrow> ptr \<Rightarrow> 'a rtl_scheme \<Rightarrow> 'a rtl_scheme" where
  "rtl_set_task_data t p s =
     (if t \<ge> TASK_END
      then add_log (mk_log RTLS_SET_TASK_DATA_MOD INTERNAL_INVALID_INPUT_DATA OCC_NO_EXTENDED_RC SEV_PREDICTIVE (of_nat t) 0 False) s
      else s\<lparr>task_data := (task_data s)(t := p)\<rparr>)"

definition rtl_set_run_mask :: "u32 \<Rightarrow> 'a rtl_scheme \<Rightarrow> 'a rtl_scheme" where
  "rtl_set_run_mask f s = s\<lparr>run_mask := run_mask s OR f, run_mask_deferred := run_mask_deferred s OR f\<rparr>"

definition rtl_clr_run_mask :: "u32 \<Rightarrow> 'a rtl_scheme \<Rightarrow> 'a rtl_scheme" where
  "rtl_clr_run_mask f s =
     (let m = f AND NOT RTL_FLAG_RUN
      in s\<lparr>run_mask := run_mask s AND NOT m, run_mask_deferred := run_mask_deferred s AND NOT m\<rparr>)"

definition rtl_set_run_mask_deferred :: "u32 \<Rightarrow> 'a rtl_scheme \<Rightarrow> 'a rtl_scheme" where
  "rtl_set_run_mask_deferred f s = s\<lparr>run_mask_deferred := run_mask_deferred s OR f\<rparr>"

definition rtl_clr_run_mask_deferred :: "u32 \<Rightarrow> 'a rtl_scheme \<Rightarrow> 'a rtl_scheme" where
  "rtl_clr_run_mask_deferred f s =
     (let m = f AND NOT RTL_FLAG_RUN in s\<lparr>run_mask_deferred := run_mask_deferred s AND NOT m\<rparr>)"

section \<open>The tick\<close>

text \<open>The loop over a sequence returns the tasks it ran. A sequence that does not end with TASK_END
  would be read past its end: \<open>None\<close>.\<close>

fun rtl_walk :: "(nat \<Rightarrow> ('a rtl_scheme \<Rightarrow> 'a rtl_scheme) option) \<Rightarrow> nat list \<Rightarrow> 'a rtl_scheme
    \<Rightarrow> (nat list \<times> 'a rtl_scheme) option" where
  "rtl_walk func [] s = None"
| "rtl_walk func (t # ts) s =
     (if t = TASK_END then Some ([], s)
      else if t > TASK_END then
        rtl_walk func ts
          (if bad_id_reported s then s
           else add_log (mk_log RTLS_DO_TICK_MOD INTERNAL_FAILURE OCC_NO_EXTENDED_RC SEV_UNRECOVERABLE (of_nat t) 0 True) s
                  \<lparr>bad_id_reported := True\<rparr>)
      else case func t of
        None \<Rightarrow> rtl_walk func ts s
      | Some g \<Rightarrow> if task_matches t s then map_option (apfst ((#) t)) (rtl_walk func ts (g s)) else rtl_walk func ts s)"

definition tick_row :: "u32 \<Rightarrow> nat list" where
  "tick_row tick = G_tick_table ! unat ((MAX_NUM_TICKS - 1) AND tick)"

text \<open>\<open>dur\<close> is the time the tick took, as measured at its end.\<close>

definition rtl_time_check :: "u32 \<Rightarrow> 'a rtl_scheme \<Rightarrow> 'a rtl_scheme" where
  "rtl_time_check dur s =
     (let s1 = s\<lparr>rtl_dur := dur\<rparr>
      in if dur > mics_per_tick s1 then
           (let s2 = s1\<lparr>time_exceeded_count := time_exceeded_count s1 + 1\<rparr>
            in if \<not> time_error_logged s2
               then add_log (mk_log RTLS_DO_TICK_MOD INTERNAL_FAILURE ERC_RTL_TIME_EXCEEDED SEV_INFORMATIONAL dur 0 False) s2
                      \<lparr>time_error_logged := True\<rparr>
               else s2)
         else s1)"

definition rtl_begin_tick :: "'a rtl_scheme \<Rightarrow> 'a rtl_scheme" where
  "rtl_begin_tick s = s\<lparr>current_tick := current_tick s + 1, run_mask := run_mask_deferred s\<rparr>"

definition rtl_do_tick :: "(nat \<Rightarrow> ('a rtl_scheme \<Rightarrow> 'a rtl_scheme) option) \<Rightarrow> u32 \<Rightarrow> 'a rtl_scheme
    \<Rightarrow> (nat list \<times> 'a rtl_scheme) option" where
  "rtl_do_tick func dur s =
     (let s1 = rtl_begin_tick s
      in map_option (apsnd (rtl_time_check dur)) (rtl_walk func (tick_row (current_tick s1)) s1))"

end
