(* ===== verification/Rtls_Properties.thy ===== *)
theory Rtls_Properties
  imports Rtls
begin

text \<open>The real-time loop: every task gets its turn, in the order of its sequence, and only when the
  mask allows it.\<close>

unbundle bit_operations_syntax

section \<open>One tick\<close>

lemma tick_table_ok:
  "list_all (\<lambda>row. last row = TASK_END \<and> row \<noteq> [] \<and> list_all (\<lambda>t. t < TASK_END) (butlast row) \<and> distinct row) G_tick_table"
  "length G_tick_table = 16"
  by code_simp+

lemma tick_index: "unat ((MAX_NUM_TICKS - 1) AND w) = unat w mod 16"
proof -
  have "(15 :: u32) AND w = take_bit 4 w" by (simp add: take_bit_eq_mask mask_numeral ac_simps)
  then show ?thesis by (simp add: MAX_NUM_TICKS_def take_bit_eq_mod unat_mod)
qed

lemma tick_row_split:
  obtains ts where "tick_row w = ts @ [TASK_END]" "\<forall>t \<in> set ts. t < TASK_END" "distinct ts"
proof -
  have "tick_row w \<in> set G_tick_table" unfolding tick_row_def tick_index using tick_table_ok(2) by simp
  then have "last (tick_row w) = TASK_END \<and> tick_row w \<noteq> [] \<and> list_all (\<lambda>t. t < TASK_END) (butlast (tick_row w)) \<and> distinct (tick_row w)"
    using tick_table_ok(1) unfolding list_all_iff by blast
  moreover from this have "tick_row w = butlast (tick_row w) @ [TASK_END]" by (metis append_butlast_last_id)
  ultimately show thesis using that [of "butlast (tick_row w)"] by (auto simp: list_all_iff distinct_butlast)
qed

lemma walk_total:
  "\<forall>t \<in> set ts. t < TASK_END \<Longrightarrow> \<exists>xs s'. rtl_walk func (ts @ [TASK_END]) s = Some (xs, s') \<and> set xs \<subseteq> set ts"
proof (induction ts arbitrary: s)
  case (Cons t ts)
  then have t: "t < TASK_END" "\<And>z. \<exists>xs s'. rtl_walk func (ts @ [TASK_END]) z = Some (xs, s') \<and> set xs \<subseteq> set ts" by simp_all
  show ?case
  proof (cases "func t")
    case None
    then show ?thesis using t(1) t(2) [of s] by auto
  next
    case (Some g)
    then show ?thesis using t(1) t(2) [of s] t(2) [of "g s"] by auto
  qed
qed simp

text \<open>Tasks that leave the schedule alone.\<close>

definition same_schedule :: "'a rtl_scheme \<Rightarrow> 'a rtl_scheme \<Rightarrow> bool" where
  "same_schedule s' s \<longleftrightarrow> task_flags s' = task_flags s \<and> run_mask s' = run_mask s \<and>
     run_mask_deferred s' = run_mask_deferred s \<and> current_tick s' = current_tick s"

definition keeps_schedule :: "(nat \<Rightarrow> ('a rtl_scheme \<Rightarrow> 'a rtl_scheme) option) \<Rightarrow> bool" where
  "keeps_schedule func \<longleftrightarrow> (\<forall>t g s. func t = Some g \<longrightarrow> same_schedule (g s) s)"

lemma matches_same: "same_schedule s' s \<Longrightarrow> task_matches t s' = task_matches t s"
  by (simp add: same_schedule_def task_matches_def)

lemma walk_frame:
  assumes k: "keeps_schedule func" and ts: "\<forall>t \<in> set ts. t < TASK_END"
  shows "\<exists>s'. rtl_walk func (ts @ [TASK_END]) s = Some (filter (\<lambda>t. func t \<noteq> None \<and> task_matches t s) ts, s') \<and> same_schedule s' s"
  using ts
proof (induction ts arbitrary: s)
  case Nil
  then show ?case by (simp add: same_schedule_def)
next
  case (Cons t ts)
  then have t: "t < TASK_END" by simp
  show ?case
  proof (cases "\<exists>g. func t = Some g \<and> task_matches t s")
    case True
    then obtain g where g: "func t = Some g" "task_matches t s" by blast
    have ss: "same_schedule (g s) s" using k g(1) by (auto simp: keeps_schedule_def)
    obtain s' where "rtl_walk func (ts @ [TASK_END]) (g s) = Some (filter (\<lambda>t. func t \<noteq> None \<and> task_matches t (g s)) ts, s')"
        "same_schedule s' (g s)" using Cons by auto
    then show ?thesis using t g ss by (auto simp: matches_same [OF ss] same_schedule_def)
  next
    case False
    then show ?thesis using Cons t by (cases "func t") auto
  qed
qed

lemma time_check_same: "same_schedule (rtl_time_check d s) s"
  by (simp add: same_schedule_def rtl_time_check_def Let_def add_log_def)

definition ready_task :: "(nat \<Rightarrow> ('a rtl_scheme \<Rightarrow> 'a rtl_scheme) option) \<Rightarrow> 'a rtl_scheme \<Rightarrow> nat \<Rightarrow> bool" where
  "ready_task func s t \<longleftrightarrow> func t \<noteq> None \<and> task_flags s t AND run_mask_deferred s = run_mask_deferred s"

lemma tick_frame:
  assumes k: "keeps_schedule func"
  obtains s' where "rtl_do_tick func d s = Some (filter (ready_task func s) (butlast (tick_row (current_tick s + 1))), s')"
    "task_flags s' = task_flags s" "run_mask_deferred s' = run_mask_deferred s" "current_tick s' = current_tick s + 1"
proof -
  obtain ts where ts: "tick_row (current_tick s + 1) = ts @ [TASK_END]" "\<forall>t \<in> set ts. t < TASK_END" by (rule tick_row_split)
  let ?s = "rtl_begin_tick s"
  obtain s' where w: "rtl_walk func (ts @ [TASK_END]) ?s = Some (filter (\<lambda>t. func t \<noteq> None \<and> task_matches t ?s) ts, s')"
    "same_schedule s' ?s" using walk_frame [OF k ts(2)] by blast
  have f: "(\<lambda>t. func t \<noteq> None \<and> task_matches t ?s) = ready_task func s"
    by (rule ext) (simp add: ready_task_def task_matches_def rtl_begin_tick_def)
  have c: "current_tick ?s = current_tick s + 1" by (simp add: rtl_begin_tick_def)
  have "rtl_do_tick func d s = Some (filter (ready_task func s) ts, rtl_time_check d s')"
    unfolding rtl_do_tick_def Let_def c ts(1) w(1) f by simp
  then show thesis
    using that [of "rtl_time_check d s'"] w(2) time_check_same [of d s'] ts(1) by (simp add: same_schedule_def rtl_begin_tick_def)
qed

section \<open>Many ticks\<close>

fun rtl_ticks :: "(nat \<Rightarrow> ('a rtl_scheme \<Rightarrow> 'a rtl_scheme) option) \<Rightarrow> u32 list \<Rightarrow> 'a rtl_scheme \<Rightarrow> (nat list list \<times> 'a rtl_scheme) option" where
  "rtl_ticks func [] s = Some ([], s)"
| "rtl_ticks func (d # ds) s =
     (case rtl_do_tick func d s of None \<Rightarrow> None
      | Some (xs, s1) \<Rightarrow> map_option (apfst ((#) xs)) (rtl_ticks func ds s1))"

lemma ticks_frame:
  assumes k: "keeps_schedule func"
  shows "\<exists>s'. rtl_ticks func ds s = Some (map (\<lambda>i. filter (ready_task func s) (butlast (tick_row (current_tick s + 1 + of_nat i)))) [0..<length ds], s')"
proof (induction ds arbitrary: s)
  case (Cons d ds)
  obtain s1 where t: "rtl_do_tick func d s = Some (filter (ready_task func s) (butlast (tick_row (current_tick s + 1))), s1)"
    "task_flags s1 = task_flags s" "run_mask_deferred s1 = run_mask_deferred s" "current_tick s1 = current_tick s + 1"
    by (rule tick_frame [OF k])
  have r: "ready_task func s1 = ready_task func s" by (rule ext) (simp add: ready_task_def t)
  obtain s' where "rtl_ticks func ds s1 = Some (map (\<lambda>i. filter (ready_task func s1) (butlast (tick_row (current_tick s1 + 1 + of_nat i)))) [0..<length ds], s')"
    using Cons by blast
  then show ?case using t(1) unfolding r t(4)
    by (simp add: map_upt_Suc del: upt_Suc) (simp add: ac_simps)
qed simp

lemma rotation: "bij_betw (\<lambda>i. (n + i) mod 16) {..<16} {..<16 :: nat}"
proof -
  have "inj_on (\<lambda>i. (n + i) mod 16) {..<16 :: nat}"
  proof (rule inj_onI)
    fix i j assume a: "i \<in> {..<16 :: nat}" "j \<in> {..<16}" and "(n + i) mod 16 = (n + j) mod 16"
    then have "int (n + i) mod 16 = int (n + j) mod 16" by (metis of_nat_mod of_nat_numeral)
    then have "16 dvd int i - int j" by (simp add: mod_eq_dvd_iff)
    then obtain k where "int i - int j = 16 * k" by (rule dvdE)
    moreover from this have "- 16 < 16 * k" "16 * k < 16" using a by auto
    then have "k = 0" by simp
    ultimately show "i = j" by simp
  qed
  moreover have "(\<lambda>i. (n + i) mod 16) ` {..<16} \<subseteq> {..<16}" by auto
  ultimately show ?thesis by (metis bij_betw_imageI endo_inj_surj finite_lessThan)
qed

lemma row_index: "tick_row (w + 1 + of_nat i) = G_tick_table ! ((unat w + 1 + i) mod 16)"
proof -
  have "unat (w + 1 + of_nat i) mod 16 = (unat w + 1 + i) mod 16"
    by (simp add: unat_word_ariths unsigned_of_nat take_bit_eq_mod mod_simps mod_mod_cancel)
  then show ?thesis unfolding tick_row_def tick_index by simp
qed

definition turns :: "nat \<Rightarrow> nat" where
  "turns t = sum_list (map (\<lambda>row. count_list (butlast row) t) G_tick_table)"

lemma turns_table:
  "list_all (\<lambda>t. 0 < turns t) [0..<TASK_END]"
  "list_all (\<lambda>t. turns t = 16) [TASK_ID_APSS_START, TASK_ID_APSS_CONT, TASK_ID_APSS_DONE, TASK_ID_CORE_DATA_CONTROL, TASK_ID_MEMORY_CONTROL,
     TASK_ID_POKE_WDT, TASK_ID_AMEC_SLAVE, TASK_ID_AMEC_MASTER, TASK_ID_DCOM_RX_INBX, TASK_ID_DCOM_TX_OUTBX, TASK_ID_MISC_405_CHECKS]"
  "list_all (\<lambda>t. turns t = 8) [TASK_ID_DIMM_SM, TASK_ID_GPU_SM, TASK_ID_APSS_RESET]"
  by code_simp+

lemma turns_rotated: "(\<Sum>i<16. count_list (butlast (G_tick_table ! ((n + i) mod 16))) t) = turns t"
proof -
  have "(\<Sum>i<16. count_list (butlast (G_tick_table ! ((n + i) mod 16))) t) = (\<Sum>r<16. count_list (butlast (G_tick_table ! r)) t)"
    by (rule sum.reindex_bij_betw [OF rotation])
  also have "\<dots> = turns t" unfolding turns_def sum_list_sum_nth by (simp add: tick_table_ok(2) atLeast0LessThan)
  finally show ?thesis .
qed

lemma count_filter: "count_list (filter P xs) t = (if P t then count_list xs t else 0)"
  by (induction xs) auto

lemma count_concat: "count_list (concat xss) t = sum_list (map (\<lambda>xs. count_list xs t) xss)"
  by (induction xss) auto

section \<open>Properties\<close>

text \<open>
  C4: Every task gets its turn. Whatever the tick number is, as long as the tasks leave the schedule
  alone, in any 16 consecutive ticks (8 ms) every task that has a function and the flags of the run
  mask runs exactly as often as the 16 sequences list it, which for each of the 24 tasks is at least
  once, and every other task never runs; the loop never reads past the end of a sequence.
\<close>

theorem every_task_gets_its_turn:
  assumes "keeps_schedule func" "length durs = 16"
  shows "\<exists>ran s'. rtl_ticks func durs s = Some (ran, s') \<and> length ran = 16
    \<and> (\<forall>t. count_list (concat ran) t = (if ready_task func s t then turns t else 0))
    \<and> (\<forall>t < TASK_END. 0 < turns t)"
proof -
  let ?ran = "map (\<lambda>i. filter (ready_task func s) (butlast (tick_row (current_tick s + 1 + of_nat i)))) [0..<16]"
  obtain s' where r: "rtl_ticks func durs s = Some (?ran, s')" using ticks_frame [OF assms(1), of durs s] assms(2) by auto
  have "count_list (concat ?ran) t = (if ready_task func s t then turns t else 0)" for t
  proof -
    let ?n = "unat (current_tick s) + 1"
    have "count_list (concat ?ran) t = (\<Sum>i<16. if ready_task func s t then count_list (butlast (G_tick_table ! ((?n + i) mod 16))) t else 0)"
      unfolding count_concat map_map o_def count_filter row_index
      by (simp only: sum_list_distinct_conv_sum_set [OF distinct_upt] set_upt atLeast0LessThan)
    then show ?thesis using turns_rotated [of ?n t] by simp
  qed
  moreover have "0 < turns t" if "t < TASK_END" for t using turns_table(1) that unfolding list_all_iff by simp
  ultimately show ?thesis using r by (intro exI [of _ ?ran] exI [of _ s']) (simp del: upt_Suc)
qed

theorem every_task_gets_its_turn_witness:
  "\<exists>ran s'. rtl_ticks (\<lambda>_. Some id) (replicate 16 0)
      \<lparr>run_mask = 0, run_mask_deferred = RTL_FLAG_RUN, current_tick = 0xFFFFFFFF, mics_per_tick = 500, task_flags = (\<lambda>t. G_task_flags ! t),
       task_data = (\<lambda>_. 0), bad_id_reported = False, time_error_logged = False, rtl_dur = 0, time_exceeded_count = 0, rtl_logs = []\<rparr>
    = Some (ran, s') \<and> length ran = 16 \<and> count_list (concat ran) TASK_ID_AMEC_SLAVE = 16"
proof -
  let ?s = "\<lparr>run_mask = 0, run_mask_deferred = RTL_FLAG_RUN, current_tick = 0xFFFFFFFF, mics_per_tick = 500, task_flags = (\<lambda>t. G_task_flags ! t),
       task_data = (\<lambda>_. 0), bad_id_reported = False, time_error_logged = False, rtl_dur = 0, time_exceeded_count = 0, rtl_logs = []\<rparr> :: rtl"
  have k: "keeps_schedule (\<lambda>_. Some id :: (rtl \<Rightarrow> rtl) option)" by (simp add: keeps_schedule_def same_schedule_def)
  have "G_task_flags ! TASK_ID_AMEC_SLAVE AND RTL_FLAG_RUN = RTL_FLAG_RUN" by code_simp
  then have "ready_task (\<lambda>_. Some id :: (rtl \<Rightarrow> rtl) option) ?s TASK_ID_AMEC_SLAVE" by (simp add: ready_task_def)
  then show ?thesis using every_task_gets_its_turn [OF k, of "replicate 16 0" ?s] turns_table(2) by auto
qed

end
