(* ===== verification/Pgpe.thy ===== *)
theory Pgpe
  imports Rtls Amec_Freq "HOL-Library.Monad_Syntax"
begin

text \<open>
  occ_405/pgpe/pgpe_interface.c and reset.c: the requests to the Pstate engine (PGPE) and the reset
  request. The record \<open>occ\<close> extends the state of the real-time loop by what state management uses.

  What lies outside the processor is the record \<open>env\<close>, arbitrary functions of the time: how much
  longer than asked a sleep takes, whether a request can be scheduled, and when and how the PGPE
  answers one. Answers arrive while the thread sleeps; the answer to a start/suspend request runs its
  callback. Time is counted in microseconds. An operation that never returns is \<open>None\<close>.
\<close>

unbundle bit_operations_syntax

section \<open>State\<close>

datatype gpe_req = Clip_Update | Pmcr_Set | Start_Suspend

datatype pstate_status = PSTATES_IN_TRANSITION | PSTATES_DISABLED | PSTATES_ENABLED | PSTATES_FAILED

datatype pmcr_owner = PMCR_OWNER_HOST | PMCR_OWNER_OCC | PMCR_OWNER_CHAR

datatype occ_state =
  OCC_STATE_NOCHANGE | OCC_STATE_STANDBY | OCC_STATE_OBSERVATION | OCC_STATE_ACTIVE | OCC_STATE_SAFE
| OCC_STATE_CHARACTERIZATION | OCC_STATE_COUNT | OCC_STATE_ALL | OCC_STATE_INVALID

datatype reset_state = RESET_NOT_REQUESTED | NOMINAL_REQUESTED_DUE_TO_ERROR | RESET_REQUESTED_DUE_TO_ERROR

text \<open>Calls to components modelled elsewhere or not at all, in the order they are made.\<close>

datatype call =
  Call_wof_set u32 u16 | Call_wof_clear u32 u16 | Call_gpe_schedule gpe_req | Call_memory_init u8
| Call_mem_power_control | Call_kvm_setup | Call_dimm_lock_release | Call_gpus_disable

record env =
  lag :: "nat \<Rightarrow> nat"
  sched_rc :: "gpe_req \<Rightarrow> nat \<Rightarrow> int"
  reply :: "gpe_req \<Rightarrow> nat \<Rightarrow> u8 option"
  occflg :: "nat \<Rightarrow> u32"
  mem_init_fails :: "nat \<Rightarrow> bool"
  sem_pend_rc :: "nat \<Rightarrow> int"

record occ = rtl +
  clock :: nat
  busy :: "gpe_req \<Rightarrow> bool"
  clip_rc :: u8
  clip_min :: "nat \<Rightarrow> u8"
  clip_max :: "nat \<Rightarrow> u8"
  last_list :: u64
  pmcr_rc :: u8
  pmcr :: "nat \<Rightarrow> u64"
  start_rc :: u8
  start_action :: u8
  start_owner :: pmcr_owner
  ss_pgpe_rc :: u8
  pstate_status :: pstate_status
  pmcr_owner :: pmcr_owner
  set_pStates :: bool
  am :: amec
  simics :: bool
  fir_master :: bool
  cnfgdata :: u32
  active_mask :: u32
  observation_mask :: u32
  reset_state :: reset_state
  halt_on_reset :: bool
  wakeups :: nat
  internal_state :: occ_state
  req_state :: occ_state
  ext_req_state :: occ_state
  transition_occuring :: bool
  logged_stb_obs :: bool
  logged_stb_chr :: bool
  logged_obs_chr :: bool
  logged_obs_act :: bool
  mem_monitoring_allowed :: bool
  gpu_monitoring_allowed :: bool
  mem_pwr_ctl :: bool
  trans_sem :: nat
  sem_posts :: nat
  calls :: "call list"

definition add_call :: "call \<Rightarrow> occ \<Rightarrow> occ" where
  "add_call c s = s\<lparr>calls := calls s @ [c]\<rparr>"

abbreviation upd_am :: "(amec \<Rightarrow> amec) \<Rightarrow> occ \<Rightarrow> occ" where
  "upd_am f s \<equiv> s\<lparr>am := f (am s)\<rparr>"

definition PGPE_RC_SUCCESS :: u8 where "PGPE_RC_SUCCESS = 0x01"
definition PGPE_ACTION_PSTATE_START :: u8 where "PGPE_ACTION_PSTATE_START = 0"
definition PGPE_ACTION_PSTATE_STOP :: u8 where "PGPE_ACTION_PSTATE_STOP = 1"
definition CLIP_UPDATE_TIMEOUT :: nat where "CLIP_UPDATE_TIMEOUT = 500"

definition PGPE_CLIP_UPDATE_MOD :: u16 where "PGPE_CLIP_UPDATE_MOD = 0x1205"
definition PGPE_START_SUSPEND_MOD :: u16 where "PGPE_START_SUSPEND_MOD = 0x1206"
definition PGPE_PMCR_SET_MOD :: u16 where "PGPE_PMCR_SET_MOD = 0x1207"
definition PGPE_SET_CLIP_BLOCKING_MOD :: u16 where "PGPE_SET_CLIP_BLOCKING_MOD = 0x1209"

definition PGPE_FAILURE :: u8 where "PGPE_FAILURE = 0xD3"
definition GPE_REQUEST_SCHEDULE_FAILURE :: u8 where "GPE_REQUEST_SCHEDULE_FAILURE = 0xD5"
definition GPE_REQUEST_TASK_TIMEOUT :: u8 where "GPE_REQUEST_TASK_TIMEOUT = 0xD6"
definition GPE_REQUEST_RC_FAILURE :: u8 where "GPE_REQUEST_RC_FAILURE = 0xD8"

definition ERC_PGPE_CLIP_NOT_IDLE :: u16 where "ERC_PGPE_CLIP_NOT_IDLE = 0x00B1"
definition ERC_PGPE_SET_PMCR_NOT_IDLE :: u16 where "ERC_PGPE_SET_PMCR_NOT_IDLE = 0x00B2"
definition ERC_PGPE_START_SUSPEND_NOT_IDLE :: u16 where "ERC_PGPE_START_SUSPEND_NOT_IDLE = 0x00B3"
definition ERC_PGPE_SET_PMCR_FAILURE :: u16 where "ERC_PGPE_SET_PMCR_FAILURE = 0x00B4"
definition ERC_PGPE_START_SUSPEND_FAILURE :: u16 where "ERC_PGPE_START_SUSPEND_FAILURE = 0x00B5"
definition ERC_PGPE_CLIP_FAILURE :: u16 where "ERC_PGPE_CLIP_FAILURE = 0x00B7"
definition ERC_PGPE_TASK_TIMEOUT :: u16 where "ERC_PGPE_TASK_TIMEOUT = 0x00BA"

definition DATA_MASK_FREQ_PRESENT :: u32 where "DATA_MASK_FREQ_PRESENT = 0x00000002"

section \<open>Time, answers and resets\<close>

definition pgpe_start_suspend_callback :: "occ \<Rightarrow> occ" where
  "pgpe_start_suspend_callback s =
     (let s1 = s\<lparr>ss_pgpe_rc := start_rc s\<rparr>
      in if ss_pgpe_rc s1 \<noteq> PGPE_RC_SUCCESS then s1\<lparr>pstate_status := PSTATES_FAILED\<rparr>
         else if start_action s1 = PGPE_ACTION_PSTATE_START
         then s1\<lparr>pstate_status := PSTATES_ENABLED, pmcr_owner := start_owner s1\<rparr>
         else if start_action s1 = PGPE_ACTION_PSTATE_STOP then s1\<lparr>pstate_status := PSTATES_DISABLED\<rparr>
         else s1)"

definition deliver :: "env \<Rightarrow> gpe_req \<Rightarrow> occ \<Rightarrow> occ" where
  "deliver E r s =
     (if busy s r then
        (case reply E r (clock s) of
           None \<Rightarrow> s
         | Some rc \<Rightarrow>
             (let s1 = s\<lparr>busy := (busy s)(r := False)\<rparr>
              in case r of
                   Clip_Update \<Rightarrow> s1\<lparr>clip_rc := rc\<rparr>
                 | Pmcr_Set \<Rightarrow> s1\<lparr>pmcr_rc := rc\<rparr>
                 | Start_Suspend \<Rightarrow> pgpe_start_suspend_callback (s1\<lparr>start_rc := rc\<rparr>)))
      else s)"

definition sleep_us :: "env \<Rightarrow> nat \<Rightarrow> occ \<Rightarrow> occ" where
  "sleep_us E us s =
     deliver E Start_Suspend (deliver E Pmcr_Set (deliver E Clip_Update (s\<lparr>clock := clock s + us + lag E (clock s)\<rparr>)))"

text \<open>reset.c. A request to halt instead of resetting ends everything.\<close>

definition reset_state_request :: "reset_state \<Rightarrow> occ \<Rightarrow> occ option" where
  "reset_state_request r s =
     (case r of
        RESET_REQUESTED_DUE_TO_ERROR \<Rightarrow>
          (if halt_on_reset s then None
           else if reset_state s \<noteq> RESET_REQUESTED_DUE_TO_ERROR
           then Some (rtl_set_run_mask RTL_FLAG_RST_REQ (s\<lparr>reset_state := RESET_REQUESTED_DUE_TO_ERROR, wakeups := wakeups s + 1\<rparr>))
           else Some s)
      | NOMINAL_REQUESTED_DUE_TO_ERROR \<Rightarrow>
          Some (if reset_state s = RESET_NOT_REQUESTED then s\<lparr>reset_state := NOMINAL_REQUESTED_DUE_TO_ERROR\<rparr> else s)
      | RESET_NOT_REQUESTED \<Rightarrow>
          Some (if reset_state s = NOMINAL_REQUESTED_DUE_TO_ERROR then s\<lparr>reset_state := RESET_NOT_REQUESTED\<rparr> else s))"

definition reset_disable_halt :: "occ \<Rightarrow> occ" where
  "reset_disable_halt s = s\<lparr>halt_on_reset := False\<rparr>"

definition isSafeStateRequested :: "occ \<Rightarrow> bool" where
  "isSafeStateRequested s \<longleftrightarrow> reset_state s = RESET_REQUESTED_DUE_TO_ERROR"

definition REQUEST_RESET :: "elog \<Rightarrow> occ \<Rightarrow> occ option" where
  "REQUEST_RESET l s = map_option (add_log l) (reset_state_request RESET_REQUESTED_DUE_TO_ERROR s)"

text \<open>common.c: the bit pm_reset_suppress of the OCC flags register.\<close>

definition ignore_pgpe_error :: "env \<Rightarrow> occ \<Rightarrow> bool" where
  "ignore_pgpe_error E s \<longleftrightarrow> bit (occflg E (clock s)) 4"

definition present_cores :: "occ \<Rightarrow> bool" where
  "present_cores s \<longleftrightarrow> G_present_cores (am_glob (am s)) \<noteq> 0"

definition pgpe_request_schedule :: "env \<Rightarrow> gpe_req \<Rightarrow> occ \<Rightarrow> int \<times> occ" where
  "pgpe_request_schedule E r s =
     (if present_cores s then
        (let rc = sched_rc E r (clock s)
         in (rc, add_call (Call_gpe_schedule r) (if rc = 0 then s\<lparr>busy := (busy s)(r := True)\<rparr> else s)))
      else (0, s))"

section \<open>The clips\<close>

text \<open>The two loops that wait for the clip request differ in the width of their counter; each is
  \<open>None\<close> when it never ends. The result tells whether the request became idle.\<close>

partial_function (option) wait_clip_u8 :: "env \<Rightarrow> u8 \<Rightarrow> occ \<Rightarrow> (bool \<times> occ) option" where
  "wait_clip_u8 E w s =
     (if \<not> busy s Clip_Update then Some (True, s)
      else if unat w > CLIP_UPDATE_TIMEOUT then Some (False, s)
      else wait_clip_u8 E (w + 1) (sleep_us E 1 s))"

partial_function (option) wait_clip_u32 :: "env \<Rightarrow> u32 \<Rightarrow> occ \<Rightarrow> (bool \<times> occ) option" where
  "wait_clip_u32 E w s =
     (if \<not> busy s Clip_Update then Some (True, s)
      else if unat w > CLIP_UPDATE_TIMEOUT then Some (False, s)
      else wait_clip_u32 E (w + 1) (sleep_us E 1 s))"

definition pstate_list :: "(nat \<Rightarrow> u8) \<Rightarrow> u64" where
  "pstate_list d = fold (\<lambda>q l. l OR push_bit ((7 - q) * 8) (ucast (d q))) [0..<MAXIMUM_QUADS] 0"

definition clip_send :: "env \<Rightarrow> occ \<Rightarrow> int \<times> occ" where
  "clip_send E s =
     (let d = G_desired_pstate (am_glob (am s));
          l = pstate_list d;
          p = proc_freq2pstate (ucast (sys_fmin (am_sys (am s)))) (am s);
          s1 = s\<lparr>clip_min := (\<lambda>q. if q < MAXIMUM_QUADS then p else clip_min s q),
                 clip_max := (\<lambda>q. if q < MAXIMUM_QUADS then d q else clip_max s q)\<rparr>
      in if l \<noteq> last_list s1 \<or> \<not> kvm (am_cfg (am s1)) \<or> set_pStates s1
         then pgpe_request_schedule E Clip_Update (s1\<lparr>set_pStates := False, last_list := l\<rparr>)
         else (0, s1))"

definition pgpe_clip_update :: "env \<Rightarrow> occ \<Rightarrow> (int \<times> occ) option" where
  "pgpe_clip_update E s = do {
     (idle, s1) \<leftarrow> wait_clip_u32 E 0 s;
     let s2 = (if idle \<or> ignore_pgpe_error E s1 then s1
               else add_log (mk_log PGPE_CLIP_UPDATE_MOD PGPE_FAILURE ERC_PGPE_CLIP_NOT_IDLE SEV_PREDICTIVE 0 0 True) s1);
     let ext_rc = (if idle then 0 else uint ERC_PGPE_CLIP_NOT_IDLE);
     let (schedule_rc, ext_rc, s3) =
       (if \<not> simics s2 then (let (rc, s3) = clip_send E s2 in (rc, ext_rc, s3))
        else (0, 0, s2\<lparr>start_rc := PGPE_RC_SUCCESS\<rparr>));
     if schedule_rc \<noteq> 0 then
       map_option (Pair (uint ERC_PGPE_CLIP_FAILURE))
         (REQUEST_RESET (mk_log PGPE_CLIP_UPDATE_MOD GPE_REQUEST_SCHEDULE_FAILURE ERC_PGPE_CLIP_FAILURE
            SEV_UNRECOVERABLE (store32 schedule_rc) 0 False) s3)
     else Some (ext_rc, s3)
   }"

definition pgpe_set_clip_blocking :: "env \<Rightarrow> u8 \<Rightarrow> occ \<Rightarrow> (int \<times> occ) option" where
  "pgpe_set_clip_blocking E p s = do {
     (idle, s1) \<leftarrow> wait_clip_u8 E 0 s;
     if \<not> idle \<and> \<not> ignore_pgpe_error E s1 then
       map_option (Pair (uint PGPE_FAILURE))
         (REQUEST_RESET (mk_log PGPE_SET_CLIP_BLOCKING_MOD PGPE_FAILURE ERC_PGPE_CLIP_NOT_IDLE SEV_PREDICTIVE 0 0 False) s1)
     else do {
       let s2 = upd_am (upd_glob (\<lambda>g. g\<lparr>G_desired_pstate := (\<lambda>q. if q < MAXIMUM_QUADS then p else G_desired_pstate g q)\<rparr>)) s1;
       (rc, s3) \<leftarrow> pgpe_clip_update E s2;
       if rc \<noteq> 0 then Some (rc, s3)
       else do {
         (idle, s4) \<leftarrow> wait_clip_u8 E 0 s3;
         if \<not> idle \<and> \<not> ignore_pgpe_error E s4 then
           map_option (Pair (uint GPE_REQUEST_TASK_TIMEOUT))
             (REQUEST_RESET (mk_log PGPE_SET_CLIP_BLOCKING_MOD GPE_REQUEST_TASK_TIMEOUT OCC_NO_EXTENDED_RC SEV_PREDICTIVE 0 0 False) s4)
         else if clip_rc s4 \<noteq> PGPE_RC_SUCCESS then
           map_option (Pair (uint GPE_REQUEST_RC_FAILURE))
             (REQUEST_RESET (mk_log PGPE_SET_CLIP_BLOCKING_MOD GPE_REQUEST_RC_FAILURE OCC_NO_EXTENDED_RC
                SEV_PREDICTIVE (ucast (clip_rc s4)) 0 False) s4)
         else Some (if idle then 0 else uint GPE_REQUEST_TASK_TIMEOUT, s4)
       }
     }
   }"

section \<open>Starting and suspending Pstates\<close>

definition pgpe_start_suspend :: "env \<Rightarrow> u8 \<Rightarrow> pmcr_owner \<Rightarrow> occ \<Rightarrow> (int \<times> occ) option" where
  "pgpe_start_suspend E action owner s =
     (if busy s Start_Suspend then
        Some (uint ERC_PGPE_START_SUSPEND_NOT_IDLE,
          if ignore_pgpe_error E s then s
          else add_log (mk_log PGPE_START_SUSPEND_MOD PGPE_FAILURE ERC_PGPE_START_SUSPEND_NOT_IDLE SEV_PREDICTIVE 0 0 True) s)
      else do {
        let s1 = s\<lparr>start_action := action, start_owner := owner\<rparr>;
        let (schedule_rc, s2) =
          (if \<not> simics s1 then pgpe_request_schedule E Start_Suspend (s1\<lparr>pstate_status := PSTATES_IN_TRANSITION\<rparr>) else (0, s1));
        (ext_rc, s3) \<leftarrow>
          (if schedule_rc \<noteq> 0 then
             (let s3 = s2\<lparr>pstate_status := pstate_status s\<rparr>
              in if \<not> kvm (am_cfg (am s3)) \<or> owner \<noteq> PMCR_OWNER_OCC then
                   map_option (Pair (uint ERC_PGPE_START_SUSPEND_FAILURE))
                     (REQUEST_RESET (mk_log PGPE_START_SUSPEND_MOD GPE_REQUEST_SCHEDULE_FAILURE ERC_PGPE_START_SUSPEND_FAILURE
                        SEV_UNRECOVERABLE (store32 schedule_rc) 0 False) s3)
                 else Some (uint ERC_PGPE_START_SUSPEND_FAILURE, s3))
           else Some (0, s2));
        Some (ext_rc, if simics s3 then pgpe_start_suspend_callback s3 else s3)
      })"

definition pgpe_pmcr_set :: "env \<Rightarrow> occ \<Rightarrow> (int \<times> occ) option" where
  "pgpe_pmcr_set E s =
     (if busy s Pmcr_Set then
        Some (uint ERC_PGPE_SET_PMCR_NOT_IDLE,
          if ignore_pgpe_error E s then s
          else add_log (mk_log PGPE_PMCR_SET_MOD PGPE_FAILURE ERC_PGPE_SET_PMCR_NOT_IDLE SEV_PREDICTIVE 0 0 True) s)
      else
        let (schedule_rc, s1) = (if \<not> simics s then pgpe_request_schedule E Pmcr_Set s else (0, s))
        in if schedule_rc \<noteq> 0 then
             (if \<not> kvm (am_cfg (am s1)) then
                map_option (Pair (uint ERC_PGPE_SET_PMCR_FAILURE))
                  (REQUEST_RESET (mk_log PGPE_PMCR_SET_MOD GPE_REQUEST_SCHEDULE_FAILURE ERC_PGPE_SET_PMCR_FAILURE
                     SEV_UNRECOVERABLE (store32 schedule_rc) 0 False) s1)
              else Some (uint ERC_PGPE_SET_PMCR_FAILURE, s1))
           else Some (0, s1))"

text \<open>Waiting until Pstates are enabled, at most \<open>limit\<close> microseconds after \<open>start\<close>. The result
  tells whether they are.\<close>

lemma clock_answer [simp]:
  "clock (pgpe_start_suspend_callback s) = clock s" "clock (deliver E r s) = clock s"
  by (simp_all add: pgpe_start_suspend_callback_def deliver_def Let_def split: option.split gpe_req.split)

lemma clock_sleep [simp]: "clock (sleep_us E us s) = clock s + us + lag E (clock s)"
  by (simp add: sleep_us_def)

function wait_enabled :: "env \<Rightarrow> nat \<Rightarrow> nat \<Rightarrow> occ \<Rightarrow> bool \<times> occ" where
  "wait_enabled E start limit s =
     (if pstate_status s = PSTATES_ENABLED then (True, s)
      else if clock s - start > limit then (False, s)
      else wait_enabled E start limit (sleep_us E 10 s))"
  by pat_completeness auto
termination
  by (relation "measure (\<lambda>(E, start, limit, s). start + limit + 1 - clock s)") auto

declare wait_enabled.simps [simp del]

definition set_nominal_pstate :: "env \<Rightarrow> occ \<Rightarrow> (int \<times> occ) option" where
  "set_nominal_pstate E s =
     (let nominal = mode_freq (am_cfg (am s)) OCC_MODE_NOMINAL
      in if cnfgdata s AND DATA_MASK_FREQ_PRESENT = 0 \<or> nominal = 0 then Some (uint ERC_FW_ZERO_FREQ_LIMIT, s)
         else if busy s Pmcr_Set then Some (uint ERC_PGPE_SET_PMCR_NOT_IDLE, s)
         else do {
           (rc, s1) \<leftarrow>
             (if pstate_status s \<noteq> PSTATES_ENABLED \<or> pmcr_owner s \<noteq> PMCR_OWNER_OCC then
                (if pstate_status s = PSTATES_IN_TRANSITION then Some (uint ERC_PGPE_START_SUSPEND_NOT_IDLE, s)
                 else do {
                   (rc, s1) \<leftarrow> pgpe_start_suspend E PGPE_ACTION_PSTATE_START PMCR_OWNER_OCC s;
                   if rc \<noteq> 0 then Some (rc, s1)
                   else let (ok, s2) = wait_enabled E (clock s) 1000000 (sleep_us E 5 s1)
                        in Some (if ok then 0 else uint ERC_PGPE_TASK_TIMEOUT, s2)
                 })
              else Some (0, s));
           if rc \<noteq> 0 then Some (rc, s1)
           else (let p = proc_freq2pstate (ucast nominal) (am s1);
                     v = push_bit 48 (ucast p) OR 1
                 in pgpe_pmcr_set E (s1\<lparr>pmcr := (\<lambda>q. if q < MAXIMUM_QUADS then v else pmcr s1 q)\<rparr>))
         })"

end
