(* ===== verification/Occ_State.thy ===== *)
theory Occ_State
  imports Pgpe
begin

text \<open>
  occ_405/state.c: the states of the OCC and the transitions between them, with memory_init
  (occ_405/mem/memory.c), disable_all_dimms and disable_all_gpus, which they call. The flag
  \<open>L_error_logged\<close> that four of the transitions keep is a field of the state each.
\<close>

unbundle bit_operations_syntax

definition DATA_MASK_SET_ROLE :: u32 where "DATA_MASK_SET_ROLE = 0x00000004"
definition DATA_MASK_APSS_CONFIG :: u32 where "DATA_MASK_APSS_CONFIG = 0x00000008"
definition DATA_MASK_PCAP_PRESENT :: u32 where "DATA_MASK_PCAP_PRESENT = 0x00000010"
definition DATA_MASK_SYS_CNFG :: u32 where "DATA_MASK_SYS_CNFG = 0x00000020"
definition DATA_MASK_AVSBUS_CONFIG :: u32 where "DATA_MASK_AVSBUS_CONFIG = 0x00000040"
definition DATA_MASK_THRM_THRESHOLDS :: u32 where "DATA_MASK_THRM_THRESHOLDS = 0x00000080"
definition DATA_MASK_MEM_CFG :: u32 where "DATA_MASK_MEM_CFG = 0x00000200"

definition SMGR_VALIDATE_DATA_OBSERVATION_MASK_HARDCODES :: u32 where
  "SMGR_VALIDATE_DATA_OBSERVATION_MASK_HARDCODES =
     DATA_MASK_SYS_CNFG OR DATA_MASK_APSS_CONFIG OR DATA_MASK_SET_ROLE OR DATA_MASK_MEM_CFG OR
     DATA_MASK_THRM_THRESHOLDS OR DATA_MASK_AVSBUS_CONFIG"
definition SMGR_VALIDATE_DATA_ACTIVE_MASK_HARDCODES :: u32 where
  "SMGR_VALIDATE_DATA_ACTIVE_MASK_HARDCODES =
     SMGR_VALIDATE_DATA_OBSERVATION_MASK_HARDCODES OR DATA_MASK_FREQ_PRESENT OR DATA_MASK_PCAP_PRESENT"

definition SMGR_MASK_MASTER_OCC :: u8 where "SMGR_MASK_MASTER_OCC = 0x80"
definition SMGR_MASK_OBSERVATION_READY :: u8 where "SMGR_MASK_OBSERVATION_READY = 0x02"
definition SMGR_MASK_ACTIVE_READY :: u8 where "SMGR_MASK_ACTIVE_READY = 0x01"
definition OCC_ROLE_FIR_MASTER_MASK :: u8 where "OCC_ROLE_FIR_MASTER_MASK = 0x40"
definition OCC_SIMICS_ENVIRONMENT :: u8 where "OCC_SIMICS_ENVIRONMENT = 0x08"
definition OCC_PMCR_OWNER_POLL_STATUS_MASK :: u8 where "OCC_PMCR_OWNER_POLL_STATUS_MASK = 0x10"

definition WOF_RC_STATE_CHANGE :: u32 where "WOF_RC_STATE_CHANGE = 0x00000100"
definition ERC_WOF_STATE_CHANGE :: u16 where "ERC_WOF_STATE_CHANGE = 0x0208"
definition MAIN_STATE_TRANSITION_MID :: u16 where "MAIN_STATE_TRANSITION_MID = 0x0105"
definition SSX_GENERIC_FAILURE :: u8 where "SSX_GENERIC_FAILURE = 0x17"
definition ERC_GENERIC_TIMEOUT :: u16 where "ERC_GENERIC_TIMEOUT = 0x0001"
definition ERC_RUNNING_SEM_PENDING_FAILURE :: u16 where "ERC_RUNNING_SEM_PENDING_FAILURE = 0x0007"
definition ERC_PGPE_SET_NOMINAL_FAILURE :: u16 where "ERC_PGPE_SET_NOMINAL_FAILURE = 0x00B6"
definition ERC_PGPE_ACTIVE_TO_OBSERVATION_TIMEOUT :: u16 where "ERC_PGPE_ACTIVE_TO_OBSERVATION_TIMEOUT = 0x00B9"
definition ERC_SMGR_NO_VALID_STATE_TRANSITION_CALL :: u16 where "ERC_SMGR_NO_VALID_STATE_TRANSITION_CALL = 0x00E1"
definition ERC_STATE_FROM_OBS_TO_ACT_FAILURE :: u16 where "ERC_STATE_FROM_OBS_TO_ACT_FAILURE = 0x0123"
definition ERC_STATE_FROM_ACT_TO_CHR_FAILURE :: u16 where "ERC_STATE_FROM_ACT_TO_CHR_FAILURE = 0x0124"
definition ERC_STATE_FROM_CHR_TO_OBS_FAILURE :: u16 where "ERC_STATE_FROM_CHR_TO_OBS_FAILURE = 0x0126"
definition ERC_STATE_FROM_OBS_TO_CHR_FAILURE :: u16 where "ERC_STATE_FROM_OBS_TO_CHR_FAILURE = 0x0127"
definition ERC_STATE_FROM_STB_TO_CHR_FAILURE :: u16 where "ERC_STATE_FROM_STB_TO_CHR_FAILURE = 0x0128"
definition ERC_STATE_FROM_STB_TO_OBS_FAILURE :: u16 where "ERC_STATE_FROM_STB_TO_OBS_FAILURE = 0x0129"

definition MEM_TYPE_CUMULUS :: u8 where "MEM_TYPE_CUMULUS = 0xCC"
definition MEM_TYPE_OCM :: u8 where "MEM_TYPE_OCM = 0xA0"
definition MEM_TYPE_NIMBUS :: u8 where "MEM_TYPE_NIMBUS = 0xFF"

section \<open>What the configuration allows\<close>

definition SMGR_validate_get_valid_states :: "occ \<Rightarrow> u8" where
  "SMGR_validate_get_valid_states s =
     (if cnfgdata s AND observation_mask s = observation_mask s then SMGR_MASK_OBSERVATION_READY else 0)
     OR (if cnfgdata s AND active_mask s = active_mask s then SMGR_MASK_ACTIVE_READY else 0)
     OR (if occ_master (am_glob (am s)) then SMGR_MASK_MASTER_OCC else 0)
     OR (if fir_master s then OCC_ROLE_FIR_MASTER_MASK else 0)
     OR (if simics s then OCC_SIMICS_ENVIRONMENT else 0)
     OR (if pmcr_owner s = PMCR_OWNER_OCC then OCC_PMCR_OWNER_POLL_STATUS_MASK else 0)"

definition obs_ready :: "occ \<Rightarrow> bool" where
  "obs_ready s \<longleftrightarrow> SMGR_MASK_OBSERVATION_READY = SMGR_validate_get_valid_states s AND SMGR_MASK_OBSERVATION_READY"

definition act_ready :: "occ \<Rightarrow> bool" where
  "act_ready s \<longleftrightarrow> SMGR_MASK_ACTIVE_READY = SMGR_validate_get_valid_states s AND SMGR_MASK_ACTIVE_READY"

section \<open>Calls into other components\<close>

text \<open>The initialization of the memory of either type is outside this model; it may request a reset.\<close>

definition memory_init :: "env \<Rightarrow> occ \<Rightarrow> occ option" where
  "memory_init E s = do {
     s1 \<leftarrow>
       (if mem_monitoring_allowed s then
          (let (run, s0) = rtl_task_is_runnable TASK_ID_DIMM_SM s
           in if \<not> run then do {
                let t = mem_type (am_cfg (am s0));
                s2 \<leftarrow>
                  (if t = MEM_TYPE_NIMBUS \<or> t = MEM_TYPE_CUMULUS \<or> t = MEM_TYPE_OCM then
                     (let s1 = add_call (Call_memory_init t) s0
                      in if mem_init_fails E (clock s1) then reset_state_request RESET_REQUESTED_DUE_TO_ERROR s1 else Some s1)
                   else Some s0);
                Some (if isSafeStateRequested s2 then s2
                      else s2\<lparr>task_flags := (task_flags s2)(TASK_ID_DIMM_SM := MEMORY_DATA_RTL_FLAGS,
                                TASK_ID_MEMORY_CONTROL := MEMORY_CONTROL_RTL_FLAGS)\<rparr>)
              }
              else Some s0)
        else Some s);
     Some (if mem_pwr_ctl s1 then add_call Call_mem_power_control s1 else s1)
   }"

definition disable_all_dimms :: "occ \<Rightarrow> occ" where
  "disable_all_dimms s =
     (let s1 = s\<lparr>mem_monitoring_allowed := False\<rparr>
      in if mem_type (am_cfg (am s1)) = MEM_TYPE_NIMBUS then add_call Call_dimm_lock_release s1 else s1)"

definition disable_all_gpus :: "occ \<Rightarrow> occ" where
  "disable_all_gpus s = add_call Call_gpus_disable s\<lparr>gpu_monitoring_allowed := False\<rparr>"

section \<open>Waiting for the Pstate engine\<close>

definition WAIT_PGPE_TASK_TIMEOUT :: "occ \<Rightarrow> u32" where
  "WAIT_PGPE_TASK_TIMEOUT s = mics_per_tick s * 4"

text \<open>Both loops count the microseconds they asked to sleep; the result is the count.\<close>

partial_function (option) wait_settled :: "env \<Rightarrow> u32 \<Rightarrow> occ \<Rightarrow> (u32 \<times> occ) option" where
  "wait_settled E w s =
     (if pstate_status s = PSTATES_IN_TRANSITION \<and> w < WAIT_PGPE_TASK_TIMEOUT s
      then wait_settled E (w + 10) (sleep_us E 10 s) else Some (w, s))"

partial_function (option) wait_disabled :: "env \<Rightarrow> u32 \<Rightarrow> occ \<Rightarrow> (u32 \<times> occ) option" where
  "wait_disabled E w s =
     (if pstate_status s \<noteq> PSTATES_DISABLED \<and> w < WAIT_PGPE_TASK_TIMEOUT s
      then wait_disabled E (w + 10) (sleep_us E 10 s) else Some (w, s))"

definition FIVE_SECONDS :: nat where "FIVE_SECONDS = 5000000"

text \<open>Starting Pstates for an owner and waiting until they are enabled; 1 on a timeout. The three
  transitions into characterization do this alike.\<close>

definition start_and_wait :: "env \<Rightarrow> pmcr_owner \<Rightarrow> occ \<Rightarrow> (int \<times> occ) option" where
  "start_and_wait E owner s = do {
     (rc, s1) \<leftarrow> pgpe_start_suspend E PGPE_ACTION_PSTATE_START owner s;
     if rc \<noteq> 0 then Some (rc, s1)
     else let (ok, s2) = wait_enabled E (clock s1) FIVE_SECONDS s1 in Some (if ok then 0 else 1, s2)
   }"

definition turbo_pstate :: "occ \<Rightarrow> u8" where
  "turbo_pstate s = proc_freq2pstate (ucast (mode_freq (am_cfg (am s)) OCC_MODE_TURBO)) (am s)"

section \<open>The transitions\<close>

text \<open>
  What the last steps of a transition have in common: the run mask of the next tick, then the state.
  Each of them is a critical section of its own, between two of which a tick may begin.
\<close>

definition enter_sections :: "occ_state \<Rightarrow> u32 \<Rightarrow> u32 \<Rightarrow> (occ \<Rightarrow> occ) list" where
  "enter_sections st clr set_flags =
     [rtl_clr_run_mask_deferred clr, rtl_set_run_mask_deferred set_flags, \<lambda>s. s\<lparr>internal_state := st\<rparr>]"

definition enter_state :: "occ_state \<Rightarrow> u32 \<Rightarrow> u32 \<Rightarrow> occ \<Rightarrow> occ" where
  "enter_state st clr set_flags = fold (\<lambda>f. f) (enter_sections st clr set_flags)"

definition SMGR_standby_to_observation :: "env \<Rightarrow> occ \<Rightarrow> (elog option \<times> occ) option" where
  "SMGR_standby_to_observation E s =
     (if obs_ready s then do {
        s1 \<leftarrow> memory_init E (s\<lparr>logged_stb_obs := False\<rparr>);
        Some (None, enter_state OCC_STATE_OBSERVATION RTL_FLAG_STANDBY RTL_FLAG_OBS s1)
      }
      else if \<not> logged_stb_obs s then
        Some (Some (mk_log MAIN_STATE_TRANSITION_MID INTERNAL_FAILURE ERC_STATE_FROM_STB_TO_OBS_FAILURE SEV_UNRECOVERABLE 0 0 True),
          s\<lparr>logged_stb_obs := True\<rparr>)
      else Some (None, s))"

definition SMGR_standby_to_characterization :: "env \<Rightarrow> occ \<Rightarrow> (elog option \<times> occ) option" where
  "SMGR_standby_to_characterization E s = do {
     (rc, s1) \<leftarrow>
       (if \<not> act_ready s then Some (uint INTERNAL_FAILURE, s)
        else do {
          let s0 = s\<lparr>logged_stb_chr := False\<rparr>;
          if \<not> present_cores s0 then Some (0, s0)
          else do {
            (rc, s1) \<leftarrow> pgpe_set_clip_blocking E 0 s0;
            if rc \<noteq> 0 then Some (rc, s1) else start_and_wait E PMCR_OWNER_CHAR s1
          }
        });
     if rc = 0 then do {
       s2 \<leftarrow> memory_init E s1;
       Some (None, enter_state OCC_STATE_CHARACTERIZATION RTL_FLAG_STANDBY RTL_FLAG_OBS s2)
     }
     else if \<not> logged_stb_chr s1 then
       Some (Some (mk_log MAIN_STATE_TRANSITION_MID INTERNAL_FAILURE ERC_STATE_FROM_STB_TO_CHR_FAILURE SEV_UNRECOVERABLE (store32 rc) 0 True),
         s1\<lparr>logged_stb_chr := True\<rparr>)
     else Some (None, s1)
   }"

definition SMGR_all_to_standby :: "env \<Rightarrow> occ \<Rightarrow> (elog option \<times> occ) option" where
  "SMGR_all_to_standby E s = do {
     let s1 = add_call (Call_wof_set WOF_RC_STATE_CHANGE ERC_WOF_STATE_CHANGE) s;
     (w, s2) \<leftarrow> wait_settled E 0 s1;
     let s3 = rtl_set_run_mask_deferred RTL_FLAG_STANDBY (rtl_clr_run_mask_deferred (RTL_FLAG_ACTIVE OR RTL_FLAG_OBS) s2);
     let s4 = disable_all_gpus (disable_all_dimms s3);
     Some (None, s4\<lparr>internal_state := OCC_STATE_STANDBY\<rparr>)
   }"

definition SMGR_characterization_to_observation :: "env \<Rightarrow> occ \<Rightarrow> (elog option \<times> occ) option" where
  "SMGR_characterization_to_observation E s = do {
     (rc, s1) \<leftarrow>
       (if \<not> present_cores s then Some (0, s)
        else do {
          (rc, s1) \<leftarrow> pgpe_set_clip_blocking E (turbo_pstate s) s;
          if rc \<noteq> 0 then Some (rc, s1) else pgpe_start_suspend E PGPE_ACTION_PSTATE_STOP (pmcr_owner s1) s1
        });
     Some (if rc \<noteq> 0 then
             (Some (mk_log MAIN_STATE_TRANSITION_MID INTERNAL_FAILURE ERC_STATE_FROM_CHR_TO_OBS_FAILURE SEV_UNRECOVERABLE (store32 rc) 0 True), s1)
           else (None, s1\<lparr>internal_state := OCC_STATE_OBSERVATION\<rparr>))
   }"

definition SMGR_observation_to_characterization :: "env \<Rightarrow> occ \<Rightarrow> (elog option \<times> occ) option" where
  "SMGR_observation_to_characterization E s = do {
     (rc, s1) \<leftarrow>
       (if \<not> act_ready s then Some (uint INTERNAL_FAILURE, s)
        else if \<not> present_cores s then Some (0, s)
        else do {
          (rc, s1) \<leftarrow> pgpe_set_clip_blocking E 0 s;
          if rc \<noteq> 0 then Some (rc, s1) else start_and_wait E PMCR_OWNER_CHAR s1
        });
     Some (if rc = 0 then (None, s1\<lparr>internal_state := OCC_STATE_CHARACTERIZATION\<rparr>)
           else if \<not> logged_obs_chr s1 then
             (Some (mk_log MAIN_STATE_TRANSITION_MID INTERNAL_FAILURE ERC_STATE_FROM_OBS_TO_CHR_FAILURE SEV_UNRECOVERABLE (store32 rc) 0 True),
              s1\<lparr>logged_obs_chr := True\<rparr>)
           else (None, s1))
   }"

text \<open>The clip for the active state, and what follows it: with OPAL the nominal Pstate first, whose
  failure is only logged, then the owner. The result is the return code and the extended one.\<close>

definition active_clip :: "occ \<Rightarrow> u8" where
  "active_clip s =
     (let tbl = mode_freq (am_cfg (am s))
      in if kvm (am_cfg (am s)) then
           proc_freq2pstate (ucast (if tbl OCC_MODE_TURBO > tbl OCC_MODE_NOMINAL then tbl OCC_MODE_TURBO else tbl OCC_MODE_NOMINAL)) (am s)
         else proc_freq2pstate (ucast (G_proc_fmax_mhz (am_glob (am s)))) (am s))"

definition take_pstates :: "env \<Rightarrow> occ \<Rightarrow> ((int \<times> u16 \<times> u32) \<times> occ) option" where
  "take_pstates E s = do {
     (rc, s1) \<leftarrow> pgpe_set_clip_blocking E (active_clip s) s;
     if rc \<noteq> 0 then Some ((rc, ERC_PGPE_CLIP_FAILURE, occflg E (clock s1)), s1)
     else do {
       (rc, s3) \<leftarrow>
         (if kvm (am_cfg (am s1)) then do {
            (rc, s2) \<leftarrow> set_nominal_pstate E s1;
            let s2 = (if rc \<noteq> 0
                      then add_log (mk_log MAIN_STATE_TRANSITION_MID INTERNAL_FW_FAILURE ERC_PGPE_SET_NOMINAL_FAILURE
                             SEV_INFORMATIONAL (store32 rc) 0 False) s2
                      else s2);
            pgpe_start_suspend E PGPE_ACTION_PSTATE_START PMCR_OWNER_HOST s2
          }
          else pgpe_start_suspend E PGPE_ACTION_PSTATE_START PMCR_OWNER_OCC s1);
       if rc \<noteq> 0 then Some ((rc, ERC_PGPE_START_SUSPEND_FAILURE, occflg E (clock s3)), s3)
       else let (ok, s4) = wait_enabled E (clock s3) FIVE_SECONDS s3
            in Some (if ok then (0, OCC_NO_EXTENDED_RC, 0) else (1, ERC_GENERIC_TIMEOUT, occflg E (clock s4)), s4)
     }
   }"

text \<open>With the Pstates enabled the OCC goes active.\<close>

definition go_active :: "occ \<Rightarrow> occ" where
  "go_active s =
     (let s1 = add_call Call_kvm_setup s\<lparr>logged_obs_act := False, set_pStates := True\<rparr>;
          s2 = (if \<not> kvm (am_cfg (am s1)) then upd_am (upd_glob (\<lambda>g. g\<lparr>G_allowPstates := False\<rparr>)) s1 else s1)
      in enter_state OCC_STATE_ACTIVE RTL_FLAG_OBS RTL_FLAG_ACTIVE s2)"

text \<open>Clearing the Pstates that manufacturing requested for the quads comes first.\<close>

definition clear_quad_requests :: "amec \<Rightarrow> amec" where
  "clear_quad_requests a = a\<lparr>am_freqs := (am_freqs a)\<lparr>mnfg_parms := (mnfg_parms (am_freqs a))
     \<lparr>quad_pstate := (\<lambda>q. if q < MAXIMUM_QUADS then 0xFF else quad_pstate (mnfg_parms (am_freqs a)) q)\<rparr>\<rparr>\<rparr>"

definition SMGR_observation_to_active :: "env \<Rightarrow> occ \<Rightarrow> (elog option \<times> occ) option" where
  "SMGR_observation_to_active E s = do {
     let s0 = upd_am clear_quad_requests s;
     ((rc, ext, ud), s1) \<leftarrow>
       (if \<not> act_ready s0 then Some ((2, ERC_STATE_FROM_OBS_TO_ACT_FAILURE, ucast SMGR_MASK_ACTIVE_READY), s0)
        else do {
          let s1 = add_call (Call_wof_clear WOF_RC_STATE_CHANGE ERC_WOF_STATE_CHANGE) s0;
          if \<not> present_cores s1 then
            Some ((0, OCC_NO_EXTENDED_RC, 0), enter_state OCC_STATE_ACTIVE RTL_FLAG_OBS RTL_FLAG_ACTIVE s1)
          else do {
            ((rc, ext, ud), s2) \<leftarrow> take_pstates E s1;
            Some ((rc, ext, ud), if (rc = 0 \<or> ext = ERC_GENERIC_TIMEOUT) \<and> pstate_status s2 = PSTATES_ENABLED then go_active s2 else s2)
          }
        });
     Some (if rc \<noteq> 0 \<and> \<not> logged_obs_act s1 then
             (Some (mk_log MAIN_STATE_TRANSITION_MID INTERNAL_FAILURE ext SEV_UNRECOVERABLE ud (store32 rc) True),
              s1\<lparr>logged_obs_act := True\<rparr>)
           else (None, s1))
   }"

definition SMGR_characterization_to_active :: "env \<Rightarrow> occ \<Rightarrow> (elog option \<times> occ) option" where
  "SMGR_characterization_to_active E s = SMGR_observation_to_active E s"

definition SMGR_active_to_observation :: "env \<Rightarrow> occ \<Rightarrow> (elog option \<times> occ) option" where
  "SMGR_active_to_observation E s = do {
     let s0 = add_call (Call_wof_set WOF_RC_STATE_CHANGE ERC_WOF_STATE_CHANGE) s;
     ((rc, ext, w), s1) \<leftarrow>
       (if \<not> present_cores s0 then Some ((0, OCC_NO_EXTENDED_RC, 0), s0)
        else do {
          (rc, s1) \<leftarrow> pgpe_set_clip_blocking E (turbo_pstate s0) s0;
          if rc \<noteq> 0 then Some ((rc, OCC_NO_EXTENDED_RC, 0), s1)
          else do {
            (w, s2) \<leftarrow> wait_settled E 0 s1;
            if w > WAIT_PGPE_TASK_TIMEOUT s2 then Some ((uint PGPE_FAILURE, ERC_PGPE_TASK_TIMEOUT, w), s2)
            else do {
              (rc, s3) \<leftarrow> pgpe_start_suspend E PGPE_ACTION_PSTATE_STOP (pmcr_owner s2) s2;
              if rc \<noteq> 0 then Some ((uint PGPE_FAILURE, ERC_PGPE_START_SUSPEND_FAILURE, w), s3)
              else do {
                (w, s4) \<leftarrow> wait_disabled E 0 s3;
                Some (if w \<ge> WAIT_PGPE_TASK_TIMEOUT s4
                      then (uint PGPE_FAILURE, ERC_PGPE_ACTIVE_TO_OBSERVATION_TIMEOUT, w) else (0, OCC_NO_EXTENDED_RC, w), s4)
              }
            }
          }
        });
     Some (if rc \<noteq> 0 then
             (Some (mk_log MAIN_STATE_TRANSITION_MID (store8 rc) ext SEV_UNRECOVERABLE w 0 True), s1)
           else (None, enter_state OCC_STATE_OBSERVATION RTL_FLAG_ACTIVE RTL_FLAG_OBS s1))
   }"

definition SMGR_active_to_characterization :: "env \<Rightarrow> occ \<Rightarrow> (elog option \<times> occ) option" where
  "SMGR_active_to_characterization E s = do {
     let s0 = add_call (Call_wof_set WOF_RC_STATE_CHANGE ERC_WOF_STATE_CHANGE) s;
     (rc, s1) \<leftarrow>
       (if \<not> present_cores s0 then Some (0, s0)
        else do {
          (rc, s1) \<leftarrow> pgpe_set_clip_blocking E 0 s0;
          if rc \<noteq> 0 then Some (rc, s1)
          else do {
            (w, s2) \<leftarrow> wait_settled E 0 s1;
            if w \<ge> WAIT_PGPE_TASK_TIMEOUT s2 then Some (uint PGPE_FAILURE, s2)
            else start_and_wait E PMCR_OWNER_CHAR s2
          }
        });
     Some (if rc \<noteq> 0 then
             (Some (mk_log MAIN_STATE_TRANSITION_MID INTERNAL_FAILURE ERC_STATE_FROM_ACT_TO_CHR_FAILURE SEV_UNRECOVERABLE (store32 rc) 0 True), s1)
           else (None, enter_state OCC_STATE_CHARACTERIZATION RTL_FLAG_ACTIVE RTL_FLAG_OBS s1))
   }"

definition SMGR_standby_to_active :: "env \<Rightarrow> occ \<Rightarrow> (elog option \<times> occ) option" where
  "SMGR_standby_to_active E s = do {
     (l, s1) \<leftarrow> SMGR_standby_to_observation E s;
     if l = None then SMGR_observation_to_active E s1 else Some (l, s1)
   }"

definition SMGR_all_to_safe :: "env \<Rightarrow> occ \<Rightarrow> (elog option \<times> occ) option" where
  "SMGR_all_to_safe E s =
     (let s1 = (if occ_master (am_glob (am s)) then s\<lparr>ext_req_state := OCC_STATE_SAFE\<rparr> else s);
          s2 = add_call (Call_wof_set WOF_RC_STATE_CHANGE ERC_WOF_STATE_CHANGE) s1;
          s3 = sleep_us E 15000 s2;
          s4 = rtl_clr_run_mask_deferred (RTL_FLAG_ACTIVE OR RTL_FLAG_OBS OR RTL_FLAG_STANDBY) s3;
          s5 = rtl_set_run_mask_deferred RTL_FLAG_RST_REQ s4;
          s6 = disable_all_gpus (disable_all_dimms s5)
      in Some (None, s6\<lparr>internal_state := OCC_STATE_SAFE\<rparr>))"

section \<open>The table\<close>

definition G_smgr_state_trans :: "(occ_state \<times> occ_state \<times> (env \<Rightarrow> occ \<Rightarrow> (elog option \<times> occ) option)) list" where
  "G_smgr_state_trans =
    [(OCC_STATE_STANDBY, OCC_STATE_OBSERVATION, SMGR_standby_to_observation),
     (OCC_STATE_STANDBY, OCC_STATE_CHARACTERIZATION, SMGR_standby_to_characterization),
     (OCC_STATE_STANDBY, OCC_STATE_ACTIVE, SMGR_standby_to_active),
     (OCC_STATE_OBSERVATION, OCC_STATE_CHARACTERIZATION, SMGR_observation_to_characterization),
     (OCC_STATE_OBSERVATION, OCC_STATE_ACTIVE, SMGR_observation_to_active),
     (OCC_STATE_CHARACTERIZATION, OCC_STATE_OBSERVATION, SMGR_characterization_to_observation),
     (OCC_STATE_CHARACTERIZATION, OCC_STATE_ACTIVE, SMGR_characterization_to_active),
     (OCC_STATE_ACTIVE, OCC_STATE_OBSERVATION, SMGR_active_to_observation),
     (OCC_STATE_ACTIVE, OCC_STATE_CHARACTERIZATION, SMGR_active_to_characterization),
     (OCC_STATE_ALL, OCC_STATE_STANDBY, SMGR_all_to_standby),
     (OCC_STATE_ALL, OCC_STATE_SAFE, SMGR_all_to_safe)]"

definition find_trans :: "occ_state \<Rightarrow> occ_state \<Rightarrow> (env \<Rightarrow> occ \<Rightarrow> (elog option \<times> occ) option) option" where
  "find_trans cur new =
     map_option (snd o snd) (find (\<lambda>(old, n, f). (old = cur \<or> old = OCC_STATE_ALL) \<and> n = new) G_smgr_state_trans)"

text \<open>The position in the occ_state enumeration, as it goes into an error log.\<close>

definition state_code :: "occ_state \<Rightarrow> u32" where
  "state_code st =
     (case st of OCC_STATE_NOCHANGE \<Rightarrow> 0 | OCC_STATE_STANDBY \<Rightarrow> 1 | OCC_STATE_OBSERVATION \<Rightarrow> 2 | OCC_STATE_ACTIVE \<Rightarrow> 3
      | OCC_STATE_SAFE \<Rightarrow> 4 | OCC_STATE_CHARACTERIZATION \<Rightarrow> 5 | OCC_STATE_COUNT \<Rightarrow> 6 | OCC_STATE_ALL \<Rightarrow> 0xFE
      | OCC_STATE_INVALID \<Rightarrow> 0xFF)"

text \<open>
  The semaphore of the changes of state is created with a count of one. A pend on it waits for ever:
  while the count is zero the call does not return. Only SMGR_set_state pends on it and posts it, so
  a change that hangs keeps it. The post comes at the end of every path, that of an error of the pend
  included; \<open>sem_posts\<close> counts the posts.
\<close>

definition smgr_pend :: "env \<Rightarrow> occ \<Rightarrow> (int \<times> occ) option" where
  "smgr_pend E s =
     (if sem_pend_rc E (clock s) \<noteq> 0 then Some (sem_pend_rc E (clock s), s)
      else if trans_sem s = 0 then None else Some (0, s\<lparr>trans_sem := trans_sem s - 1\<rparr>))"

definition smgr_post :: "occ \<Rightarrow> occ" where
  "smgr_post s = s\<lparr>trans_sem := trans_sem s + 1, sem_posts := sem_posts s + 1\<rparr>"

definition SMGR_set_state :: "env \<Rightarrow> occ_state \<Rightarrow> occ \<Rightarrow> (elog option \<times> occ) option" where
  "SMGR_set_state E new s = do {
     (rc, s0) \<leftarrow> smgr_pend E s;
     (l, s1) \<leftarrow>
       (if rc \<noteq> 0 then
          Some (Some (mk_log MAIN_STATE_TRANSITION_MID SSX_GENERIC_FAILURE ERC_RUNNING_SEM_PENDING_FAILURE SEV_UNRECOVERABLE 0 0 True), s0)
        else if new = OCC_STATE_NOCHANGE then Some (None, s0)
        else case find_trans (internal_state s0) new of
          None \<Rightarrow> Some (Some (mk_log MAIN_STATE_TRANSITION_MID INTERNAL_FAILURE ERC_SMGR_NO_VALID_STATE_TRANSITION_CALL SEV_UNRECOVERABLE
                    (state_code (internal_state s0)) (state_code new) True), s0)
        | Some f \<Rightarrow> do {
            (l, s1) \<leftarrow> f E (s0\<lparr>transition_occuring := True\<rparr>);
            let s2 = s1\<lparr>transition_occuring := False\<rparr>;
            let s3 = (if kvm (am_cfg (am s2)) then s2\<lparr>wakeups := wakeups s2 + 1\<rparr> else s2);
            Some (l, if internal_state s3 = req_state s3 then s3\<lparr>req_state := OCC_STATE_NOCHANGE\<rparr> else s3)
          });
     Some (l, smgr_post s1)
   }"

section \<open>Configuration that a change of state waits for\<close>

definition DATA_MASK_MEM_THROT :: u32 where "DATA_MASK_MEM_THROT = 0x00000400"

text \<open>What data_store_mem_cfg does at its end with a valid packet of n data sets: from then on the
  active state also waits for the packet with the memory throttle limits.\<close>

definition mem_cfg_stored :: "nat \<Rightarrow> occ \<Rightarrow> occ" where
  "mem_cfg_stored n s =
     (let s1 = s\<lparr>cnfgdata := cnfgdata s OR DATA_MASK_MEM_CFG\<rparr>
      in if n = 0 then s1 else s1\<lparr>mem_monitoring_allowed := True, active_mask := active_mask s1 OR DATA_MASK_MEM_THROT\<rparr>)"

end
