(* ===== verification/Occ_State_Inv.thy ===== *)
theory Occ_State_Inv
  imports Occ_State
begin

text \<open>What the calls of a transition leave alone, and the invariant that ties the run mask to the state.\<close>

unbundle bit_operations_syntax

section \<open>Quiet steps\<close>

lemma enter_state_eq:
  "enter_state st clr f s = rtl_set_run_mask_deferred f (rtl_clr_run_mask_deferred clr s)\<lparr>internal_state := st\<rparr>"
  by (simp add: enter_state_def enter_sections_def)

text \<open>The tasks that actuate the processor and the memory lack the flags of the states that only observe.\<close>

definition PASSIVE :: u32 where "PASSIVE = RTL_FLAG_OBS OR RTL_FLAG_STANDBY OR RTL_FLAG_RST_REQ"

definition actuators_ok :: "'a rtl_scheme \<Rightarrow> bool" where
  "actuators_ok s \<longleftrightarrow> (\<forall>t \<in> {TASK_ID_CORE_DATA_CONTROL, TASK_ID_MEMORY_CONTROL}. task_flags s t AND PASSIVE = 0)"

definition kept :: "occ \<Rightarrow> occ \<Rightarrow> bool" where
  "kept s' s \<longleftrightarrow> (actuators_ok s \<longrightarrow> actuators_ok s') \<and> cnfgdata s' = cnfgdata s \<and> active_mask s' = active_mask s \<and>
     observation_mask s' = observation_mask s \<and> mics_per_tick s' = mics_per_tick s \<and> halt_on_reset s' = halt_on_reset s \<and>
     clock s \<le> clock s' \<and> req_state s' = req_state s \<and> transition_occuring s' = transition_occuring s \<and>
     trans_sem s' = trans_sem s \<and> sem_posts s' = sem_posts s"

definition quiet :: "occ \<Rightarrow> occ \<Rightarrow> bool" where
  "quiet s' s \<longleftrightarrow> kept s' s \<and> internal_state s' = internal_state s \<and>
     (run_mask_deferred s' = run_mask_deferred s \<or> run_mask_deferred s' = run_mask_deferred s OR RTL_FLAG_RST_REQ)"

lemma kept_trans: "kept s2 s1 \<Longrightarrow> kept s1 s \<Longrightarrow> kept s2 s" by (auto simp: kept_def)

lemmas quiet_defs = quiet_def kept_def actuators_ok_def

lemma quiet_refl [simp]: "quiet s s" by (simp add: quiet_defs)

lemma quiet_trans: "quiet s2 s1 \<Longrightarrow> quiet s1 s \<Longrightarrow> quiet s2 s"
  unfolding quiet_def by (elim conjE disjE) (simp_all add: or.assoc, (erule (1) kept_trans)+)

lemma quiet_answer [simp]: "quiet (pgpe_start_suspend_callback s) s" "quiet (deliver E r s) s" "quiet (sleep_us E us s) s"
proof -
  show 1: "quiet (pgpe_start_suspend_callback s) s" for s by (simp add: pgpe_start_suspend_callback_def quiet_defs Let_def)
  show 2: "quiet (deliver E r s) s" for r s
    using 1 [of "s\<lparr>busy := (busy s)(r := False), start_rc := x\<rparr>" for x]
    by (auto simp: deliver_def quiet_defs Let_def split: option.split gpe_req.split)
  have "quiet (s\<lparr>clock := clock s + us + lag E (clock s)\<rparr>) s" by (simp add: quiet_defs)
  then show "quiet (sleep_us E us s) s" unfolding sleep_us_def by (blast intro: quiet_trans 2)
qed

lemma quiet_log [simp]: "quiet (add_log l s) s" "quiet (add_call c s) s"
  by (simp_all add: quiet_defs add_log_def add_call_def)

lemma quiet_reset: "reset_state_request r s = Some s' \<Longrightarrow> quiet s' s"
  by (auto simp: reset_state_request_def quiet_defs rtl_set_run_mask_def split: reset_state.splits if_splits)

lemma quiet_request: "REQUEST_RESET l s = Some s' \<Longrightarrow> quiet s' s"
  by (auto simp: REQUEST_RESET_def dest: quiet_reset intro: quiet_trans quiet_log)

lemma quiet_request_pair: "map_option (Pair x) (REQUEST_RESET l s) = Some (y, s') \<Longrightarrow> quiet s' s"
  by (auto dest: quiet_request)

lemma quiet_schedule: "pgpe_request_schedule E r s = (rc, s') \<Longrightarrow> quiet s' s"
  by (auto simp: pgpe_request_schedule_def Let_def quiet_defs add_call_def split: if_splits)

lemma quiet_wait_u8: assumes "wait_clip_u8 E w s = Some y" shows "quiet (snd y) s"
  using assms
proof (induction rule: wait_clip_u8.raw_induct [rotated, consumes 1, case_names 1])
  case (1 f E w s y)
  show ?case
  proof (cases "busy s Clip_Update \<and> \<not> unat w > CLIP_UPDATE_TIMEOUT")
    case True
    then have "f E (w + 1) (sleep_us E 1 s) = Some y" using 1(2) by simp
    then have "quiet (snd y) (sleep_us E 1 s)" by (rule 1(1))
    then show ?thesis by (rule quiet_trans) (rule quiet_answer(3))
  next
    case False
    then show ?thesis using 1(2) by (auto split: if_splits)
  qed
qed

lemma quiet_wait_u32: assumes "wait_clip_u32 E w s = Some y" shows "quiet (snd y) s"
  using assms
proof (induction rule: wait_clip_u32.raw_induct [rotated, consumes 1, case_names 1])
  case (1 f E w s y)
  show ?case
  proof (cases "busy s Clip_Update \<and> \<not> unat w > CLIP_UPDATE_TIMEOUT")
    case True
    then have "f E (w + 1) (sleep_us E 1 s) = Some y" using 1(2) by simp
    then have "quiet (snd y) (sleep_us E 1 s)" by (rule 1(1))
    then show ?thesis by (rule quiet_trans) (rule quiet_answer(3))
  next
    case False
    then show ?thesis using 1(2) by (auto split: if_splits)
  qed
qed

lemma quiet_settled: assumes "wait_settled E w s = Some y" shows "quiet (snd y) s"
  using assms
proof (induction rule: wait_settled.raw_induct [rotated, consumes 1, case_names 1])
  case (1 f E w s y)
  show ?case
  proof (cases "pstate_status s = PSTATES_IN_TRANSITION \<and> w < WAIT_PGPE_TASK_TIMEOUT s")
    case True
    then have "f E (w + 10) (sleep_us E 10 s) = Some y" using 1(2) by simp
    then have "quiet (snd y) (sleep_us E 10 s)" by (rule 1(1))
    then show ?thesis by (rule quiet_trans) (rule quiet_answer(3))
  next
    case False
    then show ?thesis using 1(2) by (auto split: if_splits)
  qed
qed

lemma quiet_disabled: assumes "wait_disabled E w s = Some y" shows "quiet (snd y) s"
  using assms
proof (induction rule: wait_disabled.raw_induct [rotated, consumes 1, case_names 1])
  case (1 f E w s y)
  show ?case
  proof (cases "pstate_status s \<noteq> PSTATES_DISABLED \<and> w < WAIT_PGPE_TASK_TIMEOUT s")
    case True
    then have "f E (w + 10) (sleep_us E 10 s) = Some y" using 1(2) by simp
    then have "quiet (snd y) (sleep_us E 10 s)" by (rule 1(1))
    then show ?thesis by (rule quiet_trans) (rule quiet_answer(3))
  next
    case False
    then show ?thesis using 1(2) by (auto split: if_splits)
  qed
qed

lemma quiet_enabled: "quiet (snd (wait_enabled E start limit s)) s"
proof (induction E start limit s rule: wait_enabled.induct)
  case (1 E start limit s)
  then show ?case
    by (subst wait_enabled.simps) (auto intro: quiet_trans quiet_answer(3))
qed

lemma quiet_clip_send: "clip_send E s = (rc, s') \<Longrightarrow> quiet s' s"
proof -
  assume a: "clip_send E s = (rc, s')"
  let ?s1 = "s\<lparr>clip_min := cm, clip_max := cx\<rparr>" and ?s2 = "s\<lparr>clip_min := cm, clip_max := cx, set_pStates := False, last_list := l\<rparr>"
  have "quiet (s\<lparr>clip_min := cm, clip_max := cx\<rparr>) s" "quiet (s\<lparr>clip_min := cm, clip_max := cx, set_pStates := False, last_list := l\<rparr>) s"
    for cm cx l by (simp_all add: quiet_defs)
  then show ?thesis using a by (auto simp: clip_send_def Let_def split: if_splits dest!: quiet_schedule intro: quiet_trans)
qed

lemma quiet_clip_update: "pgpe_clip_update E s = Some (rc, s') \<Longrightarrow> quiet s' s"
proof -
  assume a: "pgpe_clip_update E s = Some (rc, s')"
  obtain i s1 where w: "wait_clip_u32 E 0 s = Some (i, s1)" using a by (auto simp: pgpe_clip_update_def bind_eq_Some_conv)
  have 1: "quiet s1 s" using quiet_wait_u32 [OF w] by simp
  define s2 where "s2 = (if i \<or> ignore_pgpe_error E s1 then s1
               else add_log (mk_log PGPE_CLIP_UPDATE_MOD PGPE_FAILURE ERC_PGPE_CLIP_NOT_IDLE SEV_PREDICTIVE 0 0 True) s1)"
  have 2: "quiet s2 s" by (simp add: s2_def quiet_trans [OF _ 1] 1)
  show ?thesis
  proof (cases "simics s2")
    case True
    moreover have "quiet (s2\<lparr>start_rc := PGPE_RC_SUCCESS\<rparr>) s2" by (simp add: quiet_defs)
    ultimately show ?thesis using a w 2 unfolding pgpe_clip_update_def
      by (simp add: Let_def s2_def [symmetric]) (blast intro: quiet_trans)
  next
    case False
    obtain sc s3 where 3: "clip_send E s2 = (sc, s3)" by (cases "clip_send E s2")
    have q: "quiet s3 s" using quiet_clip_send [OF 3] 2 by (rule quiet_trans)
    then show ?thesis using a w False 3 unfolding pgpe_clip_update_def
      by (auto simp: Let_def s2_def [symmetric] split: if_splits dest!: quiet_request intro: quiet_trans)
  qed
qed


lemma quiet_clip_blocking: "pgpe_set_clip_blocking E p s = Some (rc, s') \<Longrightarrow> quiet s' s"
proof -
  assume a: "pgpe_set_clip_blocking E p s = Some (rc, s')"
  obtain i s1 where w: "wait_clip_u8 E 0 s = Some (i, s1)" using a by (auto simp: pgpe_set_clip_blocking_def bind_eq_Some_conv)
  have q1: "quiet s1 s" using quiet_wait_u8 [OF w] by simp
  define s2 where "s2 = upd_am (upd_glob (\<lambda>g. g\<lparr>G_desired_pstate := (\<lambda>q. if q < MAXIMUM_QUADS then p else G_desired_pstate g q)\<rparr>)) s1"
  have q2: "quiet s2 s" using q1 by (simp add: s2_def quiet_defs)
  show ?thesis
  proof (cases "\<not> i \<and> \<not> ignore_pgpe_error E s1")
    case True
    then show ?thesis using a w q1 unfolding pgpe_set_clip_blocking_def
      by (auto dest!: quiet_request intro: quiet_trans)
  next
    case False
    note a = a [unfolded pgpe_set_clip_blocking_def w Option.bind.simps prod.case if_not_P [OF False] Let_def s2_def [symmetric]]
    obtain c s3 where u: "pgpe_clip_update E s2 = Some (c, s3)" using a by (cases "pgpe_clip_update E s2") auto
    have q3: "quiet s3 s" using quiet_clip_update [OF u] q2 by (rule quiet_trans)
    note a = a [unfolded u Option.bind.simps prod.case]
    show ?thesis
    proof (cases "c = 0")
      case True
      obtain j s4 where v: "wait_clip_u8 E 0 s3 = Some (j, s4)" using a True by (cases "wait_clip_u8 E 0 s3") auto
      have q4: "quiet s4 s" using quiet_wait_u8 [OF v] q3 by (auto intro: quiet_trans)
      have "quiet s' s4" using a True v by (auto split: if_splits dest!: quiet_request)
      then show ?thesis using q4 by (rule quiet_trans)
    qed (use a q3 in auto)
  qed
qed

lemma quiet_callback_eq: "quiet (pgpe_start_suspend_callback s') s \<longleftrightarrow> quiet s' s"
  by (simp add: pgpe_start_suspend_callback_def quiet_defs Let_def)

lemma quiet_start_suspend: "pgpe_start_suspend E a w s = Some (rc, s') \<Longrightarrow> quiet s' s"
proof -
  assume a: "pgpe_start_suspend E a w s = Some (rc, s')"
  define s1 where "s1 = s\<lparr>start_action := a, start_owner := w\<rparr>"
  define p where "p = (if \<not> simics s1 then pgpe_request_schedule E Start_Suspend (s1\<lparr>pstate_status := PSTATES_IN_TRANSITION\<rparr>) else (0, s1))"
  obtain sr s2 where p: "p = (sr, s2)" by (cases p)
  have "quiet s1 s" "quiet (s1\<lparr>pstate_status := PSTATES_IN_TRANSITION\<rparr>) s" by (simp_all add: s1_def quiet_defs)
  then have q2: "quiet s2 s" using p unfolding p_def by (auto split: if_splits dest!: quiet_schedule intro: quiet_trans)
  then have q3: "quiet (s2\<lparr>pstate_status := pstate_status s\<rparr>) s" by (simp add: quiet_defs)
  show ?thesis
  proof (cases "busy s Start_Suspend")
    case False
    then show ?thesis using a q2 q3 unfolding pgpe_start_suspend_def
      by (auto simp: Let_def s1_def [symmetric] p_def [symmetric] p bind_eq_Some_conv quiet_callback_eq split: if_splits
          dest!: quiet_request intro: quiet_trans)
  qed (use a in \<open>auto simp: pgpe_start_suspend_def\<close>)
qed

lemma quiet_pmcr_set: "pgpe_pmcr_set E s = Some (rc, s') \<Longrightarrow> quiet s' s"
proof -
  assume a: "pgpe_pmcr_set E s = Some (rc, s')"
  define p where "p = (if \<not> simics s then pgpe_request_schedule E Pmcr_Set s else (0, s))"
  obtain sr s1 where p: "p = (sr, s1)" by (cases p)
  have q: "quiet s1 s" using p unfolding p_def by (auto split: if_splits dest!: quiet_schedule)
  then show ?thesis using a unfolding pgpe_pmcr_set_def
    by (auto simp: Let_def p_def [symmetric] p split: if_splits dest!: quiet_request intro: quiet_trans)
qed

section \<open>Rules for the rest\<close>

definition keeps :: "occ \<Rightarrow> ('a \<times> occ) option \<Rightarrow> bool" where
  "keeps s m \<longleftrightarrow> (\<forall>x s'. m = Some (x, s') \<longrightarrow> quiet s' s)"

lemma keeps_return: "quiet s' s \<Longrightarrow> keeps s (Some (x, s'))" by (simp add: keeps_def)

lemma keeps_bind: "keeps s m \<Longrightarrow> (\<And>x s1. quiet s1 s \<Longrightarrow> keeps s (f x s1)) \<Longrightarrow> keeps s (m \<bind> (\<lambda>(x, s1). f x s1))"
  by (auto simp: keeps_def bind_eq_Some_conv)

lemma keeps_if: "(c \<Longrightarrow> keeps s a) \<Longrightarrow> (\<not> c \<Longrightarrow> keeps s b) \<Longrightarrow> keeps s (if c then a else b)" by simp

lemma keeps_call: "quiet s1 s \<Longrightarrow> (\<And>x s2. m = Some (x, s2) \<Longrightarrow> quiet s2 s1) \<Longrightarrow> keeps s m"
  by (auto simp: keeps_def intro: quiet_trans)

lemma keeps_enabled: "quiet s1 s \<Longrightarrow> (\<And>ok s2. quiet s2 s \<Longrightarrow> keeps s (f ok s2)) \<Longrightarrow> keeps s (case wait_enabled E b c s1 of (ok, s2) \<Rightarrow> f ok s2)"
  using quiet_enabled [of E b c s1] by (auto simp: split_beta intro: quiet_trans)

lemma keeps_calls:
  assumes "quiet s1 s"
  shows "keeps s (pgpe_set_clip_blocking E p s1)" "keeps s (pgpe_start_suspend E a w s1)" "keeps s (pgpe_pmcr_set E s1)"
    "keeps s (wait_settled E n s1)" "keeps s (wait_disabled E n s1)"
  using quiet_settled quiet_disabled
  by (auto intro!: keeps_call [OF assms] dest: quiet_clip_blocking quiet_start_suspend quiet_pmcr_set)

lemmas keeps_rules = keeps_if keeps_return keeps_bind keeps_enabled keeps_calls

lemma keepsD: "keeps s m \<Longrightarrow> m = Some (x, s') \<Longrightarrow> quiet s' s" by (simp add: keeps_def)

lemma keeps_nominal: "keeps s (set_nominal_pstate E s)"
proof -
  have p: "quiet (s1\<lparr>pmcr := x\<rparr>) s" if "quiet s1 s" for s1 x
    by (rule quiet_trans [OF _ that]) (simp add: quiet_defs)
  show ?thesis unfolding set_nominal_pstate_def Let_def prod.case
    by (intro keeps_rules p; (assumption | simp add: quiet_trans [OF quiet_answer(3)])?)
qed

lemma keeps_start_and_wait: "quiet s1 s \<Longrightarrow> keeps s (start_and_wait E w s1)"
  unfolding start_and_wait_def Let_def prod.case by (intro keeps_rules; (assumption | simp)?)

lemma quiet_memory_init: "memory_init E s = Some s' \<Longrightarrow> quiet s' s"
proof -
  assume a: "memory_init E s = Some s'"
  have f: "quiet (z\<lparr>task_flags := (task_flags z)(TASK_ID_DIMM_SM := MEMORY_DATA_RTL_FLAGS, TASK_ID_MEMORY_CONTROL := MEMORY_CONTROL_RTL_FLAGS)\<rparr>) z" for z :: occ
  proof -
    have "MEMORY_CONTROL_RTL_FLAGS AND PASSIVE = 0" "TASK_ID_DIMM_SM \<noteq> TASK_ID_CORE_DATA_CONTROL" "TASK_ID_MEMORY_CONTROL \<noteq> TASK_ID_CORE_DATA_CONTROL" by code_simp+
    then show ?thesis by (simp add: quiet_defs)
  qed
  have r: "rtl_task_is_runnable TASK_ID_DIMM_SM z = (task_matches TASK_ID_DIMM_SM z, z)" for z :: occ
    by (simp add: rtl_task_is_runnable_def TASK_ID_DIMM_SM_def TASK_END_def)
  have mem: "quiet s2 s0" if "(if t = MEM_TYPE_NIMBUS \<or> t = MEM_TYPE_CUMULUS \<or> t = MEM_TYPE_OCM then
                     (let s1 = add_call (Call_memory_init t) s0
                      in if mem_init_fails E (clock s1) then reset_state_request RESET_REQUESTED_DUE_TO_ERROR s1 else Some s1)
                   else Some s0) = Some s2" for t s0 s2
    using that by (auto simp only: Let_def option.inject split: if_splits dest!: quiet_reset intro: quiet_trans quiet_log quiet_refl)
  have c: "quiet (if mem_pwr_ctl s1 then add_call Call_mem_power_control s1 else s1) s1" for s1 by simp
  obtain s1 where s1: "(if mem_monitoring_allowed s then
          (let (run, s0) = rtl_task_is_runnable TASK_ID_DIMM_SM s
           in if \<not> run then do {
                let t = mem_type (am_cfg (am s0));
                s2 \<leftarrow>
                  (if t = MEM_TYPE_NIMBUS \<or> t = MEM_TYPE_CUMULUS \<or> t = MEM_TYPE_OCM then
                     (let s1 = add_call (Call_memory_init t) s0
                      in if mem_init_fails E (clock s1) then reset_state_request RESET_REQUESTED_DUE_TO_ERROR s1 else Some s1)
                   else Some s0);
                Some (if isSafeStateRequested s2 then s2
                      else s2\<lparr>task_flags := (task_flags s2)(TASK_ID_DIMM_SM := MEMORY_DATA_RTL_FLAGS,
                                TASK_ID_MEMORY_CONTROL := MEMORY_CONTROL_RTL_FLAGS)\<rparr>)
              }
              else Some s0)
        else Some s) = Some s1" and s': "s' = (if mem_pwr_ctl s1 then add_call Call_mem_power_control s1 else s1)"
    using a unfolding memory_init_def by (auto simp only: bind_eq_Some_conv option.inject)
  have "quiet s1 s"
  proof (cases "mem_monitoring_allowed s \<and> \<not> task_matches TASK_ID_DIMM_SM s")
    case True
    then obtain s2 where "quiet s2 s" and "s1 = (if isSafeStateRequested s2 then s2
                      else s2\<lparr>task_flags := (task_flags s2)(TASK_ID_DIMM_SM := MEMORY_DATA_RTL_FLAGS,
                                TASK_ID_MEMORY_CONTROL := MEMORY_CONTROL_RTL_FLAGS)\<rparr>)"
      using s1 mem unfolding r Let_def prod.case by (simp only: bind_eq_Some_conv option.inject if_True simp_thms) blast
    then show ?thesis using f by (auto intro: quiet_trans)
  qed (use s1 in \<open>auto simp: r split: if_splits\<close>)
  then show ?thesis unfolding s' by (rule quiet_trans [OF c])
qed

section \<open>The run mask follows the state\<close>

definition MODES :: u32 where "MODES = RTL_FLAG_OBS OR RTL_FLAG_ACTIVE OR RTL_FLAG_STANDBY"

definition mode_flag :: "occ_state \<Rightarrow> u32" where
  "mode_flag st =
     (if st = OCC_STATE_STANDBY then RTL_FLAG_STANDBY
      else if st = OCC_STATE_OBSERVATION \<or> st = OCC_STATE_CHARACTERIZATION then RTL_FLAG_OBS
      else if st = OCC_STATE_ACTIVE then RTL_FLAG_ACTIVE else RTL_FLAG_NONE)"

definition mask_ok :: "occ \<Rightarrow> bool" where
  "mask_ok s \<longleftrightarrow> run_mask_deferred s AND MODES = mode_flag (internal_state s) \<and>
     internal_state s \<in> {OCC_STATE_STANDBY, OCC_STATE_OBSERVATION, OCC_STATE_CHARACTERIZATION, OCC_STATE_ACTIVE, OCC_STATE_SAFE} \<and>
     (internal_state s = OCC_STATE_SAFE \<longrightarrow> RTL_FLAG_RST_REQ AND run_mask_deferred s = RTL_FLAG_RST_REQ)"

lemma modes_set_clear:
  "c AND RTL_FLAG_RUN = 0 \<Longrightarrow> run_mask_deferred (rtl_set_run_mask_deferred f (rtl_clr_run_mask_deferred c s)) AND MODES
     = ((run_mask_deferred s AND MODES) AND NOT c) OR (f AND MODES)"
proof -
  assume a: "c AND RTL_FLAG_RUN = 0"
  have "\<not> (bit c n \<and> bit RTL_FLAG_RUN n)" for n using arg_cong [OF a, of "\<lambda>w. bit w n"] by (simp add: bit_and_iff)
  then have "c AND NOT RTL_FLAG_RUN = c" by (intro bit_word_eqI) (auto simp: bit_simps)
  then show ?thesis
    by (simp add: rtl_set_run_mask_deferred_def rtl_clr_run_mask_deferred_def Let_def) (rule bit_word_eqI, auto simp: bit_simps)
qed

lemma mask_quiet: "quiet s' s \<Longrightarrow> mask_ok s \<Longrightarrow> mask_ok s'"
proof -
  assume a: "quiet s' s" "mask_ok s"
  have "RTL_FLAG_RST_REQ AND MODES = 0" by code_simp
  then have "(m OR RTL_FLAG_RST_REQ) AND MODES = m AND MODES" for m by (simp add: bit.conj_disj_distrib2)
  moreover have "RTL_FLAG_RST_REQ AND (m OR RTL_FLAG_RST_REQ) = RTL_FLAG_RST_REQ" for m by (rule bit_word_eqI) (auto simp: bit_simps)
  ultimately show ?thesis using a by (auto simp: quiet_def mask_ok_def)
qed

definition shifted :: "occ_state \<Rightarrow> occ \<Rightarrow> occ \<Rightarrow> bool" where
  "shifted st s' s \<longleftrightarrow> kept s' s \<and> internal_state s' = st \<and> mask_ok s'"

lemma shift_shifted:
  assumes "quiet s1 s" "mask_ok s" and s': "run_mask_deferred s' = run_mask_deferred (rtl_set_run_mask_deferred f (rtl_clr_run_mask_deferred clr s1))"
      "kept s' s1" "internal_state s' = st"
    and "(mode_flag (internal_state s) AND NOT clr) OR (f AND MODES) = mode_flag st" "clr AND RTL_FLAG_RUN = 0"
    and st: "st \<in> {OCC_STATE_STANDBY, OCC_STATE_OBSERVATION, OCC_STATE_CHARACTERIZATION, OCC_STATE_ACTIVE} \<or> st = OCC_STATE_SAFE \<and> f = RTL_FLAG_RST_REQ"
  shows "shifted st s' s"
proof -
  have m: "run_mask_deferred s1 AND MODES = mode_flag (internal_state s)" using mask_quiet [OF assms(1,2)] assms(1) by (simp add: mask_ok_def quiet_def)
  have "kept s1 s" using assms(1) by (simp add: quiet_def)
  then have "kept s' s" using s'(2) by (rule kept_trans [rotated])
  moreover have "run_mask_deferred s' AND MODES = mode_flag st"
    using modes_set_clear [OF assms(7), of f s1] unfolding m assms(6) by (simp add: s'(1))
  moreover have "RTL_FLAG_RST_REQ AND run_mask_deferred (rtl_set_run_mask_deferred RTL_FLAG_RST_REQ z) = RTL_FLAG_RST_REQ" for z :: occ
    by (rule bit_word_eqI) (auto simp: rtl_set_run_mask_deferred_def bit_simps)
  then have "st = OCC_STATE_SAFE \<Longrightarrow> RTL_FLAG_RST_REQ AND run_mask_deferred s' = RTL_FLAG_RST_REQ" using st s'(1) by auto
  ultimately show ?thesis using s'(3) st by (auto simp: shifted_def mask_ok_def)
qed

section \<open>The transitions\<close>

text \<open>A transition stays in its state or ends in the one of its name; when it returns an error log it has not moved.\<close>

definition lands :: "occ_state \<Rightarrow> occ \<Rightarrow> (elog option \<times> occ) option \<Rightarrow> bool" where
  "lands st s m \<longleftrightarrow> (\<forall>l s'. m = Some (l, s') \<longrightarrow> quiet s' s \<or> l = None \<and> shifted st s' s)"

lemma lands_quiet: "quiet s' s \<Longrightarrow> lands st s (Some (l, s'))" by (simp add: lands_def)
lemma lands_shift: "shifted st s' s \<Longrightarrow> lands st s (Some (None, s'))" by (simp add: lands_def)
lemma lands_bind: "keeps s m \<Longrightarrow> (\<And>x s1. quiet s1 s \<Longrightarrow> lands st s (f x s1)) \<Longrightarrow> lands st s (m \<bind> (\<lambda>(x, s1). f x s1))"
  by (simp add: keeps_def lands_def bind_eq_Some_conv) blast
lemma lands_bind1: "(\<And>s1. m = Some s1 \<Longrightarrow> lands st s (f s1)) \<Longrightarrow> lands st s (m \<bind> f)"
  by (auto simp: lands_def bind_eq_Some_conv)
lemma lands_if: "(c \<Longrightarrow> lands st s a) \<Longrightarrow> (\<not> c \<Longrightarrow> lands st s b) \<Longrightarrow> lands st s (if c then a else b)" by simp
lemma lands_Some_if: "(c \<Longrightarrow> lands st s (Some a)) \<Longrightarrow> (\<not> c \<Longrightarrow> lands st s (Some b)) \<Longrightarrow> lands st s (Some (if c then a else b))" by simp

lemma lands_enter:
  "quiet s1 s \<Longrightarrow> mask_ok s \<Longrightarrow> mode_flag (internal_state s) AND NOT clr = 0 \<Longrightarrow> mode_flag st = f \<Longrightarrow> f AND MODES = f \<Longrightarrow> clr AND RTL_FLAG_RUN = 0
    \<Longrightarrow> st \<in> {OCC_STATE_STANDBY, OCC_STATE_OBSERVATION, OCC_STATE_CHARACTERIZATION, OCC_STATE_ACTIVE}
    \<Longrightarrow> lands st s (Some (None, enter_state st clr f s1))"
  by (rule lands_shift, rule shift_shifted [of s1 s _ f clr])
    (auto simp: enter_state_eq kept_def actuators_ok_def rtl_set_run_mask_deferred_def rtl_clr_run_mask_deferred_def Let_def)

lemma flag_facts:
  "mode_flag OCC_STATE_STANDBY = RTL_FLAG_STANDBY" "mode_flag OCC_STATE_OBSERVATION = RTL_FLAG_OBS"
  "mode_flag OCC_STATE_CHARACTERIZATION = RTL_FLAG_OBS" "mode_flag OCC_STATE_ACTIVE = RTL_FLAG_ACTIVE" "mode_flag OCC_STATE_SAFE = 0"
  "RTL_FLAG_STANDBY AND MODES = RTL_FLAG_STANDBY" "RTL_FLAG_OBS AND MODES = RTL_FLAG_OBS" "RTL_FLAG_ACTIVE AND MODES = RTL_FLAG_ACTIVE"
  "RTL_FLAG_STANDBY AND RTL_FLAG_RUN = 0" "RTL_FLAG_OBS AND RTL_FLAG_RUN = 0" "RTL_FLAG_ACTIVE AND RTL_FLAG_RUN = 0"
  by (simp_all add: mode_flag_def) code_simp+

lemma lands_case: "(\<And>a b. x = (a, b) \<Longrightarrow> lands st s (f a b)) \<Longrightarrow> lands st s (case x of (a, b) \<Rightarrow> f a b)"
  by (cases x) simp
lemma lands_case_fun: "(\<And>a b. x = (a, b) \<Longrightarrow> lands st s (f a b z)) \<Longrightarrow> lands st s ((case x of (a, b) \<Rightarrow> f a b) z)"
  by (cases x) simp

lemmas lands_rules = lands_case lands_case_fun lands_if lands_Some_if lands_bind lands_bind1

lemma quiet_disable: "quiet (disable_all_gpus s) s" "quiet (disable_all_dimms s) s"
  by (simp_all add: quiet_defs disable_all_gpus_def disable_all_dimms_def add_call_def Let_def)

lemma quiet_updates:
  assumes "quiet s1 s"
  shows "quiet (s1\<lparr>logged_stb_obs := b\<rparr>) s" "quiet (s1\<lparr>logged_stb_chr := b\<rparr>) s" "quiet (s1\<lparr>logged_obs_chr := b\<rparr>) s"
    "quiet (s1\<lparr>logged_obs_act := b\<rparr>) s" "quiet (s1\<lparr>ext_req_state := x\<rparr>) s" "quiet (s1\<lparr>set_pStates := b\<rparr>) s"
    "quiet (s1\<lparr>am := a\<rparr>) s" "quiet (add_call c s1) s" "quiet (add_log l s1) s" "quiet (sleep_us E us s1) s"
    "quiet (disable_all_gpus s1) s" "quiet (disable_all_dimms s1) s"
proof -
  have "quiet (s1\<lparr>logged_stb_obs := b\<rparr>) s1" "quiet (s1\<lparr>logged_stb_chr := b\<rparr>) s1" "quiet (s1\<lparr>logged_obs_chr := b\<rparr>) s1"
    "quiet (s1\<lparr>logged_obs_act := b\<rparr>) s1" "quiet (s1\<lparr>ext_req_state := x\<rparr>) s1" "quiet (s1\<lparr>set_pStates := b\<rparr>) s1"
    "quiet (s1\<lparr>am := a\<rparr>) s1" by (simp_all add: quiet_defs)
  note u = this [THEN quiet_trans, OF assms]
  show "quiet (s1\<lparr>logged_stb_obs := b\<rparr>) s" "quiet (s1\<lparr>logged_stb_chr := b\<rparr>) s" "quiet (s1\<lparr>logged_obs_chr := b\<rparr>) s"
    "quiet (s1\<lparr>logged_obs_act := b\<rparr>) s" "quiet (s1\<lparr>ext_req_state := x\<rparr>) s" "quiet (s1\<lparr>set_pStates := b\<rparr>) s" "quiet (s1\<lparr>am := a\<rparr>) s"
    by (rule u)+
  show "quiet (add_call c s1) s" "quiet (add_log l s1) s" "quiet (sleep_us E us s1) s" "quiet (disable_all_gpus s1) s" "quiet (disable_all_dimms s1) s"
    by (rule quiet_trans [OF _ assms], rule quiet_log quiet_answer quiet_disable)+
qed

lemma lands_standby_to_observation:
  assumes "mask_ok s" "internal_state s = OCC_STATE_STANDBY"
  shows "lands OCC_STATE_OBSERVATION s (SMGR_standby_to_observation E s)"
proof -
  have "quiet s1 s" if "memory_init E (s\<lparr>logged_stb_obs := False\<rparr>) = Some s1" for s1
    using quiet_memory_init [OF that] by (rule quiet_trans) (intro quiet_updates quiet_refl)
  then show ?thesis unfolding SMGR_standby_to_observation_def
    by (intro lands_rules) (auto intro: lands_enter lands_quiet quiet_updates quiet_refl simp: assms flag_facts)
qed

lemma lands_standby_to_characterization:
  assumes "mask_ok s" "internal_state s = OCC_STATE_STANDBY"
  shows "lands OCC_STATE_CHARACTERIZATION s (SMGR_standby_to_characterization E s)"
proof -
  have "quiet s2 s" if "memory_init E s1 = Some s2" "quiet s1 s" for s1 s2
    using quiet_memory_init [OF that(1)] that(2) by (rule quiet_trans)
  then show ?thesis unfolding SMGR_standby_to_characterization_def Let_def
    by (intro lands_rules keeps_rules keeps_start_and_wait quiet_updates quiet_refl)
      (auto intro: lands_enter lands_quiet quiet_updates quiet_refl simp: assms flag_facts)
qed

lemma lands_same_mask:
  "quiet s1 s \<Longrightarrow> mask_ok s \<Longrightarrow> mode_flag st = mode_flag (internal_state s) \<Longrightarrow>
    st \<in> {OCC_STATE_STANDBY, OCC_STATE_OBSERVATION, OCC_STATE_CHARACTERIZATION, OCC_STATE_ACTIVE}
    \<Longrightarrow> lands st s (Some (None, s1\<lparr>internal_state := st\<rparr>))"
  using mask_quiet [of s1 s] by (intro lands_shift) (auto simp: shifted_def quiet_defs mask_ok_def)

lemma lands_characterization_to_observation:
  assumes "mask_ok s" "internal_state s = OCC_STATE_CHARACTERIZATION"
  shows "lands OCC_STATE_OBSERVATION s (SMGR_characterization_to_observation E s)"
  unfolding SMGR_characterization_to_observation_def
  by (intro lands_rules keeps_rules quiet_refl)
    (auto intro: lands_same_mask lands_quiet simp: assms flag_facts)

lemma lands_observation_to_characterization:
  assumes "mask_ok s" "internal_state s = OCC_STATE_OBSERVATION"
  shows "lands OCC_STATE_CHARACTERIZATION s (SMGR_observation_to_characterization E s)"
  unfolding SMGR_observation_to_characterization_def
  by (intro lands_rules keeps_rules keeps_start_and_wait quiet_refl)
    (auto intro: lands_same_mask lands_quiet quiet_updates simp: assms flag_facts)

lemma lands_active_to_characterization:
  assumes "mask_ok s" "internal_state s = OCC_STATE_ACTIVE"
  shows "lands OCC_STATE_CHARACTERIZATION s (SMGR_active_to_characterization E s)"
  unfolding SMGR_active_to_characterization_def Let_def
  by (intro lands_rules keeps_rules keeps_start_and_wait quiet_updates quiet_refl)
    (auto intro: lands_enter lands_quiet simp: assms flag_facts)

lemma lands_active_to_observation:
  assumes "mask_ok s" "internal_state s = OCC_STATE_ACTIVE"
  shows "lands OCC_STATE_OBSERVATION s (SMGR_active_to_observation E s)"
  unfolding SMGR_active_to_observation_def Let_def
  by (intro lands_rules keeps_rules quiet_updates quiet_refl)
    (auto intro: lands_enter lands_quiet simp: assms flag_facts)

text \<open>Into the active state: a timeout means that the Pstates are still not enabled.\<close>

lemma wait_enabled_result: "wait_enabled E b c s = (ok, s') \<Longrightarrow> ok = (pstate_status s' = PSTATES_ENABLED)"
proof (induction E b c s rule: wait_enabled.induct)
  case (1 E b c s)
  then show ?case by (subst (asm) (2) wait_enabled.simps) (auto split: if_splits)
qed

definition every :: "('a \<Rightarrow> occ \<Rightarrow> bool) \<Rightarrow> ('a \<times> occ) option \<Rightarrow> bool" where
  "every Q m \<longleftrightarrow> (\<forall>x s'. m = Some (x, s') \<longrightarrow> Q x s')"

lemma every_rules:
  "Q x s' \<Longrightarrow> every Q (Some (x, s'))"
  "(\<And>x s1. every Q (f x s1)) \<Longrightarrow> every Q (m \<bind> (\<lambda>(x, s1). f x s1))"
  "(c \<Longrightarrow> every Q a) \<Longrightarrow> (\<not> c \<Longrightarrow> every Q b) \<Longrightarrow> every Q (if c then a else b)"
  by (auto simp: every_def bind_eq_Some_conv)

lemma every_enabled:
  "(\<And>ok s2. ok = (pstate_status s2 = PSTATES_ENABLED) \<Longrightarrow> every Q (g ok s2)) \<Longrightarrow> every Q (case wait_enabled E b c z of (ok, s2) \<Rightarrow> g ok s2)"
  using wait_enabled_result [of E b c z] by (cases "wait_enabled E b c z") simp

lemma take_pstates_timeout:
  "every (\<lambda>(rc, ext, ud) s'. rc \<noteq> 0 \<longrightarrow> ext = ERC_GENERIC_TIMEOUT \<longrightarrow> pstate_status s' \<noteq> PSTATES_ENABLED) (take_pstates E s)"
proof -
  have n: "ERC_PGPE_CLIP_FAILURE \<noteq> ERC_GENERIC_TIMEOUT" "ERC_PGPE_START_SUSPEND_FAILURE \<noteq> ERC_GENERIC_TIMEOUT" by code_simp+
  show ?thesis unfolding take_pstates_def Let_def by (intro every_rules every_enabled) (simp_all add: n)
qed

lemma keeps_take_pstates: "quiet s1 s \<Longrightarrow> keeps s (take_pstates E s1)"
proof -
  have "keeps s (set_nominal_pstate E z)" if "quiet z s" for z
    using keeps_nominal [of z E] quiet_trans [OF _ that] by (auto simp: keeps_def)
  then show "quiet s1 s \<Longrightarrow> keeps s (take_pstates E s1)"
    unfolding take_pstates_def Let_def prod.case
    by (intro keeps_rules quiet_updates) (auto intro: keeps_rules quiet_updates)
qed

lemma act_ready_iff: "act_ready s \<longleftrightarrow> cnfgdata s AND active_mask s = active_mask s"
  by (simp add: act_ready_def SMGR_validate_get_valid_states_def bit.conj_disj_distrib SMGR_MASK_ACTIVE_READY_def
      SMGR_MASK_OBSERVATION_READY_def SMGR_MASK_MASTER_OCC_def OCC_ROLE_FIR_MASTER_MASK_def OCC_SIMICS_ENVIRONMENT_def
      OCC_PMCR_OWNER_POLL_STATUS_MASK_def)

lemma obs_ready_iff: "obs_ready s \<longleftrightarrow> cnfgdata s AND observation_mask s = observation_mask s"
  by (simp add: obs_ready_def SMGR_validate_get_valid_states_def bit.conj_disj_distrib SMGR_MASK_ACTIVE_READY_def
      SMGR_MASK_OBSERVATION_READY_def SMGR_MASK_MASTER_OCC_def OCC_ROLE_FIR_MASTER_MASK_def OCC_SIMICS_ENVIRONMENT_def
      OCC_PMCR_OWNER_POLL_STATUS_MASK_def)

lemma quiet_go: "quiet s1 s \<Longrightarrow> mask_ok s \<Longrightarrow> mode_flag (internal_state s) = RTL_FLAG_OBS \<Longrightarrow> shifted OCC_STATE_ACTIVE (go_active s1) s"
  unfolding go_active_def Let_def
  by (rule shift_shifted [of s1 s _ RTL_FLAG_ACTIVE RTL_FLAG_OBS])
    (auto simp: flag_facts enter_state_eq kept_def actuators_ok_def rtl_set_run_mask_deferred_def rtl_clr_run_mask_deferred_def Let_def add_call_def)

lemma lands_observation_to_active:
  assumes "mask_ok s" "mode_flag (internal_state s) = RTL_FLAG_OBS"
  shows "lands OCC_STATE_ACTIVE s (SMGR_observation_to_active E s)"
proof -
  let ?s0 = "upd_am clear_quad_requests s"
  let ?s1 = "add_call (Call_wof_clear WOF_RC_STATE_CHANGE ERC_WOF_STATE_CHANGE) ?s0"
  have q: "quiet ?s0 s" "quiet ?s1 s" by (intro quiet_updates quiet_refl)+
  define t :: "((int \<times> u16 \<times> u32) \<times> occ) option" where "t =
       (if \<not> act_ready ?s0 then Some ((2, ERC_STATE_FROM_OBS_TO_ACT_FAILURE, ucast SMGR_MASK_ACTIVE_READY), ?s0)
        else if \<not> present_cores ?s1 then
            Some ((0, OCC_NO_EXTENDED_RC, 0), enter_state OCC_STATE_ACTIVE RTL_FLAG_OBS RTL_FLAG_ACTIVE ?s1)
        else do {
            ((rc, ext, ud), s2) \<leftarrow> take_pstates E ?s1;
            Some ((rc, ext, ud), if (rc = 0 \<or> ext = ERC_GENERIC_TIMEOUT) \<and> pstate_status s2 = PSTATES_ENABLED then go_active s2 else s2)
          })"
  have e: "shifted OCC_STATE_ACTIVE (enter_state OCC_STATE_ACTIVE RTL_FLAG_OBS RTL_FLAG_ACTIVE ?s1) s"
    by (rule shift_shifted [OF q(2) assms(1), of _ RTL_FLAG_ACTIVE RTL_FLAG_OBS])
      (auto simp: assms(2) flag_facts enter_state_eq kept_def actuators_ok_def rtl_set_run_mask_deferred_def rtl_clr_run_mask_deferred_def Let_def)
  have "quiet z s \<or> fst x = 0 \<and> shifted OCC_STATE_ACTIVE z s" if a: "t = Some (x, z)" for x z
  proof (cases "act_ready ?s0 \<and> present_cores ?s1")
    case True
    then obtain s2 where s2: "take_pstates E ?s1 = Some (x, s2)"
      and z: "z = (if (fst x = 0 \<or> fst (snd x) = ERC_GENERIC_TIMEOUT) \<and> pstate_status s2 = PSTATES_ENABLED then go_active s2 else s2)"
      using a unfolding t_def by (auto simp: bind_eq_Some_conv)
    have "quiet s2 s" using keepsD [OF keeps_take_pstates [OF q(2)] s2] .
    moreover have "fst (snd x) = ERC_GENERIC_TIMEOUT \<Longrightarrow> pstate_status s2 = PSTATES_ENABLED \<Longrightarrow> fst x = 0"
      using take_pstates_timeout [of E ?s1] s2 by (cases x) (auto simp: every_def)
    ultimately show ?thesis using quiet_go [OF _ assms] z by auto
  next
    case False
    then show ?thesis using a q e unfolding t_def by (auto split: if_splits)
  qed
  then show ?thesis unfolding SMGR_observation_to_active_def Let_def t_def [unfolded Let_def, symmetric]
    by (auto simp: lands_def bind_eq_Some_conv intro: quiet_updates)
qed

lemma kept_ends: "kept (disable_all_gpus (disable_all_dimms (rtl_set_run_mask_deferred f (rtl_clr_run_mask_deferred c z)))\<lparr>internal_state := st\<rparr>) z"
    and mask_ends: "run_mask_deferred (disable_all_gpus (disable_all_dimms y)\<lparr>internal_state := st\<rparr>) = run_mask_deferred y"
  by (simp_all add: kept_def actuators_ok_def disable_all_gpus_def disable_all_dimms_def add_call_def rtl_set_run_mask_deferred_def
      rtl_clr_run_mask_deferred_def Let_def)

lemma lands_all_to_standby:
  assumes "mask_ok s"
  shows "lands OCC_STATE_STANDBY s (SMGR_all_to_standby E s)"
proof -
  let ?c = "RTL_FLAG_ACTIVE OR RTL_FLAG_OBS"
  have "?c AND RTL_FLAG_RUN = 0" "mode_flag st AND NOT ?c OR (RTL_FLAG_STANDBY AND MODES) = mode_flag OCC_STATE_STANDBY" for st
    unfolding mode_flag_def by (simp_all split: if_split) code_simp+
  then have "shifted OCC_STATE_STANDBY (disable_all_gpus (disable_all_dimms
      (rtl_set_run_mask_deferred RTL_FLAG_STANDBY (rtl_clr_run_mask_deferred ?c z)))\<lparr>internal_state := OCC_STATE_STANDBY\<rparr>) s"
    if "quiet z s" for z
    by (intro shift_shifted [OF that assms mask_ends kept_ends]) simp_all
  then show ?thesis unfolding SMGR_all_to_standby_def Let_def
    by (intro lands_rules keeps_rules lands_shift quiet_updates quiet_refl) blast
qed

lemma lands_all_to_safe:
  assumes "mask_ok s"
  shows "lands OCC_STATE_SAFE s (SMGR_all_to_safe E s)"
proof -
  let ?c = "RTL_FLAG_ACTIVE OR RTL_FLAG_OBS OR RTL_FLAG_STANDBY"
  have "?c AND RTL_FLAG_RUN = 0" "mode_flag st AND NOT ?c OR (RTL_FLAG_RST_REQ AND MODES) = mode_flag OCC_STATE_SAFE" for st
    unfolding mode_flag_def by (simp_all split: if_split) code_simp+
  then have sh: "shifted OCC_STATE_SAFE (disable_all_gpus (disable_all_dimms
      (rtl_set_run_mask_deferred RTL_FLAG_RST_REQ (rtl_clr_run_mask_deferred ?c z)))\<lparr>internal_state := OCC_STATE_SAFE\<rparr>) s"
    if "quiet z s" for z
    by (intro shift_shifted [OF that assms mask_ends kept_ends]) simp_all
  have q: "quiet (if occ_master (am_glob (am s)) then s\<lparr>ext_req_state := OCC_STATE_SAFE\<rparr> else s) s"
    by (simp add: quiet_updates)
  show ?thesis unfolding SMGR_all_to_safe_def Let_def by (intro lands_shift sh quiet_updates q)
qed

text \<open>The one transition in two steps can stop between them.\<close>

lemma and_subset: "a AND b = b \<Longrightarrow> m AND a = a \<Longrightarrow> m AND b = (b :: u32)"
  by (metis and.assoc and.commute)

lemma standby_to_active_lands:
  assumes "mask_ok s" "internal_state s = OCC_STATE_STANDBY" "active_mask s AND observation_mask s = observation_mask s"
    and r: "SMGR_standby_to_active E s = Some (l, s')"
  shows "quiet s' s \<or> shifted OCC_STATE_OBSERVATION s' s \<or> l = None \<and> shifted OCC_STATE_ACTIVE s' s"
proof -
  obtain l1 s1 where o: "SMGR_standby_to_observation E s = Some (l1, s1)"
    and a: "(if l1 = None then SMGR_observation_to_active E s1 else Some (l1, s1)) = Some (l, s')"
    using r unfolding SMGR_standby_to_active_def by (auto simp: bind_eq_Some_conv)
  have "quiet s1 s \<or> l1 = None \<and> shifted OCC_STATE_OBSERVATION s1 s"
    using lands_standby_to_observation [OF assms(1,2)] o by (simp add: lands_def)
  then show ?thesis
  proof (elim disjE conjE)
    assume q: "quiet s1 s"
    have "internal_state s1 = OCC_STATE_STANDBY" using q assms(2) by (simp add: quiet_def)
    then have "\<not> obs_ready s" using o by (auto simp: SMGR_standby_to_observation_def bind_eq_Some_conv enter_state_eq)
    then have "\<not> act_ready (upd_am clear_quad_requests s1)"
      using and_subset [OF assms(3)] q by (auto simp: act_ready_iff obs_ready_iff quiet_defs)
    then have "l1 = None \<Longrightarrow> quiet s' s1" using a
      by (auto simp: SMGR_observation_to_active_def Let_def split: if_splits intro!: quiet_updates)
    then show ?thesis using a q by (cases l1) (auto intro: quiet_trans)
  next
    assume "l1 = None" and h: "shifted OCC_STATE_OBSERVATION s1 s"
    then have "quiet s' s1 \<or> l = None \<and> shifted OCC_STATE_ACTIVE s' s1"
      using lands_observation_to_active [of s1 E] a by (auto simp: shifted_def flag_facts lands_def)
    then show ?thesis using h mask_quiet [of s' s1] by (auto simp: shifted_def quiet_def intro: kept_trans)
  qed
qed

section \<open>Setting the state\<close>

lemma find_trans_sound:
  "find_trans cur new = Some f \<Longrightarrow>
    (cur, new, f) \<in> set G_smgr_state_trans \<or> (OCC_STATE_ALL, new, f) \<in> set G_smgr_state_trans"
  by (auto simp: find_trans_def find_Some_iff) (metis nth_mem)+

end
