(* ===== verification/Occ_State_Returns.thy ===== *)
theory Occ_State_Returns
  imports Occ_State_Inv
begin

text \<open>A Pstate engine that answers every request in the end: then every change of state returns.\<close>

unbundle bit_operations_syntax

section \<open>Answers and waits\<close>

definition answers_from :: "env \<Rightarrow> nat \<Rightarrow> bool" where
  "answers_from E t0 \<longleftrightarrow> (\<forall>r t. t0 \<le> t \<longrightarrow> reply E r t \<noteq> None)"

lemma busy_answer [simp]: "busy (pgpe_start_suspend_callback s) = busy s"
  by (simp add: pgpe_start_suspend_callback_def Let_def)

lemma busy_after: "busy (deliver E r s) q = (busy s q \<and> \<not> (q = r \<and> reply E r (clock s) \<noteq> None))"
  by (auto simp: deliver_def Let_def split: option.split gpe_req.split)

lemma sleep_answered: "answers_from E t0 \<Longrightarrow> t0 \<le> clock s + us \<Longrightarrow> \<not> busy (sleep_us E us s) r"
  by (cases r) (simp_all add: sleep_us_def busy_after answers_from_def)

lemma wait_clip_u8_ends: "answers_from E t0 \<Longrightarrow> wait_clip_u8 E w s \<noteq> None"
proof (induction "t0 - clock s" arbitrary: w s rule: less_induct)
  case less
  show ?case
  proof (cases "t0 \<le> clock s + 1")
    case True
    then show ?thesis using sleep_answered [OF less.prems, of s 1 Clip_Update]
      by (subst wait_clip_u8.simps, subst wait_clip_u8.simps) auto
  next
    case False
    then show ?thesis using less.hyps [OF _ less.prems, of "sleep_us E 1 s" "w + 1"] by (subst wait_clip_u8.simps) auto
  qed
qed

lemma wait_clip_u32_ends: "answers_from E t0 \<Longrightarrow> wait_clip_u32 E w s \<noteq> None"
proof (induction "t0 - clock s" arbitrary: w s rule: less_induct)
  case less
  show ?case
  proof (cases "t0 \<le> clock s + 1")
    case True
    then show ?thesis using sleep_answered [OF less.prems, of s 1 Clip_Update]
      by (subst wait_clip_u32.simps, subst wait_clip_u32.simps) auto
  next
    case False
    then show ?thesis using less.hyps [OF _ less.prems, of "sleep_us E 1 s" "w + 1"] by (subst wait_clip_u32.simps) auto
  qed
qed

text \<open>The other two waits count what they sleep, so they end if the limit leaves room for one more step.\<close>

definition limit_ok :: "occ \<Rightarrow> bool" where
  "limit_ok s \<longleftrightarrow> unat (WAIT_PGPE_TASK_TIMEOUT s) \<le> 2 ^ 32 - 10"

lemma timeout_sleep [simp]: "WAIT_PGPE_TASK_TIMEOUT (sleep_us E us s) = WAIT_PGPE_TASK_TIMEOUT s"
  using quiet_answer(3) [of E us s] by (simp add: WAIT_PGPE_TASK_TIMEOUT_def quiet_def kept_def)

lemma wait_step: "limit_ok s \<Longrightarrow> w < WAIT_PGPE_TASK_TIMEOUT s \<Longrightarrow> unat (w + 10) = unat w + 10"
  unfolding limit_ok_def word_less_nat_alt by (simp add: unat_word_ariths)

lemma wait_settled_ends: "limit_ok s \<Longrightarrow> wait_settled E w s \<noteq> None"
proof (induction "unat (WAIT_PGPE_TASK_TIMEOUT s) - unat w" arbitrary: w s rule: less_induct)
  case less
  show ?case
  proof (cases "w < WAIT_PGPE_TASK_TIMEOUT s")
    case True
    then have "wait_settled E (w + 10) (sleep_us E 10 s) \<noteq> None" using wait_step [OF less.prems] less.prems
      by (intro less.hyps) (auto simp: limit_ok_def word_less_nat_alt)
    then show ?thesis by (subst wait_settled.simps) simp
  qed (subst wait_settled.simps, simp)
qed

lemma wait_disabled_ends: "limit_ok s \<Longrightarrow> wait_disabled E w s \<noteq> None"
proof (induction "unat (WAIT_PGPE_TASK_TIMEOUT s) - unat w" arbitrary: w s rule: less_induct)
  case less
  show ?case
  proof (cases "w < WAIT_PGPE_TASK_TIMEOUT s")
    case True
    then have "wait_disabled E (w + 10) (sleep_us E 10 s) \<noteq> None" using wait_step [OF less.prems] less.prems
      by (intro less.hyps) (auto simp: limit_ok_def word_less_nat_alt)
    then show ?thesis by (subst wait_disabled.simps) simp
  qed (subst wait_disabled.simps, simp)
qed

section \<open>Rules\<close>

text \<open>Returning, and quietly: the setting of \<open>halt_on_reset\<close> and the limit stay as they are.\<close>

definition runs :: "occ \<Rightarrow> ('a \<times> occ) option \<Rightarrow> bool" where
  "runs s m \<longleftrightarrow> keeps s m \<and> m \<noteq> None"

lemma runs_return: "quiet s' s \<Longrightarrow> runs s (Some (x, s'))" by (simp add: runs_def keeps_return)

lemma runs_bind: "runs s m \<Longrightarrow> (\<And>x s1. quiet s1 s \<Longrightarrow> runs s (f x s1)) \<Longrightarrow> runs s (m \<bind> (\<lambda>(x, s1). f x s1))"
  unfolding runs_def keeps_def by (cases m) auto

lemma runs_if: "(c \<Longrightarrow> runs s a) \<Longrightarrow> (\<not> c \<Longrightarrow> runs s b) \<Longrightarrow> runs s (if c then a else b)" by simp

lemma runs_enabled: "quiet s1 s \<Longrightarrow> (\<And>ok s2. quiet s2 s \<Longrightarrow> runs s (f ok s2)) \<Longrightarrow> runs s (case wait_enabled E b c s1 of (ok, s2) \<Rightarrow> f ok s2)"
  using quiet_enabled [of E b c s1] by (auto simp: split_beta intro: quiet_trans)

lemma runs_pair: "(\<And>a s1. p = (a, s1) \<Longrightarrow> runs s (f a s1)) \<Longrightarrow> runs s (case p of (a, s1) \<Rightarrow> f a s1)" by (cases p) simp

lemma runs_pair_quiet: "quiet (snd p) s \<Longrightarrow> (\<And>a z. quiet z s \<Longrightarrow> runs s (f a z)) \<Longrightarrow> runs s (case p of (a, z) \<Rightarrow> f a z)"
  by (cases p) simp

lemma runs_triple: "quiet (snd (snd p)) s \<Longrightarrow> (\<And>a b z. quiet z s \<Longrightarrow> runs s (f a b z)) \<Longrightarrow> runs s (case p of (a, b, z) \<Rightarrow> f a b z)"
  by (cases p) simp

lemma quiet_halt: "quiet s1 s \<Longrightarrow> halt_on_reset s1 = halt_on_reset s" by (simp add: quiet_def kept_def)
lemma quiet_limit: "quiet s1 s \<Longrightarrow> limit_ok s1 = limit_ok s" by (simp add: quiet_def kept_def limit_ok_def WAIT_PGPE_TASK_TIMEOUT_def)

lemma request_runs: "\<not> halt_on_reset s \<Longrightarrow> quiet s1 s \<Longrightarrow> runs s (map_option (Pair c) (REQUEST_RESET l s1))"
proof -
  assume h: "\<not> halt_on_reset s" "quiet s1 s"
  then have "REQUEST_RESET l s1 \<noteq> None" using quiet_halt [of s1 s] by (simp add: REQUEST_RESET_def reset_state_request_def)
  then show ?thesis using quiet_request_pair [of c l s1] h(2) by (auto simp: runs_def keeps_def intro: quiet_trans)
qed

lemma runs_call: "m \<noteq> None \<Longrightarrow> quiet s1 s \<Longrightarrow> (\<And>x s2. m = Some (x, s2) \<Longrightarrow> quiet s2 s1) \<Longrightarrow> runs s m"
  by (simp add: runs_def keeps_call)

lemma runs_from: "quiet s1 s \<Longrightarrow> runs s1 m \<Longrightarrow> runs s m"
  unfolding runs_def keeps_def by (blast intro: quiet_trans)

lemma waits_run:
  assumes "quiet s1 s"
  shows "answers_from E t0 \<Longrightarrow> runs s (wait_clip_u8 E a s1)" "answers_from E t0 \<Longrightarrow> runs s (wait_clip_u32 E b s1)"
    "limit_ok s \<Longrightarrow> runs s (wait_settled E c s1)" "limit_ok s \<Longrightarrow> runs s (wait_disabled E d s1)"
  using quiet_wait_u8 quiet_wait_u32 quiet_settled quiet_disabled quiet_limit [OF assms]
    wait_clip_u8_ends wait_clip_u32_ends wait_settled_ends wait_disabled_ends
  by (auto intro!: runs_call [OF _ assms])

lemmas runs_rules = runs_if runs_return runs_bind runs_enabled request_runs

section \<open>The requests\<close>

text \<open>The standing assumptions of the section, as seen from the state an operation starts in.\<close>

definition fit :: "env \<Rightarrow> occ \<Rightarrow> bool" where
  "fit E s \<longleftrightarrow> \<not> halt_on_reset s \<and> limit_ok s \<and> (\<exists>t0. answers_from E t0)"

lemma fit_quiet: "quiet s1 s \<Longrightarrow> fit E s1 = fit E s" by (simp add: fit_def quiet_halt quiet_limit)

lemma fit_waits:
  assumes "fit E s" "quiet s1 s"
  shows "runs s (wait_clip_u8 E a s1)" "runs s (wait_clip_u32 E b s1)" "runs s (wait_settled E c s1)" "runs s (wait_disabled E d s1)"
    "runs s (map_option (Pair e) (REQUEST_RESET l s1))"
  using assms waits_run [OF assms(2)] request_runs by (auto simp: fit_def)

lemma clip_send_quiet: "quiet s1 s \<Longrightarrow> quiet (snd (clip_send E s1)) s"
  using quiet_clip_send [of E s1] by (cases "clip_send E s1") (auto intro: quiet_trans)

lemma clip_update_runs: assumes "fit E s" "quiet s1 s" shows "runs s (pgpe_clip_update E s1)"
proof -
  have simics: "quiet (z\<lparr>start_rc := r\<rparr>) s" if "quiet z s" for z r
    by (rule quiet_trans [OF _ that]) (simp add: quiet_defs)
  have send: "quiet (snd (snd (if \<not> simics z then (case clip_send E z of (rc, s3) \<Rightarrow> (rc, x, s3)) else (0, 0, z\<lparr>start_rc := PGPE_RC_SUCCESS\<rparr>)))) s"
    if "quiet z s" for z and x :: int
    using clip_send_quiet [OF that, of E] simics [OF that] by (simp add: split_beta)
  show ?thesis unfolding pgpe_clip_update_def Let_def
    by (intro runs_bind runs_triple runs_if runs_return fit_waits [OF assms(1)] assms send)
      (simp_all add: quiet_updates split: if_split)
qed

lemma set_clip_runs: assumes "fit E s" "quiet s1 s" shows "runs s (pgpe_set_clip_blocking E p s1)"
proof -
  have u: "quiet (upd_am g z) s" if "quiet z s" for z g by (rule quiet_updates [OF that])
  have c: "runs s (pgpe_clip_update E z)" if "quiet z s" for z by (rule clip_update_runs [OF assms(1) that])
  show ?thesis unfolding pgpe_set_clip_blocking_def Let_def
    by (intro runs_bind runs_if runs_return fit_waits [OF assms(1)] assms c u) (assumption | simp)?
qed

lemma schedule_quiet: "quiet z s \<Longrightarrow> quiet (snd (pgpe_request_schedule E r z)) s"
  using quiet_schedule [of E r z] by (cases "pgpe_request_schedule E r z") (auto intro: quiet_trans)

lemma start_suspend_runs: assumes "fit E s" "quiet s1 s" shows "runs s (pgpe_start_suspend E a w s1)"
proof -
  have st: "quiet (z\<lparr>pstate_status := p\<rparr>) s" "quiet (z\<lparr>start_action := x, start_owner := y\<rparr>) s" if "quiet z s" for z p x y
    using that by (simp_all add: quiet_defs)
  have p: "quiet (snd (if \<not> simics z then pgpe_request_schedule E Start_Suspend (z\<lparr>pstate_status := PSTATES_IN_TRANSITION\<rparr>) else (0, z))) s"
    if "quiet z s" for z using that st schedule_quiet by simp
  have c: "quiet (if simics z then pgpe_start_suspend_callback z else z) s" if "quiet z s" for z
    using that by (simp add: quiet_callback_eq)
  show ?thesis unfolding pgpe_start_suspend_def Let_def
    by (intro runs_bind runs_if runs_return runs_pair_quiet fit_waits [OF assms(1)] assms p st c | simp add: quiet_updates assms)+
qed

lemma pmcr_set_runs: assumes "fit E s" "quiet s1 s" shows "runs s (pgpe_pmcr_set E s1)"
proof -
  have p: "quiet (snd (if \<not> simics z then pgpe_request_schedule E Pmcr_Set z else (0, z))) s"
    if "quiet z s" for z using that schedule_quiet by simp
  show ?thesis unfolding pgpe_pmcr_set_def Let_def
    by (intro runs_if runs_return runs_pair_quiet fit_waits [OF assms(1)] assms p | simp add: quiet_updates assms)+
qed

lemma nominal_runs: assumes "fit E s" shows "runs s (set_nominal_pstate E s)"
proof -
  have p: "quiet (z\<lparr>pmcr := x\<rparr>) s" if "quiet z s" for z x
    by (rule quiet_trans [OF _ that]) (simp add: quiet_defs)
  have c: "runs s (pgpe_start_suspend E a w z)" "runs s (pgpe_pmcr_set E z)" if "quiet z s" for z a w
    by (rule start_suspend_runs [OF assms that] pmcr_set_runs [OF assms that])+
  show ?thesis unfolding set_nominal_pstate_def Let_def
    by (intro runs_rules p c quiet_updates; (assumption | simp)?)
qed

lemma start_and_wait_runs: assumes "fit E s" "quiet s1 s" shows "runs s (start_and_wait E w s1)"
  unfolding start_and_wait_def Let_def
  by (intro runs_rules start_suspend_runs [OF assms(1)] assms; (assumption | simp)?)

lemma take_pstates_runs: assumes "fit E s" "quiet s1 s" shows "runs s (take_pstates E s1)"
proof -
  have n: "runs s (set_nominal_pstate E z)" if "quiet z s" for z
    by (rule runs_from [OF that nominal_runs]) (simp add: fit_quiet [OF that] assms(1))
  have c: "runs s (pgpe_start_suspend E a w z)" "runs s (pgpe_set_clip_blocking E p z)" if "quiet z s" for z a w p
    by (rule start_suspend_runs [OF assms(1) that] set_clip_runs [OF assms(1) that])+
  show ?thesis unfolding take_pstates_def Let_def
    by (intro runs_rules n c assms(2) | simp add: quiet_updates)+
qed

lemma not_None_rules:
  "m \<noteq> None \<Longrightarrow> (\<And>x. m = Some x \<Longrightarrow> f x \<noteq> None) \<Longrightarrow> m \<bind> f \<noteq> None"
  "(c \<Longrightarrow> m \<noteq> None) \<Longrightarrow> (\<not> c \<Longrightarrow> k \<noteq> None) \<Longrightarrow> (if c then m else k) \<noteq> None"
  "(\<And>a b. p = (a, b) \<Longrightarrow> g a b \<noteq> None) \<Longrightarrow> (case p of (a, b) \<Rightarrow> g a b) \<noteq> None"
  "(\<And>a b. q = (a, b) \<Longrightarrow> h a b z \<noteq> None) \<Longrightarrow> (case q of (a, b) \<Rightarrow> h a b) z \<noteq> None"
  by (auto simp: split_beta bind_eq_None_conv)

lemma memory_init_returns: "\<not> halt_on_reset s \<Longrightarrow> memory_init E s \<noteq> None"
proof -
  assume h: "\<not> halt_on_reset s"
  have r: "rtl_task_is_runnable TASK_ID_DIMM_SM z = (task_matches TASK_ID_DIMM_SM z, z)" for z :: occ
    by (simp add: rtl_task_is_runnable_def TASK_ID_DIMM_SM_def TASK_END_def)
  have "reset_state_request RESET_REQUESTED_DUE_TO_ERROR (add_call c s) \<noteq> None" for c
    using h by (simp add: reset_state_request_def add_call_def)
  then show ?thesis unfolding memory_init_def r Let_def prod.case by (intro not_None_rules) simp_all
qed

section \<open>The transitions\<close>

text \<open>Here the end of an operation does not matter any more, only that it is reached.\<close>

lemma bind_runs: "runs s m \<Longrightarrow> (\<And>x s1. quiet s1 s \<Longrightarrow> f x s1 \<noteq> None) \<Longrightarrow> m \<bind> (\<lambda>(x, s1). f x s1) \<noteq> None"
  unfolding runs_def keeps_def by (cases m) auto

lemma bind_memory_init: "fit E s \<Longrightarrow> quiet s1 s \<Longrightarrow> (\<And>s2. f s2 \<noteq> None) \<Longrightarrow> memory_init E s1 \<bind> f \<noteq> None"
  using memory_init_returns [of s1 E] quiet_halt [of s1 s] by (auto simp: fit_def bind_eq_None_conv)

lemma fit_calls:
  assumes "fit E s" "quiet s1 s"
  shows "runs s (pgpe_set_clip_blocking E p s1)" "runs s (pgpe_start_suspend E a w s1)" "runs s (start_and_wait E w s1)"
    "runs s (wait_settled E c s1)" "runs s (wait_disabled E d s1)" "runs s (take_pstates E s1)"
  using assms by (auto intro: set_clip_runs start_suspend_runs start_and_wait_runs fit_waits take_pstates_runs)

lemmas return_rules = not_None_rules(2) option.distinct(2) runs_bind runs_if runs_return

lemma transitions_return:
  assumes "fit E s"
  shows "SMGR_standby_to_observation E s \<noteq> None" "SMGR_standby_to_characterization E s \<noteq> None" "SMGR_all_to_standby E s \<noteq> None"
    "SMGR_characterization_to_observation E s \<noteq> None" "SMGR_observation_to_characterization E s \<noteq> None"
    "SMGR_active_to_characterization E s \<noteq> None" "SMGR_all_to_safe E s \<noteq> None"
proof -
  show "SMGR_standby_to_observation E s \<noteq> None" unfolding SMGR_standby_to_observation_def
    by (intro return_rules bind_runs [where s = s] bind_memory_init [OF assms] quiet_updates quiet_refl)
  show "SMGR_standby_to_characterization E s \<noteq> None" unfolding SMGR_standby_to_characterization_def Let_def
    by (intro return_rules bind_runs [where s = s] bind_memory_init [OF assms] fit_calls [OF assms] quiet_updates quiet_refl | simp)+
  show "SMGR_all_to_standby E s \<noteq> None" unfolding SMGR_all_to_standby_def Let_def
    by (intro return_rules bind_runs [where s = s] fit_calls [OF assms] quiet_updates quiet_refl; (assumption | simp)?)
  show "SMGR_characterization_to_observation E s \<noteq> None" unfolding SMGR_characterization_to_observation_def
    by (intro return_rules bind_runs [where s = s] fit_calls [OF assms] quiet_updates quiet_refl; (assumption | simp)?)
  show "SMGR_observation_to_characterization E s \<noteq> None" unfolding SMGR_observation_to_characterization_def
    by (intro return_rules bind_runs [where s = s] fit_calls [OF assms] quiet_updates quiet_refl; (assumption | simp)?)
  show "SMGR_active_to_characterization E s \<noteq> None" unfolding SMGR_active_to_characterization_def Let_def
    by (intro return_rules bind_runs [where s = s] fit_calls [OF assms] quiet_updates quiet_refl; (assumption | simp)?)
  show "SMGR_all_to_safe E s \<noteq> None" by (simp add: SMGR_all_to_safe_def Let_def)
qed

text \<open>The transition into the active state begins with an update that is not seen by the rest.\<close>

lemma to_active_returns: assumes "fit E s" shows "SMGR_observation_to_active E s \<noteq> None"
proof -
  have q: "quiet (upd_am clear_quad_requests s) s" by (intro quiet_updates quiet_refl)
  have t: "take_pstates E z \<noteq> None" if "quiet z s" for z
    using take_pstates_runs [OF assms that] by (simp add: runs_def)
  show ?thesis unfolding SMGR_observation_to_active_def Let_def
    by (intro not_None_rules t quiet_updates q quiet_refl option.distinct(2))
qed

lemma to_observation_returns: assumes "fit E s" shows "SMGR_active_to_observation E s \<noteq> None"
  unfolding SMGR_active_to_observation_def Let_def
  by (intro return_rules bind_runs [where s = s] fit_calls [OF assms] quiet_updates quiet_refl not_None_rules(3,4) | simp)+

lemma standby_to_active_returns: assumes "fit E s" "mask_ok s" "internal_state s = OCC_STATE_STANDBY"
  shows "SMGR_standby_to_active E s \<noteq> None"
proof -
  obtain l s1 where r: "SMGR_standby_to_observation E s = Some (l, s1)" using transitions_return(1) [OF assms(1)] by auto
  have "kept s1 s" using lands_standby_to_observation [OF assms(2,3), of E] r by (auto simp: lands_def quiet_def shifted_def)
  then have "fit E s1" using assms(1) by (simp add: kept_def fit_def limit_ok_def WAIT_PGPE_TASK_TIMEOUT_def)
  then show ?thesis unfolding SMGR_standby_to_active_def r using to_active_returns [of E s1] by simp
qed

lemma transition_returns:
  assumes "find_trans (internal_state s) new = Some f" "fit E s" "mask_ok s"
  shows "f E s \<noteq> None"
  using find_trans_sound [OF assms(1)] transitions_return [OF assms(2)] to_active_returns [OF assms(2)]
    to_observation_returns [OF assms(2)] standby_to_active_returns [OF assms(2,3)] assms(3)
  unfolding G_smgr_state_trans_def SMGR_characterization_to_active_def [abs_def] by (auto simp: mask_ok_def)

end
