(* ===== verification/Occ_State_Properties.thy ===== *)
theory Occ_State_Properties
  imports Occ_State_Returns Rtls_Properties Amec_Properties
begin

text \<open>
  The states of the OCC and the real-time loop together: what a change of state can do, what the run
  mask guarantees, and the waits that need not end.
\<close>

unbundle bit_operations_syntax

section \<open>One change of state\<close>

definition between :: "occ_state \<Rightarrow> occ_state \<Rightarrow> occ_state \<Rightarrow> bool" where
  "between old new st \<longleftrightarrow> old = OCC_STATE_STANDBY \<and> new = OCC_STATE_ACTIVE \<and> st = OCC_STATE_OBSERVATION"

lemma transition_lands:
  assumes "find_trans (internal_state s) new = Some f" "f E s = Some (l, s')" "mask_ok s"
    and "active_mask s AND observation_mask s = observation_mask s"
  shows "quiet s' s \<or> l = None \<and> shifted new s' s \<or> between (internal_state s) new (internal_state s') \<and> shifted OCC_STATE_OBSERVATION s' s"
proof -
  have r: "lands st s (f E s) \<Longrightarrow> quiet s' s \<or> l = None \<and> shifted st s' s" for st
    using assms(2) by (simp add: lands_def)
  note lands = lands_standby_to_observation lands_standby_to_characterization lands_observation_to_characterization
    lands_observation_to_active lands_characterization_to_observation lands_active_to_observation
    lands_active_to_characterization lands_all_to_standby lands_all_to_safe
  have "f = SMGR_standby_to_active \<and> internal_state s = OCC_STATE_STANDBY \<and> new = OCC_STATE_ACTIVE \<or> lands new s (f E s)"
    using find_trans_sound [OF assms(1)] assms(3)
    unfolding G_smgr_state_trans_def SMGR_characterization_to_active_def [abs_def]
    by (auto simp: flag_facts intro!: lands mask_ok_def)
  then show ?thesis
  proof
    assume a: "f = SMGR_standby_to_active \<and> internal_state s = OCC_STATE_STANDBY \<and> new = OCC_STATE_ACTIVE"
    then have "quiet s' s \<or> shifted OCC_STATE_OBSERVATION s' s \<or> l = None \<and> shifted OCC_STATE_ACTIVE s' s"
      using standby_to_active_lands [OF assms(3) _ assms(4)] assms(2) by auto
    then show ?thesis using a by (auto simp: between_def shifted_def)
  qed (use r in blast)
qed

text \<open>SMGR_set_state with the semaphore taken and a transition found, before and after the transition.\<close>

definition before_transition :: "occ \<Rightarrow> occ" where
  "before_transition s = s\<lparr>trans_sem := trans_sem s - 1, transition_occuring := True\<rparr>"

definition after_transition :: "occ \<Rightarrow> occ" where
  "after_transition s1 =
     (let s2 = s1\<lparr>transition_occuring := False\<rparr>;
          s3 = (if kvm (am_cfg (am s2)) then s2\<lparr>wakeups := wakeups s2 + 1\<rparr> else s2)
      in (if internal_state s3 = req_state s3 then s3\<lparr>req_state := OCC_STATE_NOCHANGE\<rparr> else s3))"

lemma after_transition [simp]:
  "internal_state (after_transition s) = internal_state s" "run_mask_deferred (after_transition s) = run_mask_deferred s"
  "task_flags (after_transition s) = task_flags s" "cnfgdata (after_transition s) = cnfgdata s"
  "active_mask (after_transition s) = active_mask s" "observation_mask (after_transition s) = observation_mask s"
  "trans_sem (after_transition s) = trans_sem s"
  "sem_posts (after_transition s) = sem_posts s" "halt_on_reset (after_transition s) = halt_on_reset s"
  "\<not> transition_occuring (after_transition s)"
  by (simp_all add: after_transition_def Let_def)

lemma smgr_post [simp]:
  "internal_state (smgr_post s) = internal_state s" "run_mask_deferred (smgr_post s) = run_mask_deferred s"
  "task_flags (smgr_post s) = task_flags s" "cnfgdata (smgr_post s) = cnfgdata s"
  "active_mask (smgr_post s) = active_mask s" "observation_mask (smgr_post s) = observation_mask s"
  "trans_sem (smgr_post s) = trans_sem s + 1" "sem_posts (smgr_post s) = sem_posts s + 1" "calls (smgr_post s) = calls s"
  "pstate_status (smgr_post s) = pstate_status s" "rtl_logs (smgr_post s) = rtl_logs s"
  "mem_monitoring_allowed (smgr_post s) = mem_monitoring_allowed s" "gpu_monitoring_allowed (smgr_post s) = gpu_monitoring_allowed s"
  "transition_occuring (smgr_post s) = transition_occuring s"
  by (simp_all add: smgr_post_def)

lemma set_state_found:
  "sem_pend_rc E (clock s) = 0 \<Longrightarrow> trans_sem s \<noteq> 0 \<Longrightarrow> new \<noteq> OCC_STATE_NOCHANGE \<Longrightarrow> find_trans (internal_state s) new = Some f \<Longrightarrow>
    SMGR_set_state E new s = map_option (\<lambda>(l, s1). (l, smgr_post (after_transition s1))) (f E (before_transition s))"
  unfolding SMGR_set_state_def
  by (cases "f E (before_transition s)") (simp_all add: smgr_pend_def before_transition_def after_transition_def Let_def split_beta)

lemma set_state_blocks: "sem_pend_rc E (clock s) = 0 \<Longrightarrow> trans_sem s = 0 \<Longrightarrow> SMGR_set_state E new s = None"
  by (simp add: SMGR_set_state_def smgr_pend_def)

definition set_state_refuses :: "env \<Rightarrow> occ_state \<Rightarrow> occ \<Rightarrow> bool" where
  "set_state_refuses E new s \<longleftrightarrow> sem_pend_rc E (clock s) \<noteq> 0 \<or>
     trans_sem s \<noteq> 0 \<and> (new = OCC_STATE_NOCHANGE \<or> find_trans (internal_state s) new = None)"

lemma set_state_refused:
  "set_state_refuses E new s \<Longrightarrow> \<exists>l k. SMGR_set_state E new s = Some (l, smgr_post (s\<lparr>trans_sem := k\<rparr>))"
proof (cases "sem_pend_rc E (clock s) = 0")
  case True
  then show "set_state_refuses E new s \<Longrightarrow> ?thesis"
    by (auto simp: set_state_refuses_def SMGR_set_state_def smgr_pend_def Let_def intro!: exI [of _ "trans_sem s - 1"])
next
  case False
  then show ?thesis by (auto simp: SMGR_set_state_def smgr_pend_def Let_def intro!: exI [of _ "trans_sem s"])
qed

text \<open>What the configuration masks and the tasks promise the changes of state.\<close>

definition occ_inv :: "occ \<Rightarrow> bool" where
  "occ_inv s \<longleftrightarrow> mask_ok s \<and> actuators_ok s \<and> active_mask s AND observation_mask s = observation_mask s"

lemma inv_cong:
  assumes "internal_state s' = internal_state s" "run_mask_deferred s' = run_mask_deferred s" "task_flags s' = task_flags s"
    "active_mask s' = active_mask s" "observation_mask s' = observation_mask s"
  shows "mask_ok s' = mask_ok s" "actuators_ok s' = actuators_ok s" "occ_inv s' = occ_inv s"
  using assms by (simp_all add: mask_ok_def actuators_ok_def occ_inv_def)

lemma begin_keeps [simp]:
  "internal_state (before_transition s) = internal_state s" "trans_sem (before_transition s) = trans_sem s - 1"
  "active_mask (before_transition s) = active_mask s" "observation_mask (before_transition s) = observation_mask s"
  "sem_posts (before_transition s) = sem_posts s" "mask_ok (before_transition s) = mask_ok s"
  "actuators_ok (before_transition s) = actuators_ok s" "occ_inv (before_transition s) = occ_inv s"
  by (simp_all add: before_transition_def mask_ok_def actuators_ok_def occ_inv_def)

lemma landed_keeps:
  assumes "quiet s1 u \<or> shifted st s1 u" "mask_ok u"
  shows "mask_ok s1" "kept s1 u" "occ_inv u \<longrightarrow> occ_inv s1"
  using assms mask_quiet [of s1 u] by (auto simp: shifted_def quiet_def kept_def occ_inv_def)

text \<open>Every result of SMGR_set_state is one of a change that was made, one that was not, or the halfway stop.\<close>

lemma set_state_cases:
  assumes "SMGR_set_state E new s = Some (l, s')" "mask_ok s" "active_mask s AND observation_mask s = observation_mask s"
  shows "mask_ok s' \<and> (occ_inv s \<longrightarrow> occ_inv s') \<and> sem_posts s' = sem_posts s + 1 \<and> 0 < trans_sem s' \<and>
    (internal_state s' = internal_state s \<or> l = None \<and> internal_state s' = new \<or> between (internal_state s) new (internal_state s'))"
proof (cases "set_state_refuses E new s")
  case True
  then obtain k where "s' = smgr_post (s\<lparr>trans_sem := k\<rparr>)" using set_state_refused assms(1) by fastforce
  then show ?thesis using assms(2) by (simp add: inv_cong [of "smgr_post (s\<lparr>trans_sem := k\<rparr>)" s])
next
  case False
  then obtain f where f: "find_trans (internal_state s) new = Some f" "sem_pend_rc E (clock s) = 0" "new \<noteq> OCC_STATE_NOCHANGE" "trans_sem s \<noteq> 0"
    using set_state_blocks [of E s new] assms(1) unfolding set_state_refuses_def by fastforce
  let ?u = "before_transition s"
  obtain s1 where s1: "f E ?u = Some (l, s1)" "s' = smgr_post (after_transition s1)"
    using assms(1) unfolding set_state_found [OF f(2,4,3,1)] by auto
  have d: "quiet s1 ?u \<or> l = None \<and> shifted new s1 ?u \<or> between (internal_state s) new (internal_state s1) \<and> shifted OCC_STATE_OBSERVATION s1 ?u"
    using transition_lands [of ?u new f E l s1] s1(1) assms(2,3) f(1) by simp
  then obtain st where "quiet s1 ?u \<or> shifted st s1 ?u" by blast
  note k = landed_keeps [OF this]
  have "internal_state s1 = internal_state s \<or> l = None \<and> internal_state s1 = new \<or> between (internal_state s) new (internal_state s1)"
    using d by (auto simp: quiet_def shifted_def)
  then show ?thesis using k assms(2) unfolding s1(2) by (simp add: inv_cong [of "smgr_post (after_transition s1)" s1] kept_def)
qed

section \<open>The OCC and its ticks\<close>

definition retains :: "u32 \<Rightarrow> u32 \<Rightarrow> u32 \<Rightarrow> bool" where
  "retains f m' m \<longleftrightarrow> (f AND m) AND m' = f AND m"

lemma retains_bits: "retains f m' m \<longleftrightarrow> (\<forall>n. bit f n \<and> bit m n \<longrightarrow> bit m' n)"
  unfolding retains_def bit_eq_iff bit_and_iff by (meson bit_imp_possible_bit)

lemma retains [simp]: "retains f m m" "retains f (m OR x) m"
  by (simp_all add: retains_bits bit_or_iff)





text \<open>What the tasks of a tick and the other threads may do to the schedule besides a change of state:
  nothing to the flags of the states, no task gains a flag that would let it run while observing, and
  what the active state requires of the configuration only grows (mem_cfg_stored).\<close>

definition mode_frame :: "occ \<Rightarrow> occ \<Rightarrow> bool" where
  "mode_frame s' s \<longleftrightarrow> internal_state s' = internal_state s \<and> observation_mask s' = observation_mask s \<and>
     active_mask s AND active_mask s' = active_mask s \<and>
     run_mask_deferred s' AND MODES = run_mask_deferred s AND MODES \<and>
     retains RTL_FLAG_RST_REQ (run_mask_deferred s') (run_mask_deferred s) \<and>
     retains PASSIVE (run_mask s') (run_mask s) \<and> (actuators_ok s \<longrightarrow> actuators_ok s')"




definition occ_initial :: "occ \<Rightarrow> bool" where
  "occ_initial s \<longleftrightarrow> internal_state s = OCC_STATE_STANDBY \<and> run_mask s = GLOBAL_RUN_MASK \<and> run_mask_deferred s = GLOBAL_RUN_MASK \<and>
     (\<forall>t < TASK_END. task_flags s t = G_task_flags ! t) \<and> active_mask s = SMGR_VALIDATE_DATA_ACTIVE_MASK_HARDCODES \<and>
     observation_mask s = SMGR_VALIDATE_DATA_OBSERVATION_MASK_HARDCODES \<and> trans_sem s = 1"




lemma initial_inv: "occ_initial s \<Longrightarrow> occ_inv s"
proof -
  assume a: "occ_initial s"
  have "GLOBAL_RUN_MASK AND MODES = RTL_FLAG_STANDBY" "TASK_ID_CORE_DATA_CONTROL < TASK_END" "TASK_ID_MEMORY_CONTROL < TASK_END"
    "G_task_flags ! TASK_ID_CORE_DATA_CONTROL AND PASSIVE = 0" "G_task_flags ! TASK_ID_MEMORY_CONTROL AND PASSIVE = 0"
    "SMGR_VALIDATE_DATA_ACTIVE_MASK_HARDCODES AND SMGR_VALIDATE_DATA_OBSERVATION_MASK_HARDCODES = SMGR_VALIDATE_DATA_OBSERVATION_MASK_HARDCODES"
    by code_simp+
  then show ?thesis using a by (simp add: occ_initial_def occ_inv_def mask_ok_def actuators_ok_def flag_facts)
qed








lemma frame_refl [simp]: "mode_frame s s" by (simp add: mode_frame_def)













section \<open>A Pstate engine that does not answer\<close>

definition clip_unanswered :: "env \<Rightarrow> bool" where
  "clip_unanswered E \<longleftrightarrow> (\<forall>t. reply E Clip_Update t = None)"

lemma busy_sleep: "clip_unanswered E \<Longrightarrow> busy (sleep_us E us s) Clip_Update = busy s Clip_Update"
  by (simp add: sleep_us_def busy_after clip_unanswered_def)

lemma u8_wait_hangs: "clip_unanswered E \<Longrightarrow> busy s Clip_Update \<Longrightarrow> wait_clip_u8 E w s = None"
proof (rule ccontr)
  assume u: "clip_unanswered E" and b: "busy s Clip_Update" and n: "wait_clip_u8 E w s \<noteq> None"
  then obtain y where "wait_clip_u8 E w s = Some y" by blast
  then have "\<not> (clip_unanswered E \<and> busy s Clip_Update)"
  proof (induction rule: wait_clip_u8.raw_induct [rotated, consumes 1, case_names 1])
    case (1 f E w s y)
    have "unat w < 2 ^ LENGTH(8)" by (rule unsigned_less)
    then have "\<not> CLIP_UPDATE_TIMEOUT < unat w" by (simp add: CLIP_UPDATE_TIMEOUT_def)
    then have "busy s Clip_Update \<Longrightarrow> f E (w + 1) (sleep_us E 1 s) = Some y" using 1(2) by simp
    then show ?case using 1(1) busy_sleep [of E 1 s] by blast
  qed
  then show False using u b by simp
qed

lemma u32_wait_ends: "clip_unanswered E \<Longrightarrow> busy s Clip_Update \<Longrightarrow> n = 501 - unat w \<Longrightarrow> \<exists>s'. wait_clip_u32 E w s = Some (False, s')"
proof (induction n arbitrary: w s)
  case 0
  then show ?case by (subst wait_clip_u32.simps) (simp add: CLIP_UPDATE_TIMEOUT_def)
next
  case (Suc n)
  then have w: "unat w \<le> 500" by simp
  then have "unat (w + 1) = unat w + 1" by (simp add: unat_word_ariths)
  then have "\<exists>s'. wait_clip_u32 E (w + 1) (sleep_us E 1 s) = Some (False, s')"
    using Suc w by (intro Suc.IH) (simp_all add: busy_sleep)
  then show ?case using Suc.prems(2) w by (subst wait_clip_u32.simps) (simp add: CLIP_UPDATE_TIMEOUT_def)
qed

text \<open>The change from active to observation behind a clip request that is not answered.\<close>

lemma active_hangs:
  assumes "clip_unanswered E" "busy s Clip_Update" "internal_state s = OCC_STATE_ACTIVE" "present_cores s" "sem_pend_rc E (clock s) = 0"
  shows "SMGR_set_state E OCC_STATE_OBSERVATION s = None"
proof (cases "trans_sem s = 0")
  case False
  have f: "find_trans (internal_state s) OCC_STATE_OBSERVATION = Some SMGR_active_to_observation"
    by (simp add: find_trans_def G_smgr_state_trans_def assms(3))
  let ?u = "add_call (Call_wof_set WOF_RC_STATE_CHANGE ERC_WOF_STATE_CHANGE) (before_transition s)"
  have "busy ?u Clip_Update" "present_cores ?u" using assms(2,4) by (simp_all add: add_call_def present_cores_def before_transition_def)
  then have "SMGR_active_to_observation E (before_transition s) = None"
    using u8_wait_hangs [OF assms(1), of ?u 0]
    by (simp add: SMGR_active_to_observation_def pgpe_set_clip_blocking_def Let_def)
  then show ?thesis using set_state_found [OF assms(5) False _ f] by simp
qed (use assms(5) set_state_blocks in blast)

section \<open>A demonstration OCC\<close>

definition demo_env :: env where
  "demo_env = \<lparr>lag = (\<lambda>_. 0), sched_rc = (\<lambda>_ _. 0), reply = (\<lambda>_ _. Some 1), occflg = (\<lambda>_. 0), mem_init_fails = (\<lambda>_. False),
     sem_pend_rc = (\<lambda>_. 0)\<rparr>"

definition silent_env :: env where
  "silent_env = demo_env\<lparr>reply := (\<lambda>_ _. None)\<rparr>"

definition demo_occ :: occ where
  "demo_occ = \<lparr>run_mask = GLOBAL_RUN_MASK, run_mask_deferred = GLOBAL_RUN_MASK, current_tick = 0xFFFFFFFF, mics_per_tick = 500,
     task_flags = (\<lambda>t. G_task_flags ! t), task_data = (\<lambda>_. 0), bad_id_reported = False, time_error_logged = False, rtl_dur = 0,
     time_exceeded_count = 0, rtl_logs = [],
     clock = 0, busy = (\<lambda>_. False), clip_rc = 0, clip_min = (\<lambda>_. 0), clip_max = (\<lambda>_. 0), last_list = 0, pmcr_rc = 0, pmcr = (\<lambda>_. 0),
     start_rc = 0, start_action = 0, start_owner = PMCR_OWNER_HOST, ss_pgpe_rc = 0, pstate_status = PSTATES_DISABLED,
     pmcr_owner = PMCR_OWNER_HOST, set_pStates = False, am = demo_amec, simics = False, fir_master = False, cnfgdata = 0,
     active_mask = SMGR_VALIDATE_DATA_ACTIVE_MASK_HARDCODES, observation_mask = SMGR_VALIDATE_DATA_OBSERVATION_MASK_HARDCODES,
     reset_state = RESET_NOT_REQUESTED, halt_on_reset = False, wakeups = 0, internal_state = OCC_STATE_STANDBY,
     req_state = OCC_STATE_NOCHANGE, ext_req_state = OCC_STATE_NOCHANGE, transition_occuring = False, logged_stb_obs = False,
     logged_stb_chr = False, logged_obs_chr = False, logged_obs_act = False, mem_monitoring_allowed = False,
     gpu_monitoring_allowed = False, mem_pwr_ctl = False, trans_sem = 1, sem_posts = 0, calls = []\<rparr>"

lemma demo_initial: "occ_initial demo_occ" by (simp add: occ_initial_def demo_occ_def)

lemma demo_mask: "mask_ok demo_occ" "active_mask demo_occ AND observation_mask demo_occ = observation_mask demo_occ"
  using initial_inv [OF demo_initial] by (simp_all add: occ_inv_def)

lemma demo_returns: "\<exists>l s'. SMGR_set_state demo_env OCC_STATE_OBSERVATION demo_occ = Some (l, s')"
  by (simp add: SMGR_set_state_def smgr_pend_def demo_env_def demo_occ_def find_trans_def G_smgr_state_trans_def SMGR_standby_to_observation_def
      obs_ready_iff memory_init_def enter_state_def Let_def rtl_set_run_mask_deferred_def rtl_clr_run_mask_deferred_def)



text \<open>An active OCC whose clip request is never answered.\<close>

definition active_occ :: occ where
  "active_occ = demo_occ\<lparr>busy := (\<lambda>_. True), internal_state := OCC_STATE_ACTIVE, pstate_status := PSTATES_ENABLED\<rparr>"

lemma active_occ_facts:
  "clip_unanswered silent_env" "busy active_occ Clip_Update" "internal_state active_occ = OCC_STATE_ACTIVE" "present_cores active_occ"
  "sem_pend_rc silent_env (clock active_occ) = 0"
  by (simp_all add: active_occ_def clip_unanswered_def silent_env_def demo_env_def present_cores_def demo_occ_def demo_amec_def demo_glob_def)


section \<open>Properties\<close>



text \<open>
  C3: What a change of state can do. SMGR_set_state, when it returns, leaves the OCC in the state it
  was in or in the requested one, or, on the way from standby to active, in observation, which is
  halfway; it returns an error log only in the first and the last case; the run mask of the next
  tick fits the state it leaves; and the semaphore is posted once, so that it is free.
\<close>

theorem set_state_outcome:
  assumes "SMGR_set_state E new s = Some (l, s')" "mask_ok s" "active_mask s AND observation_mask s = observation_mask s"
  shows "(internal_state s' = internal_state s \<or> l = None \<and> internal_state s' = new \<or> between (internal_state s) new (internal_state s')) \<and>
    mask_ok s' \<and> sem_posts s' = sem_posts s + 1 \<and> 0 < trans_sem s'"
  using set_state_cases [OF assms] by blast

theorem set_state_outcome_witness:
  "\<exists>l s'. SMGR_set_state demo_env OCC_STATE_OBSERVATION demo_occ = Some (l, s') \<and> mask_ok s' \<and> sem_posts s' = 1"
proof -
  obtain l s' where r: "SMGR_set_state demo_env OCC_STATE_OBSERVATION demo_occ = Some (l, s')"
    using demo_returns by blast
  then show ?thesis using set_state_outcome [OF r demo_mask] by (auto simp: demo_occ_def)
qed



text \<open>
  C2: Every change of state returns when the Pstate engine answers. If from some time on every request
  is answered, the semaphore of the changes is free, as it is after every change that returned,
  resets are not to halt the processor, and the wait for Pstates to settle has a limit
  that leaves room for one more step in 32 bits, SMGR_set_state returns for every requested state,
  and leaves the semaphore free.
\<close>

theorem set_state_returns:
  assumes "answers_from E t0" "\<not> halt_on_reset s" "limit_ok s" "mask_ok s" "trans_sem s \<noteq> 0"
  shows "\<exists>l s'. SMGR_set_state E new s = Some (l, s') \<and> trans_sem s' \<noteq> 0"
proof (cases "set_state_refuses E new s")
  case True
  then show ?thesis using set_state_refused [OF True] by fastforce
next
  case False
  then obtain f where f: "find_trans (internal_state s) new = Some f" "sem_pend_rc E (clock s) = 0" "new \<noteq> OCC_STATE_NOCHANGE"
    using assms(5) unfolding set_state_refuses_def by blast
  let ?u = "before_transition s"
  have "fit E ?u" using assms by (auto simp: fit_def limit_ok_def WAIT_PGPE_TASK_TIMEOUT_def before_transition_def)
  moreover have "find_trans (internal_state ?u) new = Some f" "mask_ok ?u" using assms(4) f(1) by simp_all
  ultimately have "f E ?u \<noteq> None" by (intro transition_returns)
  then show ?thesis unfolding set_state_found [OF f(2) assms(5) f(3,1)] by auto
qed

theorem set_state_returns_witness:
  "\<exists>l s'. SMGR_set_state demo_env OCC_STATE_ACTIVE demo_occ = Some (l, s')"
proof -
  have "trans_sem demo_occ \<noteq> 0" by (simp add: demo_occ_def)
  then show ?thesis using set_state_returns [of demo_env 0 demo_occ OCC_STATE_ACTIVE] demo_mask(1)
    by (simp add: answers_from_def demo_env_def limit_ok_def WAIT_PGPE_TASK_TIMEOUT_def demo_occ_def) blast
qed

text \<open>
  C5: A wait that never ends. When the Pstate engine does not answer the clip request before a change
  from active to observation, the change never returns: the timeout of 500 is compared with a
  counter of 8 bits, which wraps first. The same wait with a counter of 32 bits gives up.
\<close>

theorem clip_wait_never_ends:
  assumes "clip_unanswered E" "busy s Clip_Update" "internal_state s = OCC_STATE_ACTIVE" "present_cores s" "sem_pend_rc E (clock s) = 0"
  shows "SMGR_set_state E OCC_STATE_OBSERVATION s = None \<and> (\<exists>s'. wait_clip_u32 E 0 s = Some (False, s'))"
  using active_hangs [OF assms] u32_wait_ends [OF assms(1,2) refl] by blast

theorem clip_wait_never_ends_witness:
  "\<exists>(s :: occ). pstate_status s = PSTATES_ENABLED \<and> trans_sem s = 1 \<and> SMGR_set_state silent_env OCC_STATE_OBSERVATION s = None"
proof -
  have "SMGR_set_state silent_env OCC_STATE_OBSERVATION active_occ = None"
    using clip_wait_never_ends [of silent_env active_occ] active_occ_facts by blast
  moreover have "pstate_status active_occ = PSTATES_ENABLED" "trans_sem active_occ = 1" by (simp_all add: active_occ_def demo_occ_def)
  ultimately show ?thesis by blast
qed

text \<open>
  C7: Characterization without its data. An OCC in observation that is not ready for the active state
  accepts a request for characterization: no error log, no clips set, no Pstates started, and the
  state is characterization. The return code meant to refuse it, INTERNAL_FAILURE, is zero.
\<close>

theorem characterization_without_data:
  assumes "\<not> act_ready s" "internal_state s = OCC_STATE_OBSERVATION" "sem_pend_rc E (clock s) = 0" "trans_sem s \<noteq> 0"
  shows "\<exists>s'. SMGR_set_state E OCC_STATE_CHARACTERIZATION s = Some (None, s') \<and> internal_state s' = OCC_STATE_CHARACTERIZATION
    \<and> calls s' = calls s \<and> pstate_status s' = pstate_status s \<and> rtl_logs s' = rtl_logs s"
proof -
  let ?u = "before_transition s"
  have f: "find_trans (internal_state s) OCC_STATE_CHARACTERIZATION = Some SMGR_observation_to_characterization"
    by (simp add: find_trans_def G_smgr_state_trans_def assms(2))
  have "SMGR_observation_to_characterization E ?u = Some (None, ?u\<lparr>internal_state := OCC_STATE_CHARACTERIZATION\<rparr>)"
    using assms(1) by (simp add: SMGR_observation_to_characterization_def act_ready_iff INTERNAL_FAILURE_def before_transition_def)
  moreover have "calls (after_transition y) = calls y" "pstate_status (after_transition y) = pstate_status y" "rtl_logs (after_transition y) = rtl_logs y" for y
    by (simp_all add: after_transition_def Let_def)
  moreover have "calls ?u = calls s" "pstate_status ?u = pstate_status s" "rtl_logs ?u = rtl_logs s" by (simp_all add: before_transition_def)
  ultimately show ?thesis using set_state_found [OF assms(3,4) _ f] by simp
qed

theorem characterization_without_data_witness:
  "\<exists>(s :: occ) s'. cnfgdata s = 0 \<and> SMGR_set_state demo_env OCC_STATE_CHARACTERIZATION s = Some (None, s') \<and>
    internal_state s' = OCC_STATE_CHARACTERIZATION"
proof -
  let ?s = "demo_occ\<lparr>internal_state := OCC_STATE_OBSERVATION\<rparr>"
  have "SMGR_VALIDATE_DATA_ACTIVE_MASK_HARDCODES \<noteq> 0" by code_simp
  then have "\<not> act_ready ?s" by (simp add: act_ready_iff demo_occ_def)
  moreover have "trans_sem ?s \<noteq> 0" by (simp add: demo_occ_def)
  ultimately have "\<exists>s'. SMGR_set_state demo_env OCC_STATE_CHARACTERIZATION ?s = Some (None, s') \<and> internal_state s' = OCC_STATE_CHARACTERIZATION"
    using characterization_without_data [of ?s demo_env] by (simp add: demo_env_def) blast
  moreover have "cnfgdata ?s = 0" by (simp add: demo_occ_def)
  ultimately show ?thesis by blast
qed



end
