(* ===== verification/IPC.thy ===== *)
theory IPC
  imports SSX_Kernel
begin

text \<open>
  lib/occlib/ipc_core.c, ipc_init.c, ipc_macros.h, ipc_structs.h: messages between the five processors of the
  OCC. The processors share, for each target and each sender, a circular buffer of message pointers
  with an 8-bit read and write count; the same code runs on all of them and \<open>self\<close> is the processor's
  number. Handler 0 is the null pointer and handler 1 \<open>ipc_default_handler\<close>; the code of the others
  is a parameter. \<open>ipc_posts\<close> lists the messages whose semaphore has been posted. On the 405 the
  interrupt handler runs in a critical interrupt (\<open>ipc_critical\<close>; a PPE has none), and a message handler
  that needs the kernel defers its message (\<open>ipc_deferred\<close>) to the handler of the interrupt
  \<open>ipc_async_ipi\<close>, which takes the deferred messages after the callbacks of SSX_Async.
\<close>

unbundle bit_operations_syntax

section \<open>Messages and buffers\<close>

record ipc_func_id_t =
  target_id :: u8
  sender_id :: u8
  reserved :: "4 word"
  active_flag :: bool
  valid_flag :: bool
  response_flag :: bool
  multi_target_flag :: bool
  table_index :: u8

record ipc_msg_t =
  func_id :: ipc_func_id_t
  ipc_rc :: u32
  resp_callback :: nat
  callback_arg :: nat

record ipc_target_t =
  reads :: "nat \<Rightarrow> u8"
  writes :: "nat \<Rightarrow> u8"
  cbufs :: "nat \<Rightarrow> nat \<Rightarrow> nat"

record ipc =
  ipc_targets :: "nat \<Rightarrow> ipc_target_t"
  ipc_msgs :: "nat \<Rightarrow> ipc_msg_t"
  G_ipc_enabled :: "nat \<Rightarrow> bool"
  G_ipc_mt_handlers :: "nat \<Rightarrow> nat \<Rightarrow> nat \<times> nat"
  G_ipc_st_handlers :: "nat \<Rightarrow> nat \<Rightarrow> nat \<times> nat"
  ipc_irq_status :: "nat \<Rightarrow> bool"
  ipc_irq_masked :: "nat \<Rightarrow> bool"
  ipc_posts :: "nat list"
  ipc_critical :: bool
  ipc_deferred :: "nat list"
  ipc_async_ipi :: bool

definition IPC_CBUF_SIZE :: nat where "IPC_CBUF_SIZE = 8"
definition IPC_MT_MAX_FUNCTIONS :: nat where "IPC_MT_MAX_FUNCTIONS = 8"
definition IPC_ST_MAX_FUNCTIONS :: nat where "IPC_ST_MAX_FUNCTIONS = 16"
definition OCCHW_INST_ID_PPC :: nat where "OCCHW_INST_ID_PPC = 4"
definition OCCHW_INST_ID_MAX :: nat where "OCCHW_INST_ID_MAX = 4"

definition IPC_RC_SUCCESS :: u32 where "IPC_RC_SUCCESS = 0"
definition IPC_RC_CMD_FAILED :: u32 where "IPC_RC_CMD_FAILED = 0x00472000"
definition IPC_RC_BUFFER_FULL :: u32 where "IPC_RC_BUFFER_FULL = 0x00472001"
definition IPC_RC_SELF_BLOCKED :: u32 where "IPC_RC_SELF_BLOCKED = 0x00472002"
definition IPC_RC_TARGET_BLOCKED :: u32 where "IPC_RC_TARGET_BLOCKED = 0x00472003"
definition IPC_RC_MSG_ACTIVE :: u32 where "IPC_RC_MSG_ACTIVE = 0x00472004"
definition IPC_RC_INVALID_FUNC_ID :: u32 where "IPC_RC_INVALID_FUNC_ID = 0x00472005"
definition IPC_RC_CMD_NOT_SUPPORTED :: u32 where "IPC_RC_CMD_NOT_SUPPORTED = 0x00472006"
definition IPC_RC_INVALID_TARGET_ID :: u32 where "IPC_RC_INVALID_TARGET_ID = 0x00472007"
definition IPC_RC_INVALID_ARG :: u32 where "IPC_RC_INVALID_ARG = 0x00472008"
definition IPC_RC_MSG_NOT_ACTIVE :: u32 where "IPC_RC_MSG_NOT_ACTIVE = 0x00472009"

definition IPC_FLAG_MT :: u32 where "IPC_FLAG_MT = 0x00000100"
definition IPC_FLAG_RESPONSE :: u32 where "IPC_FLAG_RESPONSE = 0x00000200"
definition IPC_FLAG_ACTIVE :: u32 where "IPC_FLAG_ACTIVE = 0x00000800"
definition IPC_TARGET_MASK :: u32 where "IPC_TARGET_MASK = 0xff000000"
definition IPC_SENDER_MASK :: u32 where "IPC_SENDER_MASK = 0x00ff0000"
definition IPC_TARGET_SHIFT :: nat where "IPC_TARGET_SHIFT = 24"

text \<open>The two readings of the union \<open>ipc_func_id_t\<close>; its first bit-field is the most significant.\<close>

definition of_word32 :: "u32 \<Rightarrow> ipc_func_id_t" where
  "of_word32 w = \<lparr>target_id = ucast (drop_bit 24 w), sender_id = ucast (drop_bit 16 w), reserved = ucast (drop_bit 12 w),
     active_flag = bit w 11, valid_flag = bit w 10, response_flag = bit w 9, multi_target_flag = bit w 8, table_index = ucast w\<rparr>"

definition word32 :: "ipc_func_id_t \<Rightarrow> u32" where
  "word32 f = push_bit 24 (ucast (target_id f)) OR push_bit 16 (ucast (sender_id f)) OR push_bit 12 (ucast (reserved f)) OR
     (if active_flag f then IPC_FLAG_ACTIVE else 0) OR (if valid_flag f then 0x400 else 0) OR
     (if response_flag f then IPC_FLAG_RESPONSE else 0) OR (if multi_target_flag f then IPC_FLAG_MT else 0) OR ucast (table_index f)"

definition IPC_FUNCID_IS_MT :: "u32 \<Rightarrow> bool" where
  "IPC_FUNCID_IS_MT funcid \<longleftrightarrow> IPC_FLAG_MT AND funcid \<noteq> 0"

definition IPC_SET_MT_TARGET :: "u32 \<Rightarrow> u32 \<Rightarrow> u32" where
  "IPC_SET_MT_TARGET funcid targetid =
     (if funcid AND IPC_FLAG_MT \<noteq> 0 then push_bit IPC_TARGET_SHIFT targetid OR (funcid AND NOT IPC_TARGET_MASK)
      else IPC_TARGET_MASK OR funcid)"

definition IPC_GET_TARGET_ID :: "u32 \<Rightarrow> u32" where
  "IPC_GET_TARGET_ID funcid = drop_bit IPC_TARGET_SHIFT funcid"

text \<open>The function ids of ipc_func_ids.h: one multi-target function, and those of each instance.\<close>

definition IPC_MT_NUM_FUNCIDS :: nat where "IPC_MT_NUM_FUNCIDS = 1"

definition IPC_ST_NUM_FUNCIDS :: "nat \<Rightarrow> nat" where
  "IPC_ST_NUM_FUNCIDS self = (if self = 0 then 13 else if self = 1 then 12 else if self = 2 then 6 else 0)"

abbreviation upd_msg :: "nat \<Rightarrow> (ipc_msg_t \<Rightarrow> ipc_msg_t) \<Rightarrow> ipc \<Rightarrow> ipc" where
  "upd_msg m f s \<equiv> s\<lparr>ipc_msgs := (ipc_msgs s)(m := f (ipc_msgs s m))\<rparr>"

abbreviation upd_fid :: "nat \<Rightarrow> (ipc_func_id_t \<Rightarrow> ipc_func_id_t) \<Rightarrow> ipc \<Rightarrow> ipc" where
  "upd_fid m f s \<equiv> upd_msg m (\<lambda>x. x\<lparr>func_id := f (func_id x)\<rparr>) s"

abbreviation upd_target :: "nat \<Rightarrow> (ipc_target_t \<Rightarrow> ipc_target_t) \<Rightarrow> ipc \<Rightarrow> ipc" where
  "upd_target t f s \<equiv> s\<lparr>ipc_targets := (ipc_targets s)(t := f (ipc_targets s t))\<rparr>"

section \<open>Sending\<close>

definition num_entries :: "nat \<Rightarrow> nat \<Rightarrow> ipc \<Rightarrow> u8" where
  "num_entries t sd s = writes (ipc_targets s t) sd - reads (ipc_targets s t) sd"

definition ipc_send_msg :: "nat \<Rightarrow> nat \<Rightarrow> nat \<Rightarrow> ipc \<Rightarrow> u32 \<times> ipc" where
  "ipc_send_msg self msg t s =
     (if t > OCCHW_INST_ID_MAX then (IPC_RC_INVALID_TARGET_ID, s)
      else if num_entries t self s < of_nat IPC_CBUF_SIZE then
        (let s1 = upd_fid msg (\<lambda>f. f\<lparr>active_flag := True\<rparr>) s;
             w = writes (ipc_targets s t) self;
             s2 = upd_target t (\<lambda>x. x\<lparr>cbufs := (cbufs x)(self := (cbufs x self)(unat w mod IPC_CBUF_SIZE := msg)),
                                      writes := (writes x)(self := w + 1)\<rparr>) s1
         in (IPC_RC_SUCCESS, s2\<lparr>ipc_irq_status := (ipc_irq_status s2)(t := True)\<rparr>))
      else (if num_entries t self s = of_nat IPC_CBUF_SIZE then IPC_RC_BUFFER_FULL else IPC_RC_TARGET_BLOCKED, s))"

definition ipc_send_cmd :: "nat \<Rightarrow> nat \<Rightarrow> ipc \<Rightarrow> u32 \<times> ipc" where
  "ipc_send_cmd self cmd s =
     (if \<not> G_ipc_enabled s self then (IPC_RC_SELF_BLOCKED, s)
      else if \<not> valid_flag (func_id (ipc_msgs s cmd)) then (IPC_RC_INVALID_FUNC_ID, s)
      else if active_flag (func_id (ipc_msgs s cmd)) then (IPC_RC_MSG_ACTIVE, s)
      else
        (let s1 = upd_fid cmd (\<lambda>f. f\<lparr>response_flag := False, sender_id := of_nat self\<rparr>) s;
             s2 = upd_msg cmd (\<lambda>x. x\<lparr>ipc_rc := 0\<rparr>) s1;
             (rc, s3) = ipc_send_msg self cmd (unat (target_id (func_id (ipc_msgs s2 cmd)))) s2
         in (rc, upd_msg cmd (\<lambda>x. x\<lparr>ipc_rc := rc\<rparr>) s3)))"

definition ipc_send_rsp :: "nat \<Rightarrow> nat \<Rightarrow> u32 \<Rightarrow> ipc \<Rightarrow> u32 \<times> ipc" where
  "ipc_send_rsp self rsp rc s =
     (if active_flag (func_id (ipc_msgs s rsp)) then
        (let s1 = upd_msg rsp (\<lambda>x. x\<lparr>func_id := (func_id x)\<lparr>response_flag := True\<rparr>, ipc_rc := rc\<rparr>) s
         in ipc_send_msg self rsp (unat (sender_id (func_id (ipc_msgs s1 rsp)))) s1)
      else (IPC_RC_MSG_NOT_ACTIVE, s))"

definition ipc_default_handler :: "nat \<Rightarrow> nat \<Rightarrow> ipc \<Rightarrow> ipc" where
  "ipc_default_handler self msg s = snd (ipc_send_rsp self msg IPC_RC_CMD_NOT_SUPPORTED s)"

definition ipc_ping_handler :: "nat \<Rightarrow> nat \<Rightarrow> ipc \<Rightarrow> ipc" where
  "ipc_ping_handler self cmd s = snd (ipc_send_rsp self cmd IPC_RC_SUCCESS s)"

definition ipc_free_msg :: "nat \<Rightarrow> ipc \<Rightarrow> ipc" where
  "ipc_free_msg msg s = upd_fid msg (\<lambda>f. f\<lparr>active_flag := False\<rparr>) s"

definition ipc_set_cmd_target :: "nat \<Rightarrow> u32 \<Rightarrow> ipc \<Rightarrow> u32 \<times> ipc" where
  "ipc_set_cmd_target cmd t s =
     (if \<not> multi_target_flag (func_id (ipc_msgs s cmd)) then (IPC_RC_INVALID_FUNC_ID, s)
      else (IPC_RC_SUCCESS, upd_fid cmd (\<lambda>f. f\<lparr>target_id := ucast t\<rparr>) s))"

definition ipc_init_msg :: "nat \<Rightarrow> u32 \<Rightarrow> nat \<Rightarrow> nat \<Rightarrow> ipc \<Rightarrow> ipc" where
  "ipc_init_msg msg fid callback arg s =
     upd_msg msg (\<lambda>x. \<lparr>func_id = of_word32 fid, ipc_rc = IPC_RC_SUCCESS, resp_callback = callback, callback_arg = arg\<rparr>) s"

definition ipc_get_funcid :: "nat \<Rightarrow> ipc \<Rightarrow> u32" where
  "ipc_get_funcid msg s =
     (let f = word32 (func_id (ipc_msgs s msg));
          g = (if f AND IPC_FLAG_MT \<noteq> 0 then f OR IPC_TARGET_MASK else f)
      in g AND NOT (IPC_FLAG_ACTIVE OR IPC_FLAG_RESPONSE OR IPC_SENDER_MASK))"

section \<open>Receiving\<close>

definition IPC_DEFAULT_HANDLER :: nat where "IPC_DEFAULT_HANDLER = 1"

type_synonym ipc_code = "nat \<Rightarrow> nat \<Rightarrow> nat \<Rightarrow> nat \<Rightarrow> ipc \<Rightarrow> ipc"

definition invoke :: "ipc_code \<Rightarrow> nat \<Rightarrow> nat \<Rightarrow> nat \<Rightarrow> nat \<Rightarrow> ipc \<Rightarrow> ipc" where
  "invoke code self handler msg arg s =
     (if handler = IPC_DEFAULT_HANDLER then ipc_default_handler self msg s else code self handler msg arg s)"

definition ipc_process_msg :: "ipc_code \<Rightarrow> nat \<Rightarrow> nat \<Rightarrow> ipc \<Rightarrow> ipc" where
  "ipc_process_msg code self msg s =
     (let x = ipc_msgs s msg; i = unat (table_index (func_id x));
          (limit, table) = (if multi_target_flag (func_id x) then (IPC_MT_NUM_FUNCIDS, G_ipc_mt_handlers s self)
                            else (IPC_ST_NUM_FUNCIDS self, G_ipc_st_handlers s self))
      in if response_flag (func_id x) then
           (if resp_callback x \<noteq> 0 then invoke code self (resp_callback x) msg (callback_arg x) s else ipc_free_msg msg s)
         else if i < limit then invoke code self (fst (table i)) msg (snd (table i)) s
         else snd (ipc_send_rsp self msg IPC_RC_INVALID_FUNC_ID s))"

definition ipc_take :: "nat \<Rightarrow> nat \<Rightarrow> ipc \<Rightarrow> nat \<times> ipc" where
  "ipc_take self sd s =
     (let r = reads (ipc_targets s self) sd
      in (cbufs (ipc_targets s self) sd (unat r mod IPC_CBUF_SIZE), upd_target self (\<lambda>x. x\<lparr>reads := (reads x)(sd := r + 1)\<rparr>) s))"

partial_function (option) ipc_process_cbuf :: "ipc_code \<Rightarrow> nat \<Rightarrow> nat \<Rightarrow> ipc \<Rightarrow> ipc option" where
  "ipc_process_cbuf code self sd s =
     (if reads (ipc_targets s self) sd \<noteq> writes (ipc_targets s self) sd then
        (let (msg, s1) = ipc_take self sd s in ipc_process_cbuf code self sd (ipc_process_msg code self msg s1))
      else Some s)"

text \<open>The interrupt handler: the eight counts as one word, and the first buffer that is not empty from its leading zeros.
  On the 405 it is entered as a critical interrupt, which is over when it returns.\<close>

definition counts64 :: "(nat \<Rightarrow> u8) \<Rightarrow> u64" where
  "counts64 c = foldl (\<lambda>a i. push_bit 8 a OR ucast (c i)) 0 [0..<8]"

definition cntlz64 :: "u64 \<Rightarrow> nat" where
  "cntlz64 w = length (takeWhile (\<lambda>i. \<not> bit w i) (rev [0..<64]))"

partial_function (option) ipc_irq_loop :: "ipc_code \<Rightarrow> nat \<Rightarrow> (nat \<Rightarrow> u8) \<Rightarrow> ipc \<Rightarrow> ipc option" where
  "ipc_irq_loop code self xored s =
     (let sd = cntlz64 (counts64 xored) div 8
      in if sd > OCCHW_INST_ID_MAX then Some s
         else Option.bind (ipc_process_cbuf code self sd s) (ipc_irq_loop code self (xored(sd := 0))))"

definition ipc_irq_handler :: "ipc_code \<Rightarrow> nat \<Rightarrow> ipc \<Rightarrow> ipc option" where
  "ipc_irq_handler code self s =
     (let s1 = s\<lparr>ipc_irq_masked := (ipc_irq_masked s)(self := True), ipc_irq_status := (ipc_irq_status s)(self := False),
                 ipc_critical := (ipc_critical s \<or> self = OCCHW_INST_ID_PPC)\<rparr>;
          x = ipc_targets s1 self
      in map_option (\<lambda>s2. s2\<lparr>ipc_irq_masked := (ipc_irq_masked s2)(self := False),
                             ipc_critical := (ipc_critical s2 \<and> self \<noteq> OCCHW_INST_ID_PPC)\<rparr>)
           (ipc_irq_loop code self (\<lambda>i. reads x i XOR writes x i) s1))"

section \<open>Messages deferred on the 405\<close>

definition IPC_DEFER_TO_NONCRITICAL :: "nat \<Rightarrow> ipc \<Rightarrow> ipc" where
  "IPC_DEFER_TO_NONCRITICAL msg s = s\<lparr>ipc_deferred := ipc_deferred s @ [msg], ipc_async_ipi := True\<rparr>"

text \<open>The second loop of the callback handler, outside the critical interrupt; its end clears the interrupt.\<close>

partial_function (option) ipc_deferred_loop :: "ipc_code \<Rightarrow> ipc \<Rightarrow> ipc option" where
  "ipc_deferred_loop code s =
     (case ipc_deferred s of
        [] \<Rightarrow> Some (s\<lparr>ipc_async_ipi := False\<rparr>)
      | msg # ms \<Rightarrow> ipc_deferred_loop code (ipc_process_msg code OCCHW_INST_ID_PPC msg (s\<lparr>ipc_deferred := ms\<rparr>)))"

section \<open>Setting up\<close>

definition ipc_disable :: "nat \<Rightarrow> nat \<Rightarrow> ipc \<Rightarrow> u32 \<times> ipc" where
  "ipc_disable self t s =
     (if t > OCCHW_INST_ID_MAX then (IPC_RC_INVALID_TARGET_ID, s)
      else
        (let s1 = (if t = self then s\<lparr>G_ipc_enabled := (G_ipc_enabled s)(self := False)\<rparr> else s);
             s2 = s1\<lparr>ipc_irq_masked := (ipc_irq_masked s1)(t := True)\<rparr>
         in (IPC_RC_SUCCESS,
             upd_target t (\<lambda>x. x\<lparr>reads := (\<lambda>i. if i \<le> OCCHW_INST_ID_MAX then writes x i - of_nat (IPC_CBUF_SIZE * 2) else reads x i)\<rparr>) s2)))"

definition ipc_init :: "nat \<Rightarrow> ipc \<Rightarrow> u32 \<times> ipc" where
  "ipc_init self s =
     (let s1 = snd (ipc_disable self self s)
      in (IPC_RC_SUCCESS,
          s1\<lparr>G_ipc_mt_handlers := (G_ipc_mt_handlers s1)(self := (\<lambda>i. if i < IPC_MT_MAX_FUNCTIONS then (IPC_DEFAULT_HANDLER, 0) else G_ipc_mt_handlers s1 self i)),
             G_ipc_st_handlers := (G_ipc_st_handlers s1)(self := (\<lambda>i. if i < IPC_ST_MAX_FUNCTIONS then (IPC_DEFAULT_HANDLER, 0) else G_ipc_st_handlers s1 self i))\<rparr>))"

text \<open>Installing the interrupt handler may fail with the kernel's code \<open>rc\<close>.\<close>

definition ipc_enable :: "int \<Rightarrow> nat \<Rightarrow> ipc \<Rightarrow> int \<times> ipc" where
  "ipc_enable rc self s =
     (if rc \<noteq> 0 then (rc, s)
      else (0, (upd_target self (\<lambda>x. x\<lparr>reads := writes x\<rparr>)
                 (s\<lparr>ipc_irq_status := (ipc_irq_status s)(self := False)\<rparr>))
               \<lparr>ipc_irq_masked := (ipc_irq_masked s)(self := False), G_ipc_enabled := (G_ipc_enabled s)(self := True)\<rparr>))"

definition ipc_set_handler :: "nat \<Rightarrow> u32 \<Rightarrow> nat \<Rightarrow> nat \<Rightarrow> ipc \<Rightarrow> u32 \<times> ipc" where
  "ipc_set_handler self fid handler arg s =
     (let f = of_word32 fid; i = unat (table_index f)
      in if \<not> multi_target_flag f \<and> unat (target_id f) \<noteq> self then (IPC_RC_INVALID_TARGET_ID, s)
         else if i \<ge> (if multi_target_flag f then IPC_MT_NUM_FUNCIDS else IPC_ST_NUM_FUNCIDS self) \<or> \<not> valid_flag f
         then (IPC_RC_INVALID_FUNC_ID, s)
         else if handler = 0 then (IPC_RC_INVALID_ARG, s)
         else (IPC_RC_SUCCESS,
               (if multi_target_flag f
                then s\<lparr>G_ipc_mt_handlers := (G_ipc_mt_handlers s)(self := (G_ipc_mt_handlers s self)(i := (handler, arg)))\<rparr>
                else s\<lparr>G_ipc_st_handlers := (G_ipc_st_handlers s)(self := (G_ipc_st_handlers s self)(i := (handler, arg)))\<rparr>)))"

end
