(* ===== verification/IPC_Handlers.thy ===== *)
theory IPC_Handlers
  imports IPC_Ring
begin

text \<open>
  The interrupt handler of a processor whose message handlers leave its own buffers alone: it ends, and
  it has handed every message in them to its handler, sender by sender in the order of arrival. The
  ping library on a PPE is such a processor.
\<close>

unbundle bit_operations_syntax

section \<open>A reference for the handler\<close>

fun drain :: "ipc_code \<Rightarrow> nat \<Rightarrow> nat \<Rightarrow> nat list \<Rightarrow> ipc \<Rightarrow> ipc" where
  "drain code self sd [] s = s"
| "drain code self sd (m # ms) s = drain code self sd ms (ipc_process_msg code self m (snd (ipc_take self sd s)))"

fun drain_all :: "ipc_code \<Rightarrow> nat \<Rightarrow> nat list \<Rightarrow> ipc \<Rightarrow> ipc" where
  "drain_all code self [] s = s"
| "drain_all code self (sd # sds) s = drain_all code self sds (drain code self sd (buffered self sd s) s)"

definition ipc_irq_enter :: "nat \<Rightarrow> ipc \<Rightarrow> ipc" where
  "ipc_irq_enter self s = s\<lparr>ipc_irq_masked := (ipc_irq_masked s)(self := True), ipc_irq_status := (ipc_irq_status s)(self := False),
     ipc_critical := (ipc_critical s \<or> self = OCCHW_INST_ID_PPC)\<rparr>"

definition ipc_irq_leave :: "nat \<Rightarrow> ipc \<Rightarrow> ipc" where
  "ipc_irq_leave self s = s\<lparr>ipc_irq_masked := (ipc_irq_masked s)(self := False),
     ipc_critical := (ipc_critical s \<and> self \<noteq> OCCHW_INST_ID_PPC)\<rparr>"

lemma buffered_cong: "ipc_targets s' t = ipc_targets s t \<Longrightarrow> buffered t sd s' = buffered t sd s"
  by (simp add: buffered_def)

lemma take_targets: "ipc_targets (snd (ipc_take self sd s)) t = (if t = self then (ipc_targets s self)\<lparr>reads := (reads (ipc_targets s self))(sd := reads (ipc_targets s self) sd + 1)\<rparr> else ipc_targets s t)"
  by (simp add: ipc_take_def Let_def)

lemma xor_0: "(a XOR b = 0) = (a = (b :: u8))"
  by (auto simp: bit_eq_iff bit_simps)

locale ipc_handlers =
  fixes code :: ipc_code and self :: nat and ok :: "ipc \<Rightarrow> bool"
  assumes process_ok: "ok s \<Longrightarrow> sd \<le> OCCHW_INST_ID_MAX \<Longrightarrow> buffered self sd s = m # ms \<Longrightarrow>
      ok (ipc_process_msg code self m (snd (ipc_take self sd s)))"
    and process_targets: "ok s \<Longrightarrow> sd \<le> OCCHW_INST_ID_MAX \<Longrightarrow> buffered self sd s = m # ms \<Longrightarrow>
      ipc_targets (ipc_process_msg code self m (snd (ipc_take self sd s))) self = ipc_targets (snd (ipc_take self sd s)) self"
    and enter_ok: "ok s \<Longrightarrow> ok (ipc_irq_enter self s)"
begin

lemma process_buffers:
  assumes "ok s" "sd \<le> OCCHW_INST_ID_MAX" "buffered self sd s = m # ms"
  shows "buffered self sd' (ipc_process_msg code self m (snd (ipc_take self sd s))) = (if sd' = sd then ms else buffered self sd' s)"
  using buffered_cong [OF process_targets [OF assms]] ipc_take_buffers(2) [OF assms(3)] by simp

lemma cbuf_drains:
  assumes "ok s" "sd \<le> OCCHW_INST_ID_MAX"
  shows "ipc_process_cbuf code self sd s = Some (drain code self sd (buffered self sd s) s) \<and> ok (drain code self sd (buffered self sd s) s) \<and>
    (\<forall>sd'. buffered self sd' (drain code self sd (buffered self sd s) s) = (if sd' = sd then [] else buffered self sd' s))"
  using assms
proof (induction "buffered self sd s" arbitrary: s)
  case Nil
  then show ?case using buffered_Nil [of self sd s] by (subst ipc_process_cbuf.simps) auto
next
  case (Cons m ms)
  let ?s = "ipc_process_msg code self m (snd (ipc_take self sd s))"
  note b = process_buffers [OF Cons.prems Cons.hyps(2) [symmetric]]
  note o = process_ok [OF Cons.prems Cons.hyps(2) [symmetric]]
  have r: "reads (ipc_targets s self) sd \<noteq> writes (ipc_targets s self) sd" using buffered_Nil [of self sd s] Cons.hyps(2) by auto
  have t: "ipc_take self sd s = (m, snd (ipc_take self sd s))"
    using ipc_take_buffers(1) [OF Cons.hyps(2) [symmetric]] by (metis prod.collapse)
  have "ipc_process_cbuf code self sd s = ipc_process_cbuf code self sd ?s"
    using r by (subst ipc_process_cbuf.simps, subst t) simp
  then show ?case using Cons.hyps(1) [of ?s] b o Cons.prems(2) Cons.hyps(2) [symmetric] by simp
qed

lemma first_of_filter:
  assumes "first_nonzero x \<le> OCCHW_INST_ID_MAX"
  shows "x (first_nonzero x) \<noteq> 0"
    and "filter (\<lambda>i. x i \<noteq> 0) [0..<5] = first_nonzero x # filter (\<lambda>i. (x(first_nonzero x := 0)) i \<noteq> 0) [0..<5]"
proof -
  define i where "i = first_nonzero x"
  have i5: "i < 5" using assms by (simp add: i_def OCCHW_INST_ID_MAX_def)
  then show nz: "x (first_nonzero x) \<noteq> 0" using first_nonzero_spec(2) [of x] by (simp add: i_def)
  have z: "x j = 0" if "j < i" for j using first_nonzero_spec(1) that by (simp add: i_def)
  have s: "[0..<5] = [0..<i] @ i # [Suc i..<5]"
    using i5 upt_add_eq_append [of 0 i "5 - i"] upt_conv_Cons [of i 5] by simp
  have a: "filter (\<lambda>j. y j \<noteq> 0) [0..<i] = []" if "\<And>j. j < i \<Longrightarrow> y j = 0" for y :: "nat \<Rightarrow> u8" using that by (simp add: filter_empty_conv)
  have "filter (\<lambda>j. (x(i := 0)) j \<noteq> 0) [Suc i..<5] = filter (\<lambda>j. x j \<noteq> 0) [Suc i..<5]" by (rule filter_cong) auto
  then have "filter (\<lambda>j. (x(i := 0)) j \<noteq> 0) [0..<5] = filter (\<lambda>j. x j \<noteq> 0) [Suc i..<5]"
    unfolding s using a [of "x(i := 0)"] z by simp
  moreover have "filter (\<lambda>j. x j \<noteq> 0) [0..<5] = i # filter (\<lambda>j. x j \<noteq> 0) [Suc i..<5]"
    unfolding s using a [of x] z nz by (simp add: i_def [symmetric])
  ultimately show "filter (\<lambda>i. x i \<noteq> 0) [0..<5] = first_nonzero x # filter (\<lambda>i. (x(first_nonzero x := 0)) i \<noteq> 0) [0..<5]"
    by (simp add: i_def)
qed

lemma loop_drains:
  assumes "ok s"
  shows "ipc_irq_loop code self x s = Some (drain_all code self (filter (\<lambda>i. x i \<noteq> 0) [0..<5]) s)"
  using assms
proof (induction "length (filter (\<lambda>i. x i \<noteq> 0) [0..<5])" arbitrary: x s rule: less_induct)
  case less
  show ?case
  proof (cases "first_nonzero x \<le> OCCHW_INST_ID_MAX")
    case True
    note f = first_of_filter [OF True]
    note d = cbuf_drains [OF less.prems True]
    have "length (filter (\<lambda>i. (x(first_nonzero x := 0)) i \<noteq> 0) [0..<5]) < length (filter (\<lambda>i. x i \<noteq> 0) [0..<5])"
      unfolding f(2) by simp
    from less.hyps [OF this] d have
      "ipc_irq_loop code self (x(first_nonzero x := 0)) (drain code self (first_nonzero x) (buffered self (first_nonzero x) s) s) =
        Some (drain_all code self (filter (\<lambda>i. (x(first_nonzero x := 0)) i \<noteq> 0) [0..<5]) (drain code self (first_nonzero x) (buffered self (first_nonzero x) s) s))"
      by blast
    then show ?thesis using True d unfolding f(2) by (subst ipc_irq_loop.simps) (simp add: cntlz64_counts Let_def)
  next
    case False
    then have "x i = 0" if "i < 5" for i
      using first_nonzero_spec(1) [of i x] that by (simp add: OCCHW_INST_ID_MAX_def)
    then have "filter (\<lambda>i. x i \<noteq> 0) [0..<5] = []" by (simp add: filter_empty_conv)
    then show ?thesis using False by (subst ipc_irq_loop.simps) (simp add: cntlz64_counts Let_def)
  qed
qed

lemma drain_all_ok:
  assumes "ok s" "set sds \<subseteq> {..OCCHW_INST_ID_MAX}"
  shows "ok (drain_all code self sds s) \<and>
    (\<forall>sd. buffered self sd (drain_all code self sds s) = (if sd \<in> set sds then [] else buffered self sd s))"
  using assms
proof (induction sds arbitrary: s)
  case (Cons d sds)
  have d: "d \<le> OCCHW_INST_ID_MAX" using Cons.prems(2) by simp
  show ?case using Cons.IH [of "drain code self d (buffered self d s) s"] cbuf_drains [OF Cons.prems(1) d] Cons.prems(2) by auto
qed simp

lemma drain_all_filter:
  assumes "ok s" "set sds \<subseteq> {..OCCHW_INST_ID_MAX}" "\<And>i. i \<in> set sds \<Longrightarrow> \<not> P i \<Longrightarrow> buffered self i s = []"
  shows "drain_all code self (filter P sds) s = drain_all code self sds s"
  using assms
proof (induction sds arbitrary: s)
  case (Cons d sds)
  have d: "d \<le> OCCHW_INST_ID_MAX" using Cons.prems(2) by simp
  note c = cbuf_drains [OF Cons.prems(1) d]
  show ?case
  proof (cases "P d")
    case True
    then show ?thesis using Cons.IH [of "drain code self d (buffered self d s) s"] c Cons.prems by simp
  next
    case False
    then show ?thesis using Cons.IH [of s] Cons.prems by simp
  qed
qed simp

theorem irq_drains:
  assumes "ok s"
  shows "ipc_irq_handler code self s = Some (ipc_irq_leave self (drain_all code self [0..<5] (ipc_irq_enter self s)))"
    and "sd \<le> OCCHW_INST_ID_MAX \<Longrightarrow> buffered self sd (ipc_irq_leave self (drain_all code self [0..<5] (ipc_irq_enter self s))) = []"
proof -
  let ?s = "ipc_irq_enter self s"
  have o: "ok ?s" by (rule enter_ok [OF assms])
  have r: "set [0..<5] \<subseteq> {..OCCHW_INST_ID_MAX}" by (auto simp: OCCHW_INST_ID_MAX_def)
  let ?x = "\<lambda>i. reads (ipc_targets ?s self) i XOR writes (ipc_targets ?s self) i"
  have x: "buffered self i ?s = []" if "\<not> ?x i \<noteq> 0" for i
    using that buffered_Nil [of self i ?s] xor_0 by blast
  show "ipc_irq_handler code self s = Some (ipc_irq_leave self (drain_all code self [0..<5] ?s))"
    using loop_drains [OF o, of ?x] drain_all_filter [OF o r, of "\<lambda>i. ?x i \<noteq> 0"] x
    by (simp add: ipc_irq_handler_def ipc_irq_enter_def ipc_irq_leave_def Let_def)
  show "sd \<le> OCCHW_INST_ID_MAX \<Longrightarrow> buffered self sd (ipc_irq_leave self (drain_all code self [0..<5] ?s)) = []"
    using drain_all_ok [OF o r] buffered_cong [of "ipc_irq_leave self (drain_all code self [0..<5] ?s)" self "drain_all code self [0..<5] ?s" sd]
    by (simp add: ipc_irq_leave_def OCCHW_INST_ID_MAX_def)
qed

end

section \<open>The ping library\<close>

text \<open>
  lib/occlib/ipc_ping.c: a command is answered; a response frees its message, after the waiting thread has
  been posted. In the critical interrupt of the 405 the response is deferred instead, to be handled again
  outside of it; a PPE has no critical interrupts.
\<close>

definition IPC_PING_HANDLER :: nat where "IPC_PING_HANDLER = 2"
definition IPC_PING_RESPONSE :: nat where "IPC_PING_RESPONSE = 3"

definition ipc_ping_response :: "nat \<Rightarrow> nat \<Rightarrow> ipc \<Rightarrow> ipc" where
  "ipc_ping_response self rsp s =
     (if self = OCCHW_INST_ID_PPC \<and> ipc_critical s then IPC_DEFER_TO_NONCRITICAL rsp s
      else ipc_free_msg rsp (s\<lparr>ipc_posts := ipc_posts s @ [rsp]\<rparr>))"

definition ping_code :: ipc_code where
  "ping_code self handler msg arg s =
     (if handler = IPC_PING_HANDLER then ipc_ping_handler self msg s
      else if handler = IPC_PING_RESPONSE then ipc_ping_response self msg s else s)"

text \<open>No command in the processor's buffers is its own, and the handlers are the library's.\<close>

definition ping_ok :: "nat \<Rightarrow> ipc \<Rightarrow> bool" where
  "ping_ok self s \<longleftrightarrow>
     (\<forall>sd \<le> OCCHW_INST_ID_MAX. \<forall>m \<in> set (buffered self sd s).
        resp_callback (ipc_msgs s m) \<in> {0, IPC_PING_RESPONSE} \<and>
        (response_flag (func_id (ipc_msgs s m)) \<or> unat (sender_id (func_id (ipc_msgs s m))) \<noteq> self)) \<and>
     (\<forall>i < IPC_MT_NUM_FUNCIDS. fst (G_ipc_mt_handlers s self i) \<in> {IPC_DEFAULT_HANDLER, IPC_PING_HANDLER}) \<and>
     (\<forall>i < IPC_ST_NUM_FUNCIDS self. fst (G_ipc_st_handlers s self i) \<in> {IPC_DEFAULT_HANDLER, IPC_PING_HANDLER})"

lemma send_msg_frame:
  "ipc_msgs (snd (ipc_send_msg self m t s)) = ipc_msgs s \<or>
   ipc_msgs (snd (ipc_send_msg self m t s)) = (ipc_msgs s)(m := (ipc_msgs s m)\<lparr>func_id := (func_id (ipc_msgs s m))\<lparr>active_flag := True\<rparr>\<rparr>)"
  "t \<noteq> self \<Longrightarrow> ipc_targets (snd (ipc_send_msg self m t s)) self = ipc_targets s self"
  by (auto simp: ipc_send_msg_def Let_def)

lemma send_rsp_frame:
  assumes "unat (sender_id (func_id (ipc_msgs s m))) \<noteq> self"
  shows "ipc_targets (snd (ipc_send_rsp self m rc s)) self = ipc_targets s self"
    and "x \<noteq> m \<Longrightarrow> ipc_msgs (snd (ipc_send_rsp self m rc s)) x = ipc_msgs s x"
    and "sender_id (func_id (ipc_msgs (snd (ipc_send_rsp self m rc s)) m)) = sender_id (func_id (ipc_msgs s m))"
    and "resp_callback (ipc_msgs (snd (ipc_send_rsp self m rc s)) m) = resp_callback (ipc_msgs s m)"
  using assms by (auto simp: ipc_send_rsp_def ipc_send_msg_def Let_def)


lemma invoke_ping:
  "h \<in> {IPC_DEFAULT_HANDLER, IPC_PING_HANDLER} \<Longrightarrow> \<exists>rc. invoke ping_code self h m a s = snd (ipc_send_rsp self m rc s)"
  "invoke ping_code self IPC_PING_RESPONSE m a s = ipc_ping_response self m s"
  by (auto simp: invoke_def ping_code_def ipc_ping_handler_def ipc_default_handler_def
      IPC_DEFAULT_HANDLER_def IPC_PING_HANDLER_def IPC_PING_RESPONSE_def)

lemma ping_process:
  assumes "resp_callback (ipc_msgs s m) \<in> {0, IPC_PING_RESPONSE}"
    and "\<forall>i < IPC_MT_NUM_FUNCIDS. fst (G_ipc_mt_handlers s self i) \<in> {IPC_DEFAULT_HANDLER, IPC_PING_HANDLER}"
    and "\<forall>i < IPC_ST_NUM_FUNCIDS self. fst (G_ipc_st_handlers s self i) \<in> {IPC_DEFAULT_HANDLER, IPC_PING_HANDLER}"
  shows "response_flag (func_id (ipc_msgs s m)) \<and> ((\<exists>p. ipc_process_msg ping_code self m s = ipc_free_msg m (s\<lparr>ipc_posts := p\<rparr>)) \<or>
      ipc_process_msg ping_code self m s = IPC_DEFER_TO_NONCRITICAL m s) \<or>
    \<not> response_flag (func_id (ipc_msgs s m)) \<and> (\<exists>rc. ipc_process_msg ping_code self m s = snd (ipc_send_rsp self m rc s))"
proof (cases "response_flag (func_id (ipc_msgs s m))")
  case True
  have "\<exists>p. ipc_free_msg m s = ipc_free_msg m (s\<lparr>ipc_posts := p\<rparr>)" by (rule exI [of _ "ipc_posts s"]) simp
  then show ?thesis using True assms(1) invoke_ping(2) by (auto simp: ipc_process_msg_def ipc_ping_response_def Let_def)
next
  case False
  show ?thesis
  proof (cases "multi_target_flag (func_id (ipc_msgs s m))")
    case True
    then show ?thesis using False invoke_ping(1) assms(2) by (simp add: ipc_process_msg_def Let_def) blast
  next
    case st: False
    then show ?thesis using False invoke_ping(1) assms(3) by (simp add: ipc_process_msg_def Let_def) blast
  qed
qed

lemma send_rsp_handlers:
  "G_ipc_mt_handlers (snd (ipc_send_rsp self m rc s)) = G_ipc_mt_handlers s" "G_ipc_st_handlers (snd (ipc_send_rsp self m rc s)) = G_ipc_st_handlers s"
  "response_flag (func_id (ipc_msgs s m)) \<Longrightarrow> response_flag (func_id (ipc_msgs (snd (ipc_send_rsp self m rc s)) m))"
  by (auto simp: ipc_send_rsp_def ipc_send_msg_def Let_def)

lemma ping_ok_shrink:
  assumes "ping_ok self s" "\<And>sd. sd \<le> OCCHW_INST_ID_MAX \<Longrightarrow> set (buffered self sd s') \<subseteq> set (buffered self sd s)"
    and "\<And>m. resp_callback (ipc_msgs s' m) = resp_callback (ipc_msgs s m) \<and> sender_id (func_id (ipc_msgs s' m)) = sender_id (func_id (ipc_msgs s m))"
    and "\<And>m. response_flag (func_id (ipc_msgs s m)) \<Longrightarrow> response_flag (func_id (ipc_msgs s' m))"
    and "G_ipc_mt_handlers s' = G_ipc_mt_handlers s" "G_ipc_st_handlers s' = G_ipc_st_handlers s"
  shows "ping_ok self s'"
  using assms unfolding ping_ok_def by (simp add: subset_iff) blast

interpretation ping: ipc_handlers ping_code self "ping_ok self" for self
proof
  fix s sd m ms
  assume o: "ping_ok self s" and d: "sd \<le> OCCHW_INST_ID_MAX" and b: "buffered self sd s = m # ms"
  let ?t = "snd (ipc_take self sd s)"
  have t: "ipc_msgs ?t = ipc_msgs s" "G_ipc_mt_handlers ?t = G_ipc_mt_handlers s" "G_ipc_st_handlers ?t = G_ipc_st_handlers s"
    by (simp_all add: ipc_take_def Let_def)
  have m: "resp_callback (ipc_msgs s m) \<in> {0, IPC_PING_RESPONSE}" "response_flag (func_id (ipc_msgs s m)) \<or> unat (sender_id (func_id (ipc_msgs s m))) \<noteq> self"
    using o d b by (auto simp: ping_ok_def)
  have ot: "ping_ok self ?t"
    by (rule ping_ok_shrink [OF o]) (use ipc_take_buffers(2) [OF b] b t in \<open>auto simp: split: if_splits\<close>)
  consider (free) p where "ipc_process_msg ping_code self m ?t = ipc_free_msg m (?t\<lparr>ipc_posts := p\<rparr>)"
    | (later) "ipc_process_msg ping_code self m ?t = IPC_DEFER_TO_NONCRITICAL m ?t"
    | (rsp) rc where "ipc_process_msg ping_code self m ?t = snd (ipc_send_rsp self m rc ?t)" "unat (sender_id (func_id (ipc_msgs ?t m))) \<noteq> self"
    using ping_process [of ?t m self] o m t by (auto simp: ping_ok_def)
  note cases = this
  show T: "ipc_targets (ipc_process_msg ping_code self m ?t) self = ipc_targets ?t self"
    using cases by cases (simp_all add: ipc_free_msg_def IPC_DEFER_TO_NONCRITICAL_def send_rsp_frame)
  show "ping_ok self (ipc_process_msg ping_code self m ?t)"
  proof (rule ping_ok_shrink [OF ot])
    show "set (buffered self sd' (ipc_process_msg ping_code self m ?t)) \<subseteq> set (buffered self sd' ?t)" for sd'
      using buffered_cong [OF T] by simp
  next
    fix x
    show "resp_callback (ipc_msgs (ipc_process_msg ping_code self m ?t) x) = resp_callback (ipc_msgs ?t x) \<and>
        sender_id (func_id (ipc_msgs (ipc_process_msg ping_code self m ?t) x)) = sender_id (func_id (ipc_msgs ?t x))"
      using cases by cases (auto simp: ipc_free_msg_def IPC_DEFER_TO_NONCRITICAL_def send_rsp_frame(2-4), (cases "x = m"; simp add: send_rsp_frame)+)
    show "response_flag (func_id (ipc_msgs ?t x)) \<Longrightarrow> response_flag (func_id (ipc_msgs (ipc_process_msg ping_code self m ?t) x))"
      using cases by cases (auto simp: ipc_free_msg_def IPC_DEFER_TO_NONCRITICAL_def, (cases "x = m"; simp add: send_rsp_frame send_rsp_handlers))
  qed (use cases in \<open>cases; simp add: ipc_free_msg_def IPC_DEFER_TO_NONCRITICAL_def send_rsp_handlers\<close>)+
next
  fix s
  assume "ping_ok self s"
  then show "ping_ok self (ipc_irq_enter self s)"
    by (rule ping_ok_shrink) (simp_all add: ipc_irq_enter_def buffered_def)
qed


section \<open>A ping and its answer\<close>

lemma buffered_enter [simp]: "buffered t sd (ipc_irq_enter self s) = buffered t sd s" "buffered t sd (ipc_irq_leave self s) = buffered t sd s"
  by (simp_all add: ipc_irq_enter_def ipc_irq_leave_def buffered_def)

lemma enter_frame [simp]:
  "ipc_msgs (ipc_irq_enter self s) = ipc_msgs s" "ipc_msgs (ipc_irq_leave self s) = ipc_msgs s" "ipc_targets (ipc_irq_enter self s) = ipc_targets s"
  "ipc_targets (ipc_irq_leave self s) = ipc_targets s"
  "G_ipc_mt_handlers (ipc_irq_enter self s) = G_ipc_mt_handlers s" "G_ipc_mt_handlers (ipc_irq_leave self s) = G_ipc_mt_handlers s"
  "G_ipc_st_handlers (ipc_irq_enter self s) = G_ipc_st_handlers s" "G_ipc_st_handlers (ipc_irq_leave self s) = G_ipc_st_handlers s"
  "ipc_posts (ipc_irq_enter self s) = ipc_posts s" "ipc_posts (ipc_irq_leave self s) = ipc_posts s"
  "ipc_deferred (ipc_irq_enter self s) = ipc_deferred s" "ipc_deferred (ipc_irq_leave self s) = ipc_deferred s"
  "ipc_async_ipi (ipc_irq_leave self s) = ipc_async_ipi s"
  "ipc_critical (ipc_irq_enter self s) = (ipc_critical s \<or> self = OCCHW_INST_ID_PPC)"
  "ipc_critical (ipc_irq_leave self s) = (ipc_critical s \<and> self \<noteq> OCCHW_INST_ID_PPC)"
  by (simp_all add: ipc_irq_enter_def ipc_irq_leave_def)

lemma take_frame [simp]:
  "ipc_msgs (snd (ipc_take self sd s)) = ipc_msgs s" "G_ipc_mt_handlers (snd (ipc_take self sd s)) = G_ipc_mt_handlers s"
  "G_ipc_st_handlers (snd (ipc_take self sd s)) = G_ipc_st_handlers s" "ipc_posts (snd (ipc_take self sd s)) = ipc_posts s"
  "ipc_deferred (snd (ipc_take self sd s)) = ipc_deferred s" "ipc_critical (snd (ipc_take self sd s)) = ipc_critical s"
  by (simp_all add: ipc_take_def Let_def)

lemma ping_irq_single:
  assumes o: "ping_ok self s" and sd: "sd \<le> OCCHW_INST_ID_MAX" "buffered self sd s = [m]"
    and e: "\<And>sd'. sd' \<le> OCCHW_INST_ID_MAX \<Longrightarrow> sd' \<noteq> sd \<Longrightarrow> buffered self sd' s = []"
  shows "ipc_irq_handler ping_code self s = Some (ipc_irq_leave self (ipc_process_msg ping_code self m (snd (ipc_take self sd (ipc_irq_enter self s)))))"
proof -
  have r: "set [0..<5] \<subseteq> {..OCCHW_INST_ID_MAX}" by (auto simp: OCCHW_INST_ID_MAX_def)
  have o': "ping_ok self (ipc_irq_enter self s)" by (rule ping.enter_ok [OF o])
  have "sd \<in> {0, 1, 2, 3, 4}" using sd(1) by (auto simp: OCCHW_INST_ID_MAX_def)
  then have f: "filter (\<lambda>i. i = sd) [0..<5] = [sd]" by (auto simp: upt_rec)
  have "drain_all ping_code self (filter (\<lambda>i. i = sd) [0..<5]) (ipc_irq_enter self s) = drain_all ping_code self [0..<5] (ipc_irq_enter self s)"
    by (rule ping.drain_all_filter [OF o' r]) (use e in \<open>auto simp: OCCHW_INST_ID_MAX_def\<close>)
  then show ?thesis using ping.irq_drains(1) [OF o] sd(2) unfolding f by simp
qed

definition ping_ready :: "nat \<Rightarrow> ipc \<Rightarrow> bool" where
  "ping_ready self s \<longleftrightarrow> (\<forall>sd \<le> OCCHW_INST_ID_MAX. buffered self sd s = []) \<and>
     fst (G_ipc_mt_handlers s self 0) = IPC_PING_HANDLER \<and> (\<forall>i < IPC_ST_NUM_FUNCIDS self. fst (G_ipc_st_handlers s self i) = IPC_DEFAULT_HANDLER)"

text \<open>The 405 is not in a critical interrupt and has no message deferred.\<close>

definition ping_calm :: "ipc \<Rightarrow> bool" where
  "ping_calm s \<longleftrightarrow> \<not> ipc_critical s \<and> ipc_deferred s = []"

text \<open>The ping message of \<open>ipc_ping_cmd_init\<close>, free.\<close>

definition ping_msg :: "nat \<Rightarrow> ipc \<Rightarrow> bool" where
  "ping_msg m s \<longleftrightarrow> (let x = ipc_msgs s m
     in valid_flag (func_id x) \<and> multi_target_flag (func_id x) \<and> table_index (func_id x) = 0 \<and> \<not> active_flag (func_id x) \<and> resp_callback x = IPC_PING_RESPONSE)"

lemma ping_ready_ok:
  assumes "fst (G_ipc_mt_handlers s self 0) = IPC_PING_HANDLER" "\<forall>i < IPC_ST_NUM_FUNCIDS self. fst (G_ipc_st_handlers s self i) = IPC_DEFAULT_HANDLER"
    and "\<And>sd m. sd \<le> OCCHW_INST_ID_MAX \<Longrightarrow> m \<in> set (buffered self sd s) \<Longrightarrow> resp_callback (ipc_msgs s m) = IPC_PING_RESPONSE \<and>
        (response_flag (func_id (ipc_msgs s m)) \<or> unat (sender_id (func_id (ipc_msgs s m))) \<noteq> self)"
  shows "ping_ok self s"
  using assms by (simp add: ping_ok_def IPC_MT_NUM_FUNCIDS_def)

lemma send_msg_ok:
  assumes "t \<le> OCCHW_INST_ID_MAX" "in_buffer t self s < IPC_CBUF_SIZE"
  shows "fst (ipc_send_msg self m t s) = IPC_RC_SUCCESS"
    and "ipc_msgs (snd (ipc_send_msg self m t s)) = (ipc_msgs s)(m := (ipc_msgs s m)\<lparr>func_id := (func_id (ipc_msgs s m))\<lparr>active_flag := True\<rparr>\<rparr>)"
    and "G_ipc_mt_handlers (snd (ipc_send_msg self m t s)) = G_ipc_mt_handlers s" "G_ipc_st_handlers (snd (ipc_send_msg self m t s)) = G_ipc_st_handlers s"
    and "ping_calm (snd (ipc_send_msg self m t s)) = ping_calm s"
    and "ipc_critical (snd (ipc_send_msg self m t s)) = ipc_critical s" "ipc_deferred (snd (ipc_send_msg self m t s)) = ipc_deferred s"
proof -
  have "num_entries t self s < of_nat IPC_CBUF_SIZE" using assms(2) by (simp add: word_less_nat_alt IPC_CBUF_SIZE_def)
  then show "fst (ipc_send_msg self m t s) = IPC_RC_SUCCESS"
    "ipc_msgs (snd (ipc_send_msg self m t s)) = (ipc_msgs s)(m := (ipc_msgs s m)\<lparr>func_id := (func_id (ipc_msgs s m))\<lparr>active_flag := True\<rparr>\<rparr>)"
    "G_ipc_mt_handlers (snd (ipc_send_msg self m t s)) = G_ipc_mt_handlers s" "G_ipc_st_handlers (snd (ipc_send_msg self m t s)) = G_ipc_st_handlers s"
    "ping_calm (snd (ipc_send_msg self m t s)) = ping_calm s"
    "ipc_critical (snd (ipc_send_msg self m t s)) = ipc_critical s" "ipc_deferred (snd (ipc_send_msg self m t s)) = ipc_deferred s"
    using assms(1) by (simp_all add: ipc_send_msg_def ping_calm_def Let_def)
qed

lemma send_msg_posts [simp]: "ipc_posts (snd (ipc_send_msg self m t s)) = ipc_posts s"
  by (simp add: ipc_send_msg_def Let_def)

lemma buffered_msgs [simp]:
  "buffered t sd (s\<lparr>ipc_msgs := x\<rparr>) = buffered t sd s" "buffered t sd (s\<lparr>ipc_posts := p\<rparr>) = buffered t sd s"
  by (simp_all add: buffered_def)

text \<open>A command that is sent to a ready processor is in its buffer, alone.\<close>

lemma ping_sent:
  assumes self: "self \<le> OCCHW_INST_ID_MAX" and t: "t \<le> OCCHW_INST_ID_MAX"
    and en: "G_ipc_enabled s self" and m: "ping_msg m s" and r: "ping_ready t s"
  shows "\<exists>s1. ipc_send_cmd self m (snd (ipc_set_cmd_target m (of_nat t) s)) = (IPC_RC_SUCCESS, s1) \<and>
    (\<forall>t' sd. buffered t' sd s1 = (if t' = t \<and> sd = self then [m] else buffered t' sd s)) \<and>
    G_ipc_mt_handlers s1 = G_ipc_mt_handlers s \<and> G_ipc_st_handlers s1 = G_ipc_st_handlers s \<and> ipc_posts s1 = ipc_posts s \<and> ping_calm s1 = ping_calm s \<and>
    (let x = ipc_msgs s1 m; f = func_id x in active_flag f \<and> \<not> response_flag f \<and> multi_target_flag f \<and> valid_flag f \<and> table_index f = 0 \<and>
       sender_id f = of_nat self \<and> resp_callback x = IPC_PING_RESPONSE)"
proof -
  define s0 where "s0 = upd_msg m (\<lambda>x. x\<lparr>func_id := (func_id x)\<lparr>target_id := of_nat t, response_flag := False, sender_id := of_nat self\<rparr>, ipc_rc := 0\<rparr>) s"
  have u: "ucast (of_nat t :: u32) = (of_nat t :: u8)" using t by (simp add: OCCHW_INST_ID_MAX_def unsigned_of_nat take_bit_nat_eq_self)
  have tt: "unat (of_nat t :: u8) = t" using t by (simp add: OCCHW_INST_ID_MAX_def unat_of_nat)
  have emp: "buffered t self s = []" using r self by (simp add: ping_ready_def)
  then have nb: "in_buffer t self s0 < IPC_CBUF_SIZE"
    using length_buffered [of t self s] by (simp add: s0_def num_entries_def IPC_CBUF_SIZE_def)
  note k = send_msg_ok [OF t nb, of m] ipc_send_msg_buffers [OF t nb, of _ _ m]
  define s1 where "s1 = upd_msg m (\<lambda>x. x\<lparr>ipc_rc := IPC_RC_SUCCESS\<rparr>) (snd (ipc_send_msg self m t s0))"
  have "ipc_send_cmd self m (snd (ipc_set_cmd_target m (of_nat t) s)) = (IPC_RC_SUCCESS, s1)"
    using m en k(1) tt u unfolding ipc_send_cmd_def ipc_set_cmd_target_def ping_msg_def Let_def case_prod_unfold
    by (simp add: s0_def s1_def)
  moreover have "buffered t' sd s1 = (if t' = t \<and> sd = self then [m] else buffered t' sd s)" for t' sd
    using k(8) [of t' sd] emp by (simp add: s1_def) (simp add: s0_def)
  moreover have "ping_calm s1 = ping_calm s" using k(5) by (simp add: s1_def) (simp add: s0_def ping_calm_def)
  ultimately show ?thesis using m k(2-4) by (simp add: s1_def s0_def ping_msg_def Let_def)
qed


text \<open>The receiver takes it and answers; the sender takes the answer and frees the message.\<close>

lemma ping_handled:
  assumes self: "self \<le> OCCHW_INST_ID_MAX" and t: "t \<le> OCCHW_INST_ID_MAX" "t \<noteq> self" and calm: "ping_calm s"
    and b: "\<And>sd. sd \<le> OCCHW_INST_ID_MAX \<Longrightarrow> buffered t sd s = (if sd = self then [m] else [])" "buffered self t s = []"
    and h: "fst (G_ipc_mt_handlers s t 0) = IPC_PING_HANDLER" "\<forall>i < IPC_ST_NUM_FUNCIDS t. fst (G_ipc_st_handlers s t i) = IPC_DEFAULT_HANDLER"
    and m: "let x = ipc_msgs s m; f = func_id x in active_flag f \<and> \<not> response_flag f \<and> multi_target_flag f \<and> valid_flag f \<and> table_index f = 0 \<and>
       sender_id f = of_nat self \<and> resp_callback x = IPC_PING_RESPONSE"
  shows "\<exists>s2. ipc_irq_handler ping_code t s = Some s2 \<and>
    (\<forall>t' sd. buffered t' sd s2 = (if t' = self \<and> sd = t then [m] else if t' = t \<and> sd = self then [] else buffered t' sd s)) \<and>
    G_ipc_mt_handlers s2 = G_ipc_mt_handlers s \<and> G_ipc_st_handlers s2 = G_ipc_st_handlers s \<and> ipc_posts s2 = ipc_posts s \<and> ping_calm s2 \<and>
    (let x = ipc_msgs s2 m; f = func_id x in active_flag f \<and> response_flag f \<and> multi_target_flag f \<and> valid_flag f \<and> table_index f = 0 \<and>
       resp_callback x = IPC_PING_RESPONSE \<and> ipc_rc x = IPC_RC_SUCCESS)"
proof -
  have ss: "unat (of_nat self :: u8) = self" using self by (simp add: OCCHW_INST_ID_MAX_def unat_of_nat)
  have o: "ping_ok t s" by (rule ping_ready_ok [OF h]) (use b m ss t in \<open>auto simp: Let_def split: if_splits\<close>)
  define sa where "sa = snd (ipc_take t self (ipc_irq_enter t s))"
  define sb where "sb = upd_msg m (\<lambda>x. x\<lparr>func_id := (func_id x)\<lparr>response_flag := True\<rparr>, ipc_rc := IPC_RC_SUCCESS\<rparr>) sa"
  have ma: "ipc_msgs sa = ipc_msgs s" "G_ipc_mt_handlers sa = G_ipc_mt_handlers s" "G_ipc_st_handlers sa = G_ipc_st_handlers s"
    "ipc_posts sa = ipc_posts s" by (simp_all add: sa_def)
  have ba: "buffered t' sd sa = (if t' = t \<and> sd = self then [] else buffered t' sd s)" for t' sd
    using ipc_take_buffers(2) [of t self "ipc_irq_enter t s" m "[]"] b(1) [OF self] by (simp add: sa_def)
  have nb: "in_buffer self t sb < IPC_CBUF_SIZE"
    using ba [of self t] b(2) t(2) length_buffered [of self t sb] by (simp add: sb_def IPC_CBUF_SIZE_def)
  note k = send_msg_ok [OF self nb, of m] ipc_send_msg_buffers [OF self nb, of _ _ m]
  have p: "ipc_process_msg ping_code t m sa = snd (ipc_send_msg t m self sb)"
    using m h(1) ss unfolding ipc_process_msg_def Let_def
    by (simp add: ma invoke_def ping_code_def ipc_ping_handler_def ipc_send_rsp_def sb_def IPC_MT_NUM_FUNCIDS_def IPC_DEFAULT_HANDLER_def IPC_PING_HANDLER_def Let_def)
  have "ipc_irq_handler ping_code t s = Some (ipc_irq_leave t (snd (ipc_send_msg t m self sb)))"
    using ping_irq_single [OF o self, of m] b self p by (simp add: sa_def)
  moreover have "buffered t' sd (snd (ipc_send_msg t m self sb)) = (if t' = self \<and> sd = t then [m] else if t' = t \<and> sd = self then [] else buffered t' sd s)" for t' sd
    using k(8) [of t' sd] ba [of t' sd] ba [of self t] b(2) t(2) by (auto simp: sb_def)
  moreover have "ping_calm (ipc_irq_leave t (snd (ipc_send_msg t m self sb)))"
    using k(6,7) calm by (simp add: ping_calm_def sb_def sa_def)
  ultimately show ?thesis using m k(2-4) by (simp add: sb_def ma Let_def)
qed

lemma deferred_answer:
  assumes "\<not> ipc_critical s" "ipc_deferred s = [m]" "response_flag (func_id (ipc_msgs s m))" "resp_callback (ipc_msgs s m) = IPC_PING_RESPONSE"
  shows "ipc_deferred_loop ping_code s =
    Some (ipc_free_msg m (s\<lparr>ipc_posts := ipc_posts s @ [m], ipc_deferred := [], ipc_async_ipi := False\<rparr>))"
proof -
  have "ipc_process_msg ping_code OCCHW_INST_ID_PPC m (s\<lparr>ipc_deferred := []\<rparr>) =
      ipc_free_msg m (s\<lparr>ipc_posts := ipc_posts s @ [m], ipc_deferred := []\<rparr>)"
    using assms by (simp add: ipc_process_msg_def ping_code_def invoke_def ipc_ping_response_def ipc_free_msg_def IPC_PING_RESPONSE_def
        IPC_PING_HANDLER_def IPC_DEFAULT_HANDLER_def Let_def)
  then show ?thesis using assms(2)
    by (subst ipc_deferred_loop.simps) (simp, subst ipc_deferred_loop.simps, simp add: ipc_free_msg_def)
qed

text \<open>On the 405 the first state is that of a waiting deferral, and the second the one its handler leaves.\<close>

definition answer_deferred :: "nat \<Rightarrow> ipc \<Rightarrow> ipc \<Rightarrow> bool" where
  "answer_deferred m s s' \<longleftrightarrow> active_flag (func_id (ipc_msgs s m)) \<and> ipc_deferred s = [m] \<and> ipc_async_ipi s \<and>
     ipc_deferred_loop ping_code s = Some s' \<and> \<not> ipc_async_ipi s'"

lemma ping_freed:
  assumes self: "self \<le> OCCHW_INST_ID_MAX" and t: "t \<le> OCCHW_INST_ID_MAX" and calm: "ping_calm s"
    and b: "\<And>sd. sd \<le> OCCHW_INST_ID_MAX \<Longrightarrow> buffered self sd s = (if sd = t then [m] else [])"
    and h: "fst (G_ipc_mt_handlers s self 0) = IPC_PING_HANDLER" "\<forall>i < IPC_ST_NUM_FUNCIDS self. fst (G_ipc_st_handlers s self i) = IPC_DEFAULT_HANDLER"
    and m: "let x = ipc_msgs s m; f = func_id x in active_flag f \<and> response_flag f \<and> multi_target_flag f \<and> valid_flag f \<and> table_index f = 0 \<and>
       resp_callback x = IPC_PING_RESPONSE \<and> ipc_rc x = IPC_RC_SUCCESS"
  shows "\<exists>s3 s4. ipc_irq_handler ping_code self s = Some s3 \<and>
    (if self = OCCHW_INST_ID_PPC then ipc_posts s3 = ipc_posts s \<and> answer_deferred m s3 s4 else s4 = s3) \<and>
    (\<forall>t' sd. buffered t' sd s4 = (if t' = self \<and> sd = t then [] else buffered t' sd s)) \<and>
    G_ipc_mt_handlers s4 = G_ipc_mt_handlers s \<and> G_ipc_st_handlers s4 = G_ipc_st_handlers s \<and> ping_msg m s4 \<and>
    ipc_rc (ipc_msgs s4 m) = IPC_RC_SUCCESS \<and> ipc_posts s4 = ipc_posts s @ [m] \<and> ping_calm s4"
proof -
  have o: "ping_ok self s" by (rule ping_ready_ok [OF h]) (use b m in \<open>auto simp: Let_def split: if_splits\<close>)
  define sa where "sa = snd (ipc_take self t (ipc_irq_enter self s))"
  have ma: "ipc_msgs sa = ipc_msgs s" "G_ipc_mt_handlers sa = G_ipc_mt_handlers s" "G_ipc_st_handlers sa = G_ipc_st_handlers s"
    "ipc_posts sa = ipc_posts s" "ipc_deferred sa = []" "ipc_critical sa = (self = OCCHW_INST_ID_PPC)"
    using calm by (simp_all add: sa_def ping_calm_def)
  have ba: "buffered t' sd sa = (if t' = self \<and> sd = t then [] else buffered t' sd s)" for t' sd
    using ipc_take_buffers(2) [of self t "ipc_irq_enter self s" m "[]"] b(1) [OF t] by (simp add: sa_def)
  have p: "ipc_process_msg ping_code self m sa = ipc_ping_response self m sa"
    using m unfolding ipc_process_msg_def Let_def by (simp add: ma) (simp add: IPC_PING_RESPONSE_def invoke_ping(2) [unfolded IPC_PING_RESPONSE_def])
  have i: "ipc_irq_handler ping_code self s = Some (ipc_irq_leave self (ipc_ping_response self m sa))"
    using ping_irq_single [OF o t, of m] b t p by (simp add: sa_def)
  show ?thesis
  proof (cases "self = OCCHW_INST_ID_PPC")
    case True
    define s3 where "s3 = ipc_irq_leave self (IPC_DEFER_TO_NONCRITICAL m sa)"
    have i3: "ipc_irq_handler ping_code self s = Some s3" using i True by (simp add: s3_def ipc_ping_response_def ma)
    have f3: "ipc_msgs s3 = ipc_msgs s" "ipc_deferred s3 = [m]" "ipc_async_ipi s3" "\<not> ipc_critical s3" "ipc_posts s3 = ipc_posts s"
      "G_ipc_mt_handlers s3 = G_ipc_mt_handlers s" "G_ipc_st_handlers s3 = G_ipc_st_handlers s" "ipc_targets s3 = ipc_targets sa"
      using True by (simp_all add: s3_def IPC_DEFER_TO_NONCRITICAL_def ma)
    define s4 where "s4 = ipc_free_msg m (s3\<lparr>ipc_posts := ipc_posts s3 @ [m], ipc_deferred := [], ipc_async_ipi := False\<rparr>)"
    have d: "ipc_deferred_loop ping_code s3 = Some s4"
      using deferred_answer [of s3 m] f3 m by (simp add: s4_def Let_def)
    have b4: "buffered t' sd s4 = buffered t' sd sa" for t' sd
      using f3(8) by (simp add: s4_def ipc_free_msg_def buffered_def)
    have "answer_deferred m s3 s4" using d f3 m by (simp add: answer_deferred_def s4_def ipc_free_msg_def Let_def)
    then show ?thesis using i3 True f3 b4 ba m
      by (intro exI [of _ s3] exI [of _ s4]) (simp add: s4_def ipc_free_msg_def ping_msg_def ping_calm_def Let_def)
  next
    case False
    then show ?thesis using i m ba
      by (simp add: ipc_ping_response_def ipc_free_msg_def ma ping_msg_def ping_calm_def Let_def)
  qed
qed

lemma ping_answered:
  assumes self: "self \<le> OCCHW_INST_ID_MAX" and t: "t \<le> OCCHW_INST_ID_MAX" "t \<noteq> self"
    and en: "G_ipc_enabled s self" and m: "ping_msg m s" and r: "ping_ready self s" "ping_ready t s" and calm: "ping_calm s"
  shows "\<exists>s1 s2 s3 s4. ipc_send_cmd self m (snd (ipc_set_cmd_target m (of_nat t) s)) = (IPC_RC_SUCCESS, s1) \<and>
    ipc_irq_handler ping_code t s1 = Some s2 \<and> ipc_irq_handler ping_code self s2 = Some s3 \<and>
    (if self = OCCHW_INST_ID_PPC then ipc_posts s3 = ipc_posts s \<and> answer_deferred m s3 s4 else s4 = s3) \<and>
    ping_msg m s4 \<and> ipc_rc (ipc_msgs s4 m) = IPC_RC_SUCCESS \<and> ipc_posts s4 = ipc_posts s @ [m] \<and>
    ping_ready self s4 \<and> ping_ready t s4 \<and> ping_calm s4"
proof -
  obtain s1 where s1: "ipc_send_cmd self m (snd (ipc_set_cmd_target m (of_nat t) s)) = (IPC_RC_SUCCESS, s1)"
    "\<forall>t' sd. buffered t' sd s1 = (if t' = t \<and> sd = self then [m] else buffered t' sd s)"
    "G_ipc_mt_handlers s1 = G_ipc_mt_handlers s" "G_ipc_st_handlers s1 = G_ipc_st_handlers s" "ipc_posts s1 = ipc_posts s" "ping_calm s1"
    "let x = ipc_msgs s1 m; f = func_id x in active_flag f \<and> \<not> response_flag f \<and> multi_target_flag f \<and> valid_flag f \<and> table_index f = 0 \<and>
       sender_id f = of_nat self \<and> resp_callback x = IPC_PING_RESPONSE"
    using ping_sent [OF self t(1) en m r(2)] calm by blast
  obtain s2 where s2: "ipc_irq_handler ping_code t s1 = Some s2"
    "\<forall>t' sd. buffered t' sd s2 = (if t' = self \<and> sd = t then [m] else if t' = t \<and> sd = self then [] else buffered t' sd s1)"
    "G_ipc_mt_handlers s2 = G_ipc_mt_handlers s1" "G_ipc_st_handlers s2 = G_ipc_st_handlers s1" "ipc_posts s2 = ipc_posts s1" "ping_calm s2"
    "let x = ipc_msgs s2 m; f = func_id x in active_flag f \<and> response_flag f \<and> multi_target_flag f \<and> valid_flag f \<and> table_index f = 0 \<and>
       resp_callback x = IPC_PING_RESPONSE \<and> ipc_rc x = IPC_RC_SUCCESS"
  proof -
    have "buffered t sd s1 = (if sd = self then [m] else [])" if "sd \<le> OCCHW_INST_ID_MAX" for sd
      using s1(2) r(2) that by (simp add: ping_ready_def)
    moreover have "buffered self t s1 = []" using s1(2) r(1) t by (auto simp: ping_ready_def)
    moreover have "fst (G_ipc_mt_handlers s1 t 0) = IPC_PING_HANDLER" "\<forall>i < IPC_ST_NUM_FUNCIDS t. fst (G_ipc_st_handlers s1 t i) = IPC_DEFAULT_HANDLER"
      using s1(3,4) r(2) by (simp_all add: ping_ready_def)
    ultimately show thesis using that ping_handled [OF self t s1(6), of m] s1(7) by blast
  qed
  have b2: "buffered self sd s2 = (if sd = t then [m] else [])" if "sd \<le> OCCHW_INST_ID_MAX" for sd
    using s1(2) s2(2) r(1) that t(2) by (auto simp: ping_ready_def)
  have h2: "fst (G_ipc_mt_handlers s2 self 0) = IPC_PING_HANDLER" "\<forall>i < IPC_ST_NUM_FUNCIDS self. fst (G_ipc_st_handlers s2 self i) = IPC_DEFAULT_HANDLER"
    using s1(3,4) s2(3,4) r(1) by (simp_all add: ping_ready_def)
  obtain s3 s4 where s3: "ipc_irq_handler ping_code self s2 = Some s3"
    "if self = OCCHW_INST_ID_PPC then ipc_posts s3 = ipc_posts s2 \<and> answer_deferred m s3 s4 else s4 = s3"
    "\<forall>t' sd. buffered t' sd s4 = (if t' = self \<and> sd = t then [] else buffered t' sd s2)"
    "G_ipc_mt_handlers s4 = G_ipc_mt_handlers s2" "G_ipc_st_handlers s4 = G_ipc_st_handlers s2" "ping_msg m s4"
    "ipc_rc (ipc_msgs s4 m) = IPC_RC_SUCCESS" "ipc_posts s4 = ipc_posts s2 @ [m]" "ping_calm s4"
    using ping_freed [OF self t(1) s2(6) b2 h2 s2(7)] by blast
  have "ping_ready self s4" "ping_ready t s4" using r t s1(2-4) s2(2-4) s3(3-5) by (auto simp: ping_ready_def)
  then show ?thesis using s1(1,5) s2(1,5) s3 by auto
qed

end
