(* ===== verification/IPC_Properties.thy ===== *)
theory IPC_Properties
  imports IPC_Handlers
begin

text \<open>
  Properties of the inter-processor messages, each with its witness.
\<close>

text \<open>
  C12: Messages arrive in order. The sender of one processor and the receiver of another may interleave
  between any two of their accesses to the shared buffer, and the 8-bit counts may wrap round any number of
  times: what was received is always a prefix of what was sent, and what is between them, at most eight
  messages, is what the ring holds from the read count to the write count.
\<close>

theorem messages_in_order:
  assumes "chan_start c" "chan_step\<^sup>*\<^sup>* c c'"
  shows "\<exists>rest. c_sent c' = c_received c' @ rest \<and> rest = ring (c_buf c') (c_read c') (c_write c') \<and> length rest \<le> IPC_CBUF_SIZE"
  using chan_inv_reach [OF assms(2) chan_inv_start [OF assms(1)]] by (simp add: chan_inv_def Let_def)

definition demo_channel :: channel where
  "demo_channel = \<lparr>c_read = 255, c_write = 255, c_buf = (\<lambda>_. 0), c_sender = S_Idle, c_receiver = R_Idle, c_sent = [], c_received = []\<rparr>"

theorem messages_in_order_witness:
  "\<exists>c' rest. chan_step\<^sup>*\<^sup>* demo_channel c' \<and> c_sent c' = [5] \<and> c_sent c' = c_received c' @ rest \<and> length rest \<le> IPC_CBUF_SIZE"
proof -
  define c1 where "c1 = demo_channel\<lparr>c_sender := S_Checked 5 0\<rparr>"
  define c2 where "c2 = c1\<lparr>c_buf := (c_buf c1)(slot 255 := 5), c_sender := S_Stored 5\<rparr>"
  define c3 where "c3 = c2\<lparr>c_write := 255 + 1, c_sender := S_Idle, c_sent := [5]\<rparr>"
  have "chan_step demo_channel c1" using chan_step.check [of demo_channel 5] by (simp add: c1_def demo_channel_def)
  moreover have "chan_step c1 c2" using chan_step.store [of c1 5 0] by (simp add: c1_def c2_def demo_channel_def IPC_CBUF_SIZE_def)
  moreover have "chan_step c2 c3" using chan_step.count [of c2 5] by (simp add: c1_def c2_def c3_def demo_channel_def)
  ultimately have r: "chan_step\<^sup>*\<^sup>* demo_channel c3" by (meson converse_rtranclp_into_rtranclp r_into_rtranclp)
  have "chan_start demo_channel" by (simp add: chan_start_def demo_channel_def)
  from messages_in_order [OF this r] show ?thesis using r by (auto simp: c3_def)
qed

text \<open>
  C13: The interrupt handler is the plain loop over all buffers. With the ping library's handlers, and no
  command of its own in its buffers, the handler, which finds the buffers that are not empty from the leading
  zeros of the exclusive or of the packed counts, returns what handling the messages of buffers 0 to 4 in
  turn, each in its order of arrival, returns; and then every buffer of the processor is empty.
\<close>

theorem irq_handler_drains:
  assumes "ping_ok self s"
  shows "ipc_irq_handler ping_code self s = Some (ipc_irq_leave self (drain_all ping_code self [0..<5] (ipc_irq_enter self s))) \<and>
    (\<forall>sd \<le> OCCHW_INST_ID_MAX. buffered self sd (ipc_irq_leave self (drain_all ping_code self [0..<5] (ipc_irq_enter self s))) = [])"
  using ping.irq_drains [OF assms] by blast

text \<open>
  C14: A ping comes back. A free ping message, sent by one enabled processor to another, whose buffers are
  empty and whose handlers are the library's, is delivered, handled, answered and freed: the command returns
  success, the two interrupt handlers end, the message carries the code of success and is free again, the
  semaphore of the waiting thread has been posted once, and the buffers are empty. A PPE that sent the ping
  frees it in its interrupt handler. On the 405, which is in a critical interrupt there, the handler posts
  nothing and leaves the message active: it is the one message deferred, with the interrupt of the callback
  handler pending, and that handler's loop over the deferred messages, which ends, posts and frees it and
  clears the interrupt. No message may be deferred before, and the 405 not be in a critical interrupt.
\<close>

theorem ping_round_trip:
  assumes "self \<le> OCCHW_INST_ID_MAX" "t \<le> OCCHW_INST_ID_MAX" "t \<noteq> self" "G_ipc_enabled s self"
    and "ping_msg m s" "ping_ready self s" "ping_ready t s" "ping_calm s"
  shows "\<exists>s1 s2 s3 s4. ipc_send_cmd self m (snd (ipc_set_cmd_target m (of_nat t) s)) = (IPC_RC_SUCCESS, s1) \<and>
    ipc_irq_handler ping_code t s1 = Some s2 \<and> ipc_irq_handler ping_code self s2 = Some s3 \<and>
    (if self = OCCHW_INST_ID_PPC then ipc_posts s3 = ipc_posts s \<and> answer_deferred m s3 s4 else s4 = s3) \<and>
    ping_msg m s4 \<and> ipc_rc (ipc_msgs s4 m) = IPC_RC_SUCCESS \<and> ipc_posts s4 = ipc_posts s @ [m] \<and>
    ping_ready self s4 \<and> ping_ready t s4 \<and> ping_calm s4"
  by (rule ping_answered [OF assms])

text \<open>All processors are enabled and idle; message 1 is a ping.\<close>

definition demo_pinger :: ipc where
  "demo_pinger = \<lparr>ipc_targets = (\<lambda>_. \<lparr>reads = (\<lambda>_. 0), writes = (\<lambda>_. 0), cbufs = (\<lambda>_ _. 0)\<rparr>),
     ipc_msgs = (\<lambda>_. \<lparr>func_id = of_word32 0xff040500, ipc_rc = 0, resp_callback = IPC_PING_RESPONSE, callback_arg = 0\<rparr>),
     G_ipc_enabled = (\<lambda>_. True), G_ipc_mt_handlers = (\<lambda>_ _. (IPC_PING_HANDLER, 0)), G_ipc_st_handlers = (\<lambda>_ _. (IPC_DEFAULT_HANDLER, 0)),
     ipc_irq_status = (\<lambda>_. False), ipc_irq_masked = (\<lambda>_. False), ipc_posts = [],
     ipc_critical = False, ipc_deferred = [], ipc_async_ipi = False\<rparr>"

lemma demo_pinger_ready: "ping_ready self demo_pinger" "ping_msg 1 demo_pinger" "ping_calm demo_pinger"
  by (simp_all add: ping_calm_def ping_ready_def ping_msg_def demo_pinger_def buffered_def of_word32_def Let_def bit_simps)

definition demo_pinged :: ipc where
  "demo_pinged = snd (ipc_send_cmd 4 1 (snd (ipc_set_cmd_target 1 (of_nat 2) demo_pinger)))"

lemma demo_pinged_buffers:
  "buffered t' sd demo_pinged = (if t' = 2 \<and> sd = 4 then [1] else [])" "ping_ok 2 demo_pinged"
proof -
  have b: "buffered x y demo_pinger = []" for x y by (simp add: demo_pinger_def buffered_def)
  have s: "(\<forall>t' sd. buffered t' sd demo_pinged = (if t' = 2 \<and> sd = 4 then [1] else [])) \<and>
    G_ipc_mt_handlers demo_pinged = G_ipc_mt_handlers demo_pinger \<and> G_ipc_st_handlers demo_pinged = G_ipc_st_handlers demo_pinger \<and>
    (let x = ipc_msgs demo_pinged 1 in sender_id (func_id x) = 4 \<and> resp_callback x = IPC_PING_RESPONSE)"
    using ping_sent [of 4 2 demo_pinger 1, OF _ _ _ demo_pinger_ready(2,1)] b
    by (auto simp: demo_pinged_def OCCHW_INST_ID_MAX_def demo_pinger_def Let_def)
  then show "buffered t' sd demo_pinged = (if t' = 2 \<and> sd = 4 then [1] else [])" by blast
  show "ping_ok 2 demo_pinged"
    by (rule ping_ready_ok) (use s in \<open>auto simp: demo_pinger_def Let_def split: if_splits\<close>)
qed

theorem irq_handler_drains_witness:
  "buffered 2 4 demo_pinged = [1] \<and>
   (\<exists>s'. ipc_irq_handler ping_code 2 demo_pinged = Some s' \<and> (\<forall>sd \<le> OCCHW_INST_ID_MAX. buffered 2 sd s' = []))"
  using irq_handler_drains [OF demo_pinged_buffers(2)] demo_pinged_buffers(1) by simp

theorem ping_round_trip_witness:
  "(\<exists>s1 s2 s3 s4. ipc_send_cmd 4 1 (snd (ipc_set_cmd_target 1 (of_nat 2) demo_pinger)) = (IPC_RC_SUCCESS, s1) \<and>
    ipc_irq_handler ping_code 2 s1 = Some s2 \<and> ipc_irq_handler ping_code 4 s2 = Some s3 \<and> ipc_posts s3 = [] \<and> ipc_deferred s3 = [1] \<and>
    ipc_deferred_loop ping_code s3 = Some s4 \<and> ipc_posts s4 = [1] \<and> ping_msg 1 s4) \<and>
   (\<exists>s1 s2 s3. ipc_send_cmd 1 1 (snd (ipc_set_cmd_target 1 (of_nat 2) demo_pinger)) = (IPC_RC_SUCCESS, s1) \<and>
    ipc_irq_handler ping_code 2 s1 = Some s2 \<and> ipc_irq_handler ping_code 1 s2 = Some s3 \<and> ipc_posts s3 = [1] \<and> ping_msg 1 s3)"
proof
  have r: "G_ipc_enabled demo_pinger x" "ipc_posts demo_pinger = []" for x by (simp_all add: demo_pinger_def)
  show "\<exists>s1 s2 s3 s4. ipc_send_cmd 4 1 (snd (ipc_set_cmd_target 1 (of_nat 2) demo_pinger)) = (IPC_RC_SUCCESS, s1) \<and>
    ipc_irq_handler ping_code 2 s1 = Some s2 \<and> ipc_irq_handler ping_code 4 s2 = Some s3 \<and> ipc_posts s3 = [] \<and> ipc_deferred s3 = [1] \<and>
    ipc_deferred_loop ping_code s3 = Some s4 \<and> ipc_posts s4 = [1] \<and> ping_msg 1 s4"
    using ping_round_trip [of 4 2 demo_pinger 1] demo_pinger_ready r
    by (auto simp: OCCHW_INST_ID_MAX_def OCCHW_INST_ID_PPC_def answer_deferred_def)
  show "\<exists>s1 s2 s3. ipc_send_cmd 1 1 (snd (ipc_set_cmd_target 1 (of_nat 2) demo_pinger)) = (IPC_RC_SUCCESS, s1) \<and>
    ipc_irq_handler ping_code 2 s1 = Some s2 \<and> ipc_irq_handler ping_code 1 s2 = Some s3 \<and> ipc_posts s3 = [1] \<and> ping_msg 1 s3"
    using ping_round_trip [of 1 2 demo_pinger 1] demo_pinger_ready r
    by (auto simp: OCCHW_INST_ID_MAX_def OCCHW_INST_ID_PPC_def)
qed

end
