(* ===== verification/SSX_Deques.thy ===== *)
theory SSX_Deques
  imports SSX_Deque
begin

text \<open>
  Several doubly linked lists in one heap. Each sentinel of a set has its list; the lists share no
  node, so an operation on one leaves the others as they are.
\<close>

lemma links_elems: "links h (zs @ [d]) \<Longrightarrow> e \<in> set (tl zs) \<Longrightarrow> dq_prev h e \<in> set zs \<and> dq_next h e \<in> set (zs @ [d])"
proof -
  assume l: "links h (zs @ [d])" and e: "e \<in> set (tl zs)"
  from e obtain us vs where t: "tl zs = us @ e # vs" by (meson split_list)
  then obtain z where "zs = z # us @ e # vs" using e by (cases zs) auto
  then show ?thesis using l
  proof (induction us arbitrary: z zs)
    case Nil
    then show ?case by (cases vs) auto
  next
    case (Cons u us)
    then have "links h (u # us @ e # vs @ [d])" by simp
    then show ?case using Cons.IH [of "u # us @ e # vs" u] Cons.prems(1) by auto
  qed
qed

lemma repr_prev: "dq_repr h d xs \<Longrightarrow> dq_prev h d \<in> set (d # xs)"
proof (cases xs rule: rev_cases)
  case (snoc ys y)
  then show "dq_repr h d xs \<Longrightarrow> dq_prev h d \<in> set (d # xs)"
    using links_snoc2 [of h "d # ys" y d] by (simp add: dq_repr_def)
qed (simp add: dq_repr_def)

lemma repr_next: "dq_repr h d xs \<Longrightarrow> dq_next h d \<in> set (d # xs)"
  by (cases xs) (simp_all add: dq_repr_def)

lemma repr_elem: "dq_repr h d xs \<Longrightarrow> e \<in> set xs \<Longrightarrow> dq_prev h e \<in> set (d # xs) \<and> dq_next h e \<in> set (d # xs)"
  using links_elems [of h "d # xs" d e] by (auto simp: dq_repr_def)

lemma repr_cong:
  "dq_repr h d xs \<Longrightarrow> (\<And>x. x \<in> set (d # xs) \<Longrightarrow> dq_next h' x = dq_next h x \<and> dq_prev h' x = dq_prev h x) \<Longrightarrow> dq_repr h' d xs"
  unfolding dq_repr_def using links_cong [of "d # xs @ [d]" h' h] by (auto simp: butlast_append)

text \<open>Outside the list and the element, the operations change nothing.\<close>

lemma frame_push_back:
  "dq_repr h d xs \<Longrightarrow> y \<notin> set (e # d # xs) \<Longrightarrow>
    dq_next (ssx_deque_push_back d e h) y = dq_next h y \<and> dq_prev (ssx_deque_push_back d e h) y = dq_prev h y"
  using repr_prev [of h d xs] by (auto simp: ssx_deque_push_back_def Let_def)

lemma frame_push_front:
  "dq_repr h d xs \<Longrightarrow> y \<notin> set (e # d # xs) \<Longrightarrow>
    dq_next (ssx_deque_push_front d e h) y = dq_next h y \<and> dq_prev (ssx_deque_push_front d e h) y = dq_prev h y"
  using repr_next [of h d xs] by (auto simp: ssx_deque_push_front_def Let_def)

lemma frame_delete:
  "dq_repr h d xs \<Longrightarrow> e \<in> set xs \<Longrightarrow> y \<notin> set (d # xs) \<Longrightarrow>
    dq_next (ssx_deque_delete e h) y = dq_next h y \<and> dq_prev (ssx_deque_delete e h) y = dq_prev h y"
  using repr_elem [of h d xs e] by (auto simp: ssx_deque_delete_def Let_def)

definition deques :: "dq_heap \<Rightarrow> dq_ptr set \<Rightarrow> (dq_ptr \<Rightarrow> dq_ptr list) \<Rightarrow> bool" where
  "deques h S L \<longleftrightarrow> (\<forall>d \<in> S. dq_repr h d (L d)) \<and>
     (\<forall>d \<in> S. \<forall>d' \<in> S. d \<noteq> d' \<longrightarrow> set (d # L d) \<inter> set (d' # L d') = {})"

lemma deques_update:
  assumes "deques h S L" "d \<in> S" "dq_repr h' d ys"
    and "\<And>y. y \<notin> set (d # L d) \<union> X \<Longrightarrow> dq_next h' y = dq_next h y \<and> dq_prev h' y = dq_prev h y"
    and "set ys \<subseteq> set (L d) \<union> X" "\<And>d'. d' \<in> S \<Longrightarrow> X \<inter> set (d' # L d') = {}"
  shows "deques h' S (L(d := ys))"
proof -
  have "dq_repr h' d' (L d')" if "d' \<in> S" "d' \<noteq> d" for d'
  proof -
    have "y \<notin> set (d # L d) \<union> X" if "y \<in> set (d' # L d')" for y
      using that \<open>d' \<in> S\<close> \<open>d' \<noteq> d\<close> assms(1,2) assms(6) [of d'] unfolding deques_def by blast
    then show ?thesis using repr_cong [of h d' "L d'" h'] that(1) assms(1,4) by (auto simp: deques_def)
  qed
  moreover have "set (d # ys) \<inter> set (d' # L d') = {}" if "d' \<in> S" "d' \<noteq> d" for d'
  proof -
    have "set (d # L d) \<inter> set (d' # L d') = {}" using that assms(1,2) unfolding deques_def by blast
    then show ?thesis using assms(5) assms(6) [OF that(1)] by auto
  qed
  ultimately show ?thesis using assms(1-3) unfolding deques_def by (simp add: Int_commute)
qed

lemma deques_push_back:
  assumes "deques h S L" "d \<in> S" "e \<noteq> Null" "\<And>d'. d' \<in> S \<Longrightarrow> e \<notin> set (d' # L d')"
  shows "deques (ssx_deque_push_back d e h) S (L(d := L d @ [e]))"
proof (rule deques_update [OF assms(1,2), where X = "{e}"])
  have r: "dq_repr h d (L d)" using assms(1,2) by (simp add: deques_def)
  show "dq_repr (ssx_deque_push_back d e h) d (L d @ [e])" using dq_repr_push_back [OF r] assms(3,4) assms(2) by blast
  show "\<And>y. y \<notin> set (d # L d) \<union> {e} \<Longrightarrow> dq_next (ssx_deque_push_back d e h) y = dq_next h y \<and> dq_prev (ssx_deque_push_back d e h) y = dq_prev h y"
    using frame_push_back [OF r] by simp
qed (use assms(4) in auto)

lemma deques_push_front:
  assumes "deques h S L" "d \<in> S" "e \<noteq> Null" "\<And>d'. d' \<in> S \<Longrightarrow> e \<notin> set (d' # L d')"
  shows "deques (ssx_deque_push_front d e h) S (L(d := e # L d))"
proof (rule deques_update [OF assms(1,2), where X = "{e}"])
  have r: "dq_repr h d (L d)" using assms(1,2) by (simp add: deques_def)
  show "dq_repr (ssx_deque_push_front d e h) d (e # L d)" using dq_repr_push_front [OF r] assms(3,4) assms(2) by blast
  show "\<And>y. y \<notin> set (d # L d) \<union> {e} \<Longrightarrow> dq_next (ssx_deque_push_front d e h) y = dq_next h y \<and> dq_prev (ssx_deque_push_front d e h) y = dq_prev h y"
    using frame_push_front [OF r] by simp
qed (use assms(4) in auto)

lemma deques_delete:
  assumes "deques h S L" "d \<in> S" "L d = us @ e # vs"
  shows "deques (ssx_deque_delete e h) S (L(d := us @ vs))"
proof (rule deques_update [OF assms(1,2), where X = "{}"])
  have r: "dq_repr h d (L d)" using assms(1,2) by (simp add: deques_def)
  show "dq_repr (ssx_deque_delete e h) d (us @ vs)" using dq_repr_delete r assms(3) by metis
  show "\<And>y. y \<notin> set (d # L d) \<union> {} \<Longrightarrow> dq_next (ssx_deque_delete e h) y = dq_next h y \<and> dq_prev (ssx_deque_delete e h) y = dq_prev h y"
    using frame_delete [OF r, of e] assms(3) by simp
qed (use assms(3) in auto)

lemma deques_pop:
  assumes "deques h S L" "d \<in> S"
  shows "L d = [] \<Longrightarrow> ssx_deque_pop_front d h = (Null, h)"
    and "L d = x # xs \<Longrightarrow> ssx_deque_pop_front d h = (x, ssx_deque_delete x h) \<and> deques (ssx_deque_delete x h) S (L(d := xs)) \<and> x \<noteq> Null"
proof -
  have r: "dq_repr h d (L d)" using assms by (simp add: deques_def)
  show "L d = [] \<Longrightarrow> ssx_deque_pop_front d h = (Null, h)" using dq_repr_is_empty [OF r] by (simp add: ssx_deque_pop_front_def)
  assume x: "L d = x # xs"
  have "x \<noteq> Null" using r x by (auto simp: dq_repr_def)
  then show "ssx_deque_pop_front d h = (x, ssx_deque_delete x h) \<and> deques (ssx_deque_delete x h) S (L(d := xs)) \<and> x \<noteq> Null"
    using dq_repr_pop_front_eq [of h d x xs] r x deques_delete [OF assms, of "[]" x xs] by simp
qed

end
