(* ===== verification/SSX_Async.thy ===== *)
theory SSX_Async
  imports SSX_Deques SSX_Kernel "HOL-Library.Monad_Syntax"
begin

text \<open>
  ssx/occhw/occhw_async.c, occhw_async_gpe.c: queues of requests for the engines, and the queue of
  callbacks that critical interrupts defer. Requests and queues are addressed by number; the deques
  are those of SSX_Deque, in one heap, with the queue's number in the sentinel.

  The run and error methods and the callbacks that a request carries are the record \<open>methods\<close>; what
  they keep of an engine is the field \<open>a_engine\<close>, of a type of the driver's. A callback returns a code
  and touches nothing of this state; \<open>a_called\<close> lists the requests whose callback has run. Of the kernel, what this code calls is a small state: the context, the timers that are armed, each
  request's semaphore and whether a thread waits on it, the pending inter-processor interrupt.
\<close>

unbundle bit_operations_syntax

section \<open>State\<close>

datatype kctx = Thread_Ctx | Noncritical_Ctx | Critical_Ctx

record async_req =
  rq_queue :: nat
  run_method :: nat
  error_method :: nat
  rq_callback :: nat
  rq_arg :: nat
  rq_timeout :: u64
  callback_rc :: int
  rq_options :: u8
  rq_state :: u8
  abort_state :: u8
  completion_state :: u8
  start_time :: u64
  end_time :: u64

record async_queue =
  q_current :: nat
  q_engine :: u8
  q_state :: u8

record 'e async =
  a_ctx :: kctx
  a_heap :: dq_heap
  a_reqs :: "nat \<Rightarrow> async_req"
  a_queues :: "nat \<Rightarrow> async_queue"
  a_armed :: "nat set"
  a_count :: "nat \<Rightarrow> nat"
  a_waiting :: "nat set"
  a_ipi :: bool
  a_time :: u64
  a_called :: "nat list"
  a_engine :: "'e"

record 'e methods =
  m_run :: "nat \<Rightarrow> nat \<Rightarrow> 'e async \<Rightarrow> int \<times> 'e async"
  m_error :: "nat \<Rightarrow> nat \<Rightarrow> 'e async \<Rightarrow> int \<times> 'e async"
  m_callback :: "nat \<Rightarrow> nat \<Rightarrow> 'e async \<Rightarrow> int"

definition ASYNC_REQUEST_STATE_QUEUED :: u8 where "ASYNC_REQUEST_STATE_QUEUED = 0x10"
definition ASYNC_REQUEST_STATE_RUNNING :: u8 where "ASYNC_REQUEST_STATE_RUNNING = 0x20"
definition ASYNC_REQUEST_STATE_CALLBACK_QUEUED :: u8 where "ASYNC_REQUEST_STATE_CALLBACK_QUEUED = 0x40"
definition ASYNC_REQUEST_STATE_CALLBACK_RUNNING :: u8 where "ASYNC_REQUEST_STATE_CALLBACK_RUNNING = 0x41"
definition ASYNC_REQUEST_STATE_POSTPROCESSING :: u8 where "ASYNC_REQUEST_STATE_POSTPROCESSING = 0x42"
definition ASYNC_REQUEST_STATE_INITIALIZED :: u8 where "ASYNC_REQUEST_STATE_INITIALIZED = 0x80"
definition ASYNC_REQUEST_STATE_FAILED :: u8 where "ASYNC_REQUEST_STATE_FAILED = 0x81"
definition ASYNC_REQUEST_STATE_COMPLETE :: u8 where "ASYNC_REQUEST_STATE_COMPLETE = 0x82"
definition ASYNC_REQUEST_STATE_TIMED_OUT :: u8 where "ASYNC_REQUEST_STATE_TIMED_OUT = 0x84"
definition ASYNC_REQUEST_QUEUED_GROUP :: u8 where "ASYNC_REQUEST_QUEUED_GROUP = 0x10"
definition ASYNC_REQUEST_RUNNING_GROUP :: u8 where "ASYNC_REQUEST_RUNNING_GROUP = 0x20"
definition ASYNC_REQUEST_CALLBACK_GROUP :: u8 where "ASYNC_REQUEST_CALLBACK_GROUP = 0x40"
definition ASYNC_REQUEST_IDLE_GROUP :: u8 where "ASYNC_REQUEST_IDLE_GROUP = 0x80"
definition ASYNC_CALLBACK_IMMEDIATE :: u8 where "ASYNC_CALLBACK_IMMEDIATE = 0x01"
definition ASYNC_CALLBACK_DEFERRED :: u8 where "ASYNC_CALLBACK_DEFERRED = 0x02"
definition ASYNC_CALLBACK_NONCRITICAL :: u8 where "ASYNC_CALLBACK_NONCRITICAL = 0x04"
definition ASYNC_CALLBACK_OPTIONS :: u8 where "ASYNC_CALLBACK_OPTIONS = 0x07"
definition ASYNC_REQUEST_PRIORITY :: u8 where "ASYNC_REQUEST_PRIORITY = 0x08"
definition ASYNC_CALLBACK_PRIORITY :: u8 where "ASYNC_CALLBACK_PRIORITY = 0x10"
definition ASYNC_REQUEST_BLOCKING :: u8 where "ASYNC_REQUEST_BLOCKING = 0x20"
definition ASYNC_GENERIC_OPTIONS :: u32 where "ASYNC_GENERIC_OPTIONS = 0x003f"
definition ASYNC_QUEUE_STATE_IDLE :: u8 where "ASYNC_QUEUE_STATE_IDLE = 0x00"
definition ASYNC_QUEUE_STATE_RUNNING :: u8 where "ASYNC_QUEUE_STATE_RUNNING = 0x01"
definition ASYNC_QUEUE_STATE_ERROR :: u8 where "ASYNC_QUEUE_STATE_ERROR = 0x02"

definition ASYNC_INVALID_OBJECT_REQUEST :: int where "ASYNC_INVALID_OBJECT_REQUEST = 0x00279600"
definition ASYNC_INVALID_OBJECT_SCHEDULE :: int where "ASYNC_INVALID_OBJECT_SCHEDULE = 0x00279601"
definition ASYNC_INVALID_OBJECT_GPE_REQUEST :: int where "ASYNC_INVALID_OBJECT_GPE_REQUEST = 0x00279609"
definition ASYNC_INVALID_OBJECT_GPE_QUEUE :: int where "ASYNC_INVALID_OBJECT_GPE_QUEUE = 0x0027960a"
definition ASYNC_INVALID_ARGUMENT :: int where "ASYNC_INVALID_ARGUMENT = 0x00279610"
definition ASYNC_INVALID_ENGINE_GPE :: int where "ASYNC_INVALID_ENGINE_GPE = 0x00279622"
definition ASYNC_INVALID_OPTIONS :: int where "ASYNC_INVALID_OPTIONS = 0x00279624"
definition ASYNC_CALLBACK_PROTOCOL_UNSPECIFIED :: int where "ASYNC_CALLBACK_PROTOCOL_UNSPECIFIED = 0x00279626"
definition ASYNC_REQUEST_NOT_IDLE :: int where "ASYNC_REQUEST_NOT_IDLE = 0x00279627"
definition ASYNC_REQUEST_COMPLETE :: int where "ASYNC_REQUEST_COMPLETE = 0x00279629"
definition ASYNC_INVALID_TIMESTAMPS :: int where "ASYNC_INVALID_TIMESTAMPS = 0x0027962a"
definition ASYNC_REQUEST_NOT_COMPLETE :: int where "ASYNC_REQUEST_NOT_COMPLETE = 0x00279631"
definition ASYNC_PHANTOM_INTERRUPT :: int where "ASYNC_PHANTOM_INTERRUPT = 0x00279634"
definition ASYNC_TIMEOUT_BUG :: int where "ASYNC_TIMEOUT_BUG = 0x00279639"
definition ASYNC_INVALID_STATE :: int where "ASYNC_INVALID_STATE = 0x0027963a"
definition ASYNC_PHANTOM_ERROR :: int where "ASYNC_PHANTOM_ERROR = 0x0027963b"

text \<open>Sentinel 0 is that of the callback queue; a queue at address \<open>q\<close> has its own.\<close>

definition G_async_callback_queue :: dq_ptr where "G_async_callback_queue = Sentinel 0"

abbreviation upd_req :: "nat \<Rightarrow> (async_req \<Rightarrow> async_req) \<Rightarrow> 'e async \<Rightarrow> 'e async" where
  "upd_req r f s \<equiv> s\<lparr>a_reqs := (a_reqs s)(r := f (a_reqs s r))\<rparr>"

abbreviation upd_queue :: "nat \<Rightarrow> (async_queue \<Rightarrow> async_queue) \<Rightarrow> 'e async \<Rightarrow> 'e async" where
  "upd_queue q f s \<equiv> s\<lparr>a_queues := (a_queues s)(q := f (a_queues s q))\<rparr>"

definition has :: "u8 \<Rightarrow> nat \<Rightarrow> 'e async \<Rightarrow> bool" where
  "has f r s \<longleftrightarrow> rq_options (a_reqs s r) AND f \<noteq> 0"

definition in_group :: "u8 \<Rightarrow> nat \<Rightarrow> 'e async \<Rightarrow> bool" where
  "in_group g r s \<longleftrightarrow> rq_state (a_reqs s r) AND g \<noteq> 0"

section \<open>What the kernel does\<close>

definition timer_schedule :: "nat \<Rightarrow> 'e async \<Rightarrow> panic_code + (int \<times> 'e async)" where
  "timer_schedule r s =
     (if a_ctx s = Critical_Ctx then Inl SSX_ILLEGAL_CONTEXT_TIMER else Inr (SSX_OK, s\<lparr>a_armed := insert r (a_armed s)\<rparr>))"

definition timer_cancel :: "nat \<Rightarrow> 'e async \<Rightarrow> panic_code + 'e async" where
  "timer_cancel r s =
     (if a_ctx s = Critical_Ctx then Inl SSX_ILLEGAL_CONTEXT_CRITICAL_INTERRUPT else Inr (s\<lparr>a_armed := a_armed s - {r}\<rparr>))"

definition sem_post :: "nat \<Rightarrow> 'e async \<Rightarrow> panic_code + 'e async" where
  "sem_post r s =
     (if a_ctx s = Critical_Ctx then Inl SSX_ILLEGAL_CONTEXT_CRITICAL_INTERRUPT
      else if r \<in> a_waiting s then Inr (s\<lparr>a_waiting := a_waiting s - {r}\<rparr>)
      else if a_count s r + 1 > 1 then Inl SSX_SEMAPHORE_OVERFLOW
      else Inr (s\<lparr>a_count := (a_count s)(r := a_count s r + 1)\<rparr>))"

text \<open>\<open>True\<close> when the pend returned, \<open>False\<close> when the thread has blocked.\<close>

definition sem_pend :: "nat \<Rightarrow> 'e async \<Rightarrow> panic_code + (bool \<times> 'e async)" where
  "sem_pend r s =
     (if a_ctx s = Critical_Ctx then Inl SSX_ILLEGAL_CONTEXT_CRITICAL_INTERRUPT
      else if a_count s r \<noteq> 0 then Inr (True, s\<lparr>a_count := (a_count s)(r := a_count s r - 1)\<rparr>)
      else if a_ctx s \<noteq> Thread_Ctx then Inl SSX_SEMAPHORE_PEND_WOULD_BLOCK
      else Inr (False, s\<lparr>a_waiting := insert r (a_waiting s)\<rparr>))"

section \<open>Requests and queues\<close>

definition async_request_is_idle :: "nat \<Rightarrow> 'e async \<Rightarrow> bool" where
  "async_request_is_idle r s = in_group ASYNC_REQUEST_IDLE_GROUP r s"

definition async_request_completed :: "nat \<Rightarrow> 'e async \<Rightarrow> bool" where
  "async_request_completed r s = (rq_state (a_reqs s r) = ASYNC_REQUEST_STATE_COMPLETE)"

definition async_queue_create :: "nat \<Rightarrow> u8 \<Rightarrow> 'e async \<Rightarrow> panic_code + (int \<times> 'e async)" where
  "async_queue_create q engine s =
     kbind (ssx_deque_sentinel_create (Sentinel q) (a_heap s))
       (\<lambda>(_, h). Inr (0, upd_queue q (\<lambda>_. \<lparr>q_current = 0, q_engine = engine, q_state = ASYNC_QUEUE_STATE_IDLE\<rparr>) (s\<lparr>a_heap := h\<rparr>)))"

text \<open>More than one bit is set (\<open>SSX_POPCOUNT32(x) > 1\<close>).\<close>

definition several :: "u32 \<Rightarrow> bool" where
  "several x \<longleftrightarrow> length (filter (bit x) [0..<32]) > 1"

definition async_request_create :: "nat \<Rightarrow> nat \<Rightarrow> nat \<Rightarrow> nat \<Rightarrow> u64 \<Rightarrow> nat \<Rightarrow> nat \<Rightarrow> u32 \<Rightarrow> 'e async \<Rightarrow> panic_code + (int \<times> 'e async)" where
  "async_request_create r q run err timeout cb arg options s =
     (if r = 0 \<or> q = 0 then Inl ASYNC_INVALID_OBJECT_REQUEST
      else if options AND NOT ASYNC_GENERIC_OPTIONS \<noteq> 0 \<or> several (options AND ucast ASYNC_CALLBACK_OPTIONS)
      then Inl ASYNC_INVALID_OPTIONS
      else if run = 0 then Inl ASYNC_INVALID_ARGUMENT
      else if cb \<noteq> 0 \<and> options AND ucast ASYNC_CALLBACK_OPTIONS = 0 then Inl ASYNC_CALLBACK_PROTOCOL_UNSPECIFIED
      else kbind (ssx_deque_element_create (Request r) (a_heap s))
        (\<lambda>(_, h). Inr (0,
           (let s1 = upd_req r (\<lambda>x. x\<lparr>rq_queue := q, run_method := run, error_method := err, rq_timeout := timeout,
                         rq_state := ASYNC_REQUEST_STATE_INITIALIZED, rq_callback := cb, rq_arg := arg, rq_options := ucast options\<rparr>)
                       (s\<lparr>a_heap := h\<rparr>);
                s2 = (if timeout \<noteq> SSX_WAIT_FOREVER then s1\<lparr>a_armed := a_armed s1 - {r}\<rparr> else s1)
            in if options AND ucast ASYNC_REQUEST_BLOCKING \<noteq> 0
               then s2\<lparr>a_count := (a_count s2)(r := 0), a_waiting := a_waiting s2 - {r}\<rparr> else s2))))"

definition async_request_timestamps_get :: "nat \<Rightarrow> 'e async \<Rightarrow> int \<times> u64 \<times> u64" where
  "async_request_timestamps_get r s =
     ((if in_group ASYNC_REQUEST_IDLE_GROUP r s \<and> rq_state (a_reqs s r) \<noteq> ASYNC_REQUEST_STATE_INITIALIZED then 0
       else - ASYNC_INVALID_TIMESTAMPS),
      start_time (a_reqs s r), end_time (a_reqs s r))"

definition async_request_latency :: "nat \<Rightarrow> 'e async \<Rightarrow> int \<times> u64" where
  "async_request_latency r s = (let (rc, start, end) = async_request_timestamps_get r s in (rc, end - start))"

section \<open>Completion\<close>

definition async_request_run :: "'e methods \<Rightarrow> nat \<Rightarrow> 'e async \<Rightarrow> int \<times> 'e async" where
  "async_request_run M r s =
     (let s1 = (if rq_state (a_reqs s r) \<noteq> ASYNC_REQUEST_STATE_RUNNING then upd_req r (\<lambda>x. x\<lparr>start_time := a_time s\<rparr>) s else s);
          s2 = upd_req r (\<lambda>x. x\<lparr>rq_state := ASYNC_REQUEST_STATE_RUNNING\<rparr>) s1
      in m_run M (run_method (a_reqs s2 r)) r s2)"

definition async_run_callback :: "'e methods \<Rightarrow> nat \<Rightarrow> 'e async \<Rightarrow> 'e async" where
  "async_run_callback M r s =
     (let s1 = upd_req r (\<lambda>x. x\<lparr>rq_state := ASYNC_REQUEST_STATE_CALLBACK_RUNNING\<rparr>) s;
          rc = m_callback M (rq_callback (a_reqs s1 r)) (rq_arg (a_reqs s1 r)) s1
      in upd_req r (\<lambda>x. x\<lparr>callback_rc := rc\<rparr>) (s1\<lparr>a_called := a_called s1 @ [r]\<rparr>))"

text \<open>Cancelling the timer and waking the thread, which both completion paths end with.\<close>

definition release :: "nat \<Rightarrow> 'e async \<Rightarrow> panic_code + 'e async" where
  "release r s =
     kbind (if rq_timeout (a_reqs s r) \<noteq> SSX_WAIT_FOREVER then timer_cancel r s else Inr s)
       (\<lambda>s1. if has ASYNC_REQUEST_BLOCKING r s1 then sem_post r s1 else Inr s1)"

definition defer_completion :: "nat \<Rightarrow> 'e async \<Rightarrow> 'e async" where
  "defer_completion r s =
     s\<lparr>a_heap := (if has ASYNC_CALLBACK_PRIORITY r s then ssx_deque_push_front G_async_callback_queue (Request r) (a_heap s)
                 else ssx_deque_push_back G_async_callback_queue (Request r) (a_heap s)),
       a_ipi := True\<rparr>"

text \<open>After the callback, or with it still to run: the timer and the semaphore, at once or later.\<close>

definition postprocess :: "bool \<Rightarrow> nat \<Rightarrow> 'e async \<Rightarrow> panic_code + 'e async" where
  "postprocess completed r s =
     kbind
       (if completed \<and> (rq_timeout (a_reqs s r) \<noteq> SSX_WAIT_FOREVER \<or> has ASYNC_REQUEST_BLOCKING r s) then
          (if a_ctx s = Critical_Ctx then Inr (False, upd_req r (\<lambda>x. x\<lparr>rq_state := ASYNC_REQUEST_STATE_POSTPROCESSING\<rparr>) s)
           else kbind (release r s) (\<lambda>s1. Inr (True, s1)))
        else Inr (completed, s))
       (\<lambda>(completed, s1).
          if completed then Inr (upd_req r (\<lambda>x. x\<lparr>rq_state := completion_state x\<rparr>) s1)
          else Inr (defer_completion r s1))"

definition async_request_complete :: "'e methods \<Rightarrow> nat \<Rightarrow> 'e async \<Rightarrow> panic_code + 'e async" where
  "async_request_complete M r s =
     (if rq_callback (a_reqs s r) = 0 then postprocess True r s
      else if has ASYNC_CALLBACK_IMMEDIATE r s \<or> has ASYNC_CALLBACK_NONCRITICAL r s \<and> a_ctx s \<noteq> Critical_Ctx
      then postprocess True r (async_run_callback M r s)
      else postprocess False r (upd_req r (\<lambda>x. x\<lparr>rq_state := ASYNC_REQUEST_STATE_CALLBACK_QUEUED\<rparr>) s))"

text \<open>One round of the loop in async_handler, with the return code of the run method.\<close>

definition request_of :: "dq_ptr \<Rightarrow> nat" where
  "request_of x = (case x of Request r \<Rightarrow> r | _ \<Rightarrow> 0)"

definition next_job :: "'e methods \<Rightarrow> nat \<Rightarrow> 'e async \<Rightarrow> int \<times> 'e async" where
  "next_job M q s =
     (if q_state (a_queues s q) = ASYNC_QUEUE_STATE_ERROR then (0, upd_queue q (\<lambda>x. x\<lparr>q_current := 0\<rparr>) s)
      else let (x, h) = ssx_deque_pop_front (Sentinel q) (a_heap s);
               current = request_of x;
               s1 = upd_queue q (\<lambda>x. x\<lparr>q_current := current\<rparr>) (s\<lparr>a_heap := h\<rparr>)
           in if current \<noteq> 0
              then async_request_run M current (upd_queue q (\<lambda>x. x\<lparr>q_state := ASYNC_QUEUE_STATE_RUNNING\<rparr>) s1)
              else (0, upd_queue q (\<lambda>x. x\<lparr>q_state := ASYNC_QUEUE_STATE_IDLE\<rparr>) s1))"

definition async_round :: "'e methods \<Rightarrow> nat \<Rightarrow> 'e async \<Rightarrow> panic_code + (int \<times> 'e async)" where
  "async_round M q s =
     (let idle = (q_state (a_queues s q) = ASYNC_QUEUE_STATE_IDLE);
          finished = (if idle then 0 else q_current (a_queues s q))
      in if \<not> idle \<and> finished = 0 then Inl ASYNC_PHANTOM_INTERRUPT
         else let s1 = (if idle then s else upd_req finished (\<lambda>x. x\<lparr>end_time := a_time s\<rparr>) s);
                  (rc, s2) = next_job M q s1
              in if finished \<noteq> 0 then kbind (async_request_complete M finished s2) (\<lambda>s3. Inr (rc, s3)) else Inr (rc, s2))"

partial_function (option) async_handler :: "'e methods \<Rightarrow> nat \<Rightarrow> 'e async \<Rightarrow> (panic_code + 'e async) option" where
  "async_handler M q s =
     (case async_round M q s of
        Inl p \<Rightarrow> Some (Inl p)
      | Inr (rc, s1) \<Rightarrow> if rc = - ASYNC_REQUEST_COMPLETE then async_handler M q s1 else Some (Inr s1))"

declare async_handler.simps [code]

section \<open>Scheduling\<close>

text \<open>The caller gets a return code, or it blocks and goes on with \<open>async_request_resumed\<close>.\<close>

datatype sched_result = Returned int | Blocked

definition async_request_resumed :: "nat \<Rightarrow> 'e async \<Rightarrow> int" where
  "async_request_resumed r s = (if \<not> async_request_completed r s then - ASYNC_REQUEST_NOT_COMPLETE else 0)"

definition enqueue_request :: "nat \<Rightarrow> 'e async \<Rightarrow> 'e async" where
  "enqueue_request r s =
     (let d = Sentinel (rq_queue (a_reqs s r))
      in upd_req r (\<lambda>x. x\<lparr>rq_state := ASYNC_REQUEST_STATE_QUEUED, completion_state := ASYNC_REQUEST_STATE_COMPLETE, callback_rc := 0\<rparr>)
           (s\<lparr>a_heap := (if has ASYNC_REQUEST_PRIORITY r s then ssx_deque_push_front d (Request r) (a_heap s)
                        else ssx_deque_push_back d (Request r) (a_heap s))\<rparr>))"

definition async_request_schedule :: "'e methods \<Rightarrow> nat \<Rightarrow> 'e async \<Rightarrow> (panic_code + (sched_result \<times> 'e async)) option" where
  "async_request_schedule M r s =
     (if r = 0 then Some (Inl ASYNC_INVALID_OBJECT_SCHEDULE)
      else if \<not> async_request_is_idle r s then Some (Inr (Returned (- ASYNC_REQUEST_NOT_IDLE), s))
      else case (if rq_timeout (a_reqs s r) \<noteq> SSX_WAIT_FOREVER then timer_schedule r s else Inr (0, s)) of
        Inl p \<Rightarrow> Some (Inl p)
      | Inr (rc, s1) \<Rightarrow>
          if rc \<noteq> 0 then Some (Inr (Returned rc, s1))
          else do {
            let s2 = enqueue_request r s1;
            let q = rq_queue (a_reqs s2 r);
            m \<leftarrow> (if q_state (a_queues s2 q) = ASYNC_QUEUE_STATE_IDLE then async_handler M q s2 else Some (Inr s2));
            Some (kbind m (\<lambda>s3.
              if has ASYNC_REQUEST_BLOCKING r s3 then
                kbind (sem_pend r s3) (\<lambda>(returned, s4). Inr (if returned then Returned (async_request_resumed r s4) else Blocked, s4))
              else Inr (Returned 0, s3)))
          })"

section \<open>Errors and timeouts\<close>

definition stop_engine :: "'e methods \<Rightarrow> nat \<Rightarrow> nat \<Rightarrow> 'e async \<Rightarrow> 'e async" where
  "stop_engine M q r s =
     (if error_method (a_reqs s r) \<noteq> 0 then
        (let (rc, s1) = m_error M (error_method (a_reqs s r)) r s
         in if rc \<noteq> 0 then upd_queue q (\<lambda>x. x\<lparr>q_state := ASYNC_QUEUE_STATE_ERROR\<rparr>) s1 else s1)
      else s)"

definition async_error_handler :: "'e methods \<Rightarrow> nat \<Rightarrow> u8 \<Rightarrow> 'e async \<Rightarrow> (panic_code + 'e async) option" where
  "async_error_handler M q completion s =
     (let finished = q_current (a_queues s q)
      in if finished = 0 then Some (Inl ASYNC_PHANTOM_ERROR)
         else async_handler M q
                (upd_req finished (\<lambda>x. x\<lparr>abort_state := rq_state x, completion_state := completion\<rparr>) (stop_engine M q finished s)))"

definition async_request_dequeue :: "'e methods \<Rightarrow> nat \<Rightarrow> u8 \<Rightarrow> 'e async \<Rightarrow> panic_code + 'e async" where
  "async_request_dequeue M r completion s =
     async_request_complete M r
       (upd_req r (\<lambda>x. x\<lparr>abort_state := rq_state x, completion_state := completion\<rparr>)
         (s\<lparr>a_heap := ssx_deque_delete (Request r) (a_heap s)\<rparr>))"

definition async_timeout :: "'e methods \<Rightarrow> nat \<Rightarrow> 'e async \<Rightarrow> (panic_code + 'e async) option" where
  "async_timeout M r s =
     (if in_group ASYNC_REQUEST_CALLBACK_GROUP r s then Some (Inr s)
      else if in_group ASYNC_REQUEST_IDLE_GROUP r s then Some (Inl ASYNC_TIMEOUT_BUG)
      else if in_group ASYNC_REQUEST_QUEUED_GROUP r s then Some (async_request_dequeue M r ASYNC_REQUEST_STATE_TIMED_OUT s)
      else if in_group ASYNC_REQUEST_RUNNING_GROUP r s
      then async_error_handler M (rq_queue (a_reqs s r)) ASYNC_REQUEST_STATE_TIMED_OUT s
      else Some (Inl ASYNC_INVALID_STATE))"

section \<open>The callback queue\<close>

text \<open>A deferred callback runs with interrupts enabled and a noncritical one with interrupts disabled;
  neither is visible here.\<close>

definition async_request_finalize :: "'e methods \<Rightarrow> nat \<Rightarrow> 'e async \<Rightarrow> panic_code + 'e async" where
  "async_request_finalize M r s =
     (let s1 = (if rq_state (a_reqs s r) = ASYNC_REQUEST_STATE_CALLBACK_QUEUED then async_run_callback M r s else s);
          s2 = upd_req r (\<lambda>x. x\<lparr>rq_state := completion_state x\<rparr>) s1
      in release r s2)"

text \<open>One round of the handler's first loop; \<open>None\<close> when the queue is empty, which ends the loop. The driver's file
  has the second loop, over the deferred messages, at whose end the interrupt is cleared.\<close>

definition async_callback_round :: "'e methods \<Rightarrow> 'e async \<Rightarrow> (panic_code + 'e async) option" where
  "async_callback_round M s =
     (let (x, h) = ssx_deque_pop_front G_async_callback_queue (a_heap s)
      in if x = Null then None else Some (async_request_finalize M (request_of x) (s\<lparr>a_heap := h\<rparr>)))"

partial_function (option) async_callback_loop :: "'e methods \<Rightarrow> 'e async \<Rightarrow> (panic_code + 'e async) option" where
  "async_callback_loop M s =
     (case async_callback_round M s of
        None \<Rightarrow> Some (Inr s)
      | Some (Inl p) \<Rightarrow> Some (Inl p)
      | Some (Inr s1) \<Rightarrow> async_callback_loop M s1)"

definition async_callback_done :: "'e async \<Rightarrow> 'e async" where
  "async_callback_done s = s\<lparr>a_ipi := False\<rparr>"

end
