(* ===== verification/SSX_Async_Inv.thy ===== *)
theory SSX_Async_Inv
  imports SSX_Async
begin

text \<open>
  The invariant of the asynchronous requests: every request is where its state says it is, and the
  timers and semaphores agree with it. Each step keeps it, and with it no panic of occhw_async.c is
  reachable. The laws of an engine are a locale; the drivers interpret it.
\<close>

unbundle bit_operations_syntax

section \<open>States\<close>

lemmas request_states =
  ASYNC_REQUEST_STATE_QUEUED_def ASYNC_REQUEST_STATE_RUNNING_def ASYNC_REQUEST_STATE_CALLBACK_QUEUED_def
  ASYNC_REQUEST_STATE_CALLBACK_RUNNING_def ASYNC_REQUEST_STATE_POSTPROCESSING_def ASYNC_REQUEST_STATE_INITIALIZED_def
  ASYNC_REQUEST_STATE_FAILED_def ASYNC_REQUEST_STATE_COMPLETE_def ASYNC_REQUEST_STATE_TIMED_OUT_def

lemmas request_groups =
  ASYNC_REQUEST_QUEUED_GROUP_def ASYNC_REQUEST_RUNNING_GROUP_def ASYNC_REQUEST_CALLBACK_GROUP_def ASYNC_REQUEST_IDLE_GROUP_def

lemmas queue_states = ASYNC_QUEUE_STATE_IDLE_def ASYNC_QUEUE_STATE_RUNNING_def ASYNC_QUEUE_STATE_ERROR_def

definition done_states :: "u8 set" where
  "done_states = {ASYNC_REQUEST_STATE_FAILED, ASYNC_REQUEST_STATE_COMPLETE, ASYNC_REQUEST_STATE_TIMED_OUT}"

definition idle_states :: "u8 set" where
  "idle_states = insert ASYNC_REQUEST_STATE_INITIALIZED done_states"

definition deferred_states :: "u8 set" where
  "deferred_states = {ASYNC_REQUEST_STATE_CALLBACK_QUEUED, ASYNC_REQUEST_STATE_POSTPROCESSING}"

definition busy_states :: "u8 set" where
  "busy_states = {ASYNC_REQUEST_STATE_QUEUED, ASYNC_REQUEST_STATE_RUNNING} \<union> deferred_states"

definition pending_states :: "u8 set" where
  "pending_states = {ASYNC_REQUEST_STATE_QUEUED, ASYNC_REQUEST_STATE_RUNNING, ASYNC_REQUEST_STATE_CALLBACK_QUEUED}"

lemmas state_sets = pending_states_def done_states_def idle_states_def deferred_states_def busy_states_def

lemma busy_not_idle: "st \<in> busy_states \<Longrightarrow> st \<notin> idle_states"
  by (auto simp: state_sets request_states)

lemma done_idle: "st \<in> done_states \<Longrightarrow> st \<in> idle_states"
  by (simp add: state_sets)

lemma done_not_busy: "st \<in> done_states \<Longrightarrow> st \<notin> busy_states \<and> st \<noteq> ASYNC_REQUEST_STATE_QUEUED \<and> st \<noteq> ASYNC_REQUEST_STATE_RUNNING \<and> st \<notin> deferred_states"
  by (auto simp: state_sets request_states)

lemma states_apart:
  "ASYNC_REQUEST_STATE_QUEUED \<notin> deferred_states" "ASYNC_REQUEST_STATE_RUNNING \<notin> deferred_states"
  "ASYNC_REQUEST_STATE_INITIALIZED \<notin> deferred_states"
  "ASYNC_REQUEST_STATE_QUEUED \<noteq> ASYNC_REQUEST_STATE_RUNNING" "ASYNC_REQUEST_STATE_RUNNING \<noteq> ASYNC_REQUEST_STATE_QUEUED"
  "ASYNC_REQUEST_STATE_INITIALIZED \<noteq> ASYNC_REQUEST_STATE_QUEUED" "ASYNC_REQUEST_STATE_INITIALIZED \<noteq> ASYNC_REQUEST_STATE_RUNNING"
  "ASYNC_REQUEST_STATE_QUEUED \<in> busy_states" "ASYNC_REQUEST_STATE_RUNNING \<in> busy_states"
  "ASYNC_REQUEST_STATE_COMPLETE \<in> done_states" "ASYNC_REQUEST_STATE_FAILED \<in> done_states" "ASYNC_REQUEST_STATE_TIMED_OUT \<in> done_states"
  "ASYNC_REQUEST_STATE_CALLBACK_QUEUED \<in> deferred_states" "ASYNC_REQUEST_STATE_POSTPROCESSING \<in> deferred_states"
  by (simp_all add: state_sets request_states)

lemma deferred_busy: "st \<in> deferred_states \<Longrightarrow> st \<in> busy_states \<and> st \<noteq> ASYNC_REQUEST_STATE_QUEUED \<and> st \<noteq> ASYNC_REQUEST_STATE_RUNNING"
  by (auto simp: state_sets request_states)

lemma pending_simps:
  "ASYNC_REQUEST_STATE_QUEUED \<in> pending_states" "ASYNC_REQUEST_STATE_RUNNING \<in> pending_states"
  "ASYNC_REQUEST_STATE_CALLBACK_QUEUED \<in> pending_states" "ASYNC_REQUEST_STATE_POSTPROCESSING \<notin> pending_states"
  "ASYNC_REQUEST_STATE_CALLBACK_RUNNING \<notin> pending_states" "st \<in> idle_states \<Longrightarrow> st \<notin> pending_states"
  by (auto simp: state_sets request_states)

lemma group_idle: "rq_state (a_reqs s r) \<in> busy_states \<union> idle_states \<Longrightarrow> async_request_is_idle r s \<longleftrightarrow> rq_state (a_reqs s r) \<in> idle_states"
  by (auto simp: async_request_is_idle_def in_group_def state_sets request_states request_groups)

lemma group_busy:
  assumes "rq_state (a_reqs s r) \<in> busy_states"
  shows "in_group ASYNC_REQUEST_CALLBACK_GROUP r s \<longleftrightarrow> rq_state (a_reqs s r) \<in> deferred_states"
    and "in_group ASYNC_REQUEST_QUEUED_GROUP r s \<longleftrightarrow> rq_state (a_reqs s r) = ASYNC_REQUEST_STATE_QUEUED"
    and "in_group ASYNC_REQUEST_RUNNING_GROUP r s \<longleftrightarrow> rq_state (a_reqs s r) = ASYNC_REQUEST_STATE_RUNNING"
    and "\<not> in_group ASYNC_REQUEST_IDLE_GROUP r s"
  using assms by (auto simp: in_group_def state_sets request_states request_groups)

section \<open>The invariant\<close>

text \<open>
  \<open>L\<close> gives the lists. A request in \<open>F\<close> has just left a list or the engine and is in neither; one in
  \<open>P\<close> has been scheduled by a thread that has yet to pend. A queue in \<open>X\<close> is between two jobs.
\<close>

definition placed :: "nat set \<Rightarrow> (dq_ptr \<Rightarrow> dq_ptr list) \<Rightarrow> 'e async \<Rightarrow> nat \<Rightarrow> u8 \<Rightarrow> bool" where
  "placed Qs L s r st \<longleftrightarrow>
     (\<forall>q \<in> Qs. (Request r \<in> set (L (Sentinel q)) \<longleftrightarrow> q = rq_queue (a_reqs s r) \<and> st = ASYNC_REQUEST_STATE_QUEUED) \<and>
               (q_current (a_queues s q) = r \<longleftrightarrow> q = rq_queue (a_reqs s r) \<and> st = ASYNC_REQUEST_STATE_RUNNING)) \<and>
     (Request r \<in> set (L G_async_callback_queue) \<longleftrightarrow> st \<in> deferred_states)"

definition sem_ok :: "nat set \<Rightarrow> 'e async \<Rightarrow> nat \<Rightarrow> bool \<Rightarrow> bool" where
  "sem_ok P s r busy \<longleftrightarrow>
     (has ASYNC_REQUEST_BLOCKING r s \<longrightarrow>
       (if busy then a_count s r = 0 \<and> (r \<in> a_waiting s \<longleftrightarrow> r \<notin> P)
        else r \<notin> a_waiting s \<and> a_count s r = (if r \<in> P then 1 else 0)))"

text \<open>\<open>N r\<close> counts the times that \<open>r\<close> was accepted; its callback has run as often, or runs once more.\<close>

definition called_ok :: "(nat \<Rightarrow> nat) \<Rightarrow> 'e async \<Rightarrow> nat \<Rightarrow> bool" where
  "called_ok N s r \<longleftrightarrow>
     (rq_callback (a_reqs s r) \<noteq> 0 \<longrightarrow>
       N r = count_list (a_called s) r + (if rq_state (a_reqs s r) \<in> pending_states then 1 else 0))"

definition req_ok :: "nat set \<Rightarrow> nat set \<Rightarrow> nat set \<Rightarrow> (nat \<Rightarrow> nat) \<Rightarrow> (dq_ptr \<Rightarrow> dq_ptr list) \<Rightarrow> 'e async \<Rightarrow> nat \<Rightarrow> bool" where
  "req_ok Qs F P N L s r \<longleftrightarrow>
     (let x = a_reqs s r; busy = (r \<in> F \<or> rq_state x \<in> busy_states)
      in rq_queue x \<in> Qs \<and>
         placed Qs L s r (if r \<in> F then ASYNC_REQUEST_STATE_INITIALIZED else rq_state x) \<and>
         (r \<notin> F \<longrightarrow> rq_state x \<in> busy_states \<union> idle_states) \<and>
         (busy \<longrightarrow> completion_state x \<in> done_states) \<and>
         (r \<in> a_armed s \<longrightarrow> rq_timeout x \<noteq> SSX_WAIT_FOREVER \<and> busy) \<and>
         sem_ok P s r busy \<and> called_ok N s r)"

definition queue_ok :: "nat set \<Rightarrow> (dq_ptr \<Rightarrow> dq_ptr list) \<Rightarrow> 'e async \<Rightarrow> nat \<Rightarrow> bool" where
  "queue_ok X L s q \<longleftrightarrow>
     (let x = a_queues s q
      in q \<in> X \<or> q_state x = ASYNC_QUEUE_STATE_IDLE \<and> q_current x = 0 \<and> L (Sentinel q) = [] \<or>
         q_state x = ASYNC_QUEUE_STATE_RUNNING \<and> q_current x \<noteq> 0 \<or> q_state x = ASYNC_QUEUE_STATE_ERROR)"

definition sentinels :: "nat set \<Rightarrow> dq_ptr set" where
  "sentinels Qs = insert G_async_callback_queue (Sentinel ` Qs)"

definition ainv :: "nat set \<Rightarrow> nat set \<Rightarrow> nat set \<Rightarrow> nat set \<Rightarrow> nat set \<Rightarrow> (nat \<Rightarrow> nat) \<Rightarrow> (dq_ptr \<Rightarrow> dq_ptr list) \<Rightarrow> 'e async \<Rightarrow> bool" where
  "ainv Qs Rs X F P N L s \<longleftrightarrow>
     0 \<notin> Qs \<and> 0 \<notin> Rs \<and> F \<subseteq> Rs \<and> P \<subseteq> Rs \<and> a_armed s \<subseteq> Rs \<and> deques (a_heap s) (sentinels Qs) L \<and>
     (\<forall>d \<in> sentinels Qs. set (L d) \<subseteq> Request ` Rs) \<and>
     (\<forall>q \<in> Qs. q_current (a_queues s q) \<in> insert 0 Rs) \<and> set (a_called s) \<subseteq> Rs \<and>
     (\<forall>r \<in> Rs. req_ok Qs F P N L s r) \<and> (\<forall>q \<in> Qs. queue_ok X L s q)"

lemma sentinels_iff: "0 \<notin> Qs \<Longrightarrow> q \<in> Qs \<Longrightarrow> Sentinel q \<in> sentinels Qs \<and> Sentinel q \<noteq> G_async_callback_queue"
  by (auto simp: sentinels_def G_async_callback_queue_def intro: gr0I)

lemma callback_sentinel: "G_async_callback_queue \<in> sentinels Qs"
  by (simp add: sentinels_def)

lemma sentinels_not_request: "d \<in> sentinels Qs \<Longrightarrow> d \<noteq> Request r"
  by (auto simp: sentinels_def G_async_callback_queue_def)

text \<open>Fields that the invariant does not read.\<close>

definition same_req :: "async_req \<Rightarrow> async_req \<Rightarrow> bool" where
  "same_req x y \<longleftrightarrow> rq_queue x = rq_queue y \<and> rq_timeout x = rq_timeout y \<and> rq_options x = rq_options y \<and>
     rq_callback x = rq_callback y \<and> rq_state x = rq_state y \<and> completion_state x = completion_state y"

lemma req_ok_cong:
  assumes "same_req (a_reqs s' r) (a_reqs s r)"
    and "\<And>q. q \<in> Qs \<Longrightarrow> (q_current (a_queues s' q) = r) = (q_current (a_queues s q) = r)"
    and "\<And>d. d \<in> sentinels Qs \<Longrightarrow> (Request r \<in> set (L' d)) = (Request r \<in> set (L d))"
    and "(r \<in> a_armed s') = (r \<in> a_armed s)" "a_count s' r = a_count s r" "(r \<in> a_waiting s') = (r \<in> a_waiting s)"
    and "(r \<in> F') = (r \<in> F)" "(r \<in> P') = (r \<in> P)" "count_list (a_called s') r = count_list (a_called s) r" "N' r = N r"
  shows "req_ok Qs F' P' N' L' s' r = req_ok Qs F P N L s r"
  using assms unfolding req_ok_def placed_def sem_ok_def called_ok_def has_def same_req_def Let_def sentinels_def by (simp add: ball_Un cong: ball_cong)

lemma ainv_stamp:
  assumes "same_req (f (a_reqs s r)) (a_reqs s r)"
  shows "ainv Qs Rs X F P N L (upd_req r f s) = ainv Qs Rs X F P N L s"
proof -
  have "req_ok Qs F P N L (upd_req r f s) r' = req_ok Qs F P N L s r'" for r'
    by (rule req_ok_cong) (use assms in \<open>simp_all add: same_req_def\<close>)
  then show ?thesis by (simp add: ainv_def queue_ok_def)
qed

lemma ainv_other:
  "ainv Qs Rs X F P N L (s\<lparr>a_engine := e\<rparr>) = ainv Qs Rs X F P N L s"
  "ainv Qs Rs X F P N L (s\<lparr>a_time := t\<rparr>) = ainv Qs Rs X F P N L s"
  "ainv Qs Rs X F P N L (s\<lparr>a_ctx := x\<rparr>) = ainv Qs Rs X F P N L s"
  "ainv Qs Rs X F P N L (s\<lparr>a_ipi := b\<rparr>) = ainv Qs Rs X F P N L s"
  by (simp_all add: ainv_def req_ok_def placed_def sem_ok_def called_ok_def has_def queue_ok_def)


section \<open>Completion\<close>

lemma ainvD:
  assumes "ainv Qs Rs X F P N L s"
  shows "0 \<notin> Qs" "0 \<notin> Rs" "F \<subseteq> Rs" "P \<subseteq> Rs" "a_armed s \<subseteq> Rs" "deques (a_heap s) (sentinels Qs) L" "set (a_called s) \<subseteq> Rs"
    and "d \<in> sentinels Qs \<Longrightarrow> set (L d) \<subseteq> Request ` Rs"
    and "q \<in> Qs \<Longrightarrow> q_current (a_queues s q) \<in> insert 0 Rs"
    and "r \<in> Rs \<Longrightarrow> req_ok Qs F P N L s r" and "q \<in> Qs \<Longrightarrow> queue_ok X L s q"
  using assms by (simp_all add: ainv_def)

text \<open>The request \<open>r\<close> alone has changed.\<close>

lemma ainv_one:
  assumes "ainv Qs Rs X F P N L s" "r \<in> Rs" "req_ok Qs F' P' N' L' s' r"
    and "\<And>x. x \<noteq> r \<Longrightarrow> a_reqs s' x = a_reqs s x \<and> (x \<in> a_armed s' \<longleftrightarrow> x \<in> a_armed s) \<and> a_count s' x = a_count s x \<and> (x \<in> a_waiting s' \<longleftrightarrow> x \<in> a_waiting s) \<and> (x \<in> F' \<longleftrightarrow> x \<in> F) \<and> (x \<in> P' \<longleftrightarrow> x \<in> P) \<and> count_list (a_called s') x = count_list (a_called s) x \<and> N' x = N x"
    and "\<And>x q. x \<noteq> r \<Longrightarrow> x \<noteq> 0 \<Longrightarrow> q \<in> Qs \<Longrightarrow> q_current (a_queues s' q) = x \<longleftrightarrow> q_current (a_queues s q) = x"
    and "\<And>x d. x \<noteq> Request r \<Longrightarrow> d \<in> sentinels Qs \<Longrightarrow> x \<in> set (L' d) \<longleftrightarrow> x \<in> set (L d)"
    and "deques (a_heap s') (sentinels Qs) L'" "\<And>q. q \<in> Qs \<Longrightarrow> queue_ok X' L' s' q"
  shows "ainv Qs Rs X' F' P' N' L' s'"
proof -
  note i = ainvD [OF assms(1)]
  have "x \<in> Rs" if "x \<in> F' \<union> P' \<union> a_armed s'" for x
    using that assms(2) assms(4) [of x] i(3-5) by (cases "x = r") auto
  then have "F' \<subseteq> Rs" "P' \<subseteq> Rs" "a_armed s' \<subseteq> Rs" by auto
  moreover have "set (a_called s') \<subseteq> Rs"
  proof
    fix x assume x: "x \<in> set (a_called s')"
    show "x \<in> Rs"
    proof (cases "x = r")
      case False
      then have "x \<in> set (a_called s)" using assms(4) [of x] x by (metis count_list_0_iff)
      then show ?thesis using i(7) by blast
    qed (use assms(2) in simp)
  qed
  moreover have "set (L' d) \<subseteq> Request ` Rs" if "d \<in> sentinels Qs" for d
  proof
    fix x assume "x \<in> set (L' d)"
    then show "x \<in> Request ` Rs" using assms(2) assms(6) [of x d] i(8) [OF that] that by (cases "x = Request r") auto
  qed
  moreover have "q_current (a_queues s' q) \<in> insert 0 Rs" if "q \<in> Qs" for q
    using assms(2) assms(5) [of "q_current (a_queues s' q)" q] i(9) [OF that] that by (cases "q_current (a_queues s' q) \<in> {0, r}") auto
  moreover have "req_ok Qs F' P' N' L' s' x" if "x \<in> Rs" for x
  proof (cases "x = r")
    case False
    have nz: "x \<noteq> 0" using that i(2) by metis
    have "req_ok Qs F' P' N' L' s' x = req_ok Qs F P N L s x"
      using assms(4) [OF False] assms(5) [OF False nz] assms(6) False by (intro req_ok_cong) (simp_all add: same_req_def)
    then show ?thesis using i(10) [OF that] by simp
  qed (use assms(3) in simp)
  ultimately show ?thesis using i(1,2) assms(7,8) by (simp add: ainv_def)
qed

lemma queue_ok_cong:
  "queue_ok X L s q \<Longrightarrow> a_queues s' q = a_queues s q \<Longrightarrow> (L (Sentinel q) = [] \<Longrightarrow> L' (Sentinel q) = []) \<Longrightarrow> queue_ok X L' s' q"
  by (auto simp: queue_ok_def Let_def)

text \<open>A request in neither place becomes idle, its timer cancelled and its semaphore posted.\<close>

definition released :: "nat \<Rightarrow> 'e async \<Rightarrow> 'e async" where
  "released r s =
     s\<lparr>a_armed := (if rq_timeout (a_reqs s r) \<noteq> SSX_WAIT_FOREVER then a_armed s - {r} else a_armed s),
       a_waiting := (if has ASYNC_REQUEST_BLOCKING r s then a_waiting s - {r} else a_waiting s),
       a_count := (if has ASYNC_REQUEST_BLOCKING r s \<and> r \<notin> a_waiting s then (a_count s)(r := 1) else a_count s)\<rparr>"

lemma req_limbo: "ainv Qs Rs X F P N L s \<Longrightarrow> r \<in> F \<Longrightarrow> req_ok Qs F P N L s r"
  using ainvD(3,10) by blast

lemma release_is_released:
  assumes "ainv Qs Rs X F P N L s" "r \<in> F" "a_ctx s \<noteq> Critical_Ctx"
  shows "release r s = Inr (released r s)"
proof -
  have z: "a_count s r = 0" if "has ASYNC_REQUEST_BLOCKING r s"
    using req_limbo [OF assms(1,2)] that assms(2) by (simp add: req_ok_def sem_ok_def called_ok_def Let_def)
  have h: "has ASYNC_REQUEST_BLOCKING r (s\<lparr>a_armed := A\<rparr>) = has ASYNC_REQUEST_BLOCKING r s" for A by (simp add: has_def)
  show ?thesis
    using z assms(3) by (auto simp: release_def released_def timer_cancel_def sem_post_def kbind_def h fun_upd_def)
qed

lemma ainv_idle:
  assumes i: "ainv Qs Rs X F P N L s" and "r \<in> F" and p: "rq_callback (a_reqs s r) = 0 \<or> rq_state (a_reqs s r) \<notin> pending_states"
  shows "ainv Qs Rs X (F - {r}) P N L (upd_req r (\<lambda>x. x\<lparr>rq_state := completion_state x\<rparr>) (released r s))"
proof (rule ainv_one [OF i, where r = r])
  note q = req_limbo [OF i \<open>r \<in> F\<close>]
  have d: "completion_state (a_reqs s r) \<in> done_states" using q assms(2) by (simp add: req_ok_def Let_def)
  show "req_ok Qs (F - {r}) P N L (upd_req r (\<lambda>x. x\<lparr>rq_state := completion_state x\<rparr>) (released r s)) r"
    using q assms(2) done_not_busy [OF d] done_idle [OF d] states_apart pending_simps(6) p
    by (auto simp: req_ok_def placed_def sem_ok_def called_ok_def Let_def released_def has_def)
  show "r \<in> Rs" using ainvD(3) [OF i] assms(2) by blast
  show "queue_ok X L (upd_req r (\<lambda>x. x\<lparr>rq_state := completion_state x\<rparr>) (released r s)) q" if "q \<in> Qs" for q
    by (rule queue_ok_cong [OF ainvD(11) [OF i that]]) (simp_all add: released_def)
qed (use ainvD(6) [OF i] in \<open>simp_all add: released_def\<close>)

text \<open>Or it waits in the callback queue.\<close>

lemma ainv_deferred:
  assumes i: "ainv Qs Rs X F P N L s" and "r \<in> F" "rq_state (a_reqs s r) \<in> deferred_states"
  shows "\<exists>L'. ainv Qs Rs X (F - {r}) P N L' (defer_completion r s) \<and> (\<forall>q \<in> Qs. L' (Sentinel q) = L (Sentinel q))"
proof -
  let ?c = G_async_callback_queue
  note q = req_limbo [OF i assms(2)]
  have off: "Request r \<notin> set (d # L d)" if "d \<in> sentinels Qs" for d
    using that q assms(2) sentinels_not_request [OF that, of r] states_apart by (auto simp: req_ok_def placed_def Let_def sentinels_def)
  note D = ainvD(6) [OF i]
  define ys where "ys = (if has ASYNC_CALLBACK_PRIORITY r s then Request r # L ?c else L ?c @ [Request r])"
  have sep: "L (?c) = L ?c" "\<forall>q \<in> Qs. (L(?c := ys)) (Sentinel q) = L (Sentinel q)" using sentinels_iff ainvD(1) [OF i] by auto
  have "ainv Qs Rs X (F - {r}) P N (L(?c := ys)) (defer_completion r s)"
  proof (rule ainv_one [OF i, where r = r])
    show "deques (a_heap (defer_completion r s)) (sentinels Qs) (L(?c := ys))"
      using deques_push_front [OF D callback_sentinel _ off] deques_push_back [OF D callback_sentinel _ off]
      by (simp add: defer_completion_def ys_def)
    show "req_ok Qs (F - {r}) P N (L(?c := ys)) (defer_completion r s) r"
      using q assms(2,3) sep(2) deferred_busy [OF assms(3)] states_apart
      by (auto simp: req_ok_def placed_def sem_ok_def called_ok_def Let_def defer_completion_def has_def ys_def)
    show "r \<in> Rs" using ainvD(3) [OF i] assms(2) by blast
    show "queue_ok X (L(?c := ys)) (defer_completion r s) q" if "q \<in> Qs" for q
      by (rule queue_ok_cong [OF ainvD(11) [OF i that]]) (use sep(2) that in \<open>auto simp: defer_completion_def\<close>)
  qed (auto simp: defer_completion_def ys_def)
  then show ?thesis using sep(2) by blast
qed


lemma ainv_running_state:
  assumes "ainv Qs Rs X F P N L s" "r \<in> F" and e: "\<And>x. same_req (f x) (x\<lparr>rq_state := rq_state (f x)\<rparr>)"
    and p: "rq_callback (a_reqs s r) = 0 \<or> (rq_state (f (a_reqs s r)) \<in> pending_states \<longleftrightarrow> rq_state (a_reqs s r) \<in> pending_states)"
  shows "ainv Qs Rs X F P N L (upd_req r f s)"
proof (rule ainv_one [OF assms(1), where r = r])
  have "same_req (f (a_reqs s r)) ((a_reqs s r)\<lparr>rq_state := rq_state (f (a_reqs s r))\<rparr>)" using e .
  then show "req_ok Qs F P N L (upd_req r f s) r"
    using req_limbo [OF assms(1,2)] assms(2) p by (auto simp: req_ok_def placed_def sem_ok_def called_ok_def Let_def has_def same_req_def)
  show "r \<in> Rs" using ainvD(3) [OF assms(1)] assms(2) by blast
  show "queue_ok X L (upd_req r f s) q" if "q \<in> Qs" for q
    by (rule queue_ok_cong [OF ainvD(11) [OF assms(1) that]]) simp_all
qed (use ainvD(6) [OF assms(1)] in simp_all)

lemma async_run_callback_inv:
  assumes i: "ainv Qs Rs X F P N L s" and r: "r \<in> F" "rq_state (a_reqs s r) \<in> pending_states"
  shows "ainv Qs Rs X F P N L (async_run_callback M r s)"
proof (rule ainv_one [OF i])
  show "r \<in> Rs" using ainvD(3) [OF i] r(1) by blast
  show "req_ok Qs F P N L (async_run_callback M r s) r"
    using req_limbo [OF i r(1)] r pending_simps(5) by (auto simp: req_ok_def placed_def sem_ok_def called_ok_def Let_def has_def async_run_callback_def)
  show "queue_ok X L (async_run_callback M r s) q" if "q \<in> Qs" for q
    by (rule queue_ok_cong [OF ainvD(11) [OF i that]]) (simp_all add: async_run_callback_def Let_def)
qed (use ainvD(6) [OF i] in \<open>simp_all add: async_run_callback_def Let_def\<close>)

lemma async_run_callback_frame:
  "a_ctx (async_run_callback M r s) = a_ctx s" "a_queues (async_run_callback M r s) = a_queues s" "a_heap (async_run_callback M r s) = a_heap s"
  "rq_state (a_reqs (async_run_callback M r s) r) = ASYNC_REQUEST_STATE_CALLBACK_RUNNING"
  "rq_timeout (a_reqs (async_run_callback M r s) x) = rq_timeout (a_reqs s x)" "rq_options (a_reqs (async_run_callback M r s) x) = rq_options (a_reqs s x)" "rq_queue (a_reqs (async_run_callback M r s) x) = rq_queue (a_reqs s x)"
  by (simp_all add: async_run_callback_def Let_def)

lemma defer_frame: "a_ctx (defer_completion r s) = a_ctx s" "a_queues (defer_completion r s) = a_queues s"
  by (simp_all add: defer_completion_def)

lemma released_frame: "a_ctx (released r s) = a_ctx s" "a_queues (released r s) = a_queues s"
  by (simp_all add: released_def)

text \<open>Nothing to release.\<close>

lemma released_id:
  assumes "ainv Qs Rs X F P N L s" "r \<in> F" "rq_timeout (a_reqs s r) = SSX_WAIT_FOREVER" "\<not> has ASYNC_REQUEST_BLOCKING r s"
  shows "released r s = s"
  using assms by (simp add: released_def)

lemma ainv_idle':
  "ainv Qs Rs X F P N L s \<Longrightarrow> r \<in> F \<Longrightarrow> rq_timeout (a_reqs s r) = SSX_WAIT_FOREVER \<Longrightarrow> \<not> has ASYNC_REQUEST_BLOCKING r s \<Longrightarrow>
    rq_callback (a_reqs s r) = 0 \<or> rq_state (a_reqs s r) \<notin> pending_states \<Longrightarrow> ainv Qs Rs X (F - {r}) P N L (upd_req r (\<lambda>x. x\<lparr>rq_state := completion_state x\<rparr>) s)"
  using ainv_idle [of Qs Rs X F P N L s r] released_id [of Qs Rs X F P N L s r] by simp

definition opts :: "'e async \<Rightarrow> nat \<Rightarrow> u8 \<times> nat" where
  "opts s x = (rq_options (a_reqs s x), rq_queue (a_reqs s x))"

lemma opts_simps [simp]:
  "opts (s\<lparr>a_heap := h\<rparr>) = opts s" "opts (s\<lparr>a_queues := f\<rparr>) = opts s" "opts (s\<lparr>a_engine := e\<rparr>) = opts s"
  "rq_options x = rq_options (a_reqs s r) \<Longrightarrow> rq_queue x = rq_queue (a_reqs s r) \<Longrightarrow> opts (s\<lparr>a_reqs := (a_reqs s)(r := x)\<rparr>) = opts s"
  by (simp_all add: opts_def fun_eq_iff)

lemma opts_ops [simp]: "opts (async_run_callback M r s) = opts s" "opts (defer_completion r s) = opts s" "opts (released r s) = opts s"
  by (simp_all add: opts_def fun_eq_iff async_run_callback_frame defer_completion_def released_def)

lemma opts_has: "opts s' = opts s \<Longrightarrow> has f r s' = has f r s"
  unfolding has_def opts_def fun_eq_iff by auto

definition settles :: "nat set \<Rightarrow> nat set \<Rightarrow> nat set \<Rightarrow> nat set \<Rightarrow> nat set \<Rightarrow> (nat \<Rightarrow> nat) \<Rightarrow> (dq_ptr \<Rightarrow> dq_ptr list) \<Rightarrow> 'e async \<Rightarrow> 'e async \<Rightarrow> bool" where
  "settles Qs Rs X F P N L s s' \<longleftrightarrow>
     (\<exists>L'. ainv Qs Rs X F P N L' s' \<and> (\<forall>q \<in> Qs. L' (Sentinel q) = L (Sentinel q))) \<and> a_ctx s' = a_ctx s \<and> a_queues s' = a_queues s \<and> opts s' = opts s"

lemma settlesI:
  "ainv Qs Rs X F P N L s' \<Longrightarrow> a_ctx s' = a_ctx s \<Longrightarrow> a_queues s' = a_queues s \<Longrightarrow> opts s' = opts s \<Longrightarrow> settles Qs Rs X F P N L s s'"
  by (auto simp: settles_def)

lemma defer_settles:
  assumes "ainv Qs Rs X F P N L s" "r \<in> F" "st \<in> deferred_states"
    and "rq_callback (a_reqs s r) = 0 \<or> (st \<in> pending_states \<longleftrightarrow> rq_state (a_reqs s r) \<in> pending_states)"
  shows "settles Qs Rs X (F - {r}) P N L s (defer_completion r (upd_req r (\<lambda>x. x\<lparr>rq_state := st\<rparr>) s))"
  using ainv_deferred [OF ainv_running_state [OF assms(1,2), of "\<lambda>x. x\<lparr>rq_state := st\<rparr>"] assms(2)] assms(3,4)
  by (simp add: settles_def defer_frame same_req_def)

text \<open>A request whose callback has run, or that has none.\<close>

lemma postprocess_settles:
  assumes i: "ainv Qs Rs X F P N L s" and "r \<in> F" and p: "rq_callback (a_reqs s r) = 0 \<or> rq_state (a_reqs s r) \<notin> pending_states"
  shows "\<exists>s'. postprocess True r s = Inr s' \<and> settles Qs Rs X (F - {r}) P N L s s'"
proof (cases "rq_timeout (a_reqs s r) \<noteq> SSX_WAIT_FOREVER \<or> has ASYNC_REQUEST_BLOCKING r s")
  case True
  show ?thesis
  proof (cases "a_ctx s = Critical_Ctx")
    case crit: True
    then show ?thesis using True defer_settles [OF assms(1,2) states_apart(14)] p pending_simps(4) by (simp add: postprocess_def kbind_def)
  next
    case False
    then show ?thesis using True release_is_released [OF assms(1,2) False] settlesI [OF ainv_idle [OF assms]]
      by (simp add: postprocess_def kbind_def released_frame)
  qed
next
  case False
  then show ?thesis using settlesI [OF ainv_idle' [OF assms(1,2)]] p by (simp add: postprocess_def kbind_def)
qed

lemma complete_settles:
  assumes i: "ainv Qs Rs X F P N L s" and "r \<in> F" and p: "rq_state (a_reqs s r) \<in> pending_states"
  shows "\<exists>s'. async_request_complete M r s = Inr s' \<and> settles Qs Rs X (F - {r}) P N L s s'"
proof -
  consider (none) "rq_callback (a_reqs s r) = 0"
    | (now) "rq_callback (a_reqs s r) \<noteq> 0" "has ASYNC_CALLBACK_IMMEDIATE r s \<or> has ASYNC_CALLBACK_NONCRITICAL r s \<and> a_ctx s \<noteq> Critical_Ctx"
    | (later) "rq_callback (a_reqs s r) \<noteq> 0" "\<not> (has ASYNC_CALLBACK_IMMEDIATE r s \<or> has ASYNC_CALLBACK_NONCRITICAL r s \<and> a_ctx s \<noteq> Critical_Ctx)"
    by blast
  then show ?thesis
  proof cases
    case none
    then show ?thesis using postprocess_settles [OF assms(1,2)] by (simp add: async_request_complete_def Let_def)
  next
    case now
    then have "async_request_complete M r s = postprocess True r (async_run_callback M r s)" by (simp add: async_request_complete_def)
    then show ?thesis using postprocess_settles [OF async_run_callback_inv [OF assms] assms(2), of M] pending_simps(5)
      by (simp add: settles_def async_run_callback_frame)
  next
    case later
    then have "async_request_complete M r s = postprocess False r (upd_req r (\<lambda>x. x\<lparr>rq_state := ASYNC_REQUEST_STATE_CALLBACK_QUEUED\<rparr>) s)"
      using later by (auto simp: async_request_complete_def)
    then show ?thesis using defer_settles [OF assms(1,2) states_apart(13)] p pending_simps(3) by (simp add: postprocess_def kbind_def)
  qed
qed


section \<open>From one job to the next\<close>

lemma queue_ok_weaken: "queue_ok X L s q' \<Longrightarrow> a_queues s' q' = a_queues s q' \<or> q' \<in> X' \<Longrightarrow> X \<subseteq> X' \<Longrightarrow> L' (Sentinel q') = L (Sentinel q') \<or> q' \<in> X' \<Longrightarrow> queue_ok X' L' s' q'"
  by (auto simp: queue_ok_def Let_def)

lemma req_placed: "ainv Qs Rs X F P N L s \<Longrightarrow> r \<in> Rs \<Longrightarrow> placed Qs L s r (if r \<in> F then ASYNC_REQUEST_STATE_INITIALIZED else rq_state (a_reqs s r))"
  using ainvD(10) [of Qs Rs X F P N L s r] by (simp add: req_ok_def Let_def)

lemma current_running:
  assumes "ainv Qs Rs X F P N L s" "q \<in> Qs" "q_current (a_queues s q) \<noteq> 0"
  shows "q_current (a_queues s q) \<in> Rs" "q_current (a_queues s q) \<notin> F"
    and "rq_state (a_reqs s (q_current (a_queues s q))) = ASYNC_REQUEST_STATE_RUNNING"
    and "rq_queue (a_reqs s (q_current (a_queues s q))) = q"
proof -
  show r: "q_current (a_queues s q) \<in> Rs" using ainvD(9) [OF assms(1,2)] assms(3) by simp
  show "q_current (a_queues s q) \<notin> F" "rq_state (a_reqs s (q_current (a_queues s q))) = ASYNC_REQUEST_STATE_RUNNING"
    "rq_queue (a_reqs s (q_current (a_queues s q))) = q"
    using req_placed [OF assms(1) r] assms(2) states_apart by (auto simp: placed_def split: if_splits)
qed

lemma in_queue:
  assumes "ainv Qs Rs X F P N L s" "q \<in> Qs" "x \<in> set (L (Sentinel q))"
  obtains r where "x = Request r" "r \<in> Rs" "r \<notin> F" "rq_state (a_reqs s r) = ASYNC_REQUEST_STATE_QUEUED" "rq_queue (a_reqs s r) = q"
proof -
  from ainvD(8) [OF assms(1), of "Sentinel q"] assms(2,3) obtain r where r: "x = Request r" "r \<in> Rs"
    by (auto simp: sentinels_def)
  then show thesis using that [of r] req_placed [OF assms(1) r(2)] assms(2,3) states_apart by (auto simp: placed_def split: if_splits)
qed

lemma ainv_unseat:
  assumes i: "ainv Qs Rs X F P N L s" and q: "q \<in> Qs" and f: "f = q_current (a_queues s q)" "f \<noteq> 0"
  shows "ainv Qs Rs (insert q X) (insert f F) P N L (upd_queue q (\<lambda>x. x\<lparr>q_current := 0\<rparr>) s)"
proof (rule ainv_one [OF i, where r = f])
  note c = current_running [OF i q f(2) [unfolded f(1)], folded f(1)]
  show "f \<in> Rs" by (rule c(1))
  show "req_ok Qs (insert f F) P N L (upd_queue q (\<lambda>x. x\<lparr>q_current := 0\<rparr>) s) f"
    using ainvD(10) [OF i c(1)] c(2-4) f(2) states_apart by (auto simp: req_ok_def placed_def sem_ok_def called_ok_def Let_def has_def)
  show "queue_ok (insert q X) L (upd_queue q (\<lambda>x. x\<lparr>q_current := 0\<rparr>) s) q'" if "q' \<in> Qs" for q'
    by (rule queue_ok_weaken [OF ainvD(11) [OF i that]]) auto
qed (use ainvD(6) [OF i] f in auto)

text \<open>A queued request leaves its list.\<close>

lemma ainv_take:
  assumes i: "ainv Qs Rs X F P N L s" and q: "q \<in> Qs" and l: "L (Sentinel q) = us @ Request r # vs"
  shows "ainv Qs Rs (insert q X) (insert r F) P N (L(Sentinel q := us @ vs)) (s\<lparr>a_heap := ssx_deque_delete (Request r) (a_heap s)\<rparr>)"
proof -
  obtain "r \<in> Rs" "r \<notin> F" "rq_state (a_reqs s r) = ASYNC_REQUEST_STATE_QUEUED" "rq_queue (a_reqs s r) = q"
    using in_queue [OF i q, of "Request r"] l by (metis dq_ptr.inject(4) in_set_conv_decomp)
  note c = this
  note n = sentinels_iff [OF ainvD(1) [OF i] q]
  have "distinct (L (Sentinel q))" using ainvD(6) [OF i] n by (simp add: deques_def dq_repr_def)
  then have u: "Request r \<notin> set us" "Request r \<notin> set vs" using l by auto
  show ?thesis
  proof (rule ainv_one [OF i c(1)])
    show "req_ok Qs (insert r F) P N (L(Sentinel q := us @ vs)) (s\<lparr>a_heap := ssx_deque_delete (Request r) (a_heap s)\<rparr>) r"
      using ainvD(10) [OF i c(1)] c(2-4) u n states_apart l by (auto simp: req_ok_def placed_def sem_ok_def called_ok_def Let_def has_def)
    show "deques (a_heap (s\<lparr>a_heap := ssx_deque_delete (Request r) (a_heap s)\<rparr>)) (sentinels Qs) (L(Sentinel q := us @ vs))"
      using deques_delete [OF ainvD(6) [OF i] conjunct1 [OF n] l] by simp
    show "queue_ok (insert q X) (L(Sentinel q := us @ vs)) (s\<lparr>a_heap := ssx_deque_delete (Request r) (a_heap s)\<rparr>) q'" if "q' \<in> Qs" for q'
      by (rule queue_ok_weaken [OF ainvD(11) [OF i that]]) auto
  qed (use l in auto)
qed

text \<open>A request takes the engine.\<close>

lemma ainv_seat:
  assumes i: "ainv Qs Rs (insert q X) F P N L s" and q: "q \<in> Qs" and r: "r \<in> F" "rq_queue (a_reqs s r) = q" "rq_state (a_reqs s r) \<in> pending_states" and z: "q_current (a_queues s q) = 0"
  shows "ainv Qs Rs X (F - {r}) P N L
    (upd_queue q (\<lambda>x. x\<lparr>q_current := r, q_state := ASYNC_QUEUE_STATE_RUNNING\<rparr>) (upd_req r (\<lambda>x. x\<lparr>rq_state := ASYNC_REQUEST_STATE_RUNNING\<rparr>) s))"
    (is "ainv Qs Rs X ?F P N L ?s")
proof (rule ainv_one [OF i])
  show "r \<in> Rs" using ainvD(3) [OF i] r(1) by blast
  then have "r \<noteq> 0" using ainvD(2) [OF i] by metis
  then show "req_ok Qs ?F P N L ?s r"
    using req_limbo [OF i r(1)] r z states_apart deferred_busy pending_simps by (auto simp: req_ok_def placed_def sem_ok_def called_ok_def Let_def has_def)
  show "queue_ok X L ?s q'" if "q' \<in> Qs" for q'
    using ainvD(11) [OF i that] \<open>r \<noteq> 0\<close> by (auto simp: queue_ok_def Let_def)
  show "q_current (a_queues ?s q') = x \<longleftrightarrow> q_current (a_queues s q') = x" if "x \<noteq> r" "x \<noteq> 0" for x q'
    using that z by auto
qed (use ainvD(6) [OF i] in auto)

text \<open>The engine is left idle, or in error.\<close>

lemma ainv_rest:
  assumes "ainv Qs Rs (insert q X) F P N L s" "q \<in> Qs" "q_current (a_queues s q) = 0"
    and "st = ASYNC_QUEUE_STATE_IDLE \<and> L (Sentinel q) = [] \<or> st = ASYNC_QUEUE_STATE_ERROR"
  shows "ainv Qs Rs X F P N L (upd_queue q (\<lambda>x. x\<lparr>q_state := st\<rparr>) s)"
proof -
  have "req_ok Qs F P N L (upd_queue q (\<lambda>x. x\<lparr>q_state := st\<rparr>) s) x = req_ok Qs F P N L s x" for x
    by (rule req_ok_cong) (simp_all add: same_req_def)
  moreover have "queue_ok X L (upd_queue q (\<lambda>x. x\<lparr>q_state := st\<rparr>) s) q'" if "q' \<in> Qs" for q'
    using ainvD(11) [OF assms(1) that] assms(3,4) by (auto simp: queue_ok_def Let_def)
  ultimately show ?thesis using assms(1,3) by (simp add: ainv_def)
qed

text \<open>What a run method may do to the request it runs.\<close>

lemma ainv_completion:
  assumes i: "ainv Qs Rs X F P N L s" and r: "r \<in> Rs" "c \<in> done_states"
  shows "ainv Qs Rs X F P N L (upd_req r (\<lambda>x. x\<lparr>completion_state := c\<rparr>) s)"
proof (rule ainv_one [OF i r(1)])
  show "req_ok Qs F P N L (upd_req r (\<lambda>x. x\<lparr>completion_state := c\<rparr>) s) r"
    using ainvD(10) [OF i r(1)] r(2) by (simp add: req_ok_def placed_def sem_ok_def called_ok_def Let_def has_def)
  show "queue_ok X L (upd_req r (\<lambda>x. x\<lparr>completion_state := c\<rparr>) s) q'" if "q' \<in> Qs" for q'
    by (rule queue_ok_weaken [OF ainvD(11) [OF i that]]) auto
qed (use ainvD(6) [OF i] in auto)


text \<open>A request leaves the callback queue.\<close>

lemma in_callback_queue:
  assumes "ainv Qs Rs X F P N L s" "x \<in> set (L G_async_callback_queue)"
  obtains r where "x = Request r" "r \<in> Rs" "r \<notin> F" "rq_state (a_reqs s r) \<in> deferred_states"
proof -
  from ainvD(8) [OF assms(1) callback_sentinel] assms(2) obtain r where r: "x = Request r" "r \<in> Rs" by auto
  then show thesis using that [of r] req_placed [OF assms(1) r(2)] assms(2) states_apart by (auto simp: placed_def split: if_splits)
qed

lemma ainv_undefer:
  assumes i: "ainv Qs Rs X F P N L s" and l: "L G_async_callback_queue = Request r # xs"
  shows "r \<in> Rs" "ainv Qs Rs X (insert r F) P N (L(G_async_callback_queue := xs)) (s\<lparr>a_heap := ssx_deque_delete (Request r) (a_heap s)\<rparr>)"
proof -
  let ?L = "L(G_async_callback_queue := xs)" and ?s = "s\<lparr>a_heap := ssx_deque_delete (Request r) (a_heap s)\<rparr>"
  obtain "r \<in> Rs" "r \<notin> F" "rq_state (a_reqs s r) \<in> deferred_states"
    using in_callback_queue [OF i, of "Request r"] l by (metis dq_ptr.inject(4) list.set_intros(1))
  note c = this
  then show "r \<in> Rs" by blast
  have sep: "\<forall>q \<in> Qs. ?L (Sentinel q) = L (Sentinel q)" using sentinels_iff ainvD(1) [OF i] by auto
  have "distinct (L G_async_callback_queue)" using ainvD(6) [OF i] callback_sentinel by (simp add: deques_def dq_repr_def)
  then have u: "Request r \<notin> set xs" using l by simp
  show "ainv Qs Rs X (insert r F) P N ?L ?s"
  proof (rule ainv_one [OF i c(1)])
    show "req_ok Qs (insert r F) P N ?L ?s r"
      using ainvD(10) [OF i c(1)] c(2,3) u sep deferred_busy [OF c(3)] states_apart by (auto simp: req_ok_def placed_def sem_ok_def called_ok_def Let_def has_def)
    show "deques (a_heap ?s) (sentinels Qs) ?L"
      using deques_delete [OF ainvD(6) [OF i] callback_sentinel, of "[]" "Request r" xs] l by simp
    show "queue_ok X ?L ?s q'" if "q' \<in> Qs" for q'
      by (rule queue_ok_weaken [OF ainvD(11) [OF i that]]) (use sep that in auto)
  qed (use l in auto)
qed

lemma finalize_inv:
  assumes i: "ainv Qs Rs X F P N L s" and r: "r \<in> F" and d: "rq_state (a_reqs s r) \<in> deferred_states" and c: "a_ctx s \<noteq> Critical_Ctx"
  shows "\<exists>s'. async_request_finalize M r s = Inr s' \<and> ainv Qs Rs X (F - {r}) P N L s' \<and> a_ctx s' = a_ctx s \<and> a_queues s' = a_queues s"
proof -
  define s1 where "s1 = (if rq_state (a_reqs s r) = ASYNC_REQUEST_STATE_CALLBACK_QUEUED then async_run_callback M r s else s)"
  have i1: "ainv Qs Rs X F P N L s1" "a_ctx s1 = a_ctx s" "a_queues s1 = a_queues s" "rq_state (a_reqs s1 r) \<notin> pending_states"
    using i async_run_callback_inv [OF i r] d pending_simps by (auto simp: s1_def async_run_callback_frame deferred_states_def)
  let ?f = "\<lambda>x. x\<lparr>rq_state := completion_state x\<rparr>"
  have "completion_state (a_reqs s1 r) \<in> done_states" using req_limbo [OF i1(1) r] r by (simp add: req_ok_def Let_def)
  then have "completion_state (a_reqs s1 r) \<notin> pending_states" using done_idle pending_simps(6) by blast
  then have "ainv Qs Rs X F P N L (upd_req r ?f s1)" by (intro ainv_running_state [OF i1(1) r]) (simp_all add: same_req_def i1(4))
  then have "release r (upd_req r ?f s1) = Inr (released r (upd_req r ?f s1))" by (rule release_is_released [OF _ r]) (use c i1(2) in simp)
  moreover have "released r (upd_req r ?f s1) = upd_req r ?f (released r s1)" by (simp add: released_def has_def)
  ultimately show ?thesis using ainv_idle [OF i1(1) r] i1 by (simp add: async_request_finalize_def Let_def s1_def [symmetric] released_frame)
qed

lemma callback_round_step:
  assumes i: "ainv Qs Rs X F P N L s" and c: "a_ctx s \<noteq> Critical_Ctx"
  shows "L G_async_callback_queue = [] \<and> async_callback_round M s = None \<or>
    (\<exists>L' s'. async_callback_round M s = Some (Inr s') \<and> ainv Qs Rs X F P N L' s' \<and> a_ctx s' = a_ctx s \<and>
       length (L G_async_callback_queue) = Suc (length (L' G_async_callback_queue)))"
proof (cases "L G_async_callback_queue")
  case Nil
  then show ?thesis using deques_pop(1) [OF ainvD(6) [OF i] callback_sentinel Nil] by (simp add: async_callback_round_def)
next
  case (Cons x xs)
  obtain r where r: "x = Request r" "r \<notin> F" "rq_state (a_reqs s r) \<in> deferred_states" using in_callback_queue [OF i, of x] Cons by auto
  note p = deques_pop(2) [OF ainvD(6) [OF i] callback_sentinel Cons]
  have "ainv Qs Rs X (insert r F) P N (L(G_async_callback_queue := xs)) (s\<lparr>a_heap := ssx_deque_delete (Request r) (a_heap s)\<rparr>)"
    using ainv_undefer(2) [OF i] Cons r(1) by simp
  from finalize_inv [OF this, of r M] c r(3) obtain s' where
    "async_request_finalize M r (s\<lparr>a_heap := ssx_deque_delete (Request r) (a_heap s)\<rparr>) = Inr s'"
    "ainv Qs Rs X (insert r F - {r}) P N (L(G_async_callback_queue := xs)) s'" "a_ctx s' = a_ctx s" by auto
  moreover have "insert r F - {r} = F" using r(2) by blast
  ultimately show ?thesis using p r(1) Cons by (intro disjI2 exI [of _ "L(G_async_callback_queue := xs)"]) (simp add: async_callback_round_def request_of_def)
qed

text \<open>The loop ends, with an empty queue.\<close>

lemma callback_loop_step:
  assumes "ainv Qs Rs X F P N L s" "a_ctx s \<noteq> Critical_Ctx"
  shows "\<exists>L' s'. async_callback_loop M s = Some (Inr s') \<and> ainv Qs Rs X F P N L' s' \<and> a_ctx s' = a_ctx s \<and> L' G_async_callback_queue = []"
  using assms
proof (induction "length (L G_async_callback_queue)" arbitrary: s L rule: less_induct)
  case less
  from callback_round_step [OF less.prems, of M] show ?case
  proof (elim disjE exE conjE)
    fix L' s' assume a: "async_callback_round M s = Some (Inr s')" "ainv Qs Rs X F P N L' s'" "a_ctx s' = a_ctx s"
      "length (L G_async_callback_queue) = Suc (length (L' G_async_callback_queue))"
    then show ?thesis using less.hyps [of L' s'] less.prems(2) by (subst async_callback_loop.simps) simp
  qed (use less.prems in \<open>subst async_callback_loop.simps, auto\<close>)
qed

section \<open>Scheduling\<close>

definition armed_for :: "nat \<Rightarrow> 'e async \<Rightarrow> 'e async" where
  "armed_for r s = (if rq_timeout (a_reqs s r) \<noteq> SSX_WAIT_FOREVER then s\<lparr>a_armed := insert r (a_armed s)\<rparr> else s)"

lemma ainv_enqueue:
  assumes i: "ainv Qs Rs {} {} {} N L s" and r: "r \<in> Rs" "rq_state (a_reqs s r) \<in> idle_states"
  defines "q \<equiv> rq_queue (a_reqs s r)"
  shows "\<exists>ys. ainv Qs Rs (if q_state (a_queues s q) = ASYNC_QUEUE_STATE_IDLE then {q} else {}) {} {r} (N(r := N r + 1))
    (L(Sentinel q := ys)) (enqueue_request r (armed_for r s)) \<and> (\<exists>us vs. L (Sentinel q) = us @ vs \<and> ys = us @ Request r # vs)"
proof -
  have q: "q \<in> Qs" using ainvD(10) [OF i r(1)] by (simp add: req_ok_def Let_def q_def)
  note n = sentinels_iff [OF ainvD(1) [OF i] q]
  define ys where "ys = (if has ASYNC_REQUEST_PRIORITY r s then Request r # L (Sentinel q) else L (Sentinel q) @ [Request r])"
  let ?s = "enqueue_request r (armed_for r s)" and ?L = "L(Sentinel q := ys)"
  let ?X = "if q_state (a_queues s q) = ASYNC_QUEUE_STATE_IDLE then {q} else {}"
  have nb: "rq_state (a_reqs s r) \<notin> busy_states" using r(2) busy_not_idle by blast
  have off: "Request r \<notin> set (d # L d)" if "d \<in> sentinels Qs" for d
    using that req_placed [OF i r(1)] nb sentinels_not_request [OF that, of r] states_apart deferred_busy
    by (auto simp: placed_def sentinels_def)
  have e: "rq_queue (a_reqs (armed_for r s) r) = q" "a_heap (armed_for r s) = a_heap s" "has f r (armed_for r s) = has f r s" "a_queues ?s = a_queues s" for f
    by (simp_all add: armed_for_def q_def has_def enqueue_request_def Let_def)
  have "ainv Qs Rs ?X {} {r} (N(r := N r + 1)) ?L ?s"
  proof (rule ainv_one [OF i r(1)])
    show "req_ok Qs {} {r} (N(r := N r + 1)) ?L ?s r"
      using ainvD(10) [OF i r(1)] nb r(2) n q states_apart deferred_busy pending_simps(1) pending_simps(6) [OF r(2)]
      by (auto simp: req_ok_def placed_def sem_ok_def called_ok_def Let_def has_def enqueue_request_def armed_for_def q_def ys_def)
    show "deques (a_heap ?s) (sentinels Qs) ?L"
      using deques_push_front [OF ainvD(6) [OF i] conjunct1 [OF n] _ off] deques_push_back [OF ainvD(6) [OF i] conjunct1 [OF n] _ off]
      by (simp add: enqueue_request_def Let_def e ys_def)
    show "queue_ok ?X ?L ?s q'" if "q' \<in> Qs" for q'
      using ainvD(11) [OF i that] by (auto simp: queue_ok_def Let_def e)
  qed (auto simp: enqueue_request_def armed_for_def Let_def ys_def)
  moreover have "\<exists>us vs. L (Sentinel q) = us @ vs \<and> ys = us @ Request r # vs"
    by (cases "has ASYNC_REQUEST_PRIORITY r s") (auto simp: ys_def intro: exI [of _ "[]"])
  ultimately show ?thesis by blast
qed

lemma ainv_pended:
  assumes i: "ainv Qs Rs X F {r} N L s" and "\<not> has ASYNC_REQUEST_BLOCKING r s"
  shows "ainv Qs Rs X F {} N L s"
proof (rule ainv_one [OF i])
  show "r \<in> Rs" using ainvD(4) [OF i] by blast
  then show "req_ok Qs F {} N L s r" using ainvD(10) [OF i] assms(2) by (simp add: req_ok_def sem_ok_def called_ok_def Let_def)
qed (use ainvD(6,11) [OF i] in auto)

lemma pend_step:
  assumes i: "ainv Qs Rs X {} {r} N L s" and b: "has ASYNC_REQUEST_BLOCKING r s" and c: "a_ctx s = Thread_Ctx"
  shows "\<exists>s'. sem_pend r s = Inr (rq_state (a_reqs s r) \<in> idle_states, s') \<and> ainv Qs Rs X {} {} N L s' \<and> a_ctx s' = a_ctx s \<and> a_reqs s' = a_reqs s"
proof -
  have R: "r \<in> Rs" using ainvD(4) [OF i] by blast
  note q = ainvD(10) [OF i R]
  define s' where "s' = (if rq_state (a_reqs s r) \<in> idle_states then s\<lparr>a_count := (a_count s)(r := a_count s r - 1)\<rparr> else s\<lparr>a_waiting := insert r (a_waiting s)\<rparr>)"
  have "rq_state (a_reqs s r) \<in> idle_states \<longleftrightarrow> rq_state (a_reqs s r) \<notin> busy_states"
    using q busy_not_idle by (auto simp: req_ok_def Let_def)
  then have "sem_pend r s = Inr (rq_state (a_reqs s r) \<in> idle_states, s')"
    using q b c by (auto simp: req_ok_def sem_ok_def called_ok_def Let_def sem_pend_def s'_def)
  moreover have "ainv Qs Rs X {} {} N L s'"
  proof (rule ainv_one [OF i R])
    show "req_ok Qs {} {} N L s' r"
      using q b \<open>_ \<longleftrightarrow> _\<close> by (auto simp: req_ok_def placed_def sem_ok_def called_ok_def Let_def has_def s'_def)
    show "queue_ok X L s' q'" if "q' \<in> Qs" for q'
      by (rule queue_ok_weaken [OF ainvD(11) [OF i that]]) (auto simp: s'_def)
  qed (use ainvD(6) [OF i] in \<open>auto simp: s'_def\<close>)
  ultimately show ?thesis by (auto simp: s'_def)
qed

section \<open>The engine's laws, and the handlers\<close>

text \<open>
  A run method changes its engine and may give its request another completion state; an error method
  changes its engine.
\<close>

locale engine =
  fixes M :: "'e methods"
  assumes run_law: "\<exists>e c. snd (m_run M f r s) = upd_req r (\<lambda>x. x\<lparr>completion_state := c\<rparr>) (s\<lparr>a_engine := e\<rparr>) \<and>
      (c = completion_state (a_reqs s r) \<or> c \<in> done_states)"
    and error_law: "\<exists>e. snd (m_error M f r s) = s\<lparr>a_engine := e\<rparr>"
begin

lemma run_keeps:
  assumes "ainv Qs Rs X F P N L s" "r \<in> Rs" "r \<in> F \<or> rq_state (a_reqs s r) \<in> busy_states"
  shows "ainv Qs Rs X F P N L (snd (m_run M f r s))" "a_queues (snd (m_run M f r s)) = a_queues s" "a_ctx (snd (m_run M f r s)) = a_ctx s"
    and "rq_state (a_reqs (snd (m_run M f r s)) x) = rq_state (a_reqs s x)" "opts (snd (m_run M f r s)) = opts s"
proof -
  from run_law [of f r s] obtain e c where
    e: "snd (m_run M f r s) = upd_req r (\<lambda>x. x\<lparr>completion_state := c\<rparr>) (s\<lparr>a_engine := e\<rparr>)"
    and c: "c = completion_state (a_reqs s r) \<or> c \<in> done_states" by blast
  have "c \<in> done_states" using c ainvD(10) [OF assms(1,2)] assms(3) by (auto simp: req_ok_def Let_def)
  moreover have "ainv Qs Rs X F P N L (s\<lparr>a_engine := e\<rparr>)" using assms(1) by (simp add: ainv_other)
  ultimately show "ainv Qs Rs X F P N L (snd (m_run M f r s))" using ainv_completion [OF _ assms(2)] e by metis
qed (use run_law [of f r s] in \<open>auto simp: opts_def fun_eq_iff\<close>)

text \<open>The next job, with the finished one in neither place.\<close>

lemma next_job_step:
  assumes i: "ainv Qs Rs (insert q X) F P N L s" and q: "q \<in> Qs" and z: "q_current (a_queues s q) = 0" and X: "q \<notin> X"
  shows "\<exists>L' rc s'. next_job M q s = (rc, s') \<and> ainv Qs Rs X F P N L' s' \<and> a_ctx s' = a_ctx s \<and>
    (\<forall>x \<in> F. rq_state (a_reqs s' x) = rq_state (a_reqs s x)) \<and> opts s' = opts s \<and> (q_current (a_queues s' q) = 0 \<longrightarrow> rc = 0) \<and>
    (q_current (a_queues s' q) \<noteq> 0 \<longrightarrow> q_state (a_queues s q) \<noteq> ASYNC_QUEUE_STATE_ERROR \<and>
       L (Sentinel q) = Request (q_current (a_queues s' q)) # L' (Sentinel q))"
proof (cases "q_state (a_queues s q) = ASYNC_QUEUE_STATE_ERROR")
  case True
  have "upd_queue q (\<lambda>x. x\<lparr>q_current := 0\<rparr>) s = upd_queue q (\<lambda>x. x\<lparr>q_state := ASYNC_QUEUE_STATE_ERROR\<rparr>) s"
    using z True by (cases "a_queues s q") simp
  then show ?thesis using True ainv_rest [OF i q z, of ASYNC_QUEUE_STATE_ERROR] z by (auto simp: next_job_def)
next
  case False
  note n = sentinels_iff [OF ainvD(1) [OF i] q]
  note D = ainvD(6) [OF i]
  show ?thesis
  proof (cases "L (Sentinel q)")
    case Nil
    have "upd_queue q (\<lambda>x. x\<lparr>q_state := ASYNC_QUEUE_STATE_IDLE\<rparr>) (upd_queue q (\<lambda>x. x\<lparr>q_current := 0\<rparr>) s) = upd_queue q (\<lambda>x. x\<lparr>q_state := ASYNC_QUEUE_STATE_IDLE\<rparr>) s"
      using z by (cases "a_queues s q") simp
    then show ?thesis
      using False deques_pop(1) [OF D conjunct1 [OF n] Nil] ainv_rest [OF i q z, of ASYNC_QUEUE_STATE_IDLE] Nil z
      by (auto simp: next_job_def request_of_def Let_def)
  next
    case (Cons x xs)
    obtain r where r: "x = Request r" "r \<in> Rs" "r \<notin> F" "rq_state (a_reqs s r) = ASYNC_REQUEST_STATE_QUEUED" "rq_queue (a_reqs s r) = q"
      using in_queue [OF i q, of x] Cons by auto
    have nz: "r \<noteq> 0" using r(2) ainvD(2) [OF i] by metis
    let ?h = "ssx_deque_delete (Request r) (a_heap s)"
    define s1 where "s1 = upd_queue q (\<lambda>x. x\<lparr>q_current := r, q_state := ASYNC_QUEUE_STATE_RUNNING\<rparr>)
       (upd_req r (\<lambda>x. x\<lparr>rq_state := ASYNC_REQUEST_STATE_RUNNING\<rparr>) (s\<lparr>a_heap := ?h\<rparr>))"
    define s2 where "s2 = upd_req r (\<lambda>x. x\<lparr>start_time := a_time s, rq_state := ASYNC_REQUEST_STATE_RUNNING\<rparr>)
       (upd_queue q (\<lambda>x. x\<lparr>q_current := r, q_state := ASYNC_QUEUE_STATE_RUNNING\<rparr>) (s\<lparr>a_heap := ?h\<rparr>))"
    have s2: "s2 = upd_req r (\<lambda>x. x\<lparr>start_time := a_time s\<rparr>) s1"
      by (cases s, cases "a_reqs s r") (simp add: s1_def s2_def)
    have "ainv Qs Rs (insert q X) (insert r F) P N (L(Sentinel q := xs)) (s\<lparr>a_heap := ?h\<rparr>)"
      using ainv_take [OF i q, of "[]" r xs] Cons r(1) by simp
    moreover have "insert r F - {r} = F" using r(3) by blast
    ultimately have "ainv Qs Rs X F P N (L(Sentinel q := xs)) s1"
      using ainv_seat [of Qs Rs q X "insert r F" P N "L(Sentinel q := xs)" "s\<lparr>a_heap := ?h\<rparr>" r] q r z pending_simps(1) by (simp add: s1_def)
    then have i2: "ainv Qs Rs X F P N (L(Sentinel q := xs)) s2"
      unfolding s2 by (subst ainv_stamp) (simp_all add: same_req_def)
    have st: "rq_state (a_reqs s2 r) \<in> busy_states" using states_apart by (simp add: s2_def)
    have "next_job M q s = m_run M (run_method (a_reqs s2 r)) r s2"
      using False deques_pop(2) [OF D conjunct1 [OF n] Cons] r nz states_apart
      by (simp add: next_job_def request_of_def async_request_run_def s2_def Let_def fun_upd_def cong: if_cong)
    then show ?thesis
      using run_keeps [OF i2 r(2), of "run_method (a_reqs s2 r)"] st Cons r(1,3) nz False
      by (intro exI [of _ "L(Sentinel q := xs)"]) (auto simp: s2_def prod_eq_iff opts_def fun_eq_iff)
  qed
qed


lemma next_job_current: "next_job M q (upd_queue q (\<lambda>x. x\<lparr>q_current := 0\<rparr>) s) = next_job M q s"
proof -
  have e: "upd_queue q f (upd_queue q (\<lambda>x. x\<lparr>q_current := 0\<rparr>) s) = upd_queue q f s" if "\<And>x. f (x\<lparr>q_current := 0\<rparr>) = f x" for f
    using that by simp
  show ?thesis by (simp add: next_job_def split: prod.splits)
qed

lemma round_step:
  assumes i: "ainv Qs Rs X {} P N L s" and q: "q \<in> Qs"
    and c: "X = {} \<and> q_current (a_queues s q) \<noteq> 0 \<or> X = {q} \<and> q_state (a_queues s q) = ASYNC_QUEUE_STATE_IDLE \<and> q_current (a_queues s q) = 0"
  shows "\<exists>L' rc s'. async_round M q s = Inr (rc, s') \<and> ainv Qs Rs {} {} P N L' s' \<and> a_ctx s' = a_ctx s \<and> opts s' = opts s \<and>
    (q_current (a_queues s' q) = 0 \<longrightarrow> rc = 0) \<and>
    (q_current (a_queues s' q) \<noteq> 0 \<longrightarrow> q_state (a_queues s q) \<noteq> ASYNC_QUEUE_STATE_ERROR \<and>
       L (Sentinel q) = Request (q_current (a_queues s' q)) # L' (Sentinel q))"
proof (cases "X = {}")
  case False
  then show ?thesis using next_job_step [of Qs Rs q "{}" "{}" P N L s] i q c by (auto simp: async_round_def Let_def)
next
  case True
  define f where "f = q_current (a_queues s q)"
  have f: "f \<noteq> 0" "q_current (a_queues s q) = f" using c True by (auto simp: f_def)
  have ni: "q_state (a_queues s q) \<noteq> ASYNC_QUEUE_STATE_IDLE"
    using ainvD(11) [OF i q] f True by (auto simp: queue_ok_def Let_def queue_states)
  let ?s1 = "upd_req f (\<lambda>x. x\<lparr>end_time := a_time s\<rparr>) s"
  have "ainv Qs Rs {} {} P N L ?s1" by (subst ainv_stamp) (use i True in \<open>simp_all add: same_req_def\<close>)
  then have i1: "ainv Qs Rs (insert q {}) {f} P N L (upd_queue q (\<lambda>x. x\<lparr>q_current := 0\<rparr>) ?s1)"
    using ainv_unseat [of Qs Rs "{}" "{}" P N L ?s1 q f] q f by simp
  from next_job_step [OF i1 q] obtain L1 rc s2 where
    n: "next_job M q ?s1 = (rc, s2)" "ainv Qs Rs {} {f} P N L1 s2" "a_ctx s2 = a_ctx s" "rq_state (a_reqs s2 f) = rq_state (a_reqs s f)" "opts s2 = opts s" "q_current (a_queues s2 q) = 0 \<longrightarrow> rc = 0"
      "q_current (a_queues s2 q) \<noteq> 0 \<longrightarrow> q_state (a_queues s q) \<noteq> ASYNC_QUEUE_STATE_ERROR \<and> L (Sentinel q) = Request (q_current (a_queues s2 q)) # L1 (Sentinel q)"
    unfolding next_job_current by auto
  from complete_settles [OF n(2), of f M] current_running(3) [OF i q] f n(4) pending_simps(2) obtain s3 L3 where
    d: "async_request_complete M f s2 = Inr s3" "ainv Qs Rs {} {} P N L3 s3" "\<forall>q \<in> Qs. L3 (Sentinel q) = L1 (Sentinel q)" "a_ctx s3 = a_ctx s2" "a_queues s3 = a_queues s2" "opts s3 = opts s2"
    by (auto simp: settles_def)
  have "async_round M q s = Inr (rc, s3)" using ni f n(1) d(1) by (simp add: async_round_def Let_def kbind_def)
  then show ?thesis using n d q by auto
qed

theorem handler_step:
  assumes i: "ainv Qs Rs X {} P N L s" and q: "q \<in> Qs"
    and c: "X = {} \<and> q_current (a_queues s q) \<noteq> 0 \<or> X = {q} \<and> q_state (a_queues s q) = ASYNC_QUEUE_STATE_IDLE \<and> q_current (a_queues s q) = 0"
  shows "\<exists>L' s'. async_handler M q s = Some (Inr s') \<and> ainv Qs Rs {} {} P N L' s' \<and> a_ctx s' = a_ctx s \<and> opts s' = opts s \<and>
    (q_current (a_queues s' q) = 0 \<or> Request (q_current (a_queues s' q)) \<in> set (L (Sentinel q)))"
  using assms
proof (induction "length (L (Sentinel q))" arbitrary: s L X rule: less_induct)
  case less
  from round_step [OF less.prems] obtain L' rc s' where
    r: "async_round M q s = Inr (rc, s')" "ainv Qs Rs {} {} P N L' s'" "a_ctx s' = a_ctx s" "opts s' = opts s" "q_current (a_queues s' q) = 0 \<longrightarrow> rc = 0"
      "q_current (a_queues s' q) \<noteq> 0 \<longrightarrow> L (Sentinel q) = Request (q_current (a_queues s' q)) # L' (Sentinel q)" by auto
  show ?case
  proof (cases "rc = - ASYNC_REQUEST_COMPLETE")
    case True
    then have "q_current (a_queues s' q) \<noteq> 0" using r(5) by (auto simp: ASYNC_REQUEST_COMPLETE_def)
    then have "\<exists>L'' s''. async_handler M q s' = Some (Inr s'') \<and> ainv Qs Rs {} {} P N L'' s'' \<and> a_ctx s'' = a_ctx s' \<and> opts s'' = opts s' \<and>
        (q_current (a_queues s'' q) = 0 \<or> Request (q_current (a_queues s'' q)) \<in> set (L' (Sentinel q)))"
      using less.hyps [of L' "{}" s'] r(2,6) less.prems(2) by simp
    then show ?thesis using r(1,3,4) r(6) [rule_format, OF \<open>q_current (a_queues s' q) \<noteq> 0\<close>] True by (subst async_handler.simps) auto
  next
    case False
    then show ?thesis using r by (subst async_handler.simps) auto
  qed
qed


text \<open>The steps: an error, a timeout, a scheduling, a round of the callback queue.\<close>

lemma error_step:
  assumes i: "ainv Qs Rs {} {} P N L s" and q: "q \<in> Qs" and c: "q_current (a_queues s q) \<noteq> 0" and d: "st \<in> done_states"
  shows "\<exists>L' s'. async_error_handler M q st s = Some (Inr s') \<and> ainv Qs Rs {} {} P N L' s' \<and> a_ctx s' = a_ctx s \<and>
    opts s' = opts s \<and> (q_current (a_queues s' q) = 0 \<or> Request (q_current (a_queues s' q)) \<in> set (L (Sentinel q)))"
proof -
  define f where "f = q_current (a_queues s q)"
  note r = current_running [OF i q c, folded f_def]
  define s1 where "s1 = stop_engine M q f s"
  obtain e where e: "snd (m_error M (error_method (a_reqs s f)) f s) = s\<lparr>a_engine := e\<rparr>" using error_law by blast
  have ie: "ainv Qs Rs {} {} P N L (s\<lparr>a_engine := e\<rparr>)" using i by (simp add: ainv_other)
  have s1: "s1 = s \<or> s1 = s\<lparr>a_engine := e\<rparr> \<or> s1 = upd_queue q (\<lambda>x. x\<lparr>q_state := ASYNC_QUEUE_STATE_ERROR\<rparr>) (s\<lparr>a_engine := e\<rparr>)"
    using e unfolding s1_def stop_engine_def by (auto simp: Let_def split: prod.splits)
  have "queue_ok {} L (upd_queue q (\<lambda>x. x\<lparr>q_state := ASYNC_QUEUE_STATE_ERROR\<rparr>) (s\<lparr>a_engine := e\<rparr>)) q'" if "q' \<in> Qs" for q'
    using ainvD(11) [OF i that] by (auto simp: queue_ok_def Let_def)
  moreover have "req_ok Qs {} P N L (upd_queue q (\<lambda>x. x\<lparr>q_state := ASYNC_QUEUE_STATE_ERROR\<rparr>) (s\<lparr>a_engine := e\<rparr>)) x = req_ok Qs {} P N L s x" for x
    by (rule req_ok_cong) (simp_all add: same_req_def)
  ultimately have "ainv Qs Rs {} {} P N L (upd_queue q (\<lambda>x. x\<lparr>q_state := ASYNC_QUEUE_STATE_ERROR\<rparr>) (s\<lparr>a_engine := e\<rparr>))"
    using i by (simp add: ainv_def)
  then have i1: "ainv Qs Rs {} {} P N L s1" using s1 i ie by auto
  have "ainv Qs Rs {} {} P N L (upd_req f (\<lambda>x. x\<lparr>completion_state := st\<rparr>) (upd_req f (\<lambda>x. x\<lparr>abort_state := rq_state x\<rparr>) s1))"
    by (rule ainv_completion, subst ainv_stamp) (use i1 r(1) d in \<open>simp_all add: same_req_def\<close>)
  then have i2: "ainv Qs Rs {} {} P N L (upd_req f (\<lambda>x. x\<lparr>abort_state := rq_state x, completion_state := st\<rparr>) s1)" (is "ainv _ _ _ _ _ _ _ ?s2")
    by simp
  have k: "q_current (a_queues ?s2 q) = f" "a_ctx ?s2 = a_ctx s" "opts ?s2 = opts s" using s1 by (auto simp: f_def opts_def fun_eq_iff)
  have "async_error_handler M q st s = async_handler M q ?s2"
    using c by (simp add: async_error_handler_def f_def [symmetric] s1_def [symmetric] Let_def)
  then show ?thesis using handler_step [OF i2 q] k c by (auto simp: f_def)
qed

lemma dequeue_step:
  assumes i: "ainv Qs Rs {} {} P N L s" and r: "r \<in> Rs" "rq_state (a_reqs s r) = ASYNC_REQUEST_STATE_QUEUED" and d: "st \<in> done_states"
  shows "\<exists>L' s'. async_request_dequeue M r st s = Inr s' \<and> ainv Qs Rs {} {} P N L' s' \<and> a_ctx s' = a_ctx s"
proof -
  define q where "q = rq_queue (a_reqs s r)"
  have q: "q \<in> Qs" using ainvD(10) [OF i r(1)] by (simp add: req_ok_def Let_def q_def)
  have "Request r \<in> set (L (Sentinel q))" using req_placed [OF i r(1)] r(2) q by (simp add: placed_def q_def)
  then obtain us vs where l: "L (Sentinel q) = us @ Request r # vs" by (meson split_list)
  let ?s1 = "s\<lparr>a_heap := ssx_deque_delete (Request r) (a_heap s)\<rparr>"
  have t: "ainv Qs Rs (insert q {}) (insert r {}) P N (L(Sentinel q := us @ vs)) ?s1" by (rule ainv_take [OF i q l])
  have "queue_ok {} (L(Sentinel q := us @ vs)) ?s1 q'" if "q' \<in> Qs" for q'
    using ainvD(11) [OF i that] l by (auto simp: queue_ok_def Let_def)
  then have "ainv Qs Rs {} {r} P N (L(Sentinel q := us @ vs)) ?s1" using t by (simp add: ainv_def)
  then have "ainv Qs Rs {} {r} P N (L(Sentinel q := us @ vs)) (upd_req r (\<lambda>x. x\<lparr>completion_state := st\<rparr>) (upd_req r (\<lambda>x. x\<lparr>abort_state := rq_state x\<rparr>) ?s1))"
    by (intro ainv_completion, subst ainv_stamp) (use r(1) d in \<open>simp_all add: same_req_def\<close>)
  then have "ainv Qs Rs {} {r} P N (L(Sentinel q := us @ vs)) (upd_req r (\<lambda>x. x\<lparr>abort_state := rq_state x, completion_state := st\<rparr>) ?s1)"
    by simp
  from complete_settles [OF this, of r M] r(2) pending_simps(1) show ?thesis by (auto simp: async_request_dequeue_def settles_def)
qed

lemma timeout_step:
  assumes i: "ainv Qs Rs {} {} P N L s" and r: "r \<in> a_armed s"
  shows "\<exists>L' s'. async_timeout M r (s\<lparr>a_armed := a_armed s - {r}\<rparr>) = Some (Inr s') \<and> ainv Qs Rs {} {} P N L' s' \<and> a_ctx s' = a_ctx s"
proof -
  let ?s = "s\<lparr>a_armed := a_armed s - {r}\<rparr>"
  have R: "r \<in> Rs" using ainvD(5) [OF i] r by blast
  have b: "rq_state (a_reqs ?s r) \<in> busy_states" using ainvD(10) [OF i R] r by (simp add: req_ok_def Let_def)
  have i1: "ainv Qs Rs {} {} P N L ?s"
  proof (rule ainv_one [OF i R])
    show "req_ok Qs {} P N L ?s r" using ainvD(10) [OF i R] by (auto simp: req_ok_def placed_def sem_ok_def called_ok_def Let_def has_def)
    show "queue_ok {} L ?s q" if "q \<in> Qs" for q by (rule queue_ok_weaken [OF ainvD(11) [OF i that]]) auto
  qed (use ainvD(6) [OF i] in auto)
  consider "rq_state (a_reqs ?s r) \<in> deferred_states" | "rq_state (a_reqs ?s r) = ASYNC_REQUEST_STATE_QUEUED" | "rq_state (a_reqs ?s r) = ASYNC_REQUEST_STATE_RUNNING"
    using b by (auto simp: busy_states_def)
  then show ?thesis
  proof cases
    case 1
    then show ?thesis using i1 group_busy(1) [OF b] by (auto simp: async_timeout_def)
  next
    case 2
    then show ?thesis using dequeue_step [OF i1 R 2 states_apart(12)] group_busy [OF b] states_apart by (auto simp: async_timeout_def)
  next
    case 3
    have "rq_queue (a_reqs ?s r) \<in> Qs" "q_current (a_queues ?s (rq_queue (a_reqs ?s r))) = r"
      using ainvD(10) [OF i R] req_placed [OF i R] 3 by (simp_all add: req_ok_def placed_def Let_def)
    moreover have "r \<noteq> 0" using R ainvD(2) [OF i] by metis
    ultimately have "\<exists>L' s'. async_error_handler M (rq_queue (a_reqs ?s r)) ASYNC_REQUEST_STATE_TIMED_OUT ?s = Some (Inr s') \<and>
        ainv Qs Rs {} {} P N L' s' \<and> a_ctx s' = a_ctx s"
      using error_step [OF i1 _ _ states_apart(12), of "rq_queue (a_reqs ?s r)"] by auto
    then show ?thesis using 3 group_busy [OF b] states_apart by (simp add: async_timeout_def)
  qed
qed


theorem schedule_step:
  assumes i: "ainv Qs Rs {} {} {} N L s" and r: "r \<in> Rs"
    and t: "rq_timeout (a_reqs s r) \<noteq> SSX_WAIT_FOREVER \<Longrightarrow> a_ctx s \<noteq> Critical_Ctx"
    and b: "has ASYNC_REQUEST_BLOCKING r s \<Longrightarrow> a_ctx s = Thread_Ctx"
  shows "if async_request_is_idle r s
    then \<exists>res s' L'. async_request_schedule M r s = Some (Inr (res, s')) \<and> ainv Qs Rs {} {} {} (N(r := N r + 1)) L' s' \<and>
           res \<in> {Returned 0, Returned (- ASYNC_REQUEST_NOT_COMPLETE), Blocked}
    else async_request_schedule M r s = Some (Inr (Returned (- ASYNC_REQUEST_NOT_IDLE), s))"
proof (cases "async_request_is_idle r s")
  case False
  moreover have "r \<noteq> 0" using r ainvD(2) [OF i] by metis
  ultimately show ?thesis by (simp add: async_request_schedule_def)
next
  case True
  have nz: "r \<noteq> 0" using r ainvD(2) [OF i] by metis
  have d: "rq_state (a_reqs s r) \<in> idle_states"
    using group_idle [of s r] True ainvD(10) [OF i r] by (simp add: req_ok_def Let_def)
  define q where "q = rq_queue (a_reqs s r)"
  have q: "q \<in> Qs" using ainvD(10) [OF i r] by (simp add: req_ok_def Let_def q_def)
  let ?X = "if q_state (a_queues s q) = ASYNC_QUEUE_STATE_IDLE then {q} else {}" and ?N = "N(r := N r + 1)"
  define s2 where "s2 = enqueue_request r (armed_for r s)"
  obtain ys where e: "ainv Qs Rs ?X {} {r} ?N (L(Sentinel q := ys)) s2"
    using ainv_enqueue [OF i r d, folded q_def s2_def] by blast
  have k: "a_queues s2 = a_queues s" "a_ctx s2 = a_ctx s" "rq_queue (a_reqs s2 r) = q" "has ASYNC_REQUEST_BLOCKING r s2 = has ASYNC_REQUEST_BLOCKING r s"
    by (simp_all add: s2_def enqueue_request_def armed_for_def Let_def q_def has_def)
  have m: "\<exists>s3 L3. (if q_state (a_queues s2 q) = ASYNC_QUEUE_STATE_IDLE then async_handler M q s2 else Some (Inr s2)) = Some (Inr s3) \<and>
      ainv Qs Rs {} {} {r} ?N L3 s3 \<and> a_ctx s3 = a_ctx s \<and> opts s3 = opts s2"
  proof (cases "q_state (a_queues s q) = ASYNC_QUEUE_STATE_IDLE")
    case True
    moreover have "q_current (a_queues s q) = 0" using True ainvD(11) [OF i q] by (auto simp: queue_ok_def Let_def queue_states)
    ultimately show ?thesis using handler_step [OF e q] k by auto
  qed (use e k in auto)
  then obtain s3 L3 where m: "(if q_state (a_queues s2 q) = ASYNC_QUEUE_STATE_IDLE then async_handler M q s2 else Some (Inr s2)) = Some (Inr s3)"
      "ainv Qs Rs {} {} {r} ?N L3 s3" "a_ctx s3 = a_ctx s" "opts s3 = opts s2" by blast
  have tm: "(if rq_timeout (a_reqs s r) \<noteq> SSX_WAIT_FOREVER then timer_schedule r s else Inr (0, s)) = Inr (0, armed_for r s)"
    using t by (auto simp: timer_schedule_def armed_for_def SSX_OK_def)
  have u: "async_request_schedule M r s = Some (
      if has ASYNC_REQUEST_BLOCKING r s3 then
        kbind (sem_pend r s3) (\<lambda>(returned, s4). Inr (if returned then Returned (async_request_resumed r s4) else Blocked, s4))
      else Inr (Returned 0, s3))"
    unfolding async_request_schedule_def tm using nz True by (simp add: s2_def [symmetric] k(3) m(1) Let_def cong: if_cong)
  show ?thesis
  proof (cases "has ASYNC_REQUEST_BLOCKING r s3")
    case nb: False
    then show ?thesis using True u ainv_pended [OF m(2)] by auto
  next
    case blk: True
    obtain s4 where p: "sem_pend r s3 = Inr (rq_state (a_reqs s3 r) \<in> idle_states, s4)" "ainv Qs Rs {} {} {} ?N L3 s4"
      using pend_step [OF m(2) blk] m(3) b k(4) blk opts_has [OF m(4)] by auto
    then show ?thesis using True u blk by (auto simp: kbind_def async_request_resumed_def)
  qed
qed

end

end
