(* ===== verification/SSX_Async_System.thy ===== *)
theory SSX_Async_System
  imports SSX_Async_Inv
begin

text \<open>
  The requests as a system: boot, the creation of queues and requests, and then events in any order. The
  invariant holds throughout, so no event panics or runs for ever, and callbacks run once each.
\<close>

unbundle bit_operations_syntax

section \<open>Creation\<close>

definition async_callbacks_initialize :: "'e async \<Rightarrow> 'e async" where
  "async_callbacks_initialize s =
     (case ssx_deque_sentinel_create G_async_callback_queue (a_heap s) of Inl _ \<Rightarrow> s | Inr (_, h) \<Rightarrow> s\<lparr>a_heap := h\<rparr>)"

lemma ainv_boot:
  assumes "a_armed s = {}" "a_called s = []"
  shows "ainv {} {} {} {} {} N (\<lambda>_. []) (async_callbacks_initialize s)"
  using assms by (simp add: ainv_def async_callbacks_initialize_def ssx_deque_sentinel_create_def G_async_callback_queue_def deques_def sentinels_def dq_repr_def)

lemma deques_insert:
  assumes "deques h S L" "d \<notin> S" "d \<noteq> Null" "\<And>d'. d' \<in> S \<Longrightarrow> d \<notin> set (L d')"
  shows "deques (set_next d d (set_prev d d h)) (insert d S) (L(d := []))"
proof -
  have "dq_repr (set_next d d (set_prev d d h)) d' (L d')" if "d' \<in> S" for d'
  proof (rule repr_cong [of h])
    show "dq_repr h d' (L d')" using assms(1) that by (simp add: deques_def)
    show "\<And>x. x \<in> set (d' # L d') \<Longrightarrow> dq_next (set_next d d (set_prev d d h)) x = dq_next h x \<and> dq_prev (set_next d d (set_prev d d h)) x = dq_prev h x"
      using assms(2,4) that by auto
  qed
  moreover have "set (d # []) \<inter> set (d' # L d') = {}" if "d' \<in> S" for d' using assms(2,4) that by auto
  ultimately show ?thesis using assms(1-3) unfolding deques_def by (auto simp: dq_repr_def)
qed

lemma deques_element:
  assumes "deques h S L" "\<And>d. d \<in> S \<Longrightarrow> e \<notin> set (d # L d)"
  shows "deques (set_next e Null h) S L"
proof -
  have "dq_repr (set_next e Null h) d (L d)" if "d \<in> S" for d
    by (rule repr_cong [of h]) (use assms that in \<open>auto simp: deques_def\<close>)
  then show ?thesis using assms(1) by (simp add: deques_def)
qed

lemma ainv_queue:
  assumes i: "ainv Qs Rs {} {} {} N L s" and q: "q \<noteq> 0" "q \<notin> Qs"
  shows "\<exists>s'. async_queue_create q eng s = Inr (0, s') \<and> ainv (insert q Qs) Rs {} {} {} N (L(Sentinel q := [])) s'"
proof -
  let ?d = "Sentinel q" and ?L = "L(Sentinel q := [])"
  define s' where "s' = upd_queue q (\<lambda>_. \<lparr>q_current = 0, q_engine = eng, q_state = ASYNC_QUEUE_STATE_IDLE\<rparr>)
    (s\<lparr>a_heap := set_next ?d ?d (set_prev ?d ?d (a_heap s))\<rparr>)"
  have c: "async_queue_create q eng s = Inr (0, s')" by (simp add: async_queue_create_def ssx_deque_sentinel_create_def s'_def)
  have nd: "?d \<notin> sentinels Qs" using q by (auto simp: sentinels_def G_async_callback_queue_def)
  have nl: "?d \<notin> set (L d)" if "d \<in> sentinels Qs" for d using ainvD(8) [OF i that] by auto
  have S: "sentinels (insert q Qs) = insert ?d (sentinels Qs)" by (auto simp: sentinels_def)
  have k: "?L G_async_callback_queue = L G_async_callback_queue" "q' \<in> Qs \<Longrightarrow> ?L (Sentinel q') = L (Sentinel q')" for q'
    using q by (auto simp: G_async_callback_queue_def)
  have nz: "r \<noteq> 0" if "r \<in> Rs" for r using that ainvD(2) [OF i] by metis
  have "req_ok (insert q Qs) {} {} N ?L s' r" if "r \<in> Rs" for r
    using ainvD(10) [OF i that] q nz [OF that] k
    by (auto simp: req_ok_def placed_def sem_ok_def called_ok_def has_def Let_def s'_def)
  moreover have "queue_ok {} ?L s' q'" if "q' \<in> insert q Qs" for q'
    using ainvD(11) [OF i, of q'] that k by (auto simp: queue_ok_def Let_def s'_def)
  moreover have "deques (a_heap s') (sentinels (insert q Qs)) ?L"
    unfolding S s'_def using deques_insert [OF ainvD(6) [OF i] nd _ nl] by simp
  ultimately have "ainv (insert q Qs) Rs {} {} {} N ?L s'"
    using i q by (auto simp: ainv_def S s'_def)
  then show ?thesis using c by blast
qed

text \<open>What the arguments of \<open>async_request_create\<close> must satisfy.\<close>

definition request_args_ok :: "nat \<Rightarrow> nat \<Rightarrow> u32 \<Rightarrow> bool" where
  "request_args_ok run cb options \<longleftrightarrow>
     options AND NOT ASYNC_GENERIC_OPTIONS = 0 \<and> \<not> several (options AND ucast ASYNC_CALLBACK_OPTIONS) \<and> run \<noteq> 0 \<and>
     (cb \<noteq> 0 \<longrightarrow> options AND ucast ASYNC_CALLBACK_OPTIONS \<noteq> 0)"

lemma ainv_request:
  assumes i: "ainv Qs Rs {} {} {} N L s" and q: "q \<in> Qs" and r: "r \<noteq> 0" "r \<notin> Rs" and a: "request_args_ok run cb options"
    and n: "N r = count_list (a_called s) r"
  shows "\<exists>s'. async_request_create r q run err timeout cb arg options s = Inr (0, s') \<and> ainv Qs (insert r Rs) {} {} {} N L s' \<and> a_called s' = a_called s"
proof -
  define s1 where "s1 = upd_req r (\<lambda>x. x\<lparr>rq_queue := q, run_method := run, error_method := err, rq_timeout := timeout,
                         rq_state := ASYNC_REQUEST_STATE_INITIALIZED, rq_callback := cb, rq_arg := arg, rq_options := ucast options\<rparr>)
                       (s\<lparr>a_heap := set_next (Request r) Null (a_heap s)\<rparr>)"
  define s2 where "s2 = (if timeout \<noteq> SSX_WAIT_FOREVER then s1\<lparr>a_armed := a_armed s1 - {r}\<rparr> else s1)"
  define s' where "s' = (if options AND ucast ASYNC_REQUEST_BLOCKING \<noteq> 0 then s2\<lparr>a_count := (a_count s2)(r := 0), a_waiting := a_waiting s2 - {r}\<rparr> else s2)"
  have qz: "q \<noteq> 0" using q ainvD(1) [OF i] by metis
  have c: "async_request_create r q run err timeout cb arg options s = Inr (0, s')"
    using r(1) qz a by (cases "cb = 0") (simp_all add: async_request_create_def request_args_ok_def ssx_deque_element_create_def Let_def s1_def s2_def s'_def)
  have ra: "r \<notin> a_armed s" using ainvD(5) [OF i] r(2) by blast
  have off: "Request r \<notin> set (d # L d)" if "d \<in> sentinels Qs" for d
    using ainvD(8) [OF i that] r(2) sentinels_not_request [OF that, of r] by auto
  have f: "a_queues s' = a_queues s" "a_armed s' = a_armed s" "a_called s' = a_called s"
    using ra by (auto simp: s'_def s2_def s1_def)
  have o: "req_ok Qs {} {} N L s' x" if "x \<in> Rs" for x
  proof -
    have "x \<noteq> r" using that r(2) by blast
    then have "req_ok Qs {} {} N L s' x = req_ok Qs {} {} N L s x" by (intro req_ok_cong) (simp_all add: s'_def s2_def s1_def same_req_def)
    then show ?thesis using ainvD(10) [OF i that] by simp
  qed
  have b: "has ASYNC_REQUEST_BLOCKING r s' \<Longrightarrow> options AND ucast ASYNC_REQUEST_BLOCKING \<noteq> 0" if True
  proof -
    assume h: "has ASYNC_REQUEST_BLOCKING r s'"
    have "(ucast options :: u8) AND ASYNC_REQUEST_BLOCKING = ucast (options AND ucast ASYNC_REQUEST_BLOCKING)"
      by (simp add: bit_eq_iff bit_simps)
    then show "options AND ucast ASYNC_REQUEST_BLOCKING \<noteq> 0" using h by (auto simp: has_def s'_def s2_def s1_def split: if_splits)
  qed
  have cur: "q_current (a_queues s q') \<noteq> r" if "q' \<in> Qs" for q' using ainvD(9) [OF i that] r by auto
  have st: "rq_state (a_reqs s' r) = ASYNC_REQUEST_STATE_INITIALIZED" "rq_queue (a_reqs s' r) = q" by (simp_all add: s'_def s2_def s1_def)
  have new: "req_ok Qs {} {} N L s' r"
  proof -
    have ii: "ASYNC_REQUEST_STATE_INITIALIZED \<in> idle_states" by (simp add: idle_states_def)
    have nb: "ASYNC_REQUEST_STATE_INITIALIZED \<notin> busy_states" "ASYNC_REQUEST_STATE_INITIALIZED \<notin> pending_states"
      using busy_not_idle ii pending_simps(6) [OF ii] by blast+
    have pl: "placed Qs L s' r ASYNC_REQUEST_STATE_INITIALIZED"
      using off cur states_apart by (auto simp: placed_def f sentinels_def)
    have "sem_ok {} s' r False" using b by (auto simp: sem_ok_def s'_def)
    then show ?thesis using pl q n ii nb ra by (auto simp: req_ok_def st called_ok_def f)
  qed
  have "deques (a_heap s') (sentinels Qs) L" using deques_element [OF ainvD(6) [OF i] off] by (simp add: s'_def s2_def s1_def)
  moreover have "queue_ok {} L s' q'" if "q' \<in> Qs" for q' using ainvD(11) [OF i that] by (simp add: queue_ok_def f)
  ultimately have "ainv Qs (insert r Rs) {} {} {} N L s'"
    using i o new r f by (auto simp: ainv_def)
  then show ?thesis using c f(3) by blast
qed


section \<open>Events\<close>

text \<open>
  A call to schedule a request, from some context; a completion interrupt; an error interrupt; the timer of
  a request; one round of the first loop of the callback handler; the end of its second loop, which clears
  the interrupt; time passing. Timers and the callback handler run in
  noncritical interrupts; what the called routine finds as its context is set first.
\<close>

datatype async_event =
  Schedule nat kctx
| Complete nat kctx
| Fail nat kctx
| Timer nat
| Callback
| Deferred
| Tick u64

definition enabled :: "nat set \<Rightarrow> nat set \<Rightarrow> async_event \<Rightarrow> 'e async \<Rightarrow> bool" where
  "enabled Qs Rs ev s =
     (case ev of
        Schedule r c \<Rightarrow> r \<in> Rs \<and> (rq_timeout (a_reqs s r) \<noteq> SSX_WAIT_FOREVER \<longrightarrow> c \<noteq> Critical_Ctx) \<and>
          (has ASYNC_REQUEST_BLOCKING r s \<longrightarrow> c = Thread_Ctx)
      | Complete q c \<Rightarrow> q \<in> Qs \<and> q_current (a_queues s q) \<noteq> 0
      | Fail q c \<Rightarrow> q \<in> Qs \<and> q_current (a_queues s q) \<noteq> 0
      | Timer r \<Rightarrow> r \<in> a_armed s
      | Callback \<Rightarrow> True
      | Deferred \<Rightarrow> True
      | Tick t \<Rightarrow> True)"

definition handle_async :: "'e methods \<Rightarrow> async_event \<Rightarrow> 'e async \<Rightarrow> (panic_code + 'e async) option" where
  "handle_async M ev s =
     (case ev of
        Schedule r c \<Rightarrow> map_option (\<lambda>x. kbind x (\<lambda>(_, s1). Inr s1)) (async_request_schedule M r (s\<lparr>a_ctx := c\<rparr>))
      | Complete q c \<Rightarrow> async_handler M q (s\<lparr>a_ctx := c\<rparr>)
      | Fail q c \<Rightarrow> async_error_handler M q ASYNC_REQUEST_STATE_FAILED (s\<lparr>a_ctx := c\<rparr>)
      | Timer r \<Rightarrow> async_timeout M r (s\<lparr>a_ctx := Noncritical_Ctx, a_armed := a_armed s - {r}\<rparr>)
      | Callback \<Rightarrow> (case async_callback_round M (s\<lparr>a_ctx := Noncritical_Ctx\<rparr>) of
                      None \<Rightarrow> Some (Inr (s\<lparr>a_ctx := Noncritical_Ctx\<rparr>))
                    | Some m \<Rightarrow> Some m)
      | Deferred \<Rightarrow> Some (Inr (async_callback_done (s\<lparr>a_ctx := Noncritical_Ctx\<rparr>)))
      | Tick t \<Rightarrow> Some (Inr (s\<lparr>a_time := t\<rparr>)))"

text \<open>The requests that the event accepts.\<close>

definition accepted :: "async_event \<Rightarrow> 'e async \<Rightarrow> nat list" where
  "accepted ev s = (case ev of Schedule r c \<Rightarrow> if async_request_is_idle r s then [r] else [] | _ \<Rightarrow> [])"

text \<open>What boot, creation, events, interrupts that come and go, and what the engine does by itself can lead to: queues, requests, the
  accepted requests in order, the state.\<close>

inductive async_reach :: "'e methods \<Rightarrow> nat set \<Rightarrow> nat set \<Rightarrow> nat list \<Rightarrow> 'e async \<Rightarrow> bool" for M where
  boot: "a_armed s = {} \<Longrightarrow> a_called s = [] \<Longrightarrow> async_reach M {} {} [] (async_callbacks_initialize s)"
| queue: "async_reach M Qs Rs hist s \<Longrightarrow> q \<noteq> 0 \<Longrightarrow> q \<notin> Qs \<Longrightarrow> async_queue_create q eng s = Inr (0, s') \<Longrightarrow>
    async_reach M (insert q Qs) Rs hist s'"
| request: "async_reach M Qs Rs hist s \<Longrightarrow> q \<in> Qs \<Longrightarrow> r \<notin> Rs \<Longrightarrow>
    async_request_create r q run err timeout cb arg options s = Inr (0, s') \<Longrightarrow> async_reach M Qs (insert r Rs) hist s'"
| event: "async_reach M Qs Rs hist s \<Longrightarrow> enabled Qs Rs ev s \<Longrightarrow> handle_async M ev s = Some (Inr s') \<Longrightarrow>
    async_reach M Qs Rs (hist @ accepted ev s) s'"
| engine: "async_reach M Qs Rs hist s \<Longrightarrow> async_reach M Qs Rs hist (s\<lparr>a_engine := e\<rparr>)"
| switch: "async_reach M Qs Rs hist s \<Longrightarrow> async_reach M Qs Rs hist (s\<lparr>a_ctx := c\<rparr>)"

lemma created_args:
  assumes "async_request_create r q run err timeout cb arg options s = Inr (0, s')"
  shows "r \<noteq> 0" "request_args_ok run cb options"
  using assms unfolding async_request_create_def request_args_ok_def by (auto split: if_splits)

context engine
begin

lemma event_step:
  assumes i: "ainv Qs Rs {} {} {} N L s" and e: "enabled Qs Rs ev s"
  shows "\<exists>L' s'. handle_async M ev s = Some (Inr s') \<and> ainv Qs Rs {} {} {} (\<lambda>r. N r + count_list (accepted ev s) r) L' s'"
proof -
  have c: "ainv Qs Rs {} {} {} N L (s\<lparr>a_ctx := c\<rparr>)" for c using i by (simp add: ainv_other)
  show ?thesis
  proof (cases ev)
    case (Schedule r x)
    have r: "r \<in> Rs" using e Schedule by (simp add: enabled_def)
    have b: "has ASYNC_REQUEST_BLOCKING r (s\<lparr>a_ctx := x\<rparr>) = has ASYNC_REQUEST_BLOCKING r s" "async_request_is_idle r (s\<lparr>a_ctx := x\<rparr>) = async_request_is_idle r s"
      by (simp_all add: has_def async_request_is_idle_def in_group_def)
    have N: "(\<lambda>y. N y + count_list [r] y) = N(r := N r + 1)" by (auto simp: fun_eq_iff)
    from schedule_step [OF c r, of x] e Schedule b have
      *: "if async_request_is_idle r s
       then \<exists>res s' L'. async_request_schedule M r (s\<lparr>a_ctx := x\<rparr>) = Some (Inr (res, s')) \<and> ainv Qs Rs {} {} {} (N(r := N r + 1)) L' s'
       else async_request_schedule M r (s\<lparr>a_ctx := x\<rparr>) = Some (Inr (Returned (- ASYNC_REQUEST_NOT_IDLE), s\<lparr>a_ctx := x\<rparr>))"
      by (auto simp: enabled_def split: if_splits)
    show ?thesis
    proof (cases "async_request_is_idle r s")
      case True
      then show ?thesis using * Schedule N by (auto simp: handle_async_def accepted_def)
    next
      case False
      then show ?thesis using * Schedule c [of x] by (auto simp: handle_async_def accepted_def)
    qed
  next
    case (Complete q x)
    then show ?thesis using handler_step [OF c, of q x] e by (auto simp: enabled_def handle_async_def accepted_def)
  next
    case (Fail q x)
    then show ?thesis using error_step [OF c, of q x ASYNC_REQUEST_STATE_FAILED] states_apart e by (auto simp: enabled_def handle_async_def accepted_def)
  next
    case (Timer r)
    then show ?thesis using timeout_step [OF c, of r Noncritical_Ctx] e by (auto simp: enabled_def handle_async_def accepted_def)
  next
    case Callback
    show ?thesis using callback_round_step [OF c, of Noncritical_Ctx M] Callback c [of Noncritical_Ctx] by (auto simp: handle_async_def accepted_def)
  next
    case Deferred
    then show ?thesis using c [of Noncritical_Ctx] by (auto simp: handle_async_def accepted_def async_callback_done_def ainv_other)
  next
    case (Tick t)
    then show ?thesis using i by (auto simp: handle_async_def accepted_def ainv_other)
  qed
qed

lemma reach_inv:
  assumes "async_reach M Qs Rs hist s"
  shows "(\<exists>L. ainv Qs Rs {} {} {} (count_list hist) L s) \<and> set hist \<subseteq> Rs"
  using assms
proof induction
  case (boot s)
  show ?case by (intro conjI exI, rule ainv_boot [OF boot]) simp
next
  case (queue Qs Rs hist s q eng s')
  then obtain L where i: "ainv Qs Rs {} {} {} (count_list hist) L s" by blast
  from ainv_queue [OF i queue.hyps(2,3), of eng] queue.hyps(4) have "ainv (insert q Qs) Rs {} {} {} (count_list hist) (L(Sentinel q := [])) s'" by simp
  then show ?case using queue.IH by blast
next
  case (request Qs Rs hist s q r run err timeout cb arg options s')
  then obtain L where i: "ainv Qs Rs {} {} {} (count_list hist) L s" by blast
  have "r \<notin> set hist" "r \<notin> set (a_called s)" using request.hyps(3) request.IH ainvD(7) [OF i] by blast+
  then have "count_list hist r = count_list (a_called s) r" by (simp add: count_list_0_iff)
  from ainv_request [OF i request.hyps(2) created_args(1) [OF request.hyps(4)] request.hyps(3) created_args(2) [OF request.hyps(4)] this, of err timeout arg] request.hyps(4)
  have "ainv Qs (insert r Rs) {} {} {} (count_list hist) L s'" by simp
  then show ?case using request.IH by blast
next
  case (event Qs Rs hist s ev s')
  then obtain L where i: "ainv Qs Rs {} {} {} (count_list hist) L s" by blast
  have "set (accepted ev s) \<subseteq> Rs" using event.hyps(2) by (auto simp: accepted_def enabled_def split: async_event.splits if_splits)
  moreover have "(\<lambda>r. count_list hist r + count_list (accepted ev s) r) = count_list (hist @ accepted ev s)" by (simp add: fun_eq_iff)
  ultimately show ?case using event_step [OF i event.hyps(2)] event.hyps(3) event.IH by auto
next
  case (engine Qs Rs hist s e)
  then show ?case by (simp add: ainv_other)
next
  case (switch Qs Rs hist s c)
  then show ?case by (simp add: ainv_other)
qed

lemma no_request_zero: "async_reach M Qs Rs hist s \<Longrightarrow> 0 \<notin> Rs"
  using reach_inv ainvD(2) by blast

theorem no_panic:
  assumes "async_reach M Qs Rs hist s" "enabled Qs Rs ev s"
  shows "\<exists>s'. handle_async M ev s = Some (Inr s')"
  using reach_inv [OF assms(1)] event_step [OF _ assms(2)] by blast

theorem callback_count:
  assumes "async_reach M Qs Rs hist s" "r \<in> Rs" "rq_callback (a_reqs s r) \<noteq> 0"
  shows "count_list hist r = count_list (a_called s) r + (if rq_state (a_reqs s r) \<in> pending_states then 1 else 0)"
proof -
  obtain L where i: "ainv Qs Rs {} {} {} (count_list hist) L s" using reach_inv [OF assms(1)] by blast
  show ?thesis using ainvD(10) [OF i assms(2)] assms(3) by (simp add: req_ok_def called_ok_def Let_def)
qed

text \<open>An engine runs one job at a time, and an idle engine leaves none waiting.\<close>

theorem one_job:
  assumes "async_reach M Qs Rs hist s" "r \<in> Rs"
  shows "rq_queue (a_reqs s r) \<in> Qs"
    and "rq_state (a_reqs s r) = ASYNC_REQUEST_STATE_RUNNING \<longleftrightarrow> q_current (a_queues s (rq_queue (a_reqs s r))) = r"
    and "rq_state (a_reqs s r) = ASYNC_REQUEST_STATE_QUEUED \<Longrightarrow> q_state (a_queues s (rq_queue (a_reqs s r))) \<noteq> ASYNC_QUEUE_STATE_IDLE"
    and "r \<in> a_armed s \<Longrightarrow> rq_state (a_reqs s r) \<in> busy_states"
proof -
  obtain L where i: "ainv Qs Rs {} {} {} (count_list hist) L s" using reach_inv [OF assms(1)] by blast
  show q: "rq_queue (a_reqs s r) \<in> Qs" using ainvD(10) [OF i assms(2)] by (simp add: req_ok_def Let_def)
  note p = req_placed [OF i assms(2)]
  show "rq_state (a_reqs s r) = ASYNC_REQUEST_STATE_RUNNING \<longleftrightarrow> q_current (a_queues s (rq_queue (a_reqs s r))) = r"
    using p q by (simp add: placed_def)
  show "q_state (a_queues s (rq_queue (a_reqs s r))) \<noteq> ASYNC_QUEUE_STATE_IDLE" if "rq_state (a_reqs s r) = ASYNC_REQUEST_STATE_QUEUED"
    using that p q ainvD(11) [OF i q] by (auto simp: placed_def queue_ok_def Let_def queue_states)
  show "r \<in> a_armed s \<Longrightarrow> rq_state (a_reqs s r) \<in> busy_states" using ainvD(10) [OF i assms(2)] by (simp add: req_ok_def Let_def)
qed

text \<open>After a completion or an error the engine has another job or none.\<close>

theorem job_replaced:
  assumes "async_reach M Qs Rs hist s" "q \<in> Qs" "q_current (a_queues s q) = n" "n \<noteq> 0"
  shows "\<exists>s'. async_handler M q s = Some (Inr s') \<and> q_current (a_queues s' q) \<noteq> n \<and> rq_state (a_reqs s' n) \<noteq> ASYNC_REQUEST_STATE_RUNNING"
    and "st \<in> done_states \<Longrightarrow> \<exists>s'. async_error_handler M q st s = Some (Inr s') \<and> q_current (a_queues s' q) \<noteq> n \<and> rq_state (a_reqs s' n) \<noteq> ASYNC_REQUEST_STATE_RUNNING"
proof -
  obtain L where i: "ainv Qs Rs {} {} {} (count_list hist) L s" using reach_inv [OF assms(1)] by blast
  note c = current_running [OF i assms(2), unfolded assms(3), OF assms(4)]
  have nq: "Request n \<notin> set (L (Sentinel q))" using req_placed [OF i c(1)] c(3) assms(2) states_apart by (auto simp: placed_def)
  have moved: "q_current (a_queues s' q) \<noteq> n \<and> rq_state (a_reqs s' n) \<noteq> ASYNC_REQUEST_STATE_RUNNING"
    if "ainv Qs Rs {} {} {} (count_list hist) L' s'" "opts s' = opts s"
      "q_current (a_queues s' q) = 0 \<or> Request (q_current (a_queues s' q)) \<in> set (L (Sentinel q))" for s' L'
  proof -
    have n: "q_current (a_queues s' q) \<noteq> n" using that(3) assms(4) nq by auto
    have "rq_queue (a_reqs s' n) = q" using that(2) c(4) unfolding opts_def fun_eq_iff by auto
    then show ?thesis using n req_placed [OF that(1) c(1)] assms(2) by (auto simp: placed_def)
  qed
  have "{} = {} \<and> q_current (a_queues s q) \<noteq> 0" using assms(3,4) by simp
  then show "\<exists>s'. async_handler M q s = Some (Inr s') \<and> q_current (a_queues s' q) \<noteq> n \<and> rq_state (a_reqs s' n) \<noteq> ASYNC_REQUEST_STATE_RUNNING"
    using handler_step [OF i assms(2) disjI1] moved by blast
  assume "st \<in> done_states"
  then show "\<exists>s'. async_error_handler M q st s = Some (Inr s') \<and> q_current (a_queues s' q) \<noteq> n \<and> rq_state (a_reqs s' n) \<noteq> ASYNC_REQUEST_STATE_RUNNING"
    using error_step [OF i assms(2)] moved assms(3,4) by blast
qed

end

text \<open>The whole first loop of the callback handler is a run of its rounds.\<close>

lemma callback_loop_reach:
  assumes "engine M" "async_reach M Qs Rs hist s"
  shows "\<exists>s'. async_callback_loop M (s\<lparr>a_ctx := Noncritical_Ctx\<rparr>) = Some (Inr s') \<and> async_reach M Qs Rs hist s' \<and>
    async_callback_round M s' = None"
proof -
  obtain L where i: "ainv Qs Rs {} {} {} (count_list hist) L s" using engine.reach_inv [OF assms] by blast
  have "async_reach M Qs Rs hist (s\<lparr>a_ctx := Noncritical_Ctx\<rparr>)" by (rule async_reach.switch [OF assms(2)])
  moreover have "ainv Qs Rs {} {} {} (count_list hist) L (s\<lparr>a_ctx := Noncritical_Ctx\<rparr>)" using i by (simp add: ainv_other)
  moreover have "a_ctx (s\<lparr>a_ctx := Noncritical_Ctx\<rparr>) = Noncritical_Ctx" by simp
  moreover have "\<exists>t'. async_callback_loop M t = Some (Inr t') \<and> async_reach M Qs Rs hist t' \<and> async_callback_round M t' = None"
    if "async_reach M Qs Rs hist t" "ainv Qs Rs {} {} {} (count_list hist) K t" "a_ctx t = Noncritical_Ctx" for t K
    using that
  proof (induction "length (K G_async_callback_queue)" arbitrary: t K rule: less_induct)
    case less
    have n: "a_ctx t \<noteq> Critical_Ctx" using less.prems(3) by simp
    from callback_round_step [OF less.prems(2) n, of M] show ?case
    proof (elim disjE exE conjE)
      assume "async_callback_round M t = None"
      then show ?thesis using less.prems(1) by (subst async_callback_loop.simps) auto
    next
      fix K' t' assume a: "async_callback_round M t = Some (Inr t')" "ainv Qs Rs {} {} {} (count_list hist) K' t'" "a_ctx t' = a_ctx t"
        "length (K G_async_callback_queue) = Suc (length (K' G_async_callback_queue))"
      have "t\<lparr>a_ctx := Noncritical_Ctx\<rparr> = t" using less.prems(3) by (cases t) simp
      then have "handle_async M Callback t = Some (Inr t')" using a(1) by (simp add: handle_async_def)
      from async_reach.event [OF less.prems(1) _ this] have "async_reach M Qs Rs hist t'" by (simp add: enabled_def accepted_def)
      then show ?thesis using less.hyps [of K' t'] a less.prems(3) by (subst async_callback_loop.simps) simp
    qed
  qed
  ultimately show ?thesis by blast
qed

section \<open>Engines whose error method succeeds\<close>

text \<open>Only a failing error method puts a queue into the error state, in which waiting requests stay where they are.\<close>

definition no_new_error :: "'e async \<Rightarrow> 'e async \<Rightarrow> bool" where
  "no_new_error s s' \<longleftrightarrow> (\<forall>q. q_state (a_queues s' q) = ASYNC_QUEUE_STATE_ERROR \<longrightarrow> q_state (a_queues s q) = ASYNC_QUEUE_STATE_ERROR)"

lemma no_new_error_refl: "a_queues s' = a_queues s \<Longrightarrow> no_new_error s s'"
  by (simp add: no_new_error_def)

lemma no_new_error_trans: "no_new_error s s' \<Longrightarrow> no_new_error s' s'' \<Longrightarrow> no_new_error s s''"
  by (simp add: no_new_error_def)

lemma release_queues: "release r s = Inr s' \<Longrightarrow> a_queues s' = a_queues s"
  by (auto simp: release_def kbind_def timer_cancel_def sem_post_def split: if_splits sum.splits)

lemma postprocess_queues: "postprocess c r s = Inr s' \<Longrightarrow> a_queues s' = a_queues s"
  by (auto simp: postprocess_def kbind_def defer_completion_def dest!: release_queues split: if_splits sum.splits prod.splits)

lemma complete_queues: "async_request_complete M r s = Inr s' \<Longrightarrow> a_queues s' = a_queues s"
  by (auto simp: async_request_complete_def async_run_callback_frame dest!: postprocess_queues split: if_splits)

lemma finalize_queues: "async_request_finalize M r s = Inr s' \<Longrightarrow> a_queues s' = a_queues s"
  by (auto simp: async_request_finalize_def async_run_callback_frame Let_def dest!: release_queues split: if_splits)

locale reliable_engine = engine +
  assumes error_works: "fst (m_error M f r s) = 0"
begin

lemma next_job_errors: "next_job M q s = (rc, s') \<Longrightarrow> no_new_error s s'"
proof -
  have m: "a_queues (snd (m_run M f r t)) = a_queues t" for f r t using run_law [of f r t] by auto
  have "no_new_error s (snd (next_job M q s))"
    by (auto simp: no_new_error_def next_job_def async_request_run_def m queue_states Let_def split: prod.splits)
  then show "next_job M q s = (rc, s') \<Longrightarrow> no_new_error s s'" by simp
qed

lemma round_errors:
  assumes "async_round M q s = Inr (rc, s')"
  shows "no_new_error s s'"
proof -
  define s1 where "s1 = (if q_state (a_queues s q) = ASYNC_QUEUE_STATE_IDLE then s else upd_req (q_current (a_queues s q)) (\<lambda>x. x\<lparr>end_time := a_time s\<rparr>) s)"
  obtain rc2 s2 where n: "next_job M q s1 = (rc2, s2)" by fastforce
  have "a_queues s' = a_queues s2"
  proof (cases "q_state (a_queues s q) = ASYNC_QUEUE_STATE_IDLE")
    case True
    then show ?thesis using assms n by (simp add: async_round_def s1_def)
  next
    case False
    then show ?thesis using assms n
      by (auto simp: async_round_def s1_def kbind_def Let_def dest!: complete_queues split: if_splits sum.splits)
  qed
  moreover have "no_new_error s s1" by (simp add: no_new_error_def s1_def)
  ultimately show ?thesis using next_job_errors [OF n] by (simp add: no_new_error_def)
qed

lemma handler_errors_raw: "async_handler M' q s = Some y \<Longrightarrow> M' = M \<Longrightarrow> y = Inr s' \<Longrightarrow> no_new_error s s'"
proof (induction rule: async_handler.raw_induct [rotated, consumes 1, case_names 1])
  case (1 h M' q s y)
  obtain rc s1 where r: "async_round M q s = Inr (rc, s1)"
    using 1(2-4) by (auto split: sum.splits)
  show ?case
  proof (cases "rc = - ASYNC_REQUEST_COMPLETE")
    case True
    then have "h M' q s1 = Some y" using 1(2,3) r by simp
    then have "no_new_error s1 s'" using 1 by blast
    then show ?thesis using round_errors [OF r] no_new_error_trans by blast
  next
    case False
    then show ?thesis using 1(2-4) r round_errors [OF r] by simp
  qed
qed

lemmas handler_errors = handler_errors_raw [OF _ refl refl]

lemma stop_engine_errors: "no_new_error s (stop_engine M q r s)"
proof -
  obtain e where "m_error M (error_method (a_reqs s r)) r s = (0, s\<lparr>a_engine := e\<rparr>)"
    using error_works error_law by (metis prod.collapse)
  then show ?thesis by (simp add: stop_engine_def no_new_error_def)
qed

lemma error_handler_errors: "async_error_handler M q st s = Some (Inr s') \<Longrightarrow> no_new_error s s'"
proof -
  assume a: "async_error_handler M q st s = Some (Inr s')"
  define s1 where "s1 = upd_req (q_current (a_queues s q)) (\<lambda>x. x\<lparr>abort_state := rq_state x, completion_state := st\<rparr>)
    (stop_engine M q (q_current (a_queues s q)) s)"
  have "async_handler M q s1 = Some (Inr s')" using a by (auto simp: async_error_handler_def s1_def Let_def split: if_splits)
  moreover have "no_new_error s s1" using stop_engine_errors by (simp add: no_new_error_def s1_def)
  ultimately show ?thesis using handler_errors no_new_error_trans by blast
qed

lemma dequeue_queues: "async_request_dequeue M r st s = Inr s' \<Longrightarrow> a_queues s' = a_queues s"
  by (auto simp: async_request_dequeue_def dest!: complete_queues)

lemma timeout_errors: "async_timeout M r s = Some (Inr s') \<Longrightarrow> no_new_error s s'"
  by (auto simp: async_timeout_def dest: error_handler_errors dequeue_queues no_new_error_refl split: if_splits intro: no_new_error_refl)

lemma schedule_errors:
  assumes "async_request_schedule M r s = Some (Inr (res, s'))"
  shows "no_new_error s s'"
proof (cases "r = 0 \<or> \<not> async_request_is_idle r s")
  case True
  then show ?thesis using assms by (auto simp: async_request_schedule_def no_new_error_def split: if_splits)
next
  case False
  obtain rc s1 where t: "(if rq_timeout (a_reqs s r) \<noteq> SSX_WAIT_FOREVER then timer_schedule r s else Inr (0, s)) = Inr (rc, s1)"
    using assms False by (auto simp: async_request_schedule_def split: sum.splits)
  have q1: "a_queues s1 = a_queues s" using t by (auto simp: timer_schedule_def split: if_splits)
  define s2 where "s2 = enqueue_request r s1"
  have q2: "a_queues s2 = a_queues s" using q1 by (simp add: s2_def enqueue_request_def Let_def)
  show ?thesis
  proof (cases "rc = 0")
    case rc: True
    define h where "h = (if q_state (a_queues s2 (rq_queue (a_reqs s2 r))) = ASYNC_QUEUE_STATE_IDLE then async_handler M (rq_queue (a_reqs s2 r)) s2 else Some (Inr s2))"
    have e: "async_request_schedule M r s = Option.bind h (\<lambda>m. Some (kbind m (\<lambda>s3.
              if has ASYNC_REQUEST_BLOCKING r s3 then
                kbind (sem_pend r s3) (\<lambda>(returned, s4). Inr (if returned then Returned (async_request_resumed r s4) else Blocked, s4))
              else Inr (Returned 0, s3))))"
      using False t rc by (simp add: async_request_schedule_def s2_def h_def Let_def)
    obtain s3 where s3: "h = Some (Inr s3)" using assms e by (auto simp: kbind_def split: bind_splits sum.splits)
    have q3: "a_queues s' = a_queues s3"
      using assms e s3 by (auto simp: kbind_def sem_pend_def split: if_splits sum.splits)
    have "no_new_error s2 s3" using s3 handler_errors by (auto simp: h_def no_new_error_refl split: if_splits)
    then show ?thesis using q2 q3 by (simp add: no_new_error_def)
  qed (use assms False t q1 in \<open>auto simp: async_request_schedule_def no_new_error_def\<close>)
qed

lemma event_errors:
  assumes "handle_async M ev s = Some (Inr s')"
  shows "no_new_error s s'"
proof (cases ev)
  case (Schedule r c)
  have c: "no_new_error (s\<lparr>a_ctx := c\<rparr>) s' = no_new_error s s'" by (simp add: no_new_error_def)
  obtain res where "async_request_schedule M r (s\<lparr>a_ctx := c\<rparr>) = Some (Inr (res, s'))"
    using assms Schedule by (cases "async_request_schedule M r (s\<lparr>a_ctx := c\<rparr>)") (auto simp: handle_async_def kbind_def split: sum.splits prod.splits)
  then show ?thesis using schedule_errors c by blast
next
  case (Complete q c)
  then show ?thesis using assms handler_errors [of q "s\<lparr>a_ctx := c\<rparr>" s'] by (simp add: handle_async_def no_new_error_def)
next
  case (Fail q c)
  then show ?thesis using assms error_handler_errors [of q _ "s\<lparr>a_ctx := c\<rparr>" s'] by (simp add: handle_async_def no_new_error_def)
next
  case (Timer r)
  then show ?thesis using assms timeout_errors [of r "s\<lparr>a_ctx := Noncritical_Ctx, a_armed := a_armed s - {r}\<rparr>" s']
    by (simp add: handle_async_def no_new_error_def)
next
  case Callback
  then have "a_queues s' = a_queues s" using assms
    by (auto simp: handle_async_def async_callback_round_def dest!: finalize_queues split: option.splits prod.splits if_splits)
  then show ?thesis by (rule no_new_error_refl)
qed (use assms in \<open>auto simp: handle_async_def no_new_error_def async_callback_done_def\<close>)

lemma never_in_error:
  assumes "async_reach M Qs Rs hist s" "q \<in> Qs"
  shows "q_state (a_queues s q) \<noteq> ASYNC_QUEUE_STATE_ERROR"
  using assms
proof induction
  case (queue Qs Rs hist s q' eng s')
  then show ?case by (auto simp: async_queue_create_def kbind_def queue_states split: if_splits sum.splits)
next
  case (request Qs Rs hist s q' r run err timeout cb arg options s')
  have "a_queues s' = a_queues s"
    using request.hyps(4) by (auto simp: async_request_create_def kbind_def Let_def split: if_splits sum.splits)
  then show ?case using request by simp
next
  case (event Qs Rs hist s ev s')
  then show ?case using event_errors by (auto simp: no_new_error_def)
qed simp_all

text \<open>So a request waits only behind one that runs.\<close>

theorem waits_behind_running:
  assumes "async_reach M Qs Rs hist s" "r \<in> Rs" "rq_state (a_reqs s r) = ASYNC_REQUEST_STATE_QUEUED"
  shows "q_state (a_queues s (rq_queue (a_reqs s r))) = ASYNC_QUEUE_STATE_RUNNING \<and>
    q_current (a_queues s (rq_queue (a_reqs s r))) \<in> Rs \<and>
    rq_state (a_reqs s (q_current (a_queues s (rq_queue (a_reqs s r))))) = ASYNC_REQUEST_STATE_RUNNING"
proof -
  let ?q = "rq_queue (a_reqs s r)"
  obtain L where i: "ainv Qs Rs {} {} {} (count_list hist) L s" using reach_inv [OF assms(1)] by blast
  note o = one_job [OF assms(1,2)]
  have "q_state (a_queues s ?q) = ASYNC_QUEUE_STATE_RUNNING \<and> q_current (a_queues s ?q) \<noteq> 0"
    using ainvD(11) [OF i o(1)] o(3) [OF assms(3)] never_in_error [OF assms(1) o(1)] by (auto simp: queue_ok_def Let_def)
  then show ?thesis using current_running [OF i o(1)] by blast
qed

end

end
