(* ===== verification/GPE_Async.thy ===== *)
theory GPE_Async
  imports SSX_Async_System IPC_Handlers
begin

text \<open>
  ssx/occhw/occhw_async_gpe.c: the driver that runs asynchronous requests on the GPEs. A queue owns one IPC
  message; its current request is sent in it, and the GPE's response is the completion interrupt. The
  engine's state is that of the IPC, with what the GPE queues and requests add to the generic ones.
\<close>

unbundle bit_operations_syntax

section \<open>State\<close>

record gpe_queue =
  ipc_cmd :: nat
  ipc_target_id :: u8

record gpe_ffdc =
  ffdc_func_id :: u32
  ffdc_ipc_rc :: u32
  ffdc_xir_dump_rc :: u32

record gpe_request =
  gpe_ffdc :: gpe_ffdc
  targeted_func_id :: u32
  gpe_cmd_data :: nat

record gpe =
  gpe_ipc :: ipc
  gpe_queues :: "nat \<Rightarrow> gpe_queue"
  gpe_requests :: "nat \<Rightarrow> gpe_request"
  ipc_cmd_data :: "nat \<Rightarrow> nat"

type_synonym occ_async = "gpe async"

definition ASYNC_ENGINE_GPE :: u8 where "ASYNC_ENGINE_GPE = 0x10"
definition ASYNC_NUM_GPE_QUEUES :: nat where "ASYNC_NUM_GPE_QUEUES = 4"
definition ASYNC_ENG2GPE :: "u8 \<Rightarrow> u8" where "ASYNC_ENG2GPE eng = eng AND 0x0f"
definition OCCHW_INST_ID_MAX_GPE :: nat where "OCCHW_INST_ID_MAX_GPE = 3"
definition OCCHW_XIR_INVALID_GPE :: u32 where "OCCHW_XIR_INVALID_GPE = 0x00622403"

text \<open>The methods' and the response handler's addresses, and the IPC message of each GPE.\<close>

definition gpe_run_method_id :: nat where "gpe_run_method_id = 1"
definition gpe_error_method_id :: nat where "gpe_error_method_id = 1"
definition gpe_async_handler_id :: nat where "gpe_async_handler_id = 4"

definition G_async_ipc_cmd :: "u8 \<Rightarrow> nat" where "G_async_ipc_cmd i = 1 + unat i"

abbreviation upd_gpe :: "(gpe \<Rightarrow> gpe) \<Rightarrow> occ_async \<Rightarrow> occ_async" where
  "upd_gpe f s \<equiv> s\<lparr>a_engine := f (a_engine s)\<rparr>"

section \<open>Creation\<close>

definition gpe_queue_create :: "nat \<Rightarrow> u8 \<Rightarrow> occ_async \<Rightarrow> panic_code + (int \<times> occ_async)" where
  "gpe_queue_create q eng s =
     (if q = 0 then Inl ASYNC_INVALID_OBJECT_GPE_QUEUE
      else if eng AND ASYNC_ENGINE_GPE = 0 then Inl ASYNC_INVALID_ENGINE_GPE
      else if unat (ASYNC_ENG2GPE eng) \<ge> ASYNC_NUM_GPE_QUEUES then Inl ASYNC_INVALID_ENGINE_GPE
      else kbind (async_queue_create q eng s)
        (\<lambda>(_, s1). Inr (0, upd_gpe (\<lambda>g. g\<lparr>gpe_queues := (gpe_queues g)(q :=
            \<lparr>ipc_cmd = G_async_ipc_cmd (ASYNC_ENG2GPE eng), ipc_target_id = ASYNC_ENG2GPE eng\<rparr>)\<rparr>) s1)))"

definition gpe_request_create :: "nat \<Rightarrow> nat \<Rightarrow> u32 \<Rightarrow> nat \<Rightarrow> u64 \<Rightarrow> nat \<Rightarrow> nat \<Rightarrow> u32 \<Rightarrow> occ_async \<Rightarrow> panic_code + (int \<times> occ_async)" where
  "gpe_request_create r q fid data timeout cb arg options s =
     (if q_engine (a_queues s q) AND ASYNC_ENGINE_GPE = 0 then Inl ASYNC_INVALID_OBJECT_GPE_REQUEST
      else kbind (async_request_create r q gpe_run_method_id gpe_error_method_id timeout cb arg options s)
        (\<lambda>(rc, s1).
           if rc \<noteq> 0 then Inr (rc, s1)
           else let gq = gpe_queues (a_engine s1) q;
                    t = (if IPC_FUNCID_IS_MT fid then IPC_SET_MT_TARGET fid (ucast (ipc_target_id gq)) else fid)
                in if IPC_GET_TARGET_ID t \<noteq> ucast (ipc_target_id gq) then Inr (uint IPC_RC_INVALID_FUNC_ID, s1)
                   else Inr (0, upd_gpe (\<lambda>g. g\<lparr>gpe_requests := (gpe_requests g)(r := (gpe_requests g r)\<lparr>gpe_cmd_data := data, targeted_func_id := t\<rparr>)\<rparr>) s1)))"

section \<open>Methods\<close>

definition occhw_xir_dump :: "u8 \<Rightarrow> u32" where
  "occhw_xir_dump inst = (if unat inst > OCCHW_INST_ID_MAX_GPE then OCCHW_XIR_INVALID_GPE else 0)"

definition gpe_error_method :: "nat \<Rightarrow> occ_async \<Rightarrow> int \<times> occ_async" where
  "gpe_error_method r s =
     (let q = rq_queue (a_reqs s r); g = a_engine s; x = ipc_msgs (gpe_ipc g) (ipc_cmd (gpe_queues g q))
      in (0, upd_gpe (\<lambda>g. g\<lparr>gpe_requests := (gpe_requests g)(r := (gpe_requests g r)\<lparr>gpe_ffdc :=
            \<lparr>ffdc_func_id = word32 (func_id x), ffdc_ipc_rc = ipc_rc x, ffdc_xir_dump_rc = occhw_xir_dump (ipc_target_id (gpe_queues g q))\<rparr>\<rparr>)\<rparr>) s))"

definition gpe_run_method :: "nat \<Rightarrow> occ_async \<Rightarrow> int \<times> occ_async" where
  "gpe_run_method r s =
     (let q = rq_queue (a_reqs s r); m = ipc_cmd (gpe_queues (a_engine s) q); x = gpe_requests (a_engine s) r;
          i1 = ipc_init_msg m (targeted_func_id x) gpe_async_handler_id q (gpe_ipc (a_engine s));
          (rc, i2) = ipc_send_cmd OCCHW_INST_ID_PPC m i1;
          s1 = upd_gpe (\<lambda>g. g\<lparr>gpe_ipc := i2, ipc_cmd_data := (ipc_cmd_data g)(m := gpe_cmd_data x)\<rparr>) s
      in if rc \<noteq> 0
         then let (_, s2) = gpe_error_method r s1
              in (- ASYNC_REQUEST_COMPLETE, upd_req r (\<lambda>x. x\<lparr>completion_state := ASYNC_REQUEST_STATE_FAILED\<rparr>) s2)
         else (0, s1))"

text \<open>The driver has one run and one error method; the callbacks' codes are a parameter.\<close>

definition gpe_methods :: "(nat \<Rightarrow> nat \<Rightarrow> occ_async \<Rightarrow> int) \<Rightarrow> gpe methods" where
  "gpe_methods callbacks = \<lparr>m_run = \<lambda>_. gpe_run_method, m_error = \<lambda>_. gpe_error_method, m_callback = callbacks\<rparr>"

section \<open>Responses\<close>

definition gpe_async_handler :: "gpe methods \<Rightarrow> nat \<Rightarrow> nat \<Rightarrow> occ_async \<Rightarrow> (panic_code + occ_async) option" where
  "gpe_async_handler M rsp q s =
     (if ipc_rc (ipc_msgs (gpe_ipc (a_engine s)) rsp) \<noteq> IPC_RC_SUCCESS
      then async_error_handler M q ASYNC_REQUEST_STATE_FAILED s else async_handler M q s)"

text \<open>A message that the 405 takes from its buffers, if it is a response of this driver.\<close>

definition gpe_response :: "gpe methods \<Rightarrow> nat \<Rightarrow> occ_async \<Rightarrow> (panic_code + occ_async) option" where
  "gpe_response M sd s =
     (let (m, i) = ipc_take OCCHW_INST_ID_PPC sd (gpe_ipc (a_engine s)); x = ipc_msgs i m;
          s1 = upd_gpe (\<lambda>g. g\<lparr>gpe_ipc := i\<rparr>) (s\<lparr>a_ctx := Critical_Ctx\<rparr>)
      in if response_flag (func_id x) \<and> resp_callback x = gpe_async_handler_id then gpe_async_handler M m (callback_arg x) s1
         else Some (Inr s1))"

section \<open>The callback handler\<close>

text \<open>
  \<open>async_callback_handler_full\<close>: the callbacks, then the messages deferred on the 405, then the interrupt,
  which both queues share, is cleared. It is an interrupt of low priority: between its parts the critical
  interrupts, and what the events of SSX_Async_System are, may come.
\<close>

definition async_callback_handler_full :: "gpe methods \<Rightarrow> ipc_code \<Rightarrow> occ_async \<Rightarrow> (panic_code + occ_async) option" where
  "async_callback_handler_full M code s =
     Option.bind (async_callback_loop M (s\<lparr>a_ctx := Noncritical_Ctx\<rparr>))
       (\<lambda>x. case x of Inl p \<Rightarrow> Some (Inl p)
          | Inr s1 \<Rightarrow> map_option (\<lambda>i. Inr (async_callback_done (upd_gpe (\<lambda>g. g\<lparr>gpe_ipc := i\<rparr>) s1)))
                       (ipc_deferred_loop code (gpe_ipc (a_engine s1))))"

section \<open>The driver keeps the engine's laws\<close>

lemma gpe_error_method_state: "\<exists>e. snd (gpe_error_method r s) = s\<lparr>a_engine := e\<rparr>"
  by (auto simp: gpe_error_method_def Let_def)

interpretation gpe: engine "gpe_methods callbacks" for callbacks
proof
  fix f r and s :: occ_async
  show "\<exists>e. snd (m_error (gpe_methods callbacks) f r s) = s\<lparr>a_engine := e\<rparr>"
    using gpe_error_method_state by (simp add: gpe_methods_def)
  show "\<exists>e c. snd (m_run (gpe_methods callbacks) f r s) = upd_req r (\<lambda>x. x\<lparr>completion_state := c\<rparr>) (s\<lparr>a_engine := e\<rparr>) \<and>
      (c = completion_state (a_reqs s r) \<or> c \<in> done_states)"
  proof -
    define q where "q = rq_queue (a_reqs s r)"
    define i where "i = ipc_send_cmd OCCHW_INST_ID_PPC (ipc_cmd (gpe_queues (a_engine s) q))
      (ipc_init_msg (ipc_cmd (gpe_queues (a_engine s) q)) (targeted_func_id (gpe_requests (a_engine s) r)) gpe_async_handler_id q (gpe_ipc (a_engine s)))"
    define s1 where "s1 = upd_gpe (\<lambda>g. g\<lparr>gpe_ipc := snd i, ipc_cmd_data := (ipc_cmd_data g)(ipc_cmd (gpe_queues (a_engine s) q) := gpe_cmd_data (gpe_requests (a_engine s) r))\<rparr>) s"
    have m: "m_run (gpe_methods callbacks) f r s = gpe_run_method r s" by (simp add: gpe_methods_def)
    have run: "gpe_run_method r s = (if fst i \<noteq> 0
       then (- ASYNC_REQUEST_COMPLETE, upd_req r (\<lambda>x. x\<lparr>completion_state := ASYNC_REQUEST_STATE_FAILED\<rparr>) (snd (gpe_error_method r s1))) else (0, s1))"
      by (simp add: gpe_run_method_def q_def i_def s1_def Let_def case_prod_unfold)
    obtain e where e: "snd (gpe_error_method r s1) = s1\<lparr>a_engine := e\<rparr>" using gpe_error_method_state by blast
    show ?thesis
    proof (cases "fst i = 0")
      case True
      then have "snd (gpe_run_method r s) = upd_req r (\<lambda>x. x\<lparr>completion_state := completion_state (a_reqs s r)\<rparr>) (s\<lparr>a_engine := a_engine s1\<rparr>)"
        by (simp add: run s1_def)
      then show ?thesis unfolding m by (intro exI [of _ "a_engine s1"] exI [of _ "completion_state (a_reqs s r)"] conjI disjI1 refl)
    next
      case False
      then have "snd (gpe_run_method r s) = upd_req r (\<lambda>x. x\<lparr>completion_state := ASYNC_REQUEST_STATE_FAILED\<rparr>) (s\<lparr>a_engine := e\<rparr>)"
        using e by (simp add: run s1_def)
      then show ?thesis using states_apart unfolding m
        by (intro exI [of _ e] exI [of _ ASYNC_REQUEST_STATE_FAILED] conjI disjI2)
    qed
  qed
qed

interpretation gpe_driver: reliable_engine "gpe_methods callbacks" for callbacks
  by unfold_locales (simp add: gpe_methods_def gpe_error_method_def Let_def)

text \<open>The callback handler stays among the reachable states, if handling the deferred messages ends.\<close>

lemma callback_handler_reach:
  assumes "async_reach (gpe_methods callbacks) Qs Rs hist s"
    and "\<And>s1. async_callback_loop (gpe_methods callbacks) (s\<lparr>a_ctx := Noncritical_Ctx\<rparr>) = Some (Inr s1) \<Longrightarrow>
      ipc_deferred_loop code (gpe_ipc (a_engine s1)) \<noteq> None"
  shows "\<exists>s'. async_callback_handler_full (gpe_methods callbacks) code s = Some (Inr s') \<and>
    async_reach (gpe_methods callbacks) Qs Rs hist s' \<and> \<not> a_ipi s'"
proof -
  obtain s1 where s1: "async_callback_loop (gpe_methods callbacks) (s\<lparr>a_ctx := Noncritical_Ctx\<rparr>) = Some (Inr s1)"
    "async_reach (gpe_methods callbacks) Qs Rs hist s1"
    using callback_loop_reach [OF gpe.engine_axioms assms(1)] by blast
  obtain i where i: "ipc_deferred_loop code (gpe_ipc (a_engine s1)) = Some i" using assms(2) [OF s1(1)] by blast
  define s2 where "s2 = upd_gpe (\<lambda>g. g\<lparr>gpe_ipc := i\<rparr>) s1"
  have r2: "async_reach (gpe_methods callbacks) Qs Rs hist s2" unfolding s2_def by (rule async_reach.engine [OF s1(2)])
  have e: "handle_async (gpe_methods callbacks) Deferred s2 = Some (Inr (async_callback_done (s2\<lparr>a_ctx := Noncritical_Ctx\<rparr>)))"
    by (simp add: handle_async_def)
  from async_reach.event [OF r2 _ e] have "async_reach (gpe_methods callbacks) Qs Rs hist (async_callback_done (s2\<lparr>a_ctx := Noncritical_Ctx\<rparr>))"
    by (simp add: enabled_def accepted_def)
  then have "async_reach (gpe_methods callbacks) Qs Rs hist ((async_callback_done (s2\<lparr>a_ctx := Noncritical_Ctx\<rparr>))\<lparr>a_ctx := a_ctx s2\<rparr>)"
    by (rule async_reach.switch)
  then have "async_reach (gpe_methods callbacks) Qs Rs hist (async_callback_done s2)" by (simp add: async_callback_done_def)
  then show ?thesis using s1(1) i
    by (simp add: async_callback_handler_full_def s2_def async_callback_done_def)
qed

text \<open>Queues and requests created by the driver are reached as the generic ones are.\<close>

lemma reach_gpe_queue:
  assumes "async_reach M Qs Rs hist s" "q \<notin> Qs" "gpe_queue_create q eng s = Inr (0, s')"
  shows "async_reach M (insert q Qs) Rs hist s'"
proof -
  from assms(3) obtain s1 g where "q \<noteq> 0" "async_queue_create q eng s = Inr (0, s1)" "s' = s1\<lparr>a_engine := g\<rparr>"
    by (auto simp: gpe_queue_create_def async_queue_create_def kbind_def split: if_splits sum.splits)
  then show ?thesis using assms(1,2) async_reach.queue async_reach.engine by metis
qed

lemma async_create_zero: "async_request_create r q run err timeout cb arg options s = Inr (rc, s') \<Longrightarrow> rc = 0"
  by (auto simp: async_request_create_def kbind_def split: if_splits sum.splits)

lemma reach_gpe_request:
  assumes "async_reach M Qs Rs hist s" "q \<in> Qs" "r \<notin> Rs" "gpe_request_create r q fid data timeout cb arg options s = Inr (0, s')"
  shows "async_reach M Qs (insert r Rs) hist s'"
proof -
  from assms(4) obtain s1 g where
    "async_request_create r q gpe_run_method_id gpe_error_method_id timeout cb arg options s = Inr (0, s1)" "s' = s1\<lparr>a_engine := g\<rparr>"
    by (auto simp: gpe_request_create_def kbind_def Let_def IPC_RC_INVALID_FUNC_ID_def dest: async_create_zero split: if_splits sum.splits)
  then show ?thesis using assms(1-3) async_reach.request async_reach.engine by metis
qed

section \<open>A message that is sent again\<close>

text \<open>The run method sends its queue's message, whether or not it is active.\<close>

lemma run_sends:
  fixes s :: occ_async and r :: nat
  defines "i \<equiv> gpe_ipc (a_engine s)" and "m \<equiv> ipc_cmd (gpe_queues (a_engine s) (rq_queue (a_reqs s r)))"
    and "f \<equiv> of_word32 (targeted_func_id (gpe_requests (a_engine s) r))"
  assumes "G_ipc_enabled i OCCHW_INST_ID_PPC" "valid_flag f" "\<not> active_flag f"
    and t: "unat (target_id f) \<le> OCCHW_INST_ID_MAX" "in_buffer (unat (target_id f)) OCCHW_INST_ID_PPC i < IPC_CBUF_SIZE"
  shows "fst (gpe_run_method r s) = 0"
    and "buffered (unat (target_id f)) OCCHW_INST_ID_PPC (gpe_ipc (a_engine (snd (gpe_run_method r s)))) = buffered (unat (target_id f)) OCCHW_INST_ID_PPC i @ [m]"
proof -
  let ?t = "unat (target_id f)" and ?p = OCCHW_INST_ID_PPC
  define i0 where "i0 = upd_msg m (\<lambda>x. \<lparr>func_id = f\<lparr>response_flag := False, sender_id := of_nat ?p\<rparr>, ipc_rc = 0, resp_callback = gpe_async_handler_id,
    callback_arg = rq_queue (a_reqs s r)\<rparr>) i"
  have nb: "in_buffer ?t ?p i0 < IPC_CBUF_SIZE" using t(2) by (simp add: i0_def num_entries_def)
  note k = send_msg_ok [OF t(1) nb, of m] ipc_send_msg_buffers [OF t(1) nb, of _ _ m]
  have "ipc_send_cmd ?p m (ipc_init_msg m (targeted_func_id (gpe_requests (a_engine s) r)) gpe_async_handler_id (rq_queue (a_reqs s r)) i) =
      (0, upd_msg m (\<lambda>x. x\<lparr>ipc_rc := 0\<rparr>) (snd (ipc_send_msg ?p m ?t i0)))"
    using assms(4-6) k(1) unfolding ipc_send_cmd_def ipc_init_msg_def Let_def case_prod_unfold f_def [symmetric]
    by (simp add: i0_def IPC_RC_SUCCESS_def)
  then have "gpe_run_method r s = (0, upd_gpe (\<lambda>g. g\<lparr>gpe_ipc := upd_msg m (\<lambda>x. x\<lparr>ipc_rc := 0\<rparr>) (snd (ipc_send_msg ?p m ?t i0)),
      ipc_cmd_data := (ipc_cmd_data g)(m := gpe_cmd_data (gpe_requests (a_engine s) r))\<rparr>) s)"
    by (simp add: gpe_run_method_def Let_def m_def i_def)
  moreover have "buffered ?t ?p i0 = buffered ?t ?p i" by (simp add: i0_def)
  ultimately show "fst (gpe_run_method r s) = 0"
    "buffered ?t ?p (gpe_ipc (a_engine (snd (gpe_run_method r s)))) = buffered ?t ?p i @ [m]" using k(8) [of ?t ?p] by simp_all
qed

lemma release_engine: "release r s = Inr s' \<Longrightarrow> a_engine s' = a_engine s"
  by (auto simp: release_def kbind_def timer_cancel_def sem_post_def split: if_splits sum.splits)

lemma postprocess_engine: "postprocess c r s = Inr s' \<Longrightarrow> a_engine s' = a_engine s"
  by (auto simp: postprocess_def kbind_def defer_completion_def dest!: release_engine split: if_splits sum.splits prod.splits)

lemma complete_engine: "async_request_complete M r s = Inr s' \<Longrightarrow> a_engine s' = a_engine s"
  by (auto simp: async_request_complete_def async_run_callback_def Let_def dest!: postprocess_engine split: if_splits)

text \<open>The timer of a running request: its error method, the next job's run method, and then what completes it.\<close>

lemma timeout_runs_next:
  assumes r: "async_reach (gpe_methods callbacks) Qs Rs hist s" "r \<in> a_armed s" "rq_state (a_reqs s r) = ASYNC_REQUEST_STATE_RUNNING"
    and n: "fst (ssx_deque_pop_front (Sentinel (rq_queue (a_reqs s r))) (a_heap s)) = Request n"
  obtains u s' where "handle_async (gpe_methods callbacks) (Timer r) s = Some (Inr s')"
    and "gpe_ipc (a_engine u) = gpe_ipc (a_engine s)" "gpe_queues (a_engine u) = gpe_queues (a_engine s)"
      "targeted_func_id (gpe_requests (a_engine u) n) = targeted_func_id (gpe_requests (a_engine s) n)" "rq_queue (a_reqs u n) = rq_queue (a_reqs s n)"
    and "fst (gpe_run_method n u) = 0 \<Longrightarrow> a_engine s' = a_engine (snd (gpe_run_method n u)) \<and> q_current (a_queues s' (rq_queue (a_reqs s r))) = n"
proof -
  let ?M = "gpe_methods callbacks" and ?q = "rq_queue (a_reqs s r)"
  obtain L where i: "ainv Qs Rs {} {} {} (count_list hist) L s" using gpe.reach_inv [OF r(1)] by blast
  have rR: "r \<in> Rs" using ainvD(5) [OF i] r(2) by blast
  note o = gpe.one_job [OF r(1) rR]
  have c: "q_current (a_queues s ?q) = r" using o(2) r(3) by simp
  have nz: "r \<noteq> 0" using ainvD(2) [OF i] rR by metis
  have q: "q_state (a_queues s ?q) = ASYNC_QUEUE_STATE_RUNNING"
    using ainvD(11) [OF i o(1)] gpe_driver.never_in_error [OF r(1) o(1)] c nz by (auto simp: queue_ok_def Let_def)
  have "Sentinel ?q \<in> sentinels Qs" using sentinels_iff [OF ainvD(1) [OF i] o(1)] by blast
  note D = deques_pop [OF ainvD(6) [OF i] this]
  have "\<exists>xs. L (Sentinel ?q) = Request n # xs" using D n by (cases "L (Sentinel ?q)") auto
  then have nR: "n \<in> Rs" "rq_state (a_reqs s n) = ASYNC_REQUEST_STATE_QUEUED"
    using in_queue [OF i o(1), of "Request n"] by auto
  have nn: "n \<noteq> 0" using nR(1) ainvD(2) [OF i] by metis
  have nr: "n \<noteq> r" using nR(2) r(3) states_apart by auto
  define s0 where "s0 = s\<lparr>a_ctx := Noncritical_Ctx, a_armed := a_armed s - {r}\<rparr>"
  define s1 where "s1 = upd_req r (\<lambda>x. x\<lparr>abort_state := rq_state x, completion_state := ASYNC_REQUEST_STATE_TIMED_OUT\<rparr>) (stop_engine ?M ?q r s0)"
  define s2 where "s2 = upd_req r (\<lambda>x. x\<lparr>end_time := a_time s1\<rparr>) s1"
  define h where "h = snd (ssx_deque_pop_front (Sentinel ?q) (a_heap s))"
  define u where "u = upd_req n (\<lambda>x. x\<lparr>start_time := a_time s, rq_state := ASYNC_REQUEST_STATE_RUNNING\<rparr>)
    (upd_queue ?q (\<lambda>x. x\<lparr>q_current := n, q_state := ASYNC_QUEUE_STATE_RUNNING\<rparr>) (s2\<lparr>a_heap := h\<rparr>))"
  have stop: "stop_engine ?M ?q r s0 = (if error_method (a_reqs s r) \<noteq> 0 then snd (gpe_error_method r s0) else s0)"
    by (simp add: stop_engine_def gpe_methods_def gpe_error_method_def s0_def Let_def)
  have s1: "a_queues s1 = a_queues s" "a_heap s1 = a_heap s" "a_time s1 = a_time s" "gpe_ipc (a_engine s1) = gpe_ipc (a_engine s)"
    "gpe_queues (a_engine s1) = gpe_queues (a_engine s)" "a_reqs s1 n = a_reqs s n"
    "targeted_func_id (gpe_requests (a_engine s1) n) = targeted_func_id (gpe_requests (a_engine s) n)"
    using nr unfolding s1_def stop by (simp_all add: gpe_error_method_def s0_def Let_def)
  have job: "next_job ?M ?q s2 = gpe_run_method n u"
  proof -
    have p: "ssx_deque_pop_front (Sentinel ?q) (a_heap s2) = (Request n, h)" using n by (simp add: h_def s2_def s1 prod_eq_iff)
    show ?thesis using q s1 nR nn nr states_apart unfolding next_job_def p
      by (simp add: s2_def request_of_def async_request_run_def gpe_methods_def u_def queue_states Let_def)
  qed
  obtain s' where s': "handle_async ?M (Timer r) s = Some (Inr s')" using gpe.no_panic [OF r(1), of "Timer r"] r(2) by (auto simp: enabled_def)
  have "handle_async ?M (Timer r) s = async_handler ?M ?q s1"
    using r(3) c nz unfolding handle_async_def s0_def [symmetric]
    by (simp add: async_timeout_def in_group_def s0_def request_groups request_states async_error_handler_def Let_def)
      (simp add: s1_def s0_def ASYNC_REQUEST_STATE_TIMED_OUT_def)
  moreover have "async_round ?M ?q s1 = kbind (async_request_complete ?M r (snd (gpe_run_method n u))) (\<lambda>s3. Inr (fst (gpe_run_method n u), s3))"
    using q c nz s1 job by (simp add: async_round_def s2_def queue_states Let_def case_prod_unfold)
  ultimately have h: "handle_async ?M (Timer r) s = (case kbind (async_request_complete ?M r (snd (gpe_run_method n u))) (\<lambda>s3. Inr (fst (gpe_run_method n u), s3)) of
        Inl p \<Rightarrow> Some (Inl p) | Inr (rc, s1) \<Rightarrow> if rc = - ASYNC_REQUEST_COMPLETE then async_handler ?M ?q s1 else Some (Inr s1))"
    by (subst (asm) async_handler.simps) simp
  have last: "a_engine s' = a_engine (snd (gpe_run_method n u)) \<and> q_current (a_queues s' ?q) = n" if z: "fst (gpe_run_method n u) = 0"
  proof -
    have d: "async_request_complete ?M r (snd (gpe_run_method n u)) = Inr s'"
      using s' unfolding h z
      by (cases "async_request_complete ?M r (snd (gpe_run_method n u))") (simp_all add: kbind_def ASYNC_REQUEST_COMPLETE_def)
    have "a_queues (snd (gpe_run_method n u)) = a_queues u"
      using gpe.run_law [of callbacks 0 n u] by (auto simp: gpe_methods_def)
    then have "a_queues s' ?q = a_queues u ?q" using complete_queues [OF d] by simp
    moreover have "q_current (a_queues u ?q) = n" by (simp add: u_def)
    ultimately show ?thesis using complete_engine [OF d] by simp
  qed
  have u': "gpe_ipc (a_engine u) = gpe_ipc (a_engine s)" "gpe_queues (a_engine u) = gpe_queues (a_engine s)"
    "targeted_func_id (gpe_requests (a_engine u) n) = targeted_func_id (gpe_requests (a_engine s) n)" "rq_queue (a_reqs u n) = rq_queue (a_reqs s n)"
    using s1(4-7) nr by (simp_all add: u_def s2_def)
  show thesis by (rule that [OF s' u' last])
qed

end
