(* ===== verification/Async_Properties.thy ===== *)
theory Async_Properties
  imports GPE_Async
begin

text \<open>
  Properties of the requests on the GPEs and of the messages that carry them, each with its witness.
\<close>

section \<open>Demonstration states\<close>

text \<open>All messages, buffers and queues are clear; the 405 and the GPEs are enabled, with the library's handlers.\<close>

definition demo_msg :: ipc_msg_t where
  "demo_msg = \<lparr>func_id = of_word32 0, ipc_rc = 0, resp_callback = 0, callback_arg = 0\<rparr>"

definition demo_ipc :: ipc where
  "demo_ipc = \<lparr>ipc_targets = (\<lambda>_. \<lparr>reads = (\<lambda>_. 0), writes = (\<lambda>_. 0), cbufs = (\<lambda>_ _. 0)\<rparr>), ipc_msgs = (\<lambda>_. demo_msg),
     G_ipc_enabled = (\<lambda>_. True), G_ipc_mt_handlers = (\<lambda>_ _. (IPC_PING_HANDLER, 0)), G_ipc_st_handlers = (\<lambda>_ _. (IPC_DEFAULT_HANDLER, 0)),
     ipc_irq_status = (\<lambda>_. False), ipc_irq_masked = (\<lambda>_. False), ipc_posts = [],
     ipc_critical = False, ipc_deferred = [], ipc_async_ipi = False\<rparr>"

definition demo_gpe :: gpe where
  "demo_gpe = \<lparr>gpe_ipc = demo_ipc, gpe_queues = (\<lambda>_. \<lparr>ipc_cmd = 0, ipc_target_id = 0\<rparr>),
     gpe_requests = (\<lambda>_. \<lparr>gpe_ffdc = \<lparr>ffdc_func_id = 0, ffdc_ipc_rc = 0, ffdc_xir_dump_rc = 0\<rparr>, targeted_func_id = 0, gpe_cmd_data = 0\<rparr>),
     ipc_cmd_data = (\<lambda>_. 0)\<rparr>"

definition demo_req :: async_req where
  "demo_req = \<lparr>rq_queue = 0, run_method = 0, error_method = 0, rq_callback = 0, rq_arg = 0, rq_timeout = 0, callback_rc = 0, rq_options = 0,
     rq_state = 0, abort_state = 0, completion_state = 0, start_time = 0, end_time = 0\<rparr>"

definition demo_boot :: occ_async where
  "demo_boot = async_callbacks_initialize
     \<lparr>a_ctx = Thread_Ctx, a_heap = \<lparr>dq_next = (\<lambda>_. Null), dq_prev = (\<lambda>_. Null)\<rparr>, a_reqs = (\<lambda>_. demo_req),
      a_queues = (\<lambda>_. \<lparr>q_current = 0, q_engine = 0, q_state = 0\<rparr>), a_armed = {}, a_count = (\<lambda>_. 0), a_waiting = {}, a_ipi = False,
      a_time = 0, a_called = [], a_engine = demo_gpe\<rparr>"

definition state_of :: "panic_code + (int \<times> 'e async) \<Rightarrow> 'e async" where
  "state_of x = (case x of Inl _ \<Rightarrow> undefined | Inr (_, s) \<Rightarrow> s)"

text \<open>Queue 1 on GPE0; request 2, with a timeout and an immediate callback, and request 3.\<close>

definition demo_queue :: occ_async where "demo_queue = state_of (gpe_queue_create 1 0x10 demo_boot)"
definition demo_one :: occ_async where "demo_one = state_of (gpe_request_create 2 1 0x400 0 1000 7 0 1 demo_queue)"
definition demo_two :: occ_async where "demo_two = state_of (gpe_request_create 3 1 0x401 0 SSX_WAIT_FOREVER 0 0 0 demo_one)"

definition demo_callbacks :: "nat \<Rightarrow> nat \<Rightarrow> occ_async \<Rightarrow> int" where "demo_callbacks _ _ _ = 0"

lemmas demo_states = demo_boot_def demo_queue_def demo_one_def demo_two_def state_of_def demo_req_def demo_gpe_def demo_ipc_def demo_msg_def

lemmas driver_consts = ASYNC_ENGINE_GPE_def ASYNC_ENG2GPE_def ASYNC_NUM_GPE_QUEUES_def G_async_ipc_cmd_def
  gpe_run_method_id_def gpe_error_method_id_def ASYNC_GENERIC_OPTIONS_def ASYNC_CALLBACK_OPTIONS_def ASYNC_REQUEST_BLOCKING_def
  IPC_FUNCID_IS_MT_def IPC_GET_TARGET_ID_def IPC_FLAG_MT_def IPC_TARGET_SHIFT_def

lemma demo_options: "\<not> several 0" "\<not> several 1"
  by (simp_all add: several_def upt_rec bit_simps)

lemma demo_queue_created: "gpe_queue_create 1 0x10 demo_boot = Inr (0, demo_queue)"
  by (simp add: demo_queue_def state_of_def gpe_queue_create_def async_queue_create_def ssx_deque_sentinel_create_def driver_consts)

lemma demo_queue_fields: "q_engine (a_queues demo_queue 1) = 0x10" "ipc_target_id (gpe_queues (a_engine demo_queue) 1) = 0"
  by (simp_all add: demo_queue_def state_of_def gpe_queue_create_def async_queue_create_def ssx_deque_sentinel_create_def driver_consts)

lemma demo_one_created: "gpe_request_create 2 1 0x400 0 1000 7 0 1 demo_queue = Inr (0, demo_one)"
  using demo_queue_fields demo_options
  by (simp add: demo_one_def state_of_def gpe_request_create_def async_request_create_def ssx_deque_element_create_def driver_consts Let_def)

lemma demo_one_fields: "q_engine (a_queues demo_one 1) = 0x10" "ipc_target_id (gpe_queues (a_engine demo_one) 1) = 0"
  using demo_queue_fields demo_options
  by (simp_all add: demo_one_def state_of_def gpe_request_create_def async_request_create_def ssx_deque_element_create_def driver_consts Let_def)

lemma demo_two_created: "gpe_request_create 3 1 0x401 0 SSX_WAIT_FOREVER 0 0 0 demo_one = Inr (0, demo_two)"
  using demo_one_fields demo_options
  by (simp add: demo_two_def state_of_def gpe_request_create_def async_request_create_def ssx_deque_element_create_def driver_consts Let_def)

lemma demo_reach: "async_reach M {1} {2, 3} [] demo_two"
proof -
  have b: "async_reach M {} {} [] demo_boot" unfolding demo_boot_def by (rule async_reach.boot) simp_all
  have q: "async_reach M {1} {} [] demo_queue" using reach_gpe_queue [OF b _ demo_queue_created] by simp
  have o: "async_reach M {1} {2} [] demo_one" using reach_gpe_request [OF q _ _ demo_one_created] by simp
  show ?thesis using reach_gpe_request [OF o _ _ demo_two_created] by (simp add: insert_commute)
qed


definition run_event :: "async_event \<Rightarrow> occ_async \<Rightarrow> occ_async" where
  "run_event ev s = (case handle_async (gpe_methods demo_callbacks) ev s of Some (Inr s') \<Rightarrow> s' | _ \<Rightarrow> s)"

lemma run_event_reach:
  assumes "async_reach (gpe_methods demo_callbacks) Qs Rs hist s" "enabled Qs Rs ev s"
  shows "async_reach (gpe_methods demo_callbacks) Qs Rs (hist @ accepted ev s) (run_event ev s)"
  using gpe.no_panic [OF assms] async_reach.event [OF assms] by (auto simp: run_event_def)

text \<open>
  Request 2 is sent to GPE0, which takes the message, and request 3 waits. The timer of request 2 fires:
  request 3 is sent in the same message. Then GPE0 answers what it took.
\<close>

definition demo_a :: occ_async where "demo_a = run_event (Schedule 2 Thread_Ctx) demo_two"
definition demo_b :: occ_async where "demo_b = run_event (Schedule 3 Thread_Ctx) demo_a"
definition demo_c :: occ_async where "demo_c = upd_gpe (\<lambda>g. g\<lparr>gpe_ipc := snd (ipc_take 0 4 (gpe_ipc g))\<rparr>) demo_b"
definition demo_d :: occ_async where "demo_d = run_event (Timer 2) demo_c"
definition demo_late :: occ_async where "demo_late = upd_gpe (\<lambda>g. g\<lparr>gpe_ipc := snd (ipc_send_rsp 0 1 IPC_RC_SUCCESS (gpe_ipc g))\<rparr>) demo_d"


text \<open>What the witnesses read of a state, computed at once.\<close>

definition demo_view :: "occ_async \<Rightarrow> (nat \<times> bool \<times> nat) \<times> nat list \<times> nat list \<times> bool \<times> bool \<times> bool \<times> nat \<times> nat" where
  "demo_view s = (let i = gpe_ipc (a_engine s); x = ipc_msgs i 1
     in ((q_current (a_queues s 1), 2 \<in> a_armed s, rq_callback (a_reqs s 2)), buffered 0 4 i, buffered 4 0 i,
         active_flag (func_id x), valid_flag (func_id x), response_flag (func_id x), resp_callback x, callback_arg x))"

lemma demo_a_view: "demo_view demo_a = ((2, True, 7), [1], [], True, True, False, 4, 1)"
  by code_simp

lemma demo_b_view: "demo_view demo_b = ((2, True, 7), [1], [], True, True, False, 4, 1)"
  by code_simp

lemma demo_late_view: "demo_view demo_late = ((3, False, 7), [1], [1], True, True, True, 4, 1)"
  by code_simp

lemmas demo_views = demo_a_view [unfolded demo_view_def Let_def prod.inject] demo_b_view [unfolded demo_view_def Let_def prod.inject]
  demo_late_view [unfolded demo_view_def Let_def prod.inject]

lemma demo_b_reach: "async_reach (gpe_methods demo_callbacks) {1} {2, 3} (accepted (Schedule 2 Thread_Ctx) demo_two @ accepted (Schedule 3 Thread_Ctx) demo_a) demo_b"
proof -
  have "async_reach (gpe_methods demo_callbacks) {1} {2, 3} ([] @ accepted (Schedule 2 Thread_Ctx) demo_two) demo_a"
    unfolding demo_a_def by (rule run_event_reach [OF demo_reach]) (simp add: enabled_def)
  then show ?thesis unfolding demo_b_def by (simp add: run_event_reach enabled_def)
qed

lemma demo_b_values:
  "ipc_cmd (gpe_queues (a_engine demo_b) (rq_queue (a_reqs demo_b 3))) = 1" "targeted_func_id (gpe_requests (a_engine demo_b) 3) = 0x401"
  "G_ipc_enabled (gpe_ipc (a_engine demo_b)) 4"
  by code_simp+

lemma demo_b_jobs:
  "rq_queue (a_reqs demo_b 2) = 1" "rq_queue (a_reqs demo_b 3) = 1" "rq_state (a_reqs demo_b 2) = ASYNC_REQUEST_STATE_RUNNING"
  "rq_state (a_reqs demo_b 3) = ASYNC_REQUEST_STATE_QUEUED" "fst (ssx_deque_pop_front (Sentinel 1) (a_heap demo_b)) = Request 3"
  by code_simp+

lemma demo_function: "target_id (of_word32 0x401) = 0" "valid_flag (of_word32 0x401)" "\<not> active_flag (of_word32 0x401)"
  by code_simp+

lemma demo_c_reach: "async_reach (gpe_methods demo_callbacks) {1} {2, 3} (accepted (Schedule 2 Thread_Ctx) demo_two @ accepted (Schedule 3 Thread_Ctx) demo_a) demo_c"
  unfolding demo_c_def by (rule async_reach.engine [OF demo_b_reach])

lemma demo_c_enabled: "enabled {1} {2, 3} (Timer 2) demo_c"
  using demo_views by (simp add: enabled_def demo_c_def)

lemma demo_late_reach: "\<exists>hist. async_reach (gpe_methods demo_callbacks) {1} {2, 3} hist demo_late"
  unfolding demo_late_def demo_d_def by (rule exI, rule async_reach.engine, rule run_event_reach [OF demo_c_reach demo_c_enabled])

section \<open>Requests\<close>



text \<open>
  C10: Every accepted request's callback runs exactly once. In any reachable state, for a request with a
  callback, the number of times it has been accepted is the number of times its callback has run, plus one
  while it is queued, running or waiting in the callback queue, whichever way it ends: completion, error,
  or timeout in the queue or on the engine.
\<close>

theorem callback_runs_once:
  assumes "async_reach (gpe_methods callbacks) Qs Rs hist s" "r \<in> Rs" "rq_callback (a_reqs s r) \<noteq> 0"
  shows "count_list hist r = count_list (a_called s) r + (if rq_state (a_reqs s r) \<in> pending_states then 1 else 0)"
  by (rule gpe.callback_count [OF assms])

theorem callback_runs_once_witness:
  "\<exists>hist. count_list hist (2 :: nat) = count_list (a_called demo_late) 2 + (if rq_state (a_reqs demo_late 2) \<in> pending_states then 1 else 0)"
proof -
  obtain hist where h: "async_reach (gpe_methods demo_callbacks) {1} {2, 3} hist demo_late" using demo_late_reach by blast
  show ?thesis by (rule exI, rule callback_runs_once [OF h]) (use demo_views in simp_all)
qed

text \<open>
  C11: An engine runs one job, and never rests while one waits. In any reachable state a request is running
  exactly when it is the current one of its queue; a request waits only in a queue that is in the running state
  and whose current request is one of the requests, running; and a timer is armed only for a request that has
  not ended. The error method of the GPEs always succeeds, so no queue is ever left in the error state.
\<close>

theorem one_job_per_engine:
  assumes "async_reach (gpe_methods callbacks) Qs Rs hist s" "r \<in> Rs"
  shows "(rq_state (a_reqs s r) = ASYNC_REQUEST_STATE_RUNNING \<longleftrightarrow> q_current (a_queues s (rq_queue (a_reqs s r))) = r) \<and>
    (rq_state (a_reqs s r) = ASYNC_REQUEST_STATE_QUEUED \<longrightarrow>
       q_state (a_queues s (rq_queue (a_reqs s r))) = ASYNC_QUEUE_STATE_RUNNING \<and>
       q_current (a_queues s (rq_queue (a_reqs s r))) \<in> Rs \<and> q_current (a_queues s (rq_queue (a_reqs s r))) \<noteq> 0 \<and>
       rq_state (a_reqs s (q_current (a_queues s (rq_queue (a_reqs s r))))) = ASYNC_REQUEST_STATE_RUNNING) \<and>
    (r \<in> a_armed s \<longrightarrow> rq_state (a_reqs s r) \<in> busy_states)"
  using gpe.one_job [OF assms] gpe_driver.waits_behind_running [OF assms] gpe.no_request_zero [OF assms(1)] by metis

theorem one_job_per_engine_witness:
  "rq_state (a_reqs demo_b 3) = ASYNC_REQUEST_STATE_QUEUED \<and> q_state (a_queues demo_b 1) = ASYNC_QUEUE_STATE_RUNNING \<and>
   rq_state (a_reqs demo_b 2) = ASYNC_REQUEST_STATE_RUNNING"
  using one_job_per_engine [OF demo_b_reach, of 3] one_job_per_engine [OF demo_b_reach, of 2] demo_b_jobs demo_views by simp

section \<open>Late answers\<close>

text \<open>
  C15: Any answer completes the current job. The response handler does not compare the answer with the
  request: whenever a response of the driver arrives for a queue that has a job, that job is no longer the
  current one and no longer running, even if the GPE has not yet taken its command. In the witness request
  2 times out while GPE0 works on it, and its answer ends request 3, whose command is still in GPE0's buffer.
\<close>

theorem any_answer_completes_current:
  assumes "async_reach (gpe_methods callbacks) Qs Rs hist s" "q \<in> Qs" "q_current (a_queues s q) = n" "n \<noteq> 0"
    and "buffered OCCHW_INST_ID_PPC sd (gpe_ipc (a_engine s)) = m # ms"
    and "response_flag (func_id (ipc_msgs (gpe_ipc (a_engine s)) m))" "resp_callback (ipc_msgs (gpe_ipc (a_engine s)) m) = gpe_async_handler_id"
      "callback_arg (ipc_msgs (gpe_ipc (a_engine s)) m) = q"
  shows "\<exists>s'. gpe_response (gpe_methods callbacks) sd s = Some (Inr s') \<and> q_current (a_queues s' q) \<noteq> n \<and>
    rq_state (a_reqs s' n) \<noteq> ASYNC_REQUEST_STATE_RUNNING"
proof -
  define i where "i = snd (ipc_take OCCHW_INST_ID_PPC sd (gpe_ipc (a_engine s)))"
  define s1 where "s1 = upd_gpe (\<lambda>g. g\<lparr>gpe_ipc := i\<rparr>) (s\<lparr>a_ctx := Critical_Ctx\<rparr>)"
  have "async_reach (gpe_methods callbacks) Qs Rs hist ((s\<lparr>a_ctx := Critical_Ctx\<rparr>)\<lparr>a_engine := a_engine s1\<rparr>)"
    by (rule async_reach.engine, rule async_reach.switch [OF assms(1)])
  then have r: "async_reach (gpe_methods callbacks) Qs Rs hist s1" by (simp add: s1_def)
  have c: "q_current (a_queues s1 q) = n" using assms(3) by (simp add: s1_def)
  have t: "ipc_take OCCHW_INST_ID_PPC sd (gpe_ipc (a_engine s)) = (m, i)"
    using ipc_take_buffers(1) [OF assms(5)] by (metis i_def prod.collapse)
  have "ipc_msgs i = ipc_msgs (gpe_ipc (a_engine s))" by (simp add: i_def)
  then have "gpe_response (gpe_methods callbacks) sd s = gpe_async_handler (gpe_methods callbacks) m q s1"
    using assms(6-8) by (simp add: gpe_response_def t s1_def)
  then show ?thesis
    using gpe.job_replaced [OF r assms(2) c assms(4)] states_apart(11) unfolding gpe_async_handler_def by (auto split: if_splits)
qed

theorem any_answer_completes_current_witness:
  "buffered 0 OCCHW_INST_ID_PPC (gpe_ipc (a_engine demo_late)) = [1] \<and> q_current (a_queues demo_late 1) = 3 \<and>
   (\<exists>s'. gpe_response (gpe_methods demo_callbacks) 0 demo_late = Some (Inr s') \<and> rq_state (a_reqs s' 3) \<noteq> ASYNC_REQUEST_STATE_RUNNING)"
  using any_answer_completes_current [of demo_callbacks "{1}" "{2, 3}" _ demo_late 1 3 0 1 "[]"] demo_late_reach demo_views
  by (auto simp: OCCHW_INST_ID_PPC_def gpe_async_handler_id_def)

text \<open>
  C16: After a timeout a message is sent again while it is in use. In any reachable state, let the timer of a
  running request fire while request n is the first to wait in its queue, whose message is active: sending a
  command refuses an active message, but the driver first initializes the message, which clears the flag.
  So the handler of the timer makes n the current request and puts the same message into the GPE's buffer once
  more, behind all that is there: behind its own first copy, when the GPE has not taken it yet, as in the
  witness. The 405's messages are enabled, n's function is valid and the buffer has room.
\<close>

theorem message_sent_while_active:
  fixes s :: occ_async and r n :: nat
  defines "i \<equiv> gpe_ipc (a_engine s)" and "q \<equiv> rq_queue (a_reqs s r)"
    and "m \<equiv> ipc_cmd (gpe_queues (a_engine s) (rq_queue (a_reqs s n)))"
    and "f \<equiv> of_word32 (targeted_func_id (gpe_requests (a_engine s) n))"
  assumes "async_reach (gpe_methods callbacks) Qs Rs hist s" "r \<in> a_armed s" "rq_state (a_reqs s r) = ASYNC_REQUEST_STATE_RUNNING"
    and "fst (ssx_deque_pop_front (Sentinel q) (a_heap s)) = Request n"
    and "G_ipc_enabled i OCCHW_INST_ID_PPC" "valid_flag (func_id (ipc_msgs i m))" "active_flag (func_id (ipc_msgs i m))"
    and "valid_flag f" "\<not> active_flag f" "unat (target_id f) \<le> OCCHW_INST_ID_MAX" "in_buffer (unat (target_id f)) OCCHW_INST_ID_PPC i < IPC_CBUF_SIZE"
  shows "fst (ipc_send_cmd OCCHW_INST_ID_PPC m i) = IPC_RC_MSG_ACTIVE \<and>
    (\<exists>s'. handle_async (gpe_methods callbacks) (Timer r) s = Some (Inr s') \<and> q_current (a_queues s' q) = n \<and>
       buffered (unat (target_id f)) OCCHW_INST_ID_PPC (gpe_ipc (a_engine s')) = buffered (unat (target_id f)) OCCHW_INST_ID_PPC i @ [m])"
proof -
  obtain u s' where u: "handle_async (gpe_methods callbacks) (Timer r) s = Some (Inr s')"
    "gpe_ipc (a_engine u) = gpe_ipc (a_engine s)" "gpe_queues (a_engine u) = gpe_queues (a_engine s)"
    "targeted_func_id (gpe_requests (a_engine u) n) = targeted_func_id (gpe_requests (a_engine s) n)" "rq_queue (a_reqs u n) = rq_queue (a_reqs s n)"
    "fst (gpe_run_method n u) = 0 \<Longrightarrow> a_engine s' = a_engine (snd (gpe_run_method n u)) \<and> q_current (a_queues s' (rq_queue (a_reqs s r))) = n"
    using timeout_runs_next [OF assms(5-7), of n] assms(8) unfolding q_def by blast
  have "fst (gpe_run_method n u) = 0"
    "buffered (unat (target_id f)) OCCHW_INST_ID_PPC (gpe_ipc (a_engine (snd (gpe_run_method n u)))) = buffered (unat (target_id f)) OCCHW_INST_ID_PPC i @ [m]"
    using run_sends [of u n] u(2-5) assms(9,12-15) by (simp_all add: i_def m_def f_def)
  moreover have "fst (ipc_send_cmd OCCHW_INST_ID_PPC m i) = IPC_RC_MSG_ACTIVE" using assms(9-11) by (simp add: ipc_send_cmd_def)
  ultimately show ?thesis using u(1,6) by (auto simp: q_def)
qed

theorem message_sent_while_active_witness:
  "buffered 0 OCCHW_INST_ID_PPC (gpe_ipc (a_engine demo_b)) = [1] \<and>
   (\<exists>s'. handle_async (gpe_methods demo_callbacks) (Timer 2) demo_b = Some (Inr s') \<and> q_current (a_queues s' 1) = 3 \<and>
      buffered 0 OCCHW_INST_ID_PPC (gpe_ipc (a_engine s')) = [1, 1])"
  using message_sent_while_active [OF demo_b_reach, of 2 3] demo_b_values demo_b_jobs demo_function demo_views length_buffered [of 0 4 "gpe_ipc (a_engine demo_b)"]
  by (simp add: OCCHW_INST_ID_PPC_def OCCHW_INST_ID_MAX_def IPC_CBUF_SIZE_def)

section \<open>A callback that is forgotten\<close>

text \<open>
  Between the two loops of the callback handler a critical interrupt completes request 2 and defers the rest.
  Then the end of the second loop clears the interrupt, and the request stays in the callback queue.
\<close>

definition demo_forgotten :: occ_async where
  "demo_forgotten = run_event Deferred (run_event (Complete 1 Critical_Ctx) (run_event Callback demo_b))"

theorem callback_wakeup_lost:
  "(\<exists>hist. async_reach (gpe_methods demo_callbacks) {1} {2, 3} hist demo_forgotten) \<and>
   rq_state (a_reqs demo_forgotten 2) = ASYNC_REQUEST_STATE_POSTPROCESSING \<and> \<not> a_ipi demo_forgotten \<and>
   fst (ssx_deque_pop_front G_async_callback_queue (a_heap demo_forgotten)) = Request 2"
proof -
  define c where "c = run_event Callback demo_b"
  have q: "q_current (a_queues c 1) \<noteq> 0" unfolding c_def by code_simp
  have "\<exists>hist. async_reach (gpe_methods demo_callbacks) {1} {2, 3} hist demo_forgotten"
    unfolding demo_forgotten_def c_def [symmetric]
    by (rule exI, (rule run_event_reach)+, unfold c_def, rule run_event_reach [OF demo_b_reach]) (use q in \<open>simp_all add: enabled_def c_def\<close>)
  moreover have "rq_state (a_reqs demo_forgotten 2) = ASYNC_REQUEST_STATE_POSTPROCESSING \<and> \<not> a_ipi demo_forgotten \<and>
     fst (ssx_deque_pop_front G_async_callback_queue (a_heap demo_forgotten)) = Request 2" by code_simp
  ultimately show ?thesis by blast
qed

end
